(* ===== verification/JS_Prelude.thy ===== *)
theory JS_Prelude
  imports Main "HOL-Library.AList" "HOL-Library.Char_ord" "HOL-Library.List_Lexorder"
begin

text \<open>
  Shared vocabulary of the development: the JavaScript exceptions the daemon throws and
  inspects, computations that may throw, keep the mutations made before the throw and
  emit outputs (\<open>comp\<close>), \<open>Map\<close> and \<open>Set\<close> in insertion order, and the string
  functions the code uses.
\<close>

section \<open>Exceptions\<close>

text \<open>
  One constructor per class of exception the code throws or tests with \<open>instanceof\<close> or
  \<open>code\<close> (\<open>LevelNotFound\<close> is the code \<open>LEVEL_NOT_FOUND\<close>); \<open>Error\<close> carries the message. \<open>External\<close> is an exception raised by a library
  or a remote call, with a tag chosen by the caller of the model.
\<close>

datatype js_error =
    Error string
  | TypeError
  | RangeError
  | AllProvidersFailedError
  | InconsistentLastChangedBlockHash
  | LevelNotFound
  | StompFrameException string
  | TimeoutError
  | ProcessExit
  | External string

section \<open>Computations: exceptions, state and outputs\<close>

type_synonym ('s, 'o, 'a) comp = "'s \<Rightarrow> (js_error + 'a) \<times> 's \<times> 'o list"

named_theorems comp_defs "definitions of the computation combinators"

definition ret :: "'a \<Rightarrow> ('s, 'o, 'a) comp" where
  [comp_defs]: "ret x = (\<lambda>s. (Inr x, s, []))"

definition raise :: "js_error \<Rightarrow> ('s, 'o, 'a) comp" where
  [comp_defs]: "raise e = (\<lambda>s. (Inl e, s, []))"

definition andThen :: "('s, 'o, 'a) comp \<Rightarrow> ('a \<Rightarrow> ('s, 'o, 'b) comp) \<Rightarrow> ('s, 'o, 'b) comp" where
  "andThen m f = (\<lambda>s. case m s of (r, s', out) \<Rightarrow>
     (case r of
        Inl e \<Rightarrow> (Inl e, s', out)
      | Inr x \<Rightarrow> (case f x s' of (r', s'', out') \<Rightarrow> (r', s'', out @ out'))))"

definition getS :: "('s, 'o, 's) comp" where
  [comp_defs]: "getS = (\<lambda>s. (Inr s, s, []))"

definition modifyS :: "('s \<Rightarrow> 's) \<Rightarrow> ('s, 'o, unit) comp" where
  [comp_defs]: "modifyS f = (\<lambda>s. (Inr (), f s, []))"

definition emit :: "'o list \<Rightarrow> ('s, 'o, unit) comp" where
  [comp_defs]: "emit os = (\<lambda>s. (Inr (), s, os))"

text \<open>A pure call that may throw, run inside a computation.\<close>

definition liftR :: "js_error + 'a \<Rightarrow> ('s, 'o, 'a) comp" where
  [comp_defs]: "liftR r = (\<lambda>s. (r, s, []))"

text \<open>\<open>try { m } catch (e) { h e }\<close>: the mutations and outputs of \<open>m\<close> stay.\<close>

definition catchE :: "('s, 'o, 'a) comp \<Rightarrow> (js_error \<Rightarrow> ('s, 'o, 'a) comp) \<Rightarrow> ('s, 'o, 'a) comp" where
  "catchE m h = (\<lambda>s. case m s of (r, s', out) \<Rightarrow>
     (case r of
        Inl e \<Rightarrow> (case h e s' of (r', s'', out') \<Rightarrow> (r', s'', out @ out'))
      | Inr x \<Rightarrow> (Inr x, s', out)))"

text \<open>\<open>try { m } finally { f }\<close> for a finaliser that does not throw.\<close>

definition finallyE :: "('s, 'o, 'a) comp \<Rightarrow> ('s \<Rightarrow> 's) \<Rightarrow> ('s, 'o, 'a) comp" where
  "finallyE m f = (\<lambda>s. case m s of (r, s', out) \<Rightarrow> (r, f s', out))"

text \<open>
  A computation on one component of a larger state, given by the component's selector and
  update.
\<close>

definition zoom :: "('t \<Rightarrow> 's) \<Rightarrow> ('s \<Rightarrow> 't \<Rightarrow> 't) \<Rightarrow> ('s, 'o, 'a) comp \<Rightarrow> ('t, 'o, 'a) comp" where
  "zoom sel upd m = (\<lambda>t. case m (sel t) of (r, s, out) \<Rightarrow> (r, upd s t, out))"

text \<open>\<open>for (const x of xs) await f(x)\<close>, collecting the results in order.\<close>

fun mapM :: "('x \<Rightarrow> ('s, 'o, 'a) comp) \<Rightarrow> 'x list \<Rightarrow> ('s, 'o, 'a list) comp" where
  "mapM f [] = ret []"
| "mapM f (x # xs) = andThen (f x) (\<lambda>y. andThen (mapM f xs) (\<lambda>ys. ret (y # ys)))"

text \<open>The same for pure calls that may throw: the first exception in order is the result.\<close>

fun traverse :: "('x \<Rightarrow> js_error + 'a) \<Rightarrow> 'x list \<Rightarrow> js_error + 'a list" where
  "traverse f [] = Inr []"
| "traverse f (x # xs) =
     (case f x of
        Inl e \<Rightarrow> Inl e
      | Inr y \<Rightarrow> (case traverse f xs of Inl e \<Rightarrow> Inl e | Inr ys \<Rightarrow> Inr (y # ys)))"

definition bindR :: "js_error + 'a \<Rightarrow> ('a \<Rightarrow> js_error + 'b) \<Rightarrow> js_error + 'b" where
  "bindR r f = (case r of Inl e \<Rightarrow> Inl e | Inr x \<Rightarrow> f x)"

lemma bindR_simps [simp]: "bindR (Inl e) f = Inl e" "bindR (Inr x) f = f x"
  by (simp_all add: bindR_def)

lemma bindR_Inr_iff: "bindR r f = Inr y \<longleftrightarrow> (\<exists>x. r = Inr x \<and> f x = Inr y)"
  by (cases r) simp_all

lemma traverse_append:
  "traverse f (xs @ ys) = bindR (traverse f xs) (\<lambda>as. bindR (traverse f ys) (\<lambda>bs. Inr (as @ bs)))"
  by (induction xs) (auto simp: bindR_def split: sum.splits)

lemma traverse_Inr_iff:
  "traverse f xs = Inr ys \<longleftrightarrow> list_all2 (\<lambda>x y. f x = Inr y) xs ys"
proof (induction xs arbitrary: ys)
  case Nil
  then show ?case by auto
next
  case (Cons x xs)
  show ?case
    by (cases ys; cases "f x"; cases "traverse f xs") (auto simp: Cons.IH [symmetric])
qed

lemma find_SomeD: "find P xs = Some x \<Longrightarrow> x \<in> set xs \<and> P x"
  by (induction xs) (auto split: if_split_asm)

lemma list_all2_left: "list_all2 P xs ys \<Longrightarrow> x \<in> set xs \<Longrightarrow> \<exists>y\<in>set ys. P x y"
  by (induction rule: list_all2_induct) auto

lemma list_all2_right: "list_all2 P xs ys \<Longrightarrow> y \<in> set ys \<Longrightarrow> \<exists>x\<in>set xs. P x y"
  by (induction rule: list_all2_induct) auto

lemma traverse_total: "(\<And>x. x \<in> set xs \<Longrightarrow> f x = Inr (g x)) \<Longrightarrow> traverse f xs = Inr (map g xs)"
  by (induction xs) auto

lemma traverse_concat:
  "traverse f (concat xss) = Inr ys \<Longrightarrow>
   ys = concat (map (\<lambda>xs. case traverse f xs of Inl e \<Rightarrow> [] | Inr zs \<Rightarrow> zs) xss)"
  by (induction xss arbitrary: ys) (auto simp: traverse_append bindR_Inr_iff)

lemma traverse_cong [fundef_cong]:
  "xs = ys \<Longrightarrow> (\<And>x. x \<in> set ys \<Longrightarrow> f x = g x) \<Longrightarrow> traverse f xs = traverse g ys"
  by (induction ys arbitrary: xs) (auto split: sum.splits)

subsection \<open>Running a sequence\<close>

lemma andThen_apply:
  "andThen m f s = (case m s of
      (Inl e, s', out) \<Rightarrow> (Inl e, s', out)
    | (Inr x, s', out) \<Rightarrow> (case f x s' of (r', s'', out') \<Rightarrow> (r', s'', out @ out')))"
  by (simp add: andThen_def split: prod.splits sum.splits)

lemma andThen_ok:
  "andThen m f s = (Inr y, t, out) \<longleftrightarrow>
    (\<exists>x s' o1 o2. m s = (Inr x, s', o1) \<and> f x s' = (Inr y, t, o2) \<and> out = o1 @ o2)"
  by (auto simp: andThen_def split: prod.splits sum.splits)

lemma andThen_err:
  "andThen m f s = (Inl e, t, out) \<longleftrightarrow>
    (m s = (Inl e, t, out) \<or>
     (\<exists>x s' o1 o2. m s = (Inr x, s', o1) \<and> f x s' = (Inl e, t, o2) \<and> out = o1 @ o2))"
  by (auto simp: andThen_def split: prod.splits sum.splits)

lemma andThen_simps [simp]:
  "andThen (ret x) f = f x"
  "andThen (raise e) f = raise e"
  "andThen (liftR (Inl e)) f = raise e"
  "andThen (liftR (Inr x)) f = f x"
  by (auto simp: andThen_def comp_defs fun_eq_iff split: prod.splits)

lemma andThen_getS [simp]: "andThen getS f s = f s s"
  by (simp add: andThen_def getS_def split: prod.splits)

lemma andThen_modifyS [simp]: "andThen (modifyS g) f s = f () (g s)"
  by (simp add: andThen_def modifyS_def split: prod.splits)

lemma comp_apply [simp]:
  "ret x s = (Inr x, s, [])"
  "raise e s = (Inl e, s, [])"
  "modifyS g s = (Inr (), g s, [])"
  "emit os s = (Inr (), s, os)"
  "liftR r s = (r, s, [])"
  "getS s = (Inr s, s, [])"
  by (simp_all add: comp_defs)

lemma andThen_emit [simp]:
  "andThen (emit os) f s = (case f () s of (r, t, out) \<Rightarrow> (r, t, os @ out))"
  by (simp add: andThen_def)

lemma ret_eta [simp]:
  "(\<lambda>s. (Inr x, s, [])) = ret x" "(\<lambda>s. (Inl e, s, [])) = raise e" "(\<lambda>s. (r, s, [])) = liftR r"
  "liftR (Inr x) = ret x" "liftR (Inl e) = raise e"
  by (simp_all add: comp_defs)

lemma andThen_step: "m s = (Inr x, s', []) \<Longrightarrow> andThen m f s = f x s'"
  by (simp add: andThen_apply split: prod.splits)

lemma andThen_run:
  assumes "m s = (Inr x, s1, o1)" "f x s1 = (r, t, o2)"
  shows "andThen m f s = (r, t, o1 @ o2)"
  using assms by (simp add: andThen_apply)

lemma andThen_fail: "m s = (Inl e, s', out) \<Longrightarrow> andThen m f s = (Inl e, s', out)"
  by (simp add: andThen_apply)

lemma andThen_assoc: "andThen (andThen m f) g = andThen m (\<lambda>x. andThen (f x) g)"
  by (auto simp: andThen_def fun_eq_iff split: prod.splits sum.splits)

text \<open>A sequence of calls that all succeed, each with a known effect on the state.\<close>

lemma mapM_total:
  "\<forall>x\<in>set xs. \<forall>s. m x s = (Inr (g x), h x s, []) \<Longrightarrow>
   mapM m xs s = (Inr (map g xs), fold h xs s, [])"
  by (induction xs arbitrary: s) (simp_all add: andThen_apply)

lemma fold_keeps: "(\<And>x s. x \<in> set xs \<Longrightarrow> f (h x s) = f s) \<Longrightarrow> f (fold h xs s) = f s"
  by (induction xs arbitrary: s) simp_all

lemma zoom_eq: "m (sel s) = (r, t, out) \<Longrightarrow> zoom sel upd m s = (r, upd t s, out)"
  by (simp add: zoom_def)

text \<open>A call of a service that has no outputs of its own.\<close>

definition quiet :: "('s, unit, 'a) comp \<Rightarrow> ('s, 'o, 'a) comp" where
  "quiet m = (\<lambda>s. case m s of (r, t, out) \<Rightarrow> (r, t, []))"

text \<open>
  \<open>Promise.all\<close> over a list of calls that are not cancelled: all of them run, in order; the result
  is the first exception, if there is one.
\<close>

fun mapAll :: "('x \<Rightarrow> ('s, 'o, 'a) comp) \<Rightarrow> 'x list \<Rightarrow> ('s, 'o, 'a list) comp" where
  "mapAll f [] = ret []"
| "mapAll f (x # xs) =
     (\<lambda>s. case f x s of (r, t, out) \<Rightarrow>
        (case mapAll f xs t of (rs, u, out') \<Rightarrow>
          (bindR r (\<lambda>y. bindR rs (\<lambda>ys. Inr (y # ys))), u, out @ out')))"

section \<open>Triples\<close>

text \<open>
  \<open>triple P m Q E A\<close>: from a state with \<open>P\<close>, the computation ends in a result and a state with \<open>Q\<close> or in
  an exception and a state with \<open>E\<close>, and each of its outputs has \<open>A\<close>.
\<close>

definition triple ::
  "('s \<Rightarrow> bool) \<Rightarrow> ('s, 'o, 'a) comp \<Rightarrow> ('a \<Rightarrow> 's \<Rightarrow> bool) \<Rightarrow> ('s \<Rightarrow> bool) \<Rightarrow> ('o \<Rightarrow> bool) \<Rightarrow> bool" where
  "triple P m Q E A \<longleftrightarrow>
     (\<forall>s. P s \<longrightarrow> (case m s of (r, t, out) \<Rightarrow>
        (case r of Inr x \<Rightarrow> Q x t | Inl e \<Rightarrow> E t) \<and> (\<forall>a\<in>set out. A a)))"

named_theorems triple_rules

lemma triple_iff:
  "triple P m Q E A \<longleftrightarrow>
    (\<forall>s r t out. P s \<longrightarrow> m s = (r, t, out) \<longrightarrow>
      (\<forall>x. r = Inr x \<longrightarrow> Q x t) \<and> (\<forall>e. r = Inl e \<longrightarrow> E t) \<and> (\<forall>a\<in>set out. A a))"
proof -
  have "(case m s of (r, t, out) \<Rightarrow> (case r of Inr x \<Rightarrow> Q x t | Inl e \<Rightarrow> E t) \<and> (\<forall>a\<in>set out. A a)) \<longleftrightarrow>
      (\<forall>r t out. m s = (r, t, out) \<longrightarrow>
        (\<forall>x. r = Inr x \<longrightarrow> Q x t) \<and> (\<forall>e. r = Inl e \<longrightarrow> E t) \<and> (\<forall>a\<in>set out. A a))" for s
    by (cases "m s") (simp split: sum.split)
  then show ?thesis unfolding triple_def by simp
qed

lemma tripleI:
  assumes "\<And>s r t out. P s \<Longrightarrow> m s = (r, t, out) \<Longrightarrow>
    (\<forall>x. r = Inr x \<longrightarrow> Q x t) \<and> (\<forall>e. r = Inl e \<longrightarrow> E t) \<and> (\<forall>a\<in>set out. A a)"
  shows "triple P m Q E A"
  unfolding triple_iff using assms by blast

lemma tripleD:
  assumes "triple P m Q E A" "P s" "m s = (r, t, out)"
  shows "r = Inr x \<Longrightarrow> Q x t" and "r = Inl e \<Longrightarrow> E t" and "a \<in> set out \<Longrightarrow> A a"
  using assms unfolding triple_iff by blast+

lemma triple_weaken:
  assumes "triple P m Q E A" and "\<And>s. P' s \<Longrightarrow> P s" and "\<And>x s. Q x s \<Longrightarrow> Q' x s" and "\<And>s. E s \<Longrightarrow> E' s"
    and "\<And>a. A a \<Longrightarrow> A' a"
  shows "triple P' m Q' E' A'"
  using assms unfolding triple_iff by blast

lemma triple_ret [triple_rules]: "(\<And>s. P s \<Longrightarrow> Q x s) \<Longrightarrow> triple P (ret x) Q E A"
  by (rule tripleI) auto

lemma triple_raise [triple_rules]: "(\<And>s. P s \<Longrightarrow> E s) \<Longrightarrow> triple P (raise e) Q E A"
  by (rule tripleI) auto

lemma triple_liftR [triple_rules]:
  "(\<And>x s. r = Inr x \<Longrightarrow> P s \<Longrightarrow> Q x s) \<Longrightarrow> (\<And>s. P s \<Longrightarrow> E s) \<Longrightarrow> triple P (liftR r) Q E A"
  by (rule tripleI) auto

lemma triple_modifyS [triple_rules]: "(\<And>s. P s \<Longrightarrow> Q () (f s)) \<Longrightarrow> triple P (modifyS f) Q E A"
  by (rule tripleI) auto

lemma triple_emit [triple_rules]:
  "(\<And>s. P s \<Longrightarrow> Q () s) \<Longrightarrow> (\<And>a. a \<in> set as \<Longrightarrow> A a) \<Longrightarrow> triple P (emit as) Q E A"
  by (rule tripleI) auto

lemma triple_andThen:
  assumes "triple P m R E A" and "\<And>x. triple (R x) (f x) Q E A"
  shows "triple P (andThen m f) Q E A"
proof (rule tripleI)
  fix s r t out assume s: "P s" and run: "andThen m f s = (r, t, out)"
  obtain r1 t1 o1 where m: "m s = (r1, t1, o1)" by (metis prod_cases3)
  show "(\<forall>x. r = Inr x \<longrightarrow> Q x t) \<and> (\<forall>e. r = Inl e \<longrightarrow> E t) \<and> (\<forall>a\<in>set out. A a)"
  proof (cases r1)
    case (Inl e)
    with run m have "r = Inl e" "t = t1" "out = o1" by (simp_all add: andThen_apply)
    with tripleD(2,3) [OF assms(1) s m] Inl show ?thesis by simp
  next
    case (Inr x)
    obtain r2 t2 o2 where f: "f x t1 = (r2, t2, o2)" by (metis prod_cases3)
    from m Inr f run have res: "r = r2" "t = t2" "out = o1 @ o2" by (simp_all add: andThen_apply)
    from tripleD(1) [OF assms(1) s m Inr] have "R x t1" .
    note d = tripleD [OF assms(2) this f]
    from d(1,2) have "(\<forall>x. r = Inr x \<longrightarrow> Q x t) \<and> (\<forall>e. r = Inl e \<longrightarrow> E t)" unfolding res by blast
    moreover have "\<forall>a\<in>set out. A a" using d(3) tripleD(3) [OF assms(1) s m] unfolding res by auto
    ultimately show ?thesis by blast
  qed
qed

lemma triple_getS [triple_rules]:
  "(\<And>s0. P s0 \<Longrightarrow> triple (\<lambda>s. s = s0) (f s0) Q E A) \<Longrightarrow> triple P (andThen getS f) Q E A"
  unfolding triple_iff by simp

lemma triple_catchE:
  assumes "triple P m Q R A" and "\<And>e. triple R (h e) Q E A"
  shows "triple P (catchE m h) Q E A"
proof (rule tripleI)
  fix s r t out assume s: "P s" and run: "catchE m h s = (r, t, out)"
  obtain r1 t1 o1 where m: "m s = (r1, t1, o1)" by (metis prod_cases3)
  show "(\<forall>x. r = Inr x \<longrightarrow> Q x t) \<and> (\<forall>e. r = Inl e \<longrightarrow> E t) \<and> (\<forall>a\<in>set out. A a)"
  proof (cases r1)
    case (Inr x)
    with run m have "r = Inr x" "t = t1" "out = o1" by (simp_all add: catchE_def)
    with tripleD(1,3) [OF assms(1) s m] Inr show ?thesis by simp
  next
    case (Inl e)
    obtain r2 t2 o2 where h: "h e t1 = (r2, t2, o2)" by (metis prod_cases3)
    from m Inl h run have res: "r = r2" "t = t2" "out = o1 @ o2" by (simp_all add: catchE_def)
    from tripleD(2) [OF assms(1) s m Inl] have "R t1" .
    note d = tripleD [OF assms(2) this h]
    from d(1,2) have "(\<forall>x. r = Inr x \<longrightarrow> Q x t) \<and> (\<forall>e. r = Inl e \<longrightarrow> E t)" unfolding res by blast
    moreover have "\<forall>a\<in>set out. A a" using d(3) tripleD(3) [OF assms(1) s m] unfolding res by auto
    ultimately show ?thesis by blast
  qed
qed

lemma triple_zoom:
  assumes "\<And>s. P s \<Longrightarrow> triple (\<lambda>t. t = sel s) m (\<lambda>x t. Q x (upd t s)) (\<lambda>t. E (upd t s)) A"
  shows "triple P (zoom sel upd m) Q E A"
proof (rule tripleI)
  fix s r t out assume s: "P s" and run: "zoom sel upd m s = (r, t, out)"
  obtain r1 t1 o1 where m: "m (sel s) = (r1, t1, o1)" by (metis prod_cases3)
  from zoom_eq [of m sel, OF m] run have "r = r1" "t = upd t1 s" "out = o1" by simp_all
  with tripleD [OF assms [OF s] refl m] show "(\<forall>x. r = Inr x \<longrightarrow> Q x t) \<and> (\<forall>e. r = Inl e \<longrightarrow> E t) \<and> (\<forall>a\<in>set out. A a)"
    by blast
qed

lemma triple_quiet:
  fixes A :: "'o \<Rightarrow> bool"
  assumes "triple P m Q E (\<lambda>_. True)"
  shows "triple P (quiet m) Q E A"
proof (rule tripleI)
  fix s r t and out :: "'o list" assume s: "P s" and run: "quiet m s = (r, t, out)"
  obtain r1 t1 o1 where m: "m s = (r1, t1, o1)" by (metis prod_cases3)
  with run have "r = r1" "t = t1" "out = []" by (simp_all add: quiet_def)
  with tripleD [OF assms s m] show "(\<forall>x. r = Inr x \<longrightarrow> Q x t) \<and> (\<forall>e. r = Inl e \<longrightarrow> E t) \<and> (\<forall>a\<in>set out. A a)" by simp
qed

text \<open>Every call of the list runs from the invariant; the results are related to the arguments.\<close>

lemma triple_mapAll:
  assumes "\<And>x. x \<in> set xs \<Longrightarrow> triple I (f x) (\<lambda>y s. I s \<and> R x y) I A"
  shows "triple I (mapAll f xs) (\<lambda>ys s. I s \<and> list_all2 R xs ys) I A"
  using assms
proof (induction xs)
  case Nil
  then show ?case by (simp add: triple_ret)
next
  case (Cons x xs)
  then have IH: "triple I (mapAll f xs) (\<lambda>ys s. I s \<and> list_all2 R xs ys) I A" by simp
  have 1: "triple I (f x) (\<lambda>y s. I s \<and> R x y) I A" using Cons.prems by simp
  show ?case
  proof (rule tripleI)
    fix s r t out
    assume s: "I s" and run: "mapAll f (x # xs) s = (r, t, out)"
    obtain r1 t1 o1 where m1: "f x s = (r1, t1, o1)" by (metis prod_cases3)
    obtain r2 t2 o2 where m2: "mapAll f xs t1 = (r2, t2, o2)" by (metis prod_cases3)
    from tripleD(1,2) [OF 1 s m1] have t1: "I t1" by (cases r1) auto
    from run m1 m2 have res: "r = bindR r1 (\<lambda>y. bindR r2 (\<lambda>ys. Inr (y # ys)))" "t = t2" "out = o1 @ o2" by simp_all
    show "(\<forall>ys. r = Inr ys \<longrightarrow> I t \<and> list_all2 R (x # xs) ys) \<and> (\<forall>e. r = Inl e \<longrightarrow> I t) \<and> (\<forall>a\<in>set out. A a)"
      using tripleD [OF 1 s m1] tripleD [OF IH t1 m2] unfolding res
      by (cases r1; cases r2) auto
  qed
qed

text \<open>The next call may rely on a fact about the result of this one.\<close>

lemma triple_fact:
  assumes "triple P m (\<lambda>x s. R s \<and> F x) E A" and "\<And>x. F x \<Longrightarrow> triple R (f x) Q E A"
  shows "triple P (andThen m f) Q E A"
proof (rule triple_andThen [OF assms(1)])
  fix x show "triple (\<lambda>s. R s \<and> F x) (f x) Q E A"
    by (cases "F x") (auto simp: triple_iff [where P = "\<lambda>s. False"] intro: triple_weaken [OF assms(2)])
qed

lemma triple_liftR_then:
  assumes "\<And>x. r = Inr x \<Longrightarrow> triple P (f x) Q E A" and "\<And>s. P s \<Longrightarrow> E s"
  shows "triple P (andThen (liftR r) f) Q E A"
  by (rule triple_fact [where F = "\<lambda>x. r = Inr x" and R = P]) (auto intro: triple_liftR assms)

lemma triple_pre: "triple P m Q E A \<Longrightarrow> (\<And>s. P' s \<Longrightarrow> P s) \<Longrightarrow> triple P' m Q E A"
  by (rule triple_weaken)

lemma triple_error: "triple P m Q E A \<Longrightarrow> (\<And>s. E s \<Longrightarrow> E' s) \<Longrightarrow> triple P m Q E' A"
  by (rule triple_weaken)

lemma triple_if:
  "(b \<Longrightarrow> triple P m Q E A) \<Longrightarrow> (\<not> b \<Longrightarrow> triple P n Q E A) \<Longrightarrow> triple P (if b then m else n) Q E A"
  by simp

lemma triple_ex: "(\<And>x. triple (P x) m Q E A) \<Longrightarrow> triple (\<lambda>s. \<exists>x. P x s) m Q E A"
  unfolding triple_iff by blast

lemma triple_pure: "(F \<Longrightarrow> triple P m Q E A) \<Longrightarrow> triple (\<lambda>s. P s \<and> F) m Q E A"
  unfolding triple_iff by blast

text \<open>An invariant that a computation keeps, whether it returns or throws.\<close>

abbreviation keeps :: "('s \<Rightarrow> bool) \<Rightarrow> ('s, 'o, 'a) comp \<Rightarrow> ('o \<Rightarrow> bool) \<Rightarrow> bool" where
  "keeps I m A \<equiv> triple I m (\<lambda>_. I) I A"

named_theorems keep_rules

lemma keeps_simple [keep_rules]:
  "keeps I (ret x) A" "keeps I (raise e) A" "keeps I (liftR r) A"
  by (intro triple_rules; assumption)+

lemma keeps_modifyS [keep_rules]: "(\<And>s. I s \<Longrightarrow> I (f s)) \<Longrightarrow> keeps I (modifyS f) A"
  by (rule triple_modifyS)

lemma keeps_emit [keep_rules]: "(\<And>a. a \<in> set as \<Longrightarrow> A a) \<Longrightarrow> keeps I (emit as) A"
  by (rule triple_emit)

lemma keeps_andThen [keep_rules]: "keeps I m A \<Longrightarrow> (\<And>x. keeps I (f x) A) \<Longrightarrow> keeps I (andThen m f) A"
  by (rule triple_andThen)

lemma keeps_getS [keep_rules]:
  assumes "\<And>s. keeps I (f s) A"
  shows "keeps I (andThen getS f) A"
proof (rule triple_getS)
  fix s assume "I s"
  then show "triple (\<lambda>t. t = s) (f s) (\<lambda>_. I) I A" by (intro triple_weaken [OF assms]) simp_all
qed

lemma keeps_branches [keep_rules]:
  "keeps I m A \<Longrightarrow> keeps I n A \<Longrightarrow> keeps I (if b then m else n) A"
  "keeps I m A \<Longrightarrow> (\<And>x. keeps I (f x) A) \<Longrightarrow> keeps I (case o' of None \<Rightarrow> m | Some x \<Rightarrow> f x) A"
  "(\<And>x y. keeps I (g x y) A) \<Longrightarrow> keeps I (case p of (x, y) \<Rightarrow> g x y) A"
  by (auto split: option.split prod.split)

lemma keeps_catchE [keep_rules]: "keeps I m A \<Longrightarrow> (\<And>e. keeps I (h e) A) \<Longrightarrow> keeps I (catchE m h) A"
  by (rule triple_catchE)

lemma keeps_finallyE [keep_rules]:
  assumes "keeps I m A" and "\<And>s. I s \<Longrightarrow> I (f s)"
  shows "keeps I (finallyE m f) A"
proof (rule tripleI)
  fix s r t out assume s: "I s" and run: "finallyE m f s = (r, t, out)"
  obtain r1 t1 o1 where m: "m s = (r1, t1, o1)" by (metis prod_cases3)
  with run have res: "r = r1" "t = f t1" "out = o1" by (simp_all add: finallyE_def)
  have "I t1" using tripleD(1,2) [OF assms(1) s m] by (cases r1) blast+
  with assms(2) tripleD(3) [OF assms(1) s m]
  show "(\<forall>x. r = Inr x \<longrightarrow> I t) \<and> (\<forall>e. r = Inl e \<longrightarrow> I t) \<and> (\<forall>a\<in>set out. A a)" unfolding res by blast
qed

lemma keeps_zoom:
  assumes "keeps J m A" and "\<And>s. I s \<Longrightarrow> J (sel s)" and "\<And>s t. I s \<Longrightarrow> J t \<Longrightarrow> I (upd t s)"
  shows "keeps I (zoom sel upd m) A"
  by (rule triple_zoom, rule triple_weaken [OF assms(1)]) (use assms(2,3) in auto)

lemma keeps_quiet: "keeps I m (\<lambda>_. True) \<Longrightarrow> keeps I (quiet m) A"
  by (rule triple_quiet)

lemma keeps_mapAll [keep_rules]: "(\<And>x. keeps I (f x) A) \<Longrightarrow> keeps I (mapAll f xs) A"
  by (rule triple_weaken [OF triple_mapAll [where R = "\<lambda>_ _. True"]]) auto

lemma keeps_outputs: "keeps I m A \<Longrightarrow> (\<And>a. A a \<Longrightarrow> B a) \<Longrightarrow> keeps I m B"
  by (rule triple_weaken)

section \<open>Map and Set in insertion order\<close>

text \<open>
  A JavaScript \<open>Map\<close> is an association list: \<open>map.set\<close> is \<open>AList.update\<close> (the entry is
  overwritten in place, a new key goes to the end), \<open>map.get\<close> is \<open>map_of\<close> and
  \<open>map.entries()\<close> is the list itself. \<open>[...new Set(xs)]\<close> keeps first occurrences.
\<close>

fun uniq :: "'a list \<Rightarrow> 'a list" where
  "uniq [] = []"
| "uniq (x # xs) = x # uniq (filter (\<lambda>y. y \<noteq> x) xs)"

lemma set_uniq [simp]: "set (uniq xs) = set xs"
  by (induction xs rule: uniq.induct) auto

lemma distinct_uniq [simp]: "distinct (uniq xs)"
  by (induction xs rule: uniq.induct) auto

lemma uniq_Nil_iff [simp]: "uniq xs = [] \<longleftrightarrow> xs = []"
  by (cases xs) auto

lemma length_uniq: "length (uniq xs) = card (set xs)"
  using distinct_card [OF distinct_uniq, of xs] by simp

lemma update_map_of: "map_of (AList.update k v m) = (map_of m)(k \<mapsto> v)"
  by (simp add: update_conv')

lemma update_keys: "fst ` set (AList.update k v m) = insert k (fst ` set m)"
  by (simp add: dom_update)

text \<open>\<open>findIndex\<close>: \<open>-1\<close> when no element matches.\<close>

fun findIndex_from :: "int \<Rightarrow> ('a \<Rightarrow> bool) \<Rightarrow> 'a list \<Rightarrow> int" where
  "findIndex_from i p [] = -1"
| "findIndex_from i p (x # xs) = (if p x then i else findIndex_from (i + 1) p xs)"

definition findIndex :: "('a \<Rightarrow> bool) \<Rightarrow> 'a list \<Rightarrow> int" where
  "findIndex p xs = findIndex_from 0 p xs"

lemma findIndex_from_cases:
  "(findIndex_from i p xs = -1 \<and> (\<forall>x\<in>set xs. \<not> p x)) \<or>
   (\<exists>k < length xs. findIndex_from i p xs = i + int k \<and> p (xs ! k) \<and> (\<forall>j<k. \<not> p (xs ! j)))"
proof (induction xs arbitrary: i)
  case Nil
  then show ?case by simp
next
  case (Cons x xs)
  show ?case
  proof (cases "p x")
    case True
    then show ?thesis by auto
  next
    case False
    from Cons.IH [of "i + 1"] show ?thesis
    proof
      assume "findIndex_from (i + 1) p xs = -1 \<and> (\<forall>x\<in>set xs. \<not> p x)"
      with False show ?thesis by simp
    next
      assume "\<exists>k<length xs. findIndex_from (i + 1) p xs = i + 1 + int k \<and> p (xs ! k)
        \<and> (\<forall>j<k. \<not> p (xs ! j))"
      then obtain k where k: "k < length xs" "findIndex_from (i + 1) p xs = i + 1 + int k"
        "p (xs ! k)" "\<forall>j<k. \<not> p (xs ! j)" by blast
      have "\<forall>j<Suc k. \<not> p ((x # xs) ! j)"
        using False k(4) by (auto simp: less_Suc_eq_0_disj)
      with False k show ?thesis by (intro disjI2 exI [of _ "Suc k"]) auto
    qed
  qed
qed

lemma findIndex_not_found: "findIndex p xs = -1 \<longleftrightarrow> (\<forall>x\<in>set xs. \<not> p x)"
  using findIndex_from_cases [of 0 p xs] by (auto simp: findIndex_def dest: nth_mem)

lemma findIndex_found:
  "findIndex p xs \<noteq> -1 \<Longrightarrow> \<exists>k < length xs. findIndex p xs = int k \<and> p (xs ! k)"
  using findIndex_from_cases [of 0 p xs] by (auto simp: findIndex_def)

section \<open>Strings\<close>

definition lower_char :: "char \<Rightarrow> char" where
  "lower_char c = (if CHR ''A'' \<le> c \<and> c \<le> CHR ''Z'' then char_of (of_char c + (32::nat)) else c)"

definition toLowerCase :: "string \<Rightarrow> string" where
  "toLowerCase s = map lower_char s"

fun digit_char :: "nat \<Rightarrow> char" where
  "digit_char n = char_of (48 + n)"

text \<open>\<open>String(n)\<close> and \<open>`\${n}`\<close> of a non-negative integer.\<close>

fun dec_string :: "nat \<Rightarrow> string" where
  "dec_string n = (if n < 10 then [digit_char n] else dec_string (n div 10) @ [digit_char (n mod 10)])"

declare dec_string.simps [simp del]

definition int_string :: "int \<Rightarrow> string" where
  "int_string i = (if i < 0 then CHR ''-'' # dec_string (nat (- i)) else dec_string (nat i))"

definition is_digit :: "char \<Rightarrow> bool" where
  "is_digit c \<longleftrightarrow> 48 \<le> (of_char c :: nat) \<and> (of_char c :: nat) < 58"

lemma digit_char_is_digit: "n < 10 \<Longrightarrow> is_digit (digit_char n)"
  by (simp add: is_digit_def)

lemma dec_string_digits: "c \<in> set (dec_string n) \<Longrightarrow> is_digit c"
proof (induction n rule: dec_string.induct)
  case (1 n)
  show ?case
  proof (cases "n < 10")
    case True
    with 1 show ?thesis by (subst (asm) (2) dec_string.simps) (simp add: is_digit_def)
  next
    case False
    with 1 show ?thesis
      by (subst (asm) (2) dec_string.simps) (auto simp: digit_char_is_digit simp del: digit_char.simps)
  qed
qed

lemma dec_string_nonempty [simp]: "dec_string n \<noteq> []"
  by (subst dec_string.simps) simp

fun digits_value :: "string \<Rightarrow> nat" where
  "digits_value [] = 0"
| "digits_value (c # cs) = (of_char c - 48) * 10 ^ length cs + digits_value cs"

lemma digits_value_snoc: "digits_value (cs @ [c]) = digits_value cs * 10 + (of_char c - 48)"
  by (induction cs) (simp_all add: algebra_simps)

lemma digits_value_dec_string: "digits_value (dec_string n) = n"
proof (induction n rule: dec_string.induct)
  case (1 n)
  show ?case
  proof (cases "n < 10")
    case True
    then show ?thesis by (subst dec_string.simps) simp
  next
    case False
    with 1 have "digits_value (dec_string (n div 10)) = n div 10" by simp
    with False show ?thesis by (subst dec_string.simps) (simp add: digits_value_snoc)
  qed
qed

lemma dec_string_inj: "dec_string m = dec_string n \<longleftrightarrow> m = n"
  by (metis digits_value_dec_string)

end
