(* ===== verification/Range_Utils.thy ===== *)
theory Range_Utils
  imports JS_Prelude
begin

text \<open>
  The list helpers of \<open>src/src/utils\<close>: \<open>range\<close> (\<open>rangeOf\<close> here; two generators, chosen by the sign of
  \<open>start - end\<close>), \<open>rangePromise\<close> (a callback applied to a range in batches) and
  \<open>splitPubKeysArray\<close>.
\<close>

section \<open>range\<close>

definition positiveIterator :: "int \<Rightarrow> int \<Rightarrow> int list" where
  "positiveIterator start end' = [start .. end' - 1]"

definition negativeIterator :: "int \<Rightarrow> int \<Rightarrow> int list" where
  "negativeIterator start end' = rev [end' + 1 .. start]"

definition rangeOf :: "int \<Rightarrow> int \<Rightarrow> int list" where
  "rangeOf start end' = (if start - end' < 0 then positiveIterator start end'
                       else negativeIterator start end')"

lemma rangeOf_up: "start \<le> end' \<Longrightarrow> rangeOf start end' = [start .. end' - 1]"
  by (auto simp: rangeOf_def positiveIterator_def negativeIterator_def)

lemma length_rangeOf: "length (rangeOf a b) = nat \<bar>b - a\<bar>"
  by (auto simp: rangeOf_def positiveIterator_def negativeIterator_def)

lemma upto_split: "(a::int) \<le> b + 1 \<Longrightarrow> b \<le> c \<Longrightarrow> [a .. c] = [a .. b] @ [b + 1 .. c]"
  by (cases "b < c") (use upto_split1 [of a "b + 1" c] in auto)

section \<open>rangePromise\<close>

text \<open>
  One batch is \<open>Promise.all\<close> over its slots; a rejected batch ends the call. The
  callbacks the daemon passes only read, so a callback is a pure call that may throw.
\<close>

definition batch_slots :: "int \<Rightarrow> int \<Rightarrow> int \<Rightarrow> int \<Rightarrow> int list" where
  "batch_slots from to batchSize batch =
     (let batchSlotFrom = from + batch * batchSize;
          batchSlotTo = min (batchSlotFrom + batchSize) to
      in rangeOf batchSlotFrom batchSlotTo)"

function rangePromise_loop ::
  "(int \<Rightarrow> js_error + 'a) \<Rightarrow> int \<Rightarrow> int \<Rightarrow> int \<Rightarrow> int \<Rightarrow> int \<Rightarrow> 'a list \<Rightarrow> js_error + 'a list" where
  "rangePromise_loop callback from to batchSize batchTo batch result =
     (if batch < batchTo then
        (case traverse callback (batch_slots from to batchSize batch) of
           Inl e \<Rightarrow> Inl e
         | Inr batchResult \<Rightarrow>
             rangePromise_loop callback from to batchSize batchTo (batch + 1) (result @ batchResult))
      else Inr result)"
  by pat_completeness auto
termination
  by (relation "measure (\<lambda>(_, _, _, _, batchTo, batch, _). nat (batchTo - batch))") auto

declare rangePromise_loop.simps [simp del]

text \<open>\<open>Math.ceil(a / b)\<close> for a positive \<open>b\<close>.\<close>

definition ceil_div :: "int \<Rightarrow> int \<Rightarrow> int" where
  "ceil_div a b = (a + b - 1) div b"

definition rangePromise ::
  "(int \<Rightarrow> js_error + 'a) \<Rightarrow> int \<Rightarrow> int \<Rightarrow> int \<Rightarrow> js_error + 'a list" where
  "rangePromise callback from to batchSize =
     (if to < from then Inl (Error ''From should be less than to'')
      else if batchSize \<le> 0 then Inl (Error ''batchSize should be greater than 0'')
      else rangePromise_loop callback from to batchSize (ceil_div (to - from) batchSize) 0 [])"

lemma ceil_div_lower: "0 < b \<Longrightarrow> a \<le> ceil_div a b * b"
proof -
  assume b: "0 < b"
  have "a + b - 1 = (a + b - 1) div b * b + (a + b - 1) mod b" by simp
  moreover have "(a + b - 1) mod b < b" using b by simp
  ultimately show ?thesis unfolding ceil_div_def by linarith
qed

lemma ceil_div_upper: "0 < b \<Longrightarrow> n < ceil_div a b \<Longrightarrow> n * b < a"
proof -
  assume b: "0 < b" and n: "n < ceil_div a b"
  have "ceil_div a b * b \<le> a + b - 1"
    using b div_mult_mod_eq [of "a + b - 1" b] pos_mod_sign [OF b, of "a + b - 1"]
    unfolding ceil_div_def by linarith
  moreover have "(n + 1) * b \<le> ceil_div a b * b" using b n by (intro mult_right_mono) auto
  ultimately show ?thesis by (simp add: algebra_simps)
qed

text \<open>
  The loop from batch \<open>k\<close> does the work of one traversal of the slots that are left.
\<close>

lemma rangePromise_loop_eq:
  assumes "0 < batchSize" "0 \<le> batch" "from \<le> to"
  shows "rangePromise_loop cb from to batchSize (ceil_div (to - from) batchSize) batch result =
    bindR (traverse cb [min (from + batch * batchSize) to .. to - 1]) (\<lambda>ys. Inr (result @ ys))"
  using assms(2)
proof (induction "nat (ceil_div (to - from) batchSize - batch)" arbitrary: batch result)
  case 0
  then have "ceil_div (to - from) batchSize * batchSize \<le> batch * batchSize"
    using assms(1) by (intro mult_right_mono) auto
  with ceil_div_lower [OF assms(1), of "to - from"] have "to \<le> from + batch * batchSize" by simp
  then have "[min (from + batch * batchSize) to .. to - 1] = []" by simp
  moreover have "\<not> batch < ceil_div (to - from) batchSize" using 0 by simp
  ultimately show ?case
    unfolding rangePromise_loop.simps [of cb "from" to batchSize _ batch result] by simp
next
  case (Suc n)
  let ?lo = "from + batch * batchSize" and ?hi = "from + (batch + 1) * batchSize"
  have lt: "batch < ceil_div (to - from) batchSize" using Suc.hyps(2) by simp
  from ceil_div_upper [OF assms(1) lt] have lo: "?lo < to" by simp
  have slots: "batch_slots from to batchSize batch = [?lo .. min ?hi to - 1]"
  proof -
    have "?hi = ?lo + batchSize" by (simp add: distrib_right)
    moreover from this have "?lo \<le> min ?hi to" using lo assms(1) by simp
    ultimately show ?thesis by (simp only: batch_slots_def Let_def rangeOf_up)
  qed
  have split: "[?lo .. to - 1] = [?lo .. min ?hi to - 1] @ [min ?hi to .. to - 1]"
    using upto_split [of ?lo "min ?hi to - 1" "to - 1"] lo assms(1)
    by (auto simp: distrib_right)
  have IH: "\<And>r. rangePromise_loop cb from to batchSize (ceil_div (to - from) batchSize) (batch + 1) r =
      bindR (traverse cb [min ?hi to .. to - 1]) (\<lambda>ys. Inr (r @ ys))"
    using Suc.hyps(1) [of "batch + 1"] Suc.hyps(2) Suc.prems by simp
  have "rangePromise_loop cb from to batchSize (ceil_div (to - from) batchSize) batch result =
    bindR (traverse cb [?lo .. min ?hi to - 1]) (\<lambda>as.
    bindR (traverse cb [min ?hi to .. to - 1]) (\<lambda>bs. Inr ((result @ as) @ bs)))"
    unfolding rangePromise_loop.simps [of cb "from" to batchSize _ batch result] slots IH
    unfolding bindR_def if_P [OF lt] append_assoc by (rule refl)
  also have "\<dots> = bindR (traverse cb [?lo .. to - 1]) (\<lambda>ys. Inr (result @ ys))"
    unfolding split traverse_append by (simp add: bindR_def split: sum.splits)
  finally show ?case using lo by (simp add: min_absorb1)
qed


lemma rangePromise_eq_traverse:
  assumes "from \<le> to" "0 < batchSize"
  shows "rangePromise cb from to batchSize = traverse cb [from .. to - 1]"
  using assms rangePromise_loop_eq [of batchSize 0 "from" to cb "[]"]
  by (simp add: rangePromise_def bindR_def split: sum.splits)

section \<open>splitPubKeys\<close>

text \<open>
  \<open>for (let i = 0; i < array.length; i += keyLength) result.push(array.slice(i, i + keyLength))\<close>:
  the loop consumes \<open>keyLength\<close> elements at a time.
\<close>

function splitPubKeys_loop :: "nat \<Rightarrow> 'a list \<Rightarrow> nat \<Rightarrow> 'a list list" where
  "splitPubKeys_loop keyLength array i =
     (if i < length array \<and> 0 < keyLength
      then take keyLength (drop i array) # splitPubKeys_loop keyLength array (i + keyLength)
      else [])"
  by pat_completeness auto
termination
  by (relation "measure (\<lambda>(_, array, i). length array - i)") auto

declare splitPubKeys_loop.simps [simp del]

definition splitPubKeysArray :: "'a list \<Rightarrow> nat \<Rightarrow> js_error + 'a list list" where
  "splitPubKeysArray array keyLength =
     (if keyLength \<le> 0 then Inl (Error ''Invalid key length size'')
      else if length array mod keyLength > 0 then Inl (Error ''Invalid array length'')
      else Inr (splitPubKeys_loop keyLength array 0))"

text \<open>\<open>splitPubKeys\<close>, with the ethers functions \<open>arrayify\<close> and \<open>hexlify\<close> as parameters.\<close>

definition splitPubKeys ::
  "(string \<Rightarrow> js_error + 'a list) \<Rightarrow> ('a list \<Rightarrow> string) \<Rightarrow> string \<Rightarrow> nat \<Rightarrow> js_error + string list" where
  "splitPubKeys arrayify hexlify hexString pubkeyLength =
     bindR (arrayify hexString) (\<lambda>byteArray.
     bindR (splitPubKeysArray byteArray pubkeyLength) (\<lambda>keys. Inr (map hexlify keys)))"

lemma splitPubKeys_loop_concat: "0 < k \<Longrightarrow> concat (splitPubKeys_loop k xs i) = drop i xs"
proof (induction k xs i rule: splitPubKeys_loop.induct)
  case (1 k xs i)
  show ?case
  proof (cases "i < length xs")
    case True
    with 1 have "concat (splitPubKeys_loop k xs (i + k)) = drop (i + k) xs" by simp
    with True 1 show ?thesis
      by (subst splitPubKeys_loop.simps) (simp, metis append_take_drop_id drop_drop add.commute)
  next
    case False
    then show ?thesis by (subst splitPubKeys_loop.simps) simp
  qed
qed

lemma splitPubKeys_loop_lengths:
  "0 < k \<Longrightarrow> (length xs - i) mod k = 0 \<Longrightarrow> ys \<in> set (splitPubKeys_loop k xs i) \<Longrightarrow> length ys = k"
proof (induction k xs i rule: splitPubKeys_loop.induct)
  case (1 k xs i)
  show ?case
  proof (cases "i < length xs")
    case True
    then have "k \<le> length xs - i"
      using 1(3) by (metis dvd_imp_le mod_0_imp_dvd zero_less_diff)
    moreover from this have "(length xs - (i + k)) mod k = 0"
      using 1(3) by (simp add: le_mod_geq flip: diff_diff_left)
    ultimately show ?thesis
      using 1 True by (subst (asm) splitPubKeys_loop.simps [of k xs i]) auto
  next
    case False
    with 1 show ?thesis by (subst (asm) splitPubKeys_loop.simps) simp
  qed
qed

end
