(* ===== verification/Fetch_Events.thy ===== *)
theory Fetch_Events
  imports JS_Prelude
begin

text \<open>
  \<open>src/src/utils/fetch-events-utils.ts\<close>: fetching the events of a block range, the range
  split in two whenever every provider failed on it. The work list is a stack whose top is
  the head of the list. The fetcher is an argument; what the callers rely on is the locale
  \<open>range_source\<close>, interpreted by the fetchers of the two registries.
\<close>

record range_task =
  task_start :: nat
  task_end :: nat

definition canSplitEventsRange :: "range_task \<Rightarrow> bool" where
  "canSplitEventsRange task \<longleftrightarrow> task_end task - task_start task > 1"

text \<open>\<open>Math.ceil((start + end) / 2)\<close> on non-negative integers.\<close>

definition range_center :: "range_task \<Rightarrow> nat" where
  "range_center task = (task_start task + task_end task + 1) div 2"

definition splitEventsRange :: "range_task \<Rightarrow> range_task \<times> range_task" where
  "splitEventsRange task =
     (let center = range_center task
      in (\<lparr>task_start = task_start task, task_end = center - 1\<rparr>,
          \<lparr>task_start = center, task_end = task_end task\<rparr>))"

definition shouldSplitEventsRange :: "js_error \<Rightarrow> range_task \<Rightarrow> bool" where
  "shouldSplitEventsRange error task \<longleftrightarrow> error = AllProvidersFailedError \<and> canSplitEventsRange task"

record 'e event_group =
  events :: "'e list"
  startBlock :: nat
  endBlock :: nat

text \<open>The termination measure: a split leaves strictly less work.\<close>

definition task_work :: "range_task \<Rightarrow> nat" where
  "task_work task = 2 * (task_end task - task_start task) + 1"

lemma split_bounds:
  assumes "canSplitEventsRange task"
  shows "task_start task < range_center task" "range_center task \<le> task_end task"
  using assms by (auto simp: canSplitEventsRange_def range_center_def)

lemma split_work:
  assumes "canSplitEventsRange task" and "splitEventsRange task = (left, right)"
  shows "task_work left + task_work right < task_work task"
  using split_bounds [OF assms(1)] assms
  by (auto simp: task_work_def splitEventsRange_def Let_def)

text \<open>
  The loop also returns the number of requests made (\<open>requestCount\<close>), which the code
  counts for its log.
\<close>

function fetch_loop ::
  "(nat \<Rightarrow> nat \<Rightarrow> js_error + 'e list) \<Rightarrow> range_task list \<Rightarrow> 'e list \<Rightarrow> nat \<Rightarrow>
   (js_error + 'e list) \<times> nat" where
  "fetch_loop fetcher [] allEvents requestCount = (Inr allEvents, requestCount)"
| "fetch_loop fetcher (task # stack) allEvents requestCount =
     (case fetcher (task_start task) (task_end task) of
        Inr evs \<Rightarrow> fetch_loop fetcher stack (allEvents @ evs) (requestCount + 1)
      | Inl error \<Rightarrow>
          (if \<not> shouldSplitEventsRange error task then (Inl error, requestCount + 1)
           else fetch_loop fetcher (fst (splitEventsRange task) # snd (splitEventsRange task) # stack)
                  allEvents (requestCount + 1)))"
  by pat_completeness auto
termination
  by (relation "measure (\<lambda>(_, stack, _, _). sum_list (map task_work stack))")
    (auto simp: shouldSplitEventsRange_def task_work_def,
     use split_work in \<open>fastforce simp: task_work_def\<close>)

text \<open>One step of the loop, by outcome of the request.\<close>

declare fetch_loop.simps(2) [simp del]

lemma fetch_loop_step [simp]:
  "fetcher (task_start task) (task_end task) = Inr xs \<Longrightarrow>
   fetch_loop fetcher (task # stack) evs n = fetch_loop fetcher stack (evs @ xs) (n + 1)"
  "fetcher (task_start task) (task_end task) = Inl e \<Longrightarrow> shouldSplitEventsRange e task \<Longrightarrow>
   fetch_loop fetcher (task # stack) evs n =
     fetch_loop fetcher (fst (splitEventsRange task) # snd (splitEventsRange task) # stack) evs (n + 1)"
  "fetcher (task_start task) (task_end task) = Inl e \<Longrightarrow> \<not> shouldSplitEventsRange e task \<Longrightarrow>
   fetch_loop fetcher (task # stack) evs n = (Inl e, n + 1)"
  by (simp_all add: fetch_loop.simps(2))

definition fetchEventsFallOver ::
  "nat \<Rightarrow> nat \<Rightarrow> (nat \<Rightarrow> nat \<Rightarrow> js_error + 'e list) \<Rightarrow> js_error + 'e event_group" where
  "fetchEventsFallOver start end' fetcher =
     (case fst (fetch_loop fetcher [\<lparr>task_start = start, task_end = end'\<rparr>] [] 0) of
        Inl e \<Rightarrow> Inl e
      | Inr allEvents \<Rightarrow> Inr \<lparr>events = allEvents, startBlock = start, endBlock = end'\<rparr>)"

definition fetchRequestCount ::
  "nat \<Rightarrow> nat \<Rightarrow> (nat \<Rightarrow> nat \<Rightarrow> js_error + 'e list) \<Rightarrow> nat" where
  "fetchRequestCount start end' fetcher =
     snd (fetch_loop fetcher [\<lparr>task_start = start, task_end = end'\<rparr>] [] 0)"

section \<open>The number of requests\<close>

lemma fetch_loop_requests:
  "snd (fetch_loop fetcher stack evs n) \<le> n + sum_list (map task_work stack)"
proof (induction fetcher stack evs n rule: fetch_loop.induct)
  case (1 fetcher evs n)
  then show ?case by simp
next
  case (2 fetcher task stack evs n)
  obtain l r where lr: "splitEventsRange task = (l, r)" by fastforce
  show ?case
  proof (cases "fetcher (task_start task) (task_end task)")
    case (Inr xs)
    with 2(2) [OF Inr] show ?thesis by (simp add: task_work_def)
  next
    case (Inl e)
    show ?thesis
    proof (cases "shouldSplitEventsRange e task")
      case True
      then have "canSplitEventsRange task" by (simp add: shouldSplitEventsRange_def)
      from 2(1) [OF Inl] True lr split_work [OF this lr] Inl show ?thesis by simp
    next
      case False
      with Inl show ?thesis by (simp add: task_work_def)
    qed
  qed
qed

section \<open>Sources of events by block range\<close>

text \<open>
  What a fetcher promises: the events of a range, in block order, are determined by the
  range (\<open>chain\<close> gives a block's events), whatever the request that returned them.
\<close>

definition chain_events :: "(nat \<Rightarrow> 'e list) \<Rightarrow> nat \<Rightarrow> nat \<Rightarrow> 'e list" where
  "chain_events chain s e = concat (map chain [s ..< Suc e])"

lemma chain_events_empty: "e < s \<Longrightarrow> chain_events chain s e = []"
  by (simp add: chain_events_def)

lemma chain_events_split:
  assumes "s \<le> m" "m \<le> Suc e"
  shows "chain_events chain s e = concat (map chain [s ..< m]) @ chain_events chain m e"
proof -
  have "[s ..< Suc e] = [s ..< m] @ [m ..< Suc e]"
    using upt_add_eq_append [of s m "Suc e - m"] assms by simp
  then show ?thesis by (simp add: chain_events_def)
qed

lemma chain_events_append:
  "a \<le> Suc m \<Longrightarrow> m \<le> b \<Longrightarrow> chain_events chain a b = chain_events chain a m @ chain_events chain (Suc m) b"
  using chain_events_split [of a "Suc m" b chain] by (simp add: chain_events_def del: upt_Suc)

lemma chain_events_join:
  assumes "s < m" "m \<le> e"
  shows "chain_events chain s (m - 1) @ chain_events chain m e = chain_events chain s e"
  using chain_events_split [of s m e chain] assms by (simp add: chain_events_def)

lemma set_chain_events:
  "set (chain_events chain s e) = (\<Union>b \<in> {s .. e}. set (chain b))"
  by (auto simp: chain_events_def atLeastLessThanSuc_atLeastAtMost simp del: upt_Suc)

lemma fetch_loop_chain:
  assumes "\<forall>s e evs. fetcher s e = Inr evs \<longrightarrow> evs = chain_events chain s e"
    and "fst (fetch_loop fetcher stack evs n) = Inr res"
  shows "res = evs @ concat (map (\<lambda>t. chain_events chain (task_start t) (task_end t)) stack)"
  using assms
proof (induction fetcher stack evs n rule: fetch_loop.induct)
  case (1 fetcher evs n)
  then show ?case by simp
next
  case (2 fetcher task stack evs n)
  let ?rest = "concat (map (\<lambda>t. chain_events chain (task_start t) (task_end t)) stack)"
  show ?case
  proof (cases "fetcher (task_start task) (task_end task)")
    case (Inr xs)
    have "res = (evs @ xs) @ ?rest"
      by (rule 2(2) [OF Inr 2(3)]) (use 2(4) Inr in simp)
    then show ?thesis using 2(3) [rule_format, OF Inr] by simp
  next
    case (Inl e)
    with 2(4) have spl: "shouldSplitEventsRange e task"
      by (cases "shouldSplitEventsRange e task") simp_all
    then have can: "canSplitEventsRange task" by (simp add: shouldSplitEventsRange_def)
    let ?t = "splitEventsRange task"
    have "res = evs @ concat (map (\<lambda>t. chain_events chain (task_start t) (task_end t))
        (fst ?t # snd ?t # stack))"
      by (rule 2(1) [OF Inl _ 2(3)]) (use 2(4) Inl spl in simp_all)
    with chain_events_join [OF split_bounds [OF can], of chain] show ?thesis
      by (simp add: splitEventsRange_def Let_def)
  qed
qed

lemma fetch_loop_succeeds:
  assumes "\<forall>s e err. fetcher s e = Inl err \<longrightarrow> err = AllProvidersFailedError \<and> 1 < e - s"
  shows "\<exists>res. fst (fetch_loop fetcher stack evs n) = Inr res"
  using assms
proof (induction fetcher stack evs n rule: fetch_loop.induct)
  case (1 fetcher evs n)
  show ?case by simp
next
  case (2 fetcher task stack evs n)
  show ?case
  proof (cases "fetcher (task_start task) (task_end task)")
    case (Inr xs)
    have "fetch_loop fetcher (task # stack) evs n = fetch_loop fetcher stack (evs @ xs) (n + 1)"
      using Inr by simp
    then show ?thesis using 2(2) [OF Inr 2(3)] by (simp only:)
  next
    case (Inl e)
    from 2(3) [rule_format, OF Inl] have spl: "shouldSplitEventsRange e task"
      by (simp add: shouldSplitEventsRange_def canSplitEventsRange_def)
    then have "\<not> \<not> shouldSplitEventsRange e task" by simp
    from 2(1) [OF Inl this 2(3)] show ?thesis using Inl spl by simp
  qed
qed

locale range_source =
  fixes fetcher :: "nat \<Rightarrow> nat \<Rightarrow> js_error + 'e list"
    and chain :: "nat \<Rightarrow> 'e list"
  assumes fetcher_sound: "fetcher s e = Inr evs \<Longrightarrow> evs = chain_events chain s e"
begin

lemma fallover_complete:
  assumes "fetchEventsFallOver s e fetcher = Inr g"
  shows "g = \<lparr>events = chain_events chain s e, startBlock = s, endBlock = e\<rparr>"
proof -
  from assms obtain evs where
    loop: "fst (fetch_loop fetcher [\<lparr>task_start = s, task_end = e\<rparr>] [] 0) = Inr evs"
    and g: "g = \<lparr>events = evs, startBlock = s, endBlock = e\<rparr>"
    by (auto simp: fetchEventsFallOver_def split: sum.splits)
  have "evs = [] @ concat (map (\<lambda>t. chain_events chain (task_start t) (task_end t))
      [\<lparr>task_start = s, task_end = e\<rparr>])"
    by (rule fetch_loop_chain [OF _ loop]) (blast dest: fetcher_sound)
  with g show ?thesis by simp
qed

end

text \<open>
  A weaker promise, for fetchers whose order within a request is not determined: the set of
  events of a range.
\<close>

lemma fetch_loop_set:
  assumes "\<forall>s e evs. fetcher s e = Inr evs \<longrightarrow> set evs = (\<Union>b \<in> {s .. e}. block b)"
    and "fst (fetch_loop fetcher stack evs n) = Inr res"
  shows "set res = set evs \<union> (\<Union>t \<in> set stack. \<Union>b \<in> {task_start t .. task_end t}. block b)"
  using assms
proof (induction fetcher stack evs n rule: fetch_loop.induct)
  case (1 fetcher evs n)
  then show ?case by simp
next
  case (2 fetcher task stack evs n)
  let ?blocks = "\<lambda>t. \<Union>b \<in> {task_start t .. task_end t}. block b"
  show ?case
  proof (cases "fetcher (task_start task) (task_end task)")
    case (Inr xs)
    have "set res = set (evs @ xs) \<union> (\<Union>t \<in> set stack. ?blocks t)"
      by (rule 2(2) [OF Inr 2(3)]) (use 2(4) Inr in simp)
    then show ?thesis using 2(3) [rule_format, OF Inr] by auto
  next
    case (Inl e)
    with 2(4) have spl: "shouldSplitEventsRange e task"
      by (cases "shouldSplitEventsRange e task") simp_all
    then have can: "canSplitEventsRange task" by (simp add: shouldSplitEventsRange_def)
    let ?t = "splitEventsRange task"
    have "set res = set evs \<union> (\<Union>t \<in> set (fst ?t # snd ?t # stack). ?blocks t)"
      by (rule 2(1) [OF Inl _ 2(3)]) (use 2(4) Inl spl in simp_all)
    moreover have "{task_start task .. task_end task}
        = {task_start (fst ?t) .. task_end (fst ?t)} \<union> {task_start (snd ?t) .. task_end (snd ?t)}"
      using split_bounds [OF can] by (auto simp: splitEventsRange_def Let_def)
    ultimately show ?thesis by auto
  qed
qed

locale range_source_set =
  fixes fetcher :: "nat \<Rightarrow> nat \<Rightarrow> js_error + 'e list"
    and block :: "nat \<Rightarrow> 'e set"
  assumes fetcher_set: "fetcher s e = Inr evs \<Longrightarrow> set evs = (\<Union>b \<in> {s .. e}. block b)"
begin

lemma fallover_set:
  assumes "fetchEventsFallOver s e fetcher = Inr g"
  shows "set (events g) = (\<Union>b \<in> {s .. e}. block b)" and "startBlock g = s" and "endBlock g = e"
proof -
  from assms obtain evs where
    loop: "fst (fetch_loop fetcher [\<lparr>task_start = s, task_end = e\<rparr>] [] 0) = Inr evs"
    and g: "g = \<lparr>events = evs, startBlock = s, endBlock = e\<rparr>"
    by (auto simp: fetchEventsFallOver_def split: sum.splits)
  have "set evs = set [] \<union> (\<Union>t \<in> set [\<lparr>task_start = s, task_end = e\<rparr>].
      \<Union>b \<in> {task_start t .. task_end t}. block b)"
    by (rule fetch_loop_set [OF _ loop]) (blast dest: fetcher_set)
  with g show "set (events g) = (\<Union>b \<in> {s .. e}. block b)" by simp
  from g show "startBlock g = s" and "endBlock g = e" by simp_all
qed

end

sublocale range_source \<subseteq> set: range_source_set fetcher "\<lambda>b. set (chain b)"
proof unfold_locales
  fix s e evs assume "fetcher s e = Inr evs"
  from fetcher_sound [OF this] show "set evs = (\<Union>b \<in> {s .. e}. set (chain b))"
    by (simp only: set_chain_events)
qed

text \<open>A source whose only failure is refusing a range wider than two blocks.\<close>

locale splittable_source = range_source +
  assumes fails_wide: "fetcher s e = Inl err \<Longrightarrow> err = AllProvidersFailedError \<and> 1 < e - s"
begin

lemma fallover_total:
  "fetchEventsFallOver s e fetcher
   = Inr \<lparr>events = chain_events chain s e, startBlock = s, endBlock = e\<rparr>"
proof -
  obtain evs where
    "fst (fetch_loop fetcher [\<lparr>task_start = s, task_end = e\<rparr>] [] 0) = Inr evs"
    using fetch_loop_succeeds fails_wide by metis
  then have "fetchEventsFallOver s e fetcher = Inr \<lparr>events = evs, startBlock = s, endBlock = e\<rparr>"
    by (simp add: fetchEventsFallOver_def)
  with fallover_complete show ?thesis by metis
qed

end

text \<open>
  \<open>contract.queryFilter(filter, start, end)\<close> as its documentation describes it: the
  matching logs of the blocks \<open>start .. end\<close> in chain order, none when \<open>start > end\<close>, or an
  exception. Which request fails, and how, is the argument \<open>failure\<close>.
\<close>

definition query_logs ::
  "(nat \<Rightarrow> nat \<Rightarrow> js_error option) \<Rightarrow> (nat \<Rightarrow> 'l list) \<Rightarrow> nat \<Rightarrow> nat \<Rightarrow> js_error + 'l list" where
  "query_logs failure logs s e =
     (case failure s e of Some err \<Rightarrow> Inl err | None \<Rightarrow> Inr (chain_events logs s e))"

text \<open>A provider that serves at most \<open>limit\<close> blocks past the first of a request.\<close>

definition range_limit :: "nat \<Rightarrow> nat \<Rightarrow> nat \<Rightarrow> js_error option" where
  "range_limit limit s e = (if limit < e - s then Some AllProvidersFailedError else None)"

interpretation logs: range_source "query_logs failure chain_logs" chain_logs
  by unfold_locales (auto simp: query_logs_def split: option.splits)

interpretation limited: splittable_source "query_logs (range_limit (Suc n)) chain_logs" chain_logs
  by unfold_locales (auto simp: query_logs_def range_limit_def split: if_splits)

section \<open>An exception that is not split on ends the fetch\<close>

lemma fallover_rethrows:
  assumes "fetcher s e = Inl err" and "\<not> (err = AllProvidersFailedError \<and> 1 < e - s)"
  shows "fetchEventsFallOver s e fetcher = Inl err"
  using assms
  by (simp add: fetchEventsFallOver_def shouldSplitEventsRange_def canSplitEventsRange_def)

end
