(* ===== verification/Hex_Bytes.thy ===== *)
theory Hex_Bytes
  imports JS_Prelude "HOL-Library.Word"
begin

text \<open>
  Hexadecimal strings: the digits of a number in a fixed width, a Node.js buffer written
  with \<open>writeUInt32BE\<close> and read with \<open>toString('hex')\<close>, and the two functions of the
  \<open>ethers\<close> package the daemon pads numbers with, which are parameters with their
  documented behaviour as \<open>hex_laws\<close>.
\<close>

type_synonym bytes = "8 word list"

definition hex_digit :: "nat \<Rightarrow> char" where
  "hex_digit d = (if d < 10 then char_of (48 + d) else char_of (87 + d))"

primrec fixed_hex :: "nat \<Rightarrow> nat \<Rightarrow> string" where
  "fixed_hex 0 n = []"
| "fixed_hex (Suc w) n = fixed_hex w (n div 16) @ [hex_digit (n mod 16)]"

text \<open>\<open>buffer.toString('hex')\<close>\<close>

definition toHex :: "bytes \<Rightarrow> string" where
  "toHex bs = concat (map (\<lambda>b. fixed_hex 2 (unat b)) bs)"

text \<open>\<open>writeUInt32BE\<close> into a buffer of four bytes; out of the range it throws.\<close>

definition writeUInt32BE :: "int \<Rightarrow> js_error + bytes" where
  "writeUInt32BE n =
     (if n < 0 \<or> n \<ge> 2 ^ 32 then Inl RangeError
      else Inr (map (\<lambda>k. of_nat (nat n div 256 ^ k)) [3, 2, 1, 0]))"

section \<open>Digits\<close>

lemma length_fixed_hex [simp]: "length (fixed_hex w n) = w"
  by (induction w arbitrary: n) simp_all

lemma fixed_hex_chars: "c \<in> set (fixed_hex w n) \<Longrightarrow> \<exists>d<16. c = hex_digit d"
proof (induction w arbitrary: n)
  case (Suc w)
  then have "c \<in> set (fixed_hex w (n div 16)) \<or> c = hex_digit (n mod 16)" by auto
  then show ?case using Suc.IH mod_less_divisor [of 16 n] by (metis zero_less_numeral)
qed simp

lemma of_char_hex_digit: "d < 16 \<Longrightarrow> (of_char (hex_digit d) :: nat) = (if d < 10 then 48 + d else 87 + d)"
  by (simp add: hex_digit_def)

lemma hex_digit_less: "a < 16 \<Longrightarrow> b < 16 \<Longrightarrow> hex_digit a < hex_digit b \<longleftrightarrow> a < b"
  by (auto simp: less_char_def of_char_hex_digit)

lemma hex_digit_inj: "a < 16 \<Longrightarrow> b < 16 \<Longrightarrow> hex_digit a = hex_digit b \<longleftrightarrow> a = b"
  by (metis hex_digit_less less_irrefl linorder_neqE_nat)

lemma snoc_less:
  "length xs = length ys \<Longrightarrow> (xs @ [a] < ys @ [b]) \<longleftrightarrow> (xs < ys \<or> (xs = ys \<and> (a::'a::order) < b))"
proof (induction xs ys rule: list_induct2)
  case Nil
  then show ?case by simp
next
  case (Cons x xs y ys)
  then show ?case by auto
qed

lemma less_div_mod:
  "(m::nat) < n \<longleftrightarrow> m div k < n div k \<or> (m div k = n div k \<and> m mod k < n mod k)"
proof (cases "m div k" "n div k" rule: linorder_cases)
  case less
  then have "\<not> n \<le> m" using div_le_mono [of n m k] by linarith
  with less show ?thesis by simp
next
  case equal
  then show ?thesis using div_mult_mod_eq [of m k] div_mult_mod_eq [of n k]
    by (metis less_irrefl nat_add_left_cancel_less)
next
  case greater
  then have "\<not> m < n" using div_le_mono [of m n k] by linarith
  with greater show ?thesis by simp
qed

lemma eq_div_mod: "(m::nat) = n \<longleftrightarrow> m div k = n div k \<and> m mod k = n mod k"
  by (metis div_mult_mod_eq)

lemma fixed_hex_less:
  "m < 16 ^ w \<Longrightarrow> n < 16 ^ w \<Longrightarrow> (fixed_hex w m < fixed_hex w n) \<longleftrightarrow> m < n"
  and fixed_hex_inj:
  "m < 16 ^ w \<Longrightarrow> n < 16 ^ w \<Longrightarrow> (fixed_hex w m = fixed_hex w n) \<longleftrightarrow> m = n"
proof (induction w arbitrary: m n)
  case 0
  { case 1 then show ?case by simp }
  { case 2 then show ?case by simp }
next
  case (Suc w)
  { case 1
    then have "m div 16 < 16 ^ w" "n div 16 < 16 ^ w" by (auto simp: div_less_iff_less_mult)
    note IH = Suc [OF this]
    have "m < n \<longleftrightarrow> m div 16 < n div 16 \<or> (m div 16 = n div 16 \<and> m mod 16 < n mod 16)" by (rule less_div_mod)
    then show ?case by (simp add: snoc_less IH hex_digit_less) }
  { case 2
    then have "m div 16 < 16 ^ w" "n div 16 < 16 ^ w" by (auto simp: div_less_iff_less_mult)
    note IH = Suc [OF this]
    have "m = n \<longleftrightarrow> m div 16 = n div 16 \<and> m mod 16 = n mod 16" by (rule eq_div_mod)
    then show ?case by (simp add: IH hex_digit_inj) }
qed

lemma fixed_hex_Suc2: "fixed_hex (Suc (Suc w)) n = fixed_hex w (n div 256) @ fixed_hex 2 (n mod 256)"
proof -
  have d: "n div 16 div 16 = n div 256" by (simp flip: div_mult2_eq)
  have "n mod (16 * 16) = 16 * (n div 16 mod 16) + n mod 16" by (rule mod_mult2_eq)
  then have m: "n mod 256 = 16 * (n div 16 mod 16) + n mod 16" by simp
  have "n mod 256 div 16 = n div 16 mod 16" "n mod 256 mod 16 = n mod 16" unfolding m by simp_all
  with d show ?thesis by (simp add: numeral_2_eq_2)
qed

lemma toHex_writeUInt32BE:
  "0 \<le> n \<Longrightarrow> n < 2 ^ 32 \<Longrightarrow>
   \<exists>bs. writeUInt32BE n = Inr bs \<and> toHex bs = fixed_hex 8 (nat n)"
proof -
  assume n: "0 \<le> n" "n < 2 ^ 32"
  let ?m = "nat n"
  have m: "?m div 16777216 < 256" using n by (simp add: div_less_iff_less_mult nat_less_iff)
  have w: "unat (of_nat k :: 8 word) = k mod 256" for k
    by (simp add: unat_of_nat)
  have step: "fixed_hex (k + 2) j = fixed_hex k (j div 256) @ fixed_hex 2 (j mod 256)" for k j
    using fixed_hex_Suc2 [of k j] by (simp only: add_2_eq_Suc')
  have "fixed_hex 8 ?m = fixed_hex 6 (?m div 256) @ fixed_hex 2 (?m mod 256)"
    using step [of 6 ?m] by (simp only: numeral_plus_numeral semiring_norm)
  also have "fixed_hex 6 (?m div 256) = fixed_hex 4 (?m div 65536) @ fixed_hex 2 (?m div 256 mod 256)"
    using step [of 4 "?m div 256"]
    by (simp only: numeral_plus_numeral semiring_norm div_mult2_eq [symmetric] numeral_times_numeral)
  also have "fixed_hex 4 (?m div 65536) = fixed_hex 2 (?m div 16777216) @ fixed_hex 2 (?m div 65536 mod 256)"
    using step [of 2 "?m div 65536"]
    by (simp only: numeral_plus_numeral semiring_norm div_mult2_eq [symmetric] numeral_times_numeral)
  finally have hex: "fixed_hex 8 ?m = ((fixed_hex 2 (?m div 16777216) @ fixed_hex 2 (?m div 65536 mod 256))
      @ fixed_hex 2 (?m div 256 mod 256)) @ fixed_hex 2 (?m mod 256)" .
  have "writeUInt32BE n = Inr (map (\<lambda>k. of_nat (?m div 256 ^ k)) [3, 2, 1, 0])"
    using n by (simp add: writeUInt32BE_def)
  moreover have "toHex (map (\<lambda>k. of_nat (?m div 256 ^ k)) [3, 2, 1, 0]) = fixed_hex 8 ?m"
    unfolding hex toHex_def using m by (simp add: w)
  ultimately show ?thesis by blast
qed

section \<open>The padding functions of \<open>ethers\<close>\<close>

record hex_lib =
  hexlify :: "int \<Rightarrow> js_error + string"
  hexZeroPad :: "string \<Rightarrow> nat \<Rightarrow> js_error + string"

definition MAX_SAFE_INTEGER :: int where
  "MAX_SAFE_INTEGER = 2 ^ 53 - 1"

definition hex_laws :: "hex_lib \<Rightarrow> bool" where
  "hex_laws H \<longleftrightarrow>
     (\<forall>n b. 0 < b \<longrightarrow> 0 \<le> n \<longrightarrow> n \<le> MAX_SAFE_INTEGER \<longrightarrow> n < 256 ^ b \<longrightarrow>
        bindR (hexlify H n) (\<lambda>h. hexZeroPad H h b) = Inr (''0x'' @ fixed_hex (2 * b) (nat n))) \<and>
     (\<forall>n b. 256 ^ b \<le> n \<longrightarrow> (\<exists>e. bindR (hexlify H n) (\<lambda>h. hexZeroPad H h b) = Inl e)) \<and>
     (\<forall>n. n < 0 \<or> MAX_SAFE_INTEGER < n \<longrightarrow> (\<exists>e. hexlify H n = Inl e))"

text \<open>An instance: \<open>hexlify\<close> gives whole bytes, \<open>hexZeroPad\<close> pads on the left.\<close>

fun byte_width :: "nat \<Rightarrow> nat" where
  "byte_width n = (if n < 256 then 1 else Suc (byte_width (n div 256)))"

declare byte_width.simps [simp del]

definition ref_hex :: hex_lib where
  "ref_hex =
     \<lparr>hexlify = (\<lambda>n. if n < 0 \<or> MAX_SAFE_INTEGER < n then Inl (External ''NUMERIC_FAULT'')
                    else Inr (''0x'' @ fixed_hex (2 * byte_width (nat n)) (nat n))),
      hexZeroPad = (\<lambda>h b. if length h > 2 * b + 2 then Inl (External ''INVALID_ARGUMENT'')
                         else Inr (''0x'' @ replicate (2 * b + 2 - length h) (CHR ''0'') @ drop 2 h))\<rparr>"

lemma byte_width_bounds: "n < 256 ^ byte_width n" "0 < byte_width n"
  by (induction n rule: byte_width.induct) (subst byte_width.simps, force simp: div_less_iff_less_mult)+

lemma byte_width_least: "0 < b \<Longrightarrow> n < 256 ^ b \<Longrightarrow> byte_width n \<le> b"
proof (induction n arbitrary: b rule: byte_width.induct)
  case (1 n)
  show ?case
  proof (cases "n < 256")
    case False
    with 1(2,3) obtain c where c: "b = Suc c" "0 < c" by (cases b; cases "b - 1") auto
    with 1(3) have "n div 256 < 256 ^ c" by (simp add: div_less_iff_less_mult)
    with 1(1) [OF False c(2)] c False show ?thesis by (subst byte_width.simps) simp
  qed (use 1 in \<open>subst byte_width.simps, simp\<close>)
qed

lemma hex_digit_0: "hex_digit 0 = CHR ''0''"
  by code_simp

lemma fixed_hex_pad:
  "n < 16 ^ w \<Longrightarrow> fixed_hex (k + w) n = replicate k (CHR ''0'') @ fixed_hex w n"
proof (induction w arbitrary: n)
  case 0
  then show ?case by (induction k) (simp_all add: hex_digit_0 replicate_append_same)
next
  case (Suc w)
  then have "n div 16 < 16 ^ w" by (simp add: div_less_iff_less_mult)
  with Suc.IH show ?case by simp
qed

lemma ref_hex_pad:
  assumes "0 < b" "0 \<le> n" "n \<le> MAX_SAFE_INTEGER" "n < 256 ^ b"
  shows "bindR (hexlify ref_hex n) (\<lambda>h. hexZeroPad ref_hex h b) = Inr (''0x'' @ fixed_hex (2 * b) (nat n))"
proof -
  let ?w = "byte_width (nat n)"
  have "nat n < 256 ^ b" using assms(2,4) by (simp add: nat_less_iff)
  with assms(1) have le: "?w \<le> b" by (rule byte_width_least)
  have "nat n < 16 ^ (2 * ?w)" using byte_width_bounds(1) [of "nat n"] by (simp add: power_mult)
  from fixed_hex_pad [OF this, of "2 * (b - ?w)"] le
  have "fixed_hex (2 * b) (nat n) = replicate (2 * (b - ?w)) (CHR ''0'') @ fixed_hex (2 * ?w) (nat n)"
    by (simp flip: distrib_left)
  with assms le show ?thesis by (simp add: ref_hex_def right_diff_distrib')
qed

lemma ref_hex_overflow:
  assumes "256 ^ b \<le> n"
  shows "\<exists>e. bindR (hexlify ref_hex n) (\<lambda>h. hexZeroPad ref_hex h b) = Inl e"
proof (cases "MAX_SAFE_INTEGER < n")
  case False
  have "b < byte_width (nat n)"
  proof (rule ccontr)
    assume "\<not> ?thesis"
    then have "(256::nat) ^ byte_width (nat n) \<le> 256 ^ b" by (intro power_increasing) auto
    with byte_width_bounds(1) [of "nat n"] have "nat n < 256 ^ b" by linarith
    with assms show False by (simp add: nat_less_iff)
  qed
  moreover have "0 \<le> n" using assms by (meson order_trans zero_le_numeral zero_le_power)
  ultimately show ?thesis using False by (simp add: ref_hex_def)
qed (simp add: ref_hex_def)

lemma ref_hex_laws: "hex_laws ref_hex"
  unfolding hex_laws_def using ref_hex_pad ref_hex_overflow by (auto simp: ref_hex_def)

end
