(* ===== verification/Deposit_Tree.thy ===== *)
theory Deposit_Tree
  imports Hex_Bytes
begin

text \<open>
  The incremental Merkle tree of \<open>deposit-tree.ts\<close>: a branch of at most 32 nodes and a
  node count. The hash of two nodes, the SSZ encodings and the final packed hash come from
  libraries and are the fields of \<open>tree_lib\<close>, an argument of the definitions. The
  reference is the full tree of depth 32 over the leaves padded with zero hashes.
\<close>


record node_data =
  nd_pubkey :: string
  nd_wc :: string
  nd_amount :: string
  nd_signature :: string

record tree_lib =
  digest2Bytes32 :: "bytes \<Rightarrow> bytes \<Rightarrow> bytes"
  toLittleEndian64BigInt :: "nat \<Rightarrow> string"
  soliditySha256 :: "bytes \<Rightarrow> string \<Rightarrow> string \<Rightarrow> string"

text \<open>The library calls behind \<open>formDepositNode\<close>; \<open>fromHexString\<close> and the SSZ
  deserialisation throw on malformed input.\<close>

record node_lib =
  fromHexString :: "string \<Rightarrow> js_error + bytes"
  uintNum64_deserialize :: "bytes \<Rightarrow> js_error + nat"
  depositData_hashTreeRoot :: "bytes \<Rightarrow> bytes \<Rightarrow> nat \<Rightarrow> bytes \<Rightarrow> bytes"

definition DEPOSIT_CONTRACT_TREE_DEPTH :: nat where
  "DEPOSIT_CONTRACT_TREE_DEPTH = 32"

definition ZERO_HASH :: bytes where
  "ZERO_HASH = replicate 32 0"

definition ZERO_HASH_ROOT_HEX :: string where
  "ZERO_HASH_ROOT_HEX = ''0x'' @ replicate 48 (CHR ''0'')"

text \<open>
  \<open>branch\<close> is a JavaScript array written by index, so a partial map: reading an index that
  was never written gives \<open>undefined\<close>, on which the hash throws a \<open>TypeError\<close>.
\<close>

record deposit_tree =
  branch :: "nat \<rightharpoonup> bytes"
  nodeCount :: nat

text \<open>\<open>formZeroHashes\<close>: each zero hash is the hash of two of the previous ones.\<close>

primrec zeroHashes :: "tree_lib \<Rightarrow> nat \<Rightarrow> bytes" where
  "zeroHashes L 0 = ZERO_HASH"
| "zeroHashes L (Suc height) = digest2Bytes32 L (zeroHashes L height) (zeroHashes L height)"

definition newDepositTree :: deposit_tree where
  "newDepositTree = \<lparr>branch = Map.empty, nodeCount = 0\<rparr>"

text \<open>
  The loop of \<open>formBranch\<close>; \<open>None\<close> is the fall through the loop without a \<open>return\<close>, which
  leaves the branch as it was.
\<close>

function formBranch_loop ::
  "tree_lib \<Rightarrow> (nat \<rightharpoonup> bytes) \<Rightarrow> bytes \<Rightarrow> nat \<Rightarrow> nat \<Rightarrow> js_error + (nat \<rightharpoonup> bytes) option" where
  "formBranch_loop L br node count height =
     (if height < DEPOSIT_CONTRACT_TREE_DEPTH then
        (if count mod 2 = 1 then Inr (Some (br(height \<mapsto> node)))
         else (case br height of
                 None \<Rightarrow> Inl TypeError
               | Some b \<Rightarrow> formBranch_loop L br (digest2Bytes32 L b node) (count div 2) (height + 1)))
      else Inr None)"
  by pat_completeness auto
termination
  by (relation "measure (\<lambda>(_, _, _, _, height). DEPOSIT_CONTRACT_TREE_DEPTH - height)") auto

declare formBranch_loop.simps [simp del]

definition formBranch :: "tree_lib \<Rightarrow> (nat \<rightharpoonup> bytes) \<Rightarrow> bytes \<Rightarrow> nat \<Rightarrow> js_error + (nat \<rightharpoonup> bytes) option" where
  "formBranch L br node depositCount = formBranch_loop L br node depositCount 0"

text \<open>
  \<open>insert\<close>: the count is incremented before the branch is formed, so an exception of
  \<open>formBranch\<close> leaves it incremented.
\<close>

definition insertNode ::
  "tree_lib \<Rightarrow> deposit_tree \<Rightarrow> bytes \<Rightarrow> nat \<Rightarrow> (js_error + bool) \<times> deposit_tree" where
  "insertNode L tree node depositCount =
     (if depositCount \<noteq> nodeCount tree then (Inr False, tree)
      else (let tree' = tree\<lparr>nodeCount := nodeCount tree + 1\<rparr>
            in case formBranch L (branch tree') node (nodeCount tree') of
                 Inl e \<Rightarrow> (Inl e, tree')
               | Inr None \<Rightarrow> (Inr True, tree')
               | Inr (Some br) \<Rightarrow> (Inr True, tree'\<lparr>branch := br\<rparr>)))"

function getRoot_loop :: "tree_lib \<Rightarrow> (nat \<rightharpoonup> bytes) \<Rightarrow> bytes \<Rightarrow> nat \<Rightarrow> nat \<Rightarrow> js_error + bytes" where
  "getRoot_loop L br node count height =
     (if height < DEPOSIT_CONTRACT_TREE_DEPTH then
        (if count mod 2 = 1 then
           (case br height of
              None \<Rightarrow> Inl TypeError
            | Some b \<Rightarrow> getRoot_loop L br (digest2Bytes32 L b node) (count div 2) (height + 1))
         else getRoot_loop L br (digest2Bytes32 L node (zeroHashes L height)) (count div 2) (height + 1))
      else Inr node)"
  by pat_completeness auto
termination
  by (relation "measure (\<lambda>(_, _, _, _, height). DEPOSIT_CONTRACT_TREE_DEPTH - height)") auto

declare getRoot_loop.simps [simp del]

definition getRoot :: "tree_lib \<Rightarrow> deposit_tree \<Rightarrow> js_error + string" where
  "getRoot L tree =
     bindR (getRoot_loop L (branch tree) ZERO_HASH (nodeCount tree) 0) (\<lambda>node.
       Inr (soliditySha256 L node (toLittleEndian64BigInt L (nodeCount tree)) ZERO_HASH_ROOT_HEX))"

text \<open>\<open>clone\<close> copies the branch, node by node, and the count.\<close>

definition cloneTree :: "deposit_tree \<Rightarrow> deposit_tree" where
  "cloneTree tree =
     newDepositTree\<lparr>branch := (\<lambda>i. map_option (map (\<lambda>b. b)) (branch tree i)),
                     nodeCount := nodeCount tree\<rparr>"

text \<open>\<open>crypto/utils.ts\<close>\<close>

definition parseLittleEndian64 :: "node_lib \<Rightarrow> string \<Rightarrow> js_error + nat" where
  "parseLittleEndian64 N str = bindR (fromHexString N str) (uintNum64_deserialize N)"

definition formDepositNode :: "node_lib \<Rightarrow> node_data \<Rightarrow> js_error + bytes" where
  "formDepositNode N d =
     bindR (fromHexString N (nd_wc d)) (\<lambda>withdrawalCredentials.
     bindR (fromHexString N (nd_pubkey d)) (\<lambda>pubkey.
     bindR (fromHexString N (nd_signature d)) (\<lambda>signature.
     bindR (parseLittleEndian64 N (nd_amount d)) (\<lambda>amount.
       Inr (depositData_hashTreeRoot N pubkey withdrawalCredentials amount signature)))))"

lemma cloneTree_id: "cloneTree tree = tree"
  by (cases tree) (simp add: cloneTree_def newDepositTree_def option.map_id0 map_idI option.map_ident)

section \<open>The reference tree\<close>

text \<open>The root of the subtree of height \<open>h\<close> whose leaves start at \<open>off\<close>.\<close>

primrec subtree_root :: "tree_lib \<Rightarrow> (nat \<Rightarrow> bytes) \<Rightarrow> nat \<Rightarrow> nat \<Rightarrow> bytes" where
  "subtree_root L leaf 0 off = leaf off"
| "subtree_root L leaf (Suc h) off =
     digest2Bytes32 L (subtree_root L leaf h off) (subtree_root L leaf h (off + 2 ^ h))"

definition padded :: "bytes list \<Rightarrow> nat \<Rightarrow> bytes" where
  "padded leaves i = (if i < length leaves then leaves ! i else ZERO_HASH)"

definition merkle_root :: "tree_lib \<Rightarrow> bytes list \<Rightarrow> string" where
  "merkle_root L leaves =
     soliditySha256 L (subtree_root L (padded leaves) DEPOSIT_CONTRACT_TREE_DEPTH 0)
       (toLittleEndian64BigInt L (length leaves)) ZERO_HASH_ROOT_HEX"

lemma subtree_root_cong:
  "(\<And>i. off \<le> i \<Longrightarrow> i < off + 2 ^ h \<Longrightarrow> f i = g i) \<Longrightarrow> subtree_root L f h off = subtree_root L g h off"
proof (induction h arbitrary: off)
  case 0
  then show ?case by simp
next
  case (Suc h)
  have "subtree_root L f h off = subtree_root L g h off"
    by (rule Suc.IH) (simp add: Suc.prems)
  moreover have "subtree_root L f h (off + 2 ^ h) = subtree_root L g h (off + 2 ^ h)"
    by (rule Suc.IH) (simp add: Suc.prems)
  ultimately show ?case by simp
qed

lemma subtree_root_zero:
  "(\<And>i. off \<le> i \<Longrightarrow> f i = ZERO_HASH) \<Longrightarrow> subtree_root L f h off = zeroHashes L h"
  by (induction h arbitrary: off) simp_all

text \<open>
  The block of height \<open>h\<close> to the left of the insertion point, of those the binary digits
  of the count stand for.
\<close>

definition block_start :: "nat \<Rightarrow> nat \<Rightarrow> nat" where
  "block_start n h = n div 2 ^ Suc h * 2 ^ Suc h"

definition tree_inv :: "tree_lib \<Rightarrow> deposit_tree \<Rightarrow> bytes list \<Rightarrow> bool" where
  "tree_inv L tree leaves \<longleftrightarrow>
     nodeCount tree = length leaves \<and>
     (\<forall>h < DEPOSIT_CONTRACT_TREE_DEPTH. nodeCount tree div 2 ^ h mod 2 = 1 \<longrightarrow>
        branch tree h = Some (subtree_root L (padded leaves) h (block_start (length leaves) h)))"

lemma tree_inv_new: "tree_inv L newDepositTree []"
  by (simp add: tree_inv_def newDepositTree_def)

subsection \<open>Arithmetic of the binary digits\<close>

lemma div_pow_Suc: "(n::nat) div 2 ^ Suc h = n div 2 ^ h div 2"
  by (simp only: power_Suc2 div_mult2_eq)

lemma block_odd:
  "(n::nat) div 2 ^ h mod 2 = 1 \<Longrightarrow> n div 2 ^ h * 2 ^ h = block_start n h + 2 ^ h"
proof -
  assume "n div 2 ^ h mod 2 = 1"
  with div_mult_mod_eq [of "n div 2 ^ h" 2]
  have "n div 2 ^ h = 2 * (n div 2 ^ h div 2) + 1" by linarith
  then have "n div 2 ^ h = 2 * (n div 2 ^ Suc h) + 1" unfolding div_pow_Suc .
  then show ?thesis by (simp add: block_start_def algebra_simps)
qed

lemma block_even:
  "(n::nat) div 2 ^ h mod 2 = 0 \<Longrightarrow> n div 2 ^ h * 2 ^ h = block_start n h"
proof -
  assume "n div 2 ^ h mod 2 = 0"
  with div_mult_mod_eq [of "n div 2 ^ h" 2]
  have "n div 2 ^ h = 2 * (n div 2 ^ h div 2)" by linarith
  then have "n div 2 ^ h = 2 * (n div 2 ^ Suc h)" unfolding div_pow_Suc .
  then show ?thesis by (simp add: block_start_def)
qed

section \<open>The root\<close>

text \<open>
  At height \<open>h\<close> the running node is the root of the block of height \<open>h\<close> that holds the
  insertion point.
\<close>

lemma getRoot_loop_subtree:
  assumes inv: "tree_inv L tree leaves"
    and "h \<le> DEPOSIT_CONTRACT_TREE_DEPTH"
    and "length leaves < 2 ^ DEPOSIT_CONTRACT_TREE_DEPTH"
  shows "getRoot_loop L (branch tree)
           (subtree_root L (padded leaves) h (length leaves div 2 ^ h * 2 ^ h))
           (length leaves div 2 ^ h) h
         = Inr (subtree_root L (padded leaves) DEPOSIT_CONTRACT_TREE_DEPTH 0)"
  using assms(2)
proof (induction "DEPOSIT_CONTRACT_TREE_DEPTH - h" arbitrary: h)
  case 0
  then have "h = DEPOSIT_CONTRACT_TREE_DEPTH" by simp
  then show ?case using assms(3) by (subst getRoot_loop.simps) simp
next
  case (Suc d)
  let ?n = "length leaves" and ?p = "padded leaves"
  have h: "h < DEPOSIT_CONTRACT_TREE_DEPTH" using Suc.hyps(2) by simp
  have IH: "getRoot_loop L (branch tree) (subtree_root L ?p (Suc h) (block_start ?n h))
      (?n div 2 ^ h div 2) (h + 1) = Inr (subtree_root L ?p DEPOSIT_CONTRACT_TREE_DEPTH 0)"
    using Suc.hyps(1) [of "Suc h"] Suc.hyps(2) by (simp add: block_start_def div_pow_Suc [symmetric])
  show ?case
  proof (cases "?n div 2 ^ h mod 2 = 1")
    case True
    then have "branch tree h = Some (subtree_root L ?p h (block_start ?n h))"
      using inv h by (simp add: tree_inv_def)
    with True h IH block_odd [OF True] show ?thesis by (subst getRoot_loop.simps) simp
  next
    case False
    then have even: "?n div 2 ^ h mod 2 = 0" by simp
    have "?n < ?n div 2 ^ h * 2 ^ h + 2 ^ h"
      using div_mult_mod_eq [of ?n "2 ^ h"] mod_less_divisor [of "2 ^ h" ?n]
      by (metis add_strict_left_mono zero_less_numeral zero_less_power)
    then have "subtree_root L ?p h (block_start ?n h + 2 ^ h) = zeroHashes L h"
      unfolding block_even [OF even] by (intro subtree_root_zero) (simp add: padded_def)
    with False h IH block_even [OF even] show ?thesis by (subst getRoot_loop.simps) simp
  qed
qed

lemma getRoot_merkle:
  assumes "tree_inv L tree leaves" and "length leaves < 2 ^ DEPOSIT_CONTRACT_TREE_DEPTH"
  shows "getRoot L tree = Inr (merkle_root L leaves)"
  using getRoot_loop_subtree [OF assms(1) _ assms(2), of 0] assms(1)
  by (simp add: getRoot_def merkle_root_def tree_inv_def padded_def)

section \<open>Insertion\<close>

lemma pow_dvd_Suc_digits:
  fixes n :: nat
  assumes "2 ^ h dvd Suc n" and "k < h"
  shows "n div 2 ^ k mod 2 = 1" and "block_start n k = Suc n - 2 ^ Suc k"
proof -
  have "(2::nat) ^ Suc k dvd 2 ^ h" using assms(2) by (intro le_imp_power_dvd) simp
  then obtain q where q: "Suc n = 2 ^ Suc k * q" using assms(1) by (metis dvd_def dvd_trans)
  then obtain r where r: "q = Suc r" by (cases q) auto
  have pos: "0 < (2::nat) ^ Suc k" by simp
  have div: "n div 2 ^ Suc k = r"
  proof (intro div_nat_eqI)
    show "2 ^ Suc k * r \<le> n" using pos q r by (simp only: mult_Suc_right)
    show "n < 2 ^ Suc k * Suc r" using q r by simp
  qed
  have pos': "0 < (2::nat) ^ k" by simp
  have "Suc n = 2 ^ k * (2 * r + 1) + 2 ^ k" using q r by (simp add: algebra_simps)
  with pos' have "2 ^ k * (2 * r + 1) \<le> n" "n < 2 ^ k * (2 * r + 1) + 2 ^ k" by linarith+
  then have "n div 2 ^ k = 2 * r + 1" by (intro div_nat_eqI) (simp_all only: mult_Suc_right add.commute)
  then show "n div 2 ^ k mod 2 = 1" by simp
  show "block_start n k = Suc n - 2 ^ Suc k" unfolding block_start_def div using q r by simp
qed

text \<open>
  At height \<open>h\<close> all lower digits of the old count are one, and the node is the root of
  the \<open>2^h\<close> leaves up to and with the new one.
\<close>

lemma formBranch_loop_subtree:
  assumes inv: "tree_inv L tree leaves" and len: "Suc (length leaves) < 2 ^ DEPOSIT_CONTRACT_TREE_DEPTH"
    and "h < DEPOSIT_CONTRACT_TREE_DEPTH" and "2 ^ h dvd Suc (length leaves)"
  shows "\<exists>k < DEPOSIT_CONTRACT_TREE_DEPTH. 2 ^ k dvd Suc (length leaves) \<and>
      Suc (length leaves) div 2 ^ k mod 2 = 1 \<and>
      formBranch_loop L (branch tree)
        (subtree_root L (padded (leaves @ [node])) h (Suc (length leaves) - 2 ^ h))
        (Suc (length leaves) div 2 ^ h) h
      = Inr (Some ((branch tree)(k \<mapsto> subtree_root L (padded (leaves @ [node])) k (Suc (length leaves) - 2 ^ k))))"
  using assms(3,4)
proof (induction "DEPOSIT_CONTRACT_TREE_DEPTH - h" arbitrary: h)
  case 0
  then show ?case by simp
next
  case (Suc d)
  let ?n = "length leaves" and ?p = "padded (leaves @ [node])"
  show ?case
  proof (cases "Suc ?n div 2 ^ h mod 2 = 1")
    case True
    with Suc.prems show ?thesis
      by (intro exI [of _ h]) (subst formBranch_loop.simps, simp)
  next
    case False
    from Suc.prems(2) obtain q where q: "Suc ?n = 2 ^ h * q" by blast
    with False have "even q" by (simp add: even_iff_mod_2_eq_zero)
    then obtain r where "q = 2 * r" by blast
    with q have "Suc ?n = 2 ^ Suc h * r" by simp
    then have dvd: "2 ^ Suc h dvd Suc ?n" by (rule dvdI)
    then have "2 ^ Suc h \<le> Suc ?n" by (rule dvd_imp_le) simp
    with len have "Suc h < DEPOSIT_CONTRACT_TREE_DEPTH"
      using power_less_imp_less_exp [of "2::nat" "Suc h"] by fastforce
    from pow_dvd_Suc_digits [OF dvd, of h]
    have odd: "?n div 2 ^ h mod 2 = 1" and start: "block_start ?n h = Suc ?n - 2 ^ Suc h" by simp_all
    have "branch tree h = Some (subtree_root L (padded leaves) h (block_start ?n h))"
      using inv odd Suc.prems(1) by (simp add: tree_inv_def)
    also have "subtree_root L (padded leaves) h (block_start ?n h) = subtree_root L ?p h (block_start ?n h)"
      unfolding start using \<open>2 ^ Suc h \<le> Suc ?n\<close>
      by (intro subtree_root_cong) (auto simp: padded_def nth_append)
    finally have br: "branch tree h = Some (subtree_root L ?p h (Suc ?n - 2 ^ Suc h))"
      unfolding start .
    have "Suc ?n - 2 ^ Suc h + 2 ^ h = Suc ?n - 2 ^ h" using \<open>2 ^ Suc h \<le> Suc ?n\<close> by simp
    then have node: "digest2Bytes32 L (subtree_root L ?p h (Suc ?n - 2 ^ Suc h)) (subtree_root L ?p h (Suc ?n - 2 ^ h))
        = subtree_root L ?p (Suc h) (Suc ?n - 2 ^ Suc h)" by simp
    have step: "formBranch_loop L (branch tree) (subtree_root L ?p h (Suc ?n - 2 ^ h)) (Suc ?n div 2 ^ h) h
       = formBranch_loop L (branch tree) (subtree_root L ?p (Suc h) (Suc ?n - 2 ^ Suc h)) (Suc ?n div 2 ^ Suc h) (Suc h)"
      using False Suc.prems(1) node unfolding div_pow_Suc
      by (subst formBranch_loop.simps) (simp add: br del: subtree_root.simps power_Suc)
    show ?thesis unfolding step
      using Suc.hyps(1) [of "Suc h"] Suc.hyps(2) \<open>Suc h < DEPOSIT_CONTRACT_TREE_DEPTH\<close> dvd by simp
  qed
qed

text \<open>Of a number whose lowest bit is the bit \<open>k\<close>: the bits below, and the bits above of its predecessor.\<close>

lemma below_lowest_bit: "2 ^ k dvd (m::nat) \<Longrightarrow> h < k \<Longrightarrow> m div 2 ^ h mod 2 = 0"
proof -
  assume "2 ^ k dvd m" "h < k"
  then have "2 ^ Suc h dvd m" by (meson Suc_leI dvd_trans le_imp_power_dvd)
  then obtain q where "m = 2 ^ h * (2 * q)" by (auto simp: dvd_def)
  then have "m div 2 ^ h = 2 * q" by simp
  then show ?thesis by simp
qed

lemma above_lowest_bit:
  assumes "Suc n div 2 ^ k mod 2 = 1" and "k < m"
  shows "Suc n div 2 ^ m = n div 2 ^ m"
proof -
  have "\<not> 2 ^ m dvd Suc n" using below_lowest_bit [OF _ assms(2)] assms(1) by fastforce
  then show ?thesis by (simp add: div_Suc dvd_eq_mod_eq_0)
qed

lemma tree_inv_insert:
  assumes inv: "tree_inv L tree leaves" and len: "Suc (length leaves) < 2 ^ DEPOSIT_CONTRACT_TREE_DEPTH"
  shows "\<exists>tree'. insertNode L tree node (length leaves) = (Inr True, tree') \<and>
    tree_inv L tree' (leaves @ [node])"
proof -
  let ?n = "length leaves" and ?p = "padded (leaves @ [node])"
  have leaf: "subtree_root L ?p 0 (Suc ?n - 2 ^ 0) = node" by (simp add: padded_def)
  obtain k where k: "k < DEPOSIT_CONTRACT_TREE_DEPTH" "2 ^ k dvd Suc ?n" "Suc ?n div 2 ^ k mod 2 = 1"
    and fb: "formBranch_loop L (branch tree) node (Suc ?n) 0
      = Inr (Some ((branch tree)(k \<mapsto> subtree_root L ?p k (Suc ?n - 2 ^ k))))"
    using formBranch_loop_subtree [OF inv len, of 0 node] unfolding leaf
    by (auto simp: DEPOSIT_CONTRACT_TREE_DEPTH_def)
  define tree' where "tree' = tree\<lparr>nodeCount := Suc ?n,
      branch := (branch tree)(k \<mapsto> subtree_root L ?p k (Suc ?n - 2 ^ k))\<rparr>"
  have ins: "insertNode L tree node ?n = (Inr True, tree')"
    using inv fb by (simp add: insertNode_def tree_inv_def formBranch_def tree'_def)
  have "branch tree' h = Some (subtree_root L ?p h (block_start (Suc ?n) h))"
    if h: "h < DEPOSIT_CONTRACT_TREE_DEPTH" and odd: "Suc ?n div 2 ^ h mod 2 = 1" for h
  proof (cases h k rule: linorder_cases)
    case less
    from below_lowest_bit [OF k(2) less] odd show ?thesis by simp
  next
    case equal
    have "block_start (Suc ?n) k + 2 ^ k = Suc ?n"
      using block_odd [OF k(3)] k(2) by simp
    then have "block_start (Suc ?n) k = Suc ?n - 2 ^ k" by simp
    with equal show ?thesis by (simp add: tree'_def)
  next
    case greater
    note q = above_lowest_bit [OF k(3)]
    have bs: "block_start (Suc ?n) h = block_start ?n h"
      using q [of "Suc h"] greater by (simp add: block_start_def)
    have "block_start ?n h + 2 ^ h \<le> ?n"
      using block_odd [of ?n h] odd q [of h] greater
      by (metis div_times_less_eq_dividend)
    then have "subtree_root L (padded leaves) h (block_start ?n h) = subtree_root L ?p h (block_start ?n h)"
      by (intro subtree_root_cong) (auto simp: padded_def nth_append)
    moreover have "branch tree h = Some (subtree_root L (padded leaves) h (block_start ?n h))"
      using inv h odd q [of h] greater by (simp add: tree_inv_def)
    ultimately show ?thesis using greater bs by (simp add: tree'_def)
  qed
  then have "tree_inv L tree' (leaves @ [node])" by (simp add: tree_inv_def tree'_def)
  with ins show ?thesis by blast
qed

lemma insertNode_rejects: "i \<noteq> nodeCount tree \<Longrightarrow> insertNode L tree node i = (Inr False, tree)"
  by (simp add: insertNode_def)

end
