(* ===== verification/Level_DB.thy ===== *)
theory Level_DB
  imports JS_Prelude
begin

text \<open>
  The interface of the key-value store (\<open>level\<close>) the two registries keep their caches in.
  The package is not part of the repository: its operations are the fields of \<open>level\<close>, an
  argument of the stores, and \<open>level_laws\<close> states what its documentation promises: an
  ordered map from keys to values, atomic batches, iterators in key order. A database of
  sorted association lists shows that the laws can hold.
\<close>

datatype 'v level_op = PutOp string 'v | DelOp string

record level_range =
  rg_gte :: string
  rg_upper :: string
  rg_inclusive :: bool

definition in_range :: "level_range \<Rightarrow> string \<Rightarrow> bool" where
  "in_range r k \<longleftrightarrow> rg_gte r \<le> k \<and> (if rg_inclusive r then k \<le> rg_upper r else k < rg_upper r)"

record ('db, 'v) level =
  level_get :: "'db \<Rightarrow> string \<Rightarrow> js_error + 'v"
  level_put :: "string \<Rightarrow> 'v \<Rightarrow> 'db \<Rightarrow> 'db"
  level_batch :: "'v level_op list \<Rightarrow> 'db \<Rightarrow> 'db"
  level_clear :: "'db \<Rightarrow> 'db"
  level_iterator :: "level_range \<Rightarrow> 'db \<Rightarrow> (string \<times> 'v) list"

definition contents :: "('db, 'v) level \<Rightarrow> 'db \<Rightarrow> string \<rightharpoonup> 'v" where
  "contents L db k = (case level_get L db k of Inr v \<Rightarrow> Some v | Inl e \<Rightarrow> None)"

fun apply_op :: "'v level_op \<Rightarrow> (string \<rightharpoonup> 'v) \<Rightarrow> (string \<rightharpoonup> 'v)" where
  "apply_op (PutOp k v) m = m(k \<mapsto> v)"
| "apply_op (DelOp k) m = m(k := None)"

definition level_laws :: "('db, 'v) level \<Rightarrow> bool" where
  "level_laws L \<longleftrightarrow>
     (\<forall>db k e. level_get L db k = Inl e \<longrightarrow> e = LevelNotFound) \<and>
     (\<forall>db k v. contents L (level_put L k v db) = (contents L db)(k \<mapsto> v)) \<and>
     (\<forall>db ops. contents L (level_batch L ops db) = fold apply_op ops (contents L db)) \<and>
     (\<forall>db. contents L (level_clear L db) = Map.empty) \<and>
     (\<forall>db r. sorted_wrt (<) (map fst (level_iterator L r db)) \<and>
        set (level_iterator L r db) = {(k, v). contents L db k = Some v \<and> in_range r k})"

named_theorems level_simps "what the laws of the store say of one call"

lemma level_get_contents [level_simps]:
  "level_laws L \<Longrightarrow> level_get L db k = (case contents L db k of None \<Rightarrow> Inl LevelNotFound | Some v \<Rightarrow> Inr v)"
  by (cases "level_get L db k") (auto simp: level_laws_def contents_def)

lemma contents_put [level_simps]:
  "level_laws L \<Longrightarrow> contents L (level_put L k v db) = (contents L db)(k \<mapsto> v)"
  by (simp add: level_laws_def)

lemma contents_batch [level_simps]:
  "level_laws L \<Longrightarrow> contents L (level_batch L ops db) = fold apply_op ops (contents L db)"
  by (simp add: level_laws_def)

lemma contents_clear [level_simps]: "level_laws L \<Longrightarrow> contents L (level_clear L db) = Map.empty"
  by (simp add: level_laws_def)

lemma iterator_sorted: "level_laws L \<Longrightarrow> sorted_wrt (<) (map fst (level_iterator L r db))"
  by (simp add: level_laws_def)

lemma set_iterator:
  "level_laws L \<Longrightarrow> set (level_iterator L r db) = {(k, v). contents L db k = Some v \<and> in_range r k}"
  by (simp add: level_laws_def)

text \<open>
  An iterator is determined by what it must contain: the entries in key order.
\<close>

lemma sorted_pairs_unique:
  fixes xs :: "('k::linorder \<times> 'v) list"
  assumes xs: "sorted_wrt (<) (map fst xs)" and ys: "sorted_wrt (<) (map fst ys)"
    and set: "set xs = set ys"
  shows "xs = ys"
proof (rule map_inj_on [where f = fst])
  have "set (map fst ys) = set (map fst xs)" using set by simp
  then show "map fst xs = map fst ys" using strict_sorted_equal [OF xs ys] by simp
  have "distinct (map fst xs)" using xs strict_sorted_iff by blast
  then show "inj_on fst (set xs \<union> set ys)" using set by (simp add: distinct_map)
qed

lemma iterator_eqI:
  assumes "level_laws L" "sorted_wrt (<) (map fst xs)"
    and "set xs = {(k, v). contents L db k = Some v \<and> in_range r k}"
  shows "level_iterator L r db = xs"
  by (rule sorted_pairs_unique [OF iterator_sorted [OF assms(1)] assms(2)])
    (simp add: set_iterator [OF assms(1)] assms(3))

lemma fold_apply_op_other:
  "(\<forall>oper\<in>set ops. \<forall>v. oper \<noteq> PutOp k v \<and> oper \<noteq> DelOp k) \<Longrightarrow> fold apply_op ops m k = m k"
proof (induction ops arbitrary: m)
  case Nil
  then show ?case by simp
next
  case (Cons oper ops)
  then have "apply_op oper m k = m k" by (cases oper) auto
  with Cons show ?case by simp
qed

lemma fold_del_ops:
  "fold apply_op (map DelOp ks) m = (\<lambda>k. if k \<in> set ks then None else m k)"
  by (induction ks arbitrary: m) auto

lemma fold_put_ops_other:
  "k \<notin> f ` set xs \<Longrightarrow> fold apply_op (map (\<lambda>x. PutOp (f x) (g x)) xs) m k = m k"
  by (rule fold_apply_op_other) auto

lemma fold_put_ops_cases:
  assumes "fold apply_op (map (\<lambda>x. PutOp (f x) (g x)) xs) m k = Some v"
  obtains (put) x where "x \<in> set xs" "k = f x" "v = g x" | (old) "k \<notin> f ` set xs" "m k = Some v"
  using assms
proof (induction xs arbitrary: thesis rule: rev_induct)
  case Nil
  then show ?case by simp
next
  case (snoc x xs)
  show ?case
  proof (cases "k = f x")
    case True
    with snoc.prems(3) show ?thesis by (intro snoc.prems(1) [of x]) simp_all
  next
    case False
    with snoc.prems(3) have "fold apply_op (map (\<lambda>x. PutOp (f x) (g x)) xs) m k = Some v" by simp
    then show ?thesis by (rule snoc.IH [rotated 2]) (use False snoc.prems(1,2) in auto)
  qed
qed

lemma fold_put_ops_in:
  "distinct (map f xs) \<Longrightarrow> x \<in> set xs \<Longrightarrow>
   fold apply_op (map (\<lambda>x. PutOp (f x) (g x)) xs) m (f x) = Some (g x)"
proof (induction xs arbitrary: m)
  case Nil
  then show ?case by simp
next
  case (Cons y xs)
  show ?case
  proof (cases "x = y")
    case True
    with Cons.prems have "f x \<notin> f ` set xs" by auto
    with True show ?thesis by (simp add: fold_put_ops_other)
  next
    case False
    with Cons show ?thesis by simp
  qed
qed

text \<open>
  The range from a string to the string followed by the greatest character holds exactly the
  keys with that prefix, when the keys do not use the greatest character.
\<close>

definition prefixRange :: "string \<Rightarrow> level_range" where
  "prefixRange p = \<lparr>rg_gte = p, rg_upper = p @ [CHR 0xFF], rg_inclusive = True\<rparr>"

lemma char_le_xFF: "(c::char) \<le> CHR 0xFF"
proof -
  have "(of_char c :: nat) \<le> 255" using nat_of_char_less_256 [of c] by linarith
  then show ?thesis by (simp add: less_eq_char_def)
qed

lemma in_prefixRange:
  assumes "CHR 0xFF \<notin> set k"
  shows "in_range (prefixRange p) k \<longleftrightarrow> (\<exists>r. k = p @ r)"
  using assms
proof (induction p arbitrary: k)
  case Nil
  have "k \<le> [CHR 0xFF]"
  proof (cases k)
    case (Cons c cs)
    with Nil have "c < CHR 0xFF" using char_le_xFF [of c] by (auto simp: order_le_less)
    with Cons show ?thesis by simp
  qed simp
  then show ?case by (simp add: in_range_def prefixRange_def)
next
  case (Cons x p)
  show ?case
  proof (cases k)
    case Nil
    then show ?thesis by (simp add: in_range_def prefixRange_def)
  next
    case (Cons c cs)
    with Cons.prems have "CHR 0xFF \<notin> set cs" by simp
    from Cons.IH [OF this] have IH: "(p \<le> cs \<and> cs \<le> p @ [CHR 0xFF]) = (\<exists>r. cs = p @ r)"
      by (simp add: in_range_def prefixRange_def)
    show ?thesis
    proof (cases "c = x")
      case True
      with Cons IH show ?thesis by (simp add: in_range_def prefixRange_def)
    next
      case False
      with Cons show ?thesis by (auto simp: in_range_def prefixRange_def)
    qed
  qed
qed

section \<open>A store that obeys the laws\<close>

type_synonym 'v ref_db = "(string \<times> 'v) list"

fun ref_op :: "'v level_op \<Rightarrow> 'v ref_db \<Rightarrow> 'v ref_db" where
  "ref_op (PutOp k v) db = AList.update k v db"
| "ref_op (DelOp k) db = AList.delete k db"

definition ref_level :: "('v ref_db, 'v) level" where
  "ref_level =
     \<lparr>level_get = (\<lambda>db k. case map_of db k of None \<Rightarrow> Inl LevelNotFound | Some v \<Rightarrow> Inr v),
      level_put = AList.update,
      level_batch = fold ref_op,
      level_clear = (\<lambda>db. []),
      level_iterator = (\<lambda>r db. map (\<lambda>k. (k, the (map_of db k)))
        (filter (in_range r) (sort (remdups (map fst db)))))\<rparr>"

lemma contents_ref [simp]: "contents ref_level db = map_of db"
  by (auto simp: contents_def ref_level_def fun_eq_iff split: option.splits)

lemma map_of_ref_op: "map_of (ref_op oper db) = apply_op oper (map_of db)"
  by (cases oper) (simp_all add: update_conv' delete_conv')

lemma map_of_ref_batch: "map_of (fold ref_op ops db) = fold apply_op ops (map_of db)"
  by (induction ops arbitrary: db) (simp_all add: map_of_ref_op)

lemma ref_iterator_sorted: "sorted_wrt (<) (map fst (level_iterator ref_level r db))"
  by (simp add: ref_level_def comp_def strict_sorted_iff sorted_filter [of "\<lambda>x. x", simplified])

lemma ref_iterator_set:
  "set (level_iterator ref_level r db) = {(k, v). map_of db k = Some v \<and> in_range r k}"
proof -
  have "fst ` set db = dom (map_of db)" by (simp add: dom_map_of_conv_image_fst)
  then show ?thesis by (auto simp: ref_level_def dom_def)
qed

lemma ref_level_laws: "level_laws ref_level"
  unfolding level_laws_def contents_ref ref_iterator_set
  using ref_iterator_sorted
  by (auto simp: ref_level_def update_conv' map_of_ref_batch split: option.splits)

end
