(* ===== verification/Deposits_Store.thy ===== *)
theory Deposits_Store
  imports Level_DB Hex_Bytes
begin

text \<open>
  The store of deposit events (\<open>contracts/deposits-registry/store/store.service.ts\<close>): the
  key-value database, the cache in memory and the two counters behind the metrics.
  \<open>coherent\<close> says that a reload of the database gives the cache in memory; the operations
  of the store keep it. A JSON text is the value it stands for, one constructor per kind of
  text the store writes.
\<close>

section \<open>Data\<close>

record deposit_event =
  de_pubkey :: string
  de_wc :: string
  de_amount :: string
  de_signature :: string
  de_tx :: string
  de_blockNumber :: nat
  de_blockHash :: string
  de_logIndex :: nat
  de_index :: string
  de_depositCount :: nat
  de_depositDataRoot :: bytes

record verified_event = deposit_event +
  de_valid :: bool

record deposit_headers =
  hd_startBlock :: nat
  hd_endBlock :: nat

record deposit_cache =
  dc_headers :: deposit_headers
  dc_data :: "verified_event list"
  dc_lastValidEvent :: "verified_event option"

text \<open>
  The texts of the database: an event without its root, and the root as an array of
  numbers; or the headers.
\<close>

datatype deposit_json = JEvent verified_event "nat list" | JHeaders deposit_headers

record 'db deposit_store =
  ds_db :: 'db
  ds_cache :: deposit_cache
  ds_cacheSizeBytes :: nat
  ds_cacheEventCount :: nat
  ds_bytesGauge :: nat
  ds_countGauge :: nat

text \<open>What the store is constructed with.\<close>

record 'db deposit_store_env =
  se_level :: "('db, deposit_json) level"
  se_byteLength :: "deposit_json \<Rightarrow> nat"
  se_default :: deposit_cache

definition DEPOSIT_CACHE_DEFAULT :: deposit_cache where
  "DEPOSIT_CACHE_DEFAULT =
     \<lparr>dc_headers = \<lparr>hd_startBlock = 0, hd_endBlock = 0\<rparr>, dc_data = [], dc_lastValidEvent = None\<rparr>"

definition MAX_DEPOSIT_COUNT :: int where
  "MAX_DEPOSIT_COUNT = 2 ^ 32"

section \<open>Operations\<close>

definition getDefaultCachedValue :: "'db deposit_store_env \<Rightarrow> deposit_cache" where
  "getDefaultCachedValue E = se_default E"

definition generateDepositKey :: "int \<Rightarrow> js_error + string" where
  "generateDepositKey number =
     (if number < 0 \<or> number > MAX_DEPOSIT_COUNT then
        Inl (Error (''Deposit count is out of the valid range (0 to '' @ int_string MAX_DEPOSIT_COUNT
             @ '') received '' @ int_string number))
      else bindR (writeUInt32BE number) (\<lambda>index. Inr (''deposit:'' @ toHex index)))"

definition parseDepositEvent :: "deposit_json \<Rightarrow> js_error + verified_event" where
  "parseDepositEvent text =
     (case text of
        JEvent rest root \<Rightarrow> Inr (rest\<lparr>de_depositDataRoot := map of_nat root\<rparr>)
      | JHeaders h \<Rightarrow> Inl TypeError)"

definition parseHeaders :: "deposit_json \<Rightarrow> js_error + deposit_headers" where
  "parseHeaders text = (case text of JHeaders h \<Rightarrow> Inr h | JEvent e r \<Rightarrow> Inl TypeError)"

definition eventText :: "verified_event \<Rightarrow> deposit_json" where
  "eventText e = JEvent (e\<lparr>de_depositDataRoot := []\<rparr>) (map unat (de_depositDataRoot e))"

definition updateCacheMetrics :: "'db deposit_store \<Rightarrow> 'db deposit_store" where
  "updateCacheMetrics s = s\<lparr>ds_bytesGauge := ds_cacheSizeBytes s, ds_countGauge := ds_cacheEventCount s\<rparr>"

definition trackValue :: "'db deposit_store_env \<Rightarrow> deposit_json \<Rightarrow> 'db deposit_store \<Rightarrow> 'db deposit_store" where
  "trackValue E value s =
     s\<lparr>ds_cacheSizeBytes := ds_cacheSizeBytes s + se_byteLength E value,
       ds_cacheEventCount := ds_cacheEventCount s + 1\<rparr>"

definition serializeDepositEvent ::
  "'db deposit_store_env \<Rightarrow> verified_event \<Rightarrow> bool \<Rightarrow> ('db deposit_store, unit, deposit_json) comp" where
  "serializeDepositEvent E e trackCacheMetrics =
     andThen (if trackCacheMetrics
              then modifyS (\<lambda>s. updateCacheMetrics (trackValue E (eventText e) s))
              else ret ())
       (\<lambda>_. ret (eventText e))"

definition getLastValidEvent ::
  "'db deposit_store_env \<Rightarrow> ('db deposit_store, unit, verified_event option) comp" where
  "getLastValidEvent E =
     catchE
       (andThen getS (\<lambda>s.
        andThen (liftR (level_get (se_level E) (ds_db s) ''last-valid-event'')) (\<lambda>text.
        andThen (liftR (parseDepositEvent text)) (\<lambda>e. ret (Some e)))))
       (\<lambda>error. if error = LevelNotFound then ret None else raise error)"

definition depositRange :: level_range where
  "depositRange = \<lparr>rg_gte = ''deposit:'', rg_upper = ''deposit:'' @ [CHR 0xFF], rg_inclusive = True\<rparr>"

text \<open>\<open>getEventsFromDB\<close>, with the read of the rows and of the rest named.\<close>

definition readRow ::
  "'db deposit_store_env \<Rightarrow> string \<times> deposit_json \<Rightarrow> ('db deposit_store, unit, verified_event) comp" where
  "readRow E row =
     andThen (modifyS (trackValue E (snd row))) (\<lambda>_. liftR (parseDepositEvent (snd row)))"

definition getEventsFromDB ::
  "'db deposit_store_env \<Rightarrow> ('db deposit_store, unit, deposit_cache) comp" where
  "getEventsFromDB E =
     catchE
       (andThen getS (\<lambda>s0.
        andThen (modifyS (\<lambda>s. s\<lparr>ds_cacheSizeBytes := 0, ds_cacheEventCount := 0\<rparr>)) (\<lambda>_.
        andThen (mapM (readRow E) (level_iterator (se_level E) depositRange (ds_db s0))) (\<lambda>data.
        andThen (modifyS updateCacheMetrics) (\<lambda>_.
        andThen (liftR (level_get (se_level E) (ds_db s0) ''headers'')) (\<lambda>text.
        andThen (liftR (parseHeaders text)) (\<lambda>headers.
        andThen (getLastValidEvent E) (\<lambda>lastValidEvent.
          ret \<lparr>dc_headers = headers, dc_data = data, dc_lastValidEvent = lastValidEvent\<rparr>))))))))
       (\<lambda>error. if error = LevelNotFound then ret (getDefaultCachedValue E) else raise error)"

definition setupEventsCache :: "'db deposit_store_env \<Rightarrow> ('db deposit_store, unit, unit) comp" where
  "setupEventsCache E =
     andThen (getEventsFromDB E) (\<lambda>cache. modifyS (\<lambda>s. s\<lparr>ds_cache := cache\<rparr>))"

definition getEventsCache :: "('db deposit_store, unit, deposit_cache) comp" where
  "getEventsCache = andThen getS (\<lambda>s. ret (ds_cache s))"

definition formDepositEventHeaderForDeletion ::
  "'db deposit_store_env \<Rightarrow> nat option \<Rightarrow> ('db deposit_store, unit, deposit_headers) comp" where
  "formDepositEventHeaderForDeletion E lastValidEventBlockNumber =
     andThen getEventsCache (\<lambda>cache.
       let endBlock = (case lastValidEventBlockNumber of
                         Some n \<Rightarrow> n
                       | None \<Rightarrow> hd_endBlock (dc_headers (getDefaultCachedValue E)));
           headers = (dc_headers cache)\<lparr>hd_endBlock := endBlock\<rparr>
       in if hd_endBlock headers < hd_startBlock headers
          then raise (Error ''Deposit header is not valid'')
          else ret headers)"

definition deleteDepositsGreaterThanOrEqualNBatch ::
  "'db deposit_store_env \<Rightarrow> int \<Rightarrow> deposit_headers \<Rightarrow> ('db deposit_store, unit, unit) comp" where
  "deleteDepositsGreaterThanOrEqualNBatch E depositCount headers =
     andThen (liftR (generateDepositKey depositCount)) (\<lambda>upperBoundKey.
     andThen getS (\<lambda>s.
       let range = \<lparr>rg_gte = upperBoundKey, rg_upper = ''deposit:'' @ [CHR 0xFF], rg_inclusive = False\<rparr>;
           ops = map (\<lambda>row. DelOp (fst row)) (level_iterator (se_level E) range (ds_db s))
       in andThen
            (if ops \<noteq> [] then
               modifyS (\<lambda>s. s\<lparr>ds_db := level_batch (se_level E)
                 (ops @ [PutOp ''headers'' (JHeaders headers), DelOp ''last-valid-event'']) (ds_db s)\<rparr>)
             else modifyS (\<lambda>s. s\<lparr>ds_db := level_put (se_level E) ''headers'' (JHeaders headers) (ds_db s)\<rparr>))
            (\<lambda>_. setupEventsCache E)))"

text \<open>The scan of \<open>validateAndCleanInconsistentCache\<close>: the index of the last event in order.\<close>

fun lastOrderedIndex :: "verified_event list \<Rightarrow> nat \<Rightarrow> int \<Rightarrow> int" where
  "lastOrderedIndex [] expectedIndex lastValidEventIndex = lastValidEventIndex"
| "lastOrderedIndex (e # es) expectedIndex lastValidEventIndex =
     (if de_depositCount e = expectedIndex
      then lastOrderedIndex es (expectedIndex + 1) (int (de_depositCount e))
      else lastValidEventIndex)"

definition validateAndCleanInconsistentCache ::
  "'db deposit_store_env \<Rightarrow> ('db deposit_store, unit, unit) comp" where
  "validateAndCleanInconsistentCache E =
     andThen getEventsCache (\<lambda>currentCache.
       let lastValidEventIndex = lastOrderedIndex (dc_data currentCache) 0 (-1);
           lastValidEvent = (if lastValidEventIndex < 0 then None
                             else Some (dc_data currentCache ! nat lastValidEventIndex))
       in andThen (formDepositEventHeaderForDeletion E (map_option de_blockNumber lastValidEvent)) (\<lambda>headers.
          deleteDepositsGreaterThanOrEqualNBatch E (lastValidEventIndex + 1) headers))"

definition clearFromLastValidEvent :: "'db deposit_store_env \<Rightarrow> ('db deposit_store, unit, unit) comp" where
  "clearFromLastValidEvent E =
     andThen (getLastValidEvent E) (\<lambda>lastValidEvent.
       let fromIndex = (case lastValidEvent of Some e \<Rightarrow> int (de_depositCount e) + 1 | None \<Rightarrow> 0)
       in andThen (formDepositEventHeaderForDeletion E (map_option de_blockNumber lastValidEvent)) (\<lambda>headers.
          deleteDepositsGreaterThanOrEqualNBatch E fromIndex headers))"

definition insertOp ::
  "'db deposit_store_env \<Rightarrow> verified_event \<Rightarrow> ('db deposit_store, unit, deposit_json level_op) comp" where
  "insertOp E e =
     andThen (liftR (generateDepositKey (int (de_depositCount e)))) (\<lambda>key.
     andThen (serializeDepositEvent E e True) (\<lambda>value. ret (PutOp key value)))"

definition insertEventsCacheBatch ::
  "'db deposit_store_env \<Rightarrow> verified_event list \<Rightarrow> deposit_headers \<Rightarrow> ('db deposit_store, unit, unit) comp" where
  "insertEventsCacheBatch E data headers =
     andThen (mapM (insertOp E) data) (\<lambda>ops.
     andThen (modifyS (\<lambda>s. s\<lparr>ds_db :=
       level_batch (se_level E) (ops @ [PutOp ''headers'' (JHeaders headers)]) (ds_db s)\<rparr>)) (\<lambda>_.
     modifyS (\<lambda>s. s\<lparr>ds_cache := (ds_cache s)\<lparr>dc_data := dc_data (ds_cache s) @ data,
                                                    dc_headers := headers\<rparr>\<rparr>)))"

definition insertLastValidEvent ::
  "'db deposit_store_env \<Rightarrow> verified_event \<Rightarrow> ('db deposit_store, unit, unit) comp" where
  "insertLastValidEvent E e =
     andThen (serializeDepositEvent E e False) (\<lambda>value.
     andThen (modifyS (\<lambda>s. s\<lparr>ds_db := level_put (se_level E) ''last-valid-event'' value (ds_db s)\<rparr>)) (\<lambda>_.
     modifyS (\<lambda>s. s\<lparr>ds_cache := (ds_cache s)\<lparr>dc_lastValidEvent := Some e\<rparr>\<rparr>)))"

definition deleteCache :: "'db deposit_store_env \<Rightarrow> ('db deposit_store, unit, unit) comp" where
  "deleteCache E =
     modifyS (\<lambda>s. updateCacheMetrics (s\<lparr>ds_db := level_clear (se_level E) (ds_db s),
       ds_cache := getDefaultCachedValue E, ds_cacheSizeBytes := 0, ds_cacheEventCount := 0\<rparr>))"

definition setCachedEvents ::
  "'db deposit_store_env \<Rightarrow> deposit_cache \<Rightarrow> ('db deposit_store, unit, unit) comp" where
  "setCachedEvents E cachedEvents =
     andThen (deleteCache E) (\<lambda>_.
     andThen (insertEventsCacheBatch E (dc_data cachedEvents) (dc_headers cachedEvents)) (\<lambda>_.
     modifyS (\<lambda>s. s\<lparr>ds_cache := (ds_cache s)\<lparr>dc_data := dc_data (ds_cache s) @ dc_data cachedEvents,
                                                    dc_headers := dc_headers cachedEvents\<rparr>\<rparr>)))"

text \<open>\<open>initialize\<close>; opening the database itself is the parameter \<open>ds_db\<close> of the state.\<close>

definition initializeStore :: "'db deposit_store_env \<Rightarrow> ('db deposit_store, unit, unit) comp" where
  "initializeStore E =
     andThen (setupEventsCache E) (\<lambda>_. validateAndCleanInconsistentCache E)"


section \<open>Keys and texts\<close>

definition depositKey :: "nat \<Rightarrow> string" where
  "depositKey n = ''deposit:'' @ fixed_hex 8 n"

lemma generateDepositKey_ok:
  "n < 2 ^ 32 \<Longrightarrow> generateDepositKey (int n) = Inr (depositKey n)"
  using toHex_writeUInt32BE [of "int n"]
  by (auto simp: generateDepositKey_def depositKey_def MAX_DEPOSIT_COUNT_def)

lemma generateDepositKey_error:
  "generateDepositKey i = Inl e \<longleftrightarrow>
     (i < 0 \<or> 2 ^ 32 < i) \<and> e = Error (''Deposit count is out of the valid range (0 to '' @
        int_string (2 ^ 32) @ '') received '' @ int_string i)
     \<or> i = 2 ^ 32 \<and> e = RangeError"
  by (auto simp: generateDepositKey_def MAX_DEPOSIT_COUNT_def writeUInt32BE_def)

lemma depositKey_less: "m < 2 ^ 32 \<Longrightarrow> n < 2 ^ 32 \<Longrightarrow> depositKey m < depositKey n \<longleftrightarrow> m < n"
  using fixed_hex_less [of m 8 n] by (simp add: depositKey_def)

lemma depositKey_inj: "m < 2 ^ 32 \<Longrightarrow> n < 2 ^ 32 \<Longrightarrow> depositKey m = depositKey n \<longleftrightarrow> m = n"
  using fixed_hex_inj [of m 8 n] by (simp add: depositKey_def)

lemma fixed_hex_below_xFF: "fixed_hex 8 n < [CHR 0xFF]"
proof -
  obtain c cs where c: "fixed_hex 8 n = c # cs"
    using length_fixed_hex [of 8 n] by (cases "fixed_hex 8 n") simp_all
  then obtain d where "d < 16" "c = hex_digit d" using fixed_hex_chars [of c 8 n] by auto
  with c show ?thesis by (simp add: less_char_def of_char_hex_digit)
qed

lemma depositKey_in_range [simp]: "in_range depositRange (depositKey n)"
  using fixed_hex_below_xFF [of n] by (simp add: in_range_def depositRange_def depositKey_def less_imp_le)

lemma key_in_tail_range:
  "m < 2 ^ 32 \<Longrightarrow> n < 2 ^ 32 \<Longrightarrow>
   in_range \<lparr>rg_gte = depositKey m, rg_upper = ''deposit:'' @ [CHR 0xFF], rg_inclusive = False\<rparr> (depositKey n)
     \<longleftrightarrow> m \<le> n"
  using fixed_hex_below_xFF [of n] depositKey_less [of n m] depositKey_inj [of m n]
  by (auto simp: in_range_def depositKey_def not_less [symmetric])

lemma depositKey_neq [simp]:
  "depositKey n \<noteq> ''headers''" "depositKey n \<noteq> ''last-valid-event''"
  "''headers'' \<noteq> depositKey n" "''last-valid-event'' \<noteq> depositKey n"
  by (simp_all add: depositKey_def)

lemma parse_eventText [simp]: "parseDepositEvent (eventText e) = Inr e"
  by (simp add: parseDepositEvent_def eventText_def comp_def)

lemma eventText_inj: "eventText e = eventText f \<longleftrightarrow> e = f"
  by (metis parse_eventText sum.inject(2))

lemma parseHeaders_JHeaders [simp]: "parseHeaders (JHeaders h) = Inr h"
  by (simp add: parseHeaders_def)


section \<open>The cache in memory and the database\<close>

definition db_events :: "(string \<rightharpoonup> deposit_json) \<Rightarrow> verified_event set" where
  "db_events m = {e. de_depositCount e < 2 ^ 32 \<and> m (depositKey (de_depositCount e)) = Some (eventText e)}"

definition db_wf :: "(string \<rightharpoonup> deposit_json) \<Rightarrow> bool" where
  "db_wf m \<longleftrightarrow> (\<forall>k v. m k = Some v \<longrightarrow> in_range depositRange k \<longrightarrow>
     (\<exists>e. de_depositCount e < 2 ^ 32 \<and> k = depositKey (de_depositCount e) \<and> v = eventText e))"

definition data_of :: "verified_event list \<Rightarrow> (string \<rightharpoonup> deposit_json) \<Rightarrow> bool" where
  "data_of es m \<longleftrightarrow> db_wf m \<and> sorted_wrt (<) (map de_depositCount es) \<and> set es = db_events m"

definition coherent :: "'db deposit_store_env \<Rightarrow> 'db deposit_store \<Rightarrow> bool" where
  "coherent E s \<longleftrightarrow>
     (let m = contents (se_level E) (ds_db s); c = ds_cache s in
        data_of (dc_data c) m \<and> ds_cacheEventCount s = length (dc_data c) \<and>
        m ''last-valid-event'' = map_option eventText (dc_lastValidEvent c) \<and>
        (case m ''headers'' of Some v \<Rightarrow> v = JHeaders (dc_headers c) | None \<Rightarrow> c = se_default E))"

lemma coherentD:
  assumes "coherent E s"
  shows "data_of (dc_data (ds_cache s)) (contents (se_level E) (ds_db s))"
    and "contents (se_level E) (ds_db s) ''last-valid-event'' = map_option eventText (dc_lastValidEvent (ds_cache s))"
    and "ds_cacheEventCount s = length (dc_data (ds_cache s))"
  using assms by (simp_all add: coherent_def Let_def)

lemma data_of_keys_sorted:
  assumes "sorted_wrt (<) (map de_depositCount es)" "\<forall>e\<in>set es. de_depositCount e < 2 ^ 32"
  shows "sorted_wrt (<) (map (\<lambda>e. depositKey (de_depositCount e)) es)"
  using assms by (auto simp: sorted_wrt_map depositKey_less elim!: sorted_wrt_mono_rel [rotated])

lemma db_rows:
  assumes "level_laws L" "data_of es (contents L db)"
  shows "level_iterator L depositRange db = map (\<lambda>e. (depositKey (de_depositCount e), eventText e)) es"
proof (rule iterator_eqI [OF assms(1)])
  from assms(2) have d: "db_wf (contents L db)" "sorted_wrt (<) (map de_depositCount es)"
    "set es = db_events (contents L db)" by (simp_all add: data_of_def)
  then have "\<forall>e\<in>set es. de_depositCount e < 2 ^ 32" by (simp add: db_events_def)
  from data_of_keys_sorted [OF d(2) this]
  show "sorted_wrt (<) (map fst (map (\<lambda>e. (depositKey (de_depositCount e), eventText e)) es))"
    by (simp add: comp_def)
  show "set (map (\<lambda>e. (depositKey (de_depositCount e), eventText e)) es)
    = {(k, v). contents L db k = Some v \<and> in_range depositRange k}"
    using d(1) unfolding set_map d(3) by (fastforce simp: db_events_def db_wf_def)
qed

lemma getLastValidEvent_eq:
  assumes "level_laws (se_level E)"
    and "contents (se_level E) (ds_db s) ''last-valid-event'' = map_option eventText l"
  shows "getLastValidEvent E s = (Inr l, s, [])"
  using assms by (cases l) (simp_all add: getLastValidEvent_def catchE_def level_simps)

definition loaded :: "'db deposit_store_env \<Rightarrow> verified_event list \<Rightarrow> 'db deposit_store \<Rightarrow> 'db deposit_store" where
  "loaded E es s = updateCacheMetrics
     (fold (\<lambda>e. trackValue E (eventText e)) es (s\<lparr>ds_cacheSizeBytes := 0, ds_cacheEventCount := 0\<rparr>))"

lemma updateCacheMetrics_fields [simp]:
  "ds_db (updateCacheMetrics s) = ds_db s" "ds_cache (updateCacheMetrics s) = ds_cache s"
  "ds_cacheEventCount (updateCacheMetrics s) = ds_cacheEventCount s"
  by (simp_all add: updateCacheMetrics_def)

lemma trackValue_fields [simp]:
  "ds_db (trackValue E v s) = ds_db s" "ds_cache (trackValue E v s) = ds_cache s"
  "ds_cacheEventCount (trackValue E v s) = Suc (ds_cacheEventCount s)"
  by (simp_all add: trackValue_def)

lemma loaded_fields [simp]:
  "ds_db (loaded E es s) = ds_db s" "ds_cache (loaded E es s) = ds_cache s"
  "ds_cacheEventCount (loaded E es s) = length es"
proof -
  have "ds_cacheEventCount (fold (\<lambda>e. trackValue E (eventText e)) es t) = ds_cacheEventCount t + length es" for t
    by (induction es arbitrary: t) simp_all
  then show "ds_cacheEventCount (loaded E es s) = length es" by (simp add: loaded_def)
qed (simp_all add: loaded_def fold_keeps [where f = ds_db] fold_keeps [where f = ds_cache])

lemma readRows:
  "mapM (readRow E) (map (\<lambda>e. (depositKey (de_depositCount e), eventText e)) es) s
   = (Inr es, fold (\<lambda>e. trackValue E (eventText e)) es s, [])"
  by (induction es arbitrary: s) (simp_all add: readRow_def andThen_apply)

lemma getEventsFromDB_ok:
  assumes "level_laws (se_level E)" "data_of es (contents (se_level E) (ds_db s))"
    and "contents (se_level E) (ds_db s) ''headers'' = Some (JHeaders h)"
    and "contents (se_level E) (ds_db s) ''last-valid-event'' = map_option eventText l"
  shows "getEventsFromDB E s =
    (Inr \<lparr>dc_headers = h, dc_data = es, dc_lastValidEvent = l\<rparr>, loaded E es s, [])"
  using assms(3,4)
  by (simp add: getLastValidEvent_eq [OF assms(1), of "loaded E es s" l] getEventsFromDB_def catchE_def andThen_apply [of "mapM _ _"] db_rows [OF assms(1,2)] readRows
      level_get_contents [OF assms(1)] loaded_def [symmetric] andThen_apply [of "getLastValidEvent E"])

lemma getEventsFromDB_default:
  assumes "level_laws (se_level E)" "data_of es (contents (se_level E) (ds_db s))"
    and "contents (se_level E) (ds_db s) ''headers'' = None"
  shows "getEventsFromDB E s = (Inr (se_default E), loaded E es s, [])"
  using assms(3)
  by (simp add: getEventsFromDB_def catchE_def andThen_apply [of "mapM _ _"] db_rows [OF assms(1,2)] readRows
      level_get_contents [OF assms(1)] loaded_def [symmetric] getDefaultCachedValue_def)

text \<open>A reload gives the cache in memory, and leaves it as it is.\<close>

lemma coherent_reload:
  assumes "level_laws (se_level E)" "coherent E s"
  shows "getEventsFromDB E s = (Inr (ds_cache s), loaded E (dc_data (ds_cache s)) s, [])"
proof (cases "contents (se_level E) (ds_db s) ''headers''")
  case None
  with assms show ?thesis
    using getEventsFromDB_default [OF assms(1) coherentD(1) [OF assms(2)]]
    by (simp add: coherent_def Let_def)
next
  case (Some v)
  with assms(2) have "contents (se_level E) (ds_db s) ''headers'' = Some (JHeaders (dc_headers (ds_cache s)))"
    by (simp add: coherent_def Let_def)
  from getEventsFromDB_ok [OF assms(1) coherentD(1) [OF assms(2)] this coherentD(2) [OF assms(2)]]
  show ?thesis by (cases "ds_cache s") simp
qed


subsection \<open>Insertion\<close>

abbreviation eventKey :: "verified_event \<Rightarrow> string" where
  "eventKey e \<equiv> depositKey (de_depositCount e)"

lemma data_of_bound: "data_of es m \<Longrightarrow> e \<in> set es \<Longrightarrow> de_depositCount e < 2 ^ 32"
  by (simp add: data_of_def db_events_def)

lemma data_of_put:
  assumes old: "data_of ds m" and sorted: "sorted_wrt (<) (map de_depositCount (ds @ es))"
    and bound: "\<forall>e\<in>set es. de_depositCount e < 2 ^ 32"
  shows "data_of (ds @ es) ((fold apply_op (map (\<lambda>e. PutOp (eventKey e) (eventText e)) es) m)(''headers'' \<mapsto> v))"
    (is "data_of _ (?m(_ \<mapsto> _))")
proof -
  have "sorted_wrt (<) (map de_depositCount es)" using sorted by (simp add: sorted_wrt_append)
  then have d: "distinct (map eventKey es)"
    using data_of_keys_sorted [of es] bound strict_sorted_iff by blast
  have new: "?m (eventKey e) = Some (eventText e)" if "e \<in> set es" for e
    by (rule fold_put_ops_in [OF d that])
  have other: "?m k = m k" if "k \<notin> eventKey ` set es" for k by (rule fold_put_ops_other [OF that])
  have disj: "eventKey d \<notin> eventKey ` set es" if "d \<in> set ds" for d
  proof
    assume "eventKey d \<in> eventKey ` set es"
    then obtain e where e: "e \<in> set es" "eventKey d = eventKey e" by blast
    then have "de_depositCount d = de_depositCount e"
      using depositKey_inj data_of_bound [OF old that] bound by blast
    moreover have "de_depositCount d < de_depositCount e"
      using sorted that e(1) by (simp add: sorted_wrt_append)
    ultimately show False by simp
  qed
  have wf: "db_wf m" and ds: "set ds = db_events m" using old by (simp_all add: data_of_def)
  have wf_row: "\<exists>e. de_depositCount e < 2 ^ 32 \<and> k = eventKey e \<and> w = eventText e"
    if "?m k = Some w" "in_range depositRange k" for k w
    using that(1) by (cases rule: fold_put_ops_cases) (use wf bound that(2) in \<open>auto simp: db_wf_def\<close>)
  have event_row: "e \<in> set (ds @ es)" if "?m (eventKey e) = Some (eventText e)" "de_depositCount e < 2 ^ 32" for e
    using that(1)
    by (cases rule: fold_put_ops_cases) (use that(2) in \<open>auto simp: ds db_events_def eventText_inj\<close>)
  have no_headers: "\<not> in_range depositRange ''headers''" by (simp add: in_range_def depositRange_def less_char_def)
  have "db_wf (?m(''headers'' \<mapsto> v))"
    unfolding db_wf_def
  proof (intro allI impI)
    fix k w assume k: "(?m(''headers'' \<mapsto> v)) k = Some w" "in_range depositRange k"
    with no_headers have "k \<noteq> ''headers''" by blast
    with k(1) have "?m k = Some w" by simp
    from wf_row [OF this k(2)] show "\<exists>e. de_depositCount e < 2 ^ 32 \<and> k = eventKey e \<and> w = eventText e" .
  qed
  moreover have "set (ds @ es) = db_events (?m(''headers'' \<mapsto> v))"
  proof (intro set_eqI iffI)
    fix e assume "e \<in> set (ds @ es)"
    then show "e \<in> db_events (?m(''headers'' \<mapsto> v))"
      using new bound disj other [of "eventKey e"] unfolding ds by (auto simp: db_events_def ds)
  next
    fix e assume "e \<in> db_events (?m(''headers'' \<mapsto> v))"
    then show "e \<in> set (ds @ es)" by (intro event_row) (simp_all add: db_events_def)
  qed
  ultimately show ?thesis using sorted by (simp add: data_of_def)
qed

definition inserted :: "'db deposit_store_env \<Rightarrow> verified_event list \<Rightarrow> 'db deposit_store \<Rightarrow> 'db deposit_store" where
  "inserted E = fold (\<lambda>e s. updateCacheMetrics (trackValue E (eventText e) s))"

lemma inserted_fields [simp]:
  "ds_db (inserted E es s) = ds_db s" "ds_cache (inserted E es s) = ds_cache s"
  "ds_cacheEventCount (inserted E es s) = ds_cacheEventCount s + length es"
proof -
  show "ds_cacheEventCount (inserted E es s) = ds_cacheEventCount s + length es"
    by (induction es arbitrary: s) (simp_all add: inserted_def)
qed (simp_all add: inserted_def fold_keeps [where f = ds_db] fold_keeps [where f = ds_cache])

lemma insertOps:
  assumes "\<forall>e\<in>set es. de_depositCount e < 2 ^ 32"
  shows "mapM (insertOp E) es s =
    (Inr (map (\<lambda>e. PutOp (eventKey e) (eventText e)) es), inserted E es s, [])"
  unfolding inserted_def
  by (rule mapM_total, intro ballI allI)
    (simp add: insertOp_def serializeDepositEvent_def generateDepositKey_ok [OF assms [rule_format]] andThen_assoc)

lemma insertEventsCacheBatch_eq:
  assumes "\<forall>e\<in>set es. de_depositCount e < 2 ^ 32"
  shows "insertEventsCacheBatch E es h s =
    (Inr (), (inserted E es s)\<lparr>
       ds_db := level_batch (se_level E)
         (map (\<lambda>e. PutOp (eventKey e) (eventText e)) es @ [PutOp ''headers'' (JHeaders h)]) (ds_db s),
       ds_cache := (ds_cache s)\<lparr>dc_data := dc_data (ds_cache s) @ es, dc_headers := h\<rparr>\<rparr>, [])"
  by (simp add: insertEventsCacheBatch_def andThen_apply [of "mapM _ _"] insertOps [OF assms])

lemma fold_put_ops_headers:
  "fold apply_op (map (\<lambda>e. PutOp (eventKey e) (g e)) es) m ''headers'' = m ''headers''"
  "fold apply_op (map (\<lambda>e. PutOp (eventKey e) (g e)) es) m ''last-valid-event'' = m ''last-valid-event''"
  by (rule fold_put_ops_other; auto)+

lemma coherent_insert:
  assumes L: "level_laws (se_level E)" and coh: "coherent E s"
    and "sorted_wrt (<) (map de_depositCount (dc_data (ds_cache s) @ es))"
    and "\<forall>e\<in>set es. de_depositCount e < 2 ^ 32"
    and run: "insertEventsCacheBatch E es h s = (r, s', out)"
  shows "r = Inr () \<and> out = [] \<and> coherent E s' \<and>
    ds_cache s' = (ds_cache s)\<lparr>dc_data := dc_data (ds_cache s) @ es, dc_headers := h\<rparr>"
proof -
  let ?m = "contents (se_level E) (ds_db s)"
  have s': "r = Inr ()" "out = []" "ds_cache s' = (ds_cache s)\<lparr>dc_data := dc_data (ds_cache s) @ es, dc_headers := h\<rparr>"
    "ds_cacheEventCount s' = ds_cacheEventCount s + length es"
    "contents (se_level E) (ds_db s') =
       (fold apply_op (map (\<lambda>e. PutOp (eventKey e) (eventText e)) es) ?m)(''headers'' \<mapsto> JHeaders h)"
    using run by (auto simp: insertEventsCacheBatch_eq [OF assms(4)] contents_batch [OF L])
  show ?thesis
    using data_of_put [OF coherentD(1) [OF coh] assms(3,4)] coherentD(2,3) [OF coh] s'
    by (simp add: coherent_def fold_put_ops_headers)
qed


subsection \<open>Deletion\<close>

lemma data_of_cong:
  assumes "\<And>k. in_range depositRange k \<Longrightarrow> m k = m' k"
  shows "data_of es m \<longleftrightarrow> data_of es m'"
  using assms by (auto simp: data_of_def db_wf_def db_events_def)

lemma other_keys_not_in_range [simp]:
  "\<not> in_range depositRange ''headers''" "\<not> in_range depositRange ''last-valid-event''"
  by (auto simp: in_range_def depositRange_def less_char_def)

definition tailRange :: "nat \<Rightarrow> level_range" where
  "tailRange n = \<lparr>rg_gte = depositKey n, rg_upper = ''deposit:'' @ [CHR 0xFF], rg_inclusive = False\<rparr>"

lemma tailRange_subset: "in_range (tailRange n) k \<Longrightarrow> in_range depositRange k"
proof -
  have "''deposit:'' \<le> depositKey n" by (simp add: depositKey_def)
  then show "in_range (tailRange n) k \<Longrightarrow> in_range depositRange k"
    using order_trans by (fastforce simp: in_range_def tailRange_def depositRange_def)
qed

lemma tail_rows:
  assumes L: "level_laws L" and es: "data_of es (contents L db)" and n: "n < 2 ^ 32"
  shows "level_iterator L (tailRange n) db =
    map (\<lambda>e. (eventKey e, eventText e)) (filter (\<lambda>e. n \<le> de_depositCount e) es)" (is "_ = map _ ?es")
proof (rule iterator_eqI [OF L])
  have wf: "db_wf (contents L db)" and set: "set es = db_events (contents L db)"
    and sorted: "sorted_wrt (<) (map de_depositCount es)" using es by (simp_all add: data_of_def)
  have "sorted_wrt (<) (map de_depositCount ?es)"
    using sorted by (simp add: sorted_wrt_map sorted_wrt_filter)
  with data_of_keys_sorted [of ?es] data_of_bound [OF es]
  show "sorted_wrt (<) (map fst (map (\<lambda>e. (eventKey e, eventText e)) ?es))" by (simp add: comp_def)
  show "set (map (\<lambda>e. (eventKey e, eventText e)) ?es) =
    {(k, v). contents L db k = Some v \<and> in_range (tailRange n) k}"
  proof (intro set_eqI iffI; clarify)
    fix k v assume "(k, v) \<in> set (map (\<lambda>e. (eventKey e, eventText e)) ?es)"
    then obtain e where e: "e \<in> set es" "n \<le> de_depositCount e" "k = eventKey e" "v = eventText e" by auto
    with set have "contents L db k = Some v" "de_depositCount e < 2 ^ 32" by (auto simp: db_events_def)
    with e n key_in_tail_range [of n "de_depositCount e"]
    show "contents L db k = Some v \<and> in_range (tailRange n) k" by (simp add: tailRange_def)
  next
    fix k v assume kv: "contents L db k = Some v" "in_range (tailRange n) k"
    with wf tailRange_subset obtain e
      where e: "de_depositCount e < 2 ^ 32" "k = eventKey e" "v = eventText e"
      unfolding db_wf_def by blast
    with kv n key_in_tail_range [of n "de_depositCount e"] have "n \<le> de_depositCount e"
      by (simp add: tailRange_def)
    moreover have "e \<in> set es" unfolding set db_events_def using e kv(1) by simp
    ultimately show "(k, v) \<in> set (map (\<lambda>e. (eventKey e, eventText e)) ?es)" using e by auto
  qed
qed

lemma data_of_delete:
  assumes es: "data_of es m"
  shows "data_of (filter (\<lambda>e. \<not> P e) es)
    (\<lambda>k. if k \<in> eventKey ` set (filter P es) then None else m k)" (is "data_of _ ?m")
proof -
  have wf: "db_wf m" and set: "set es = db_events m" and sorted: "sorted_wrt (<) (map de_depositCount es)"
    using es by (simp_all add: data_of_def)
  have "db_wf ?m" using wf by (auto simp: db_wf_def split: if_splits)
  moreover have "sorted_wrt (<) (map de_depositCount (filter (\<lambda>e. \<not> P e) es))"
    using sorted by (simp add: sorted_wrt_map sorted_wrt_filter)
  moreover have "(e \<in> set (filter (\<lambda>e. \<not> P e) es)) = (e \<in> db_events ?m)" for e
  proof (cases "e \<in> set es")
    case True
    have "eventKey e \<in> eventKey ` set (filter P es) \<longleftrightarrow> P e"
    proof
      assume "eventKey e \<in> eventKey ` set (filter P es)"
      then obtain f where f: "f \<in> set es" "P f" "eventKey e = eventKey f" by auto
      with True set have "Some (eventText e) = Some (eventText f)" by (auto simp: db_events_def)
      with f show "P e" by (simp add: eventText_inj)
    qed (use True in auto)
    with True set show ?thesis by (auto simp: db_events_def)
  next
    case False
    with set show ?thesis by (auto simp: db_events_def split: if_splits)
  qed
  ultimately show ?thesis unfolding data_of_def by blast
qed

lemma setupEventsCache_coherent:
  assumes L: "level_laws (se_level E)" and "data_of es (contents (se_level E) (ds_db s))"
    and "contents (se_level E) (ds_db s) ''headers'' = Some (JHeaders h)"
    and "contents (se_level E) (ds_db s) ''last-valid-event'' = map_option eventText l"
    and run: "setupEventsCache E s = (r, s', out)"
  shows "r = Inr () \<and> out = [] \<and> coherent E s' \<and> ds_db s' = ds_db s \<and>
    ds_cache s' = \<lparr>dc_headers = h, dc_data = es, dc_lastValidEvent = l\<rparr>"
proof -
  have "r = Inr ()" "out = []" "s' = (loaded E es s)\<lparr>ds_cache := \<lparr>dc_headers = h, dc_data = es, dc_lastValidEvent = l\<rparr>\<rparr>"
    using run by (simp_all add: setupEventsCache_def andThen_apply [of "getEventsFromDB E"]
        getEventsFromDB_ok [OF assms(1-4)])
  with assms(2-4) show ?thesis by (simp add: coherent_def)
qed

text \<open>The database without some events, the last valid one too when an event goes.\<close>

definition deletedDB :: "('db, deposit_json) level \<Rightarrow> verified_event list \<Rightarrow> deposit_headers \<Rightarrow> 'db \<Rightarrow> 'db" where
  "deletedDB L gone h db =
     (if gone \<noteq> [] then level_batch L
        (map (\<lambda>e. DelOp (eventKey e)) gone @ [PutOp ''headers'' (JHeaders h), DelOp ''last-valid-event'']) db
      else level_put L ''headers'' (JHeaders h) db)"

lemma deletedDB_contents:
  assumes "level_laws L"
  shows "contents L (deletedDB L gone h db) k =
    (if k = ''headers'' then Some (JHeaders h)
     else if k = ''last-valid-event'' then (if gone = [] then contents L db k else None)
     else if k \<in> eventKey ` set gone then None else contents L db k)"
  using fold_del_ops [of "map eventKey gone" "contents L db"]
  by (auto simp: deletedDB_def contents_put [OF assms] contents_batch [OF assms] comp_def)

lemma coherent_delete:
  assumes L: "level_laws (se_level E)" and coh: "coherent E s" and n: "n < 2 ^ 32"
    and run: "deleteDepositsGreaterThanOrEqualNBatch E (int n) h s = (r, s', out)"
  shows "r = Inr () \<and> out = [] \<and> coherent E s' \<and>
    ds_cache s' =
      \<lparr>dc_headers = h,
       dc_data = filter (\<lambda>e. de_depositCount e < n) (dc_data (ds_cache s)),
       dc_lastValidEvent = (if \<exists>e\<in>set (dc_data (ds_cache s)). n \<le> de_depositCount e
                            then None else dc_lastValidEvent (ds_cache s))\<rparr>"
proof -
  let ?m = "contents (se_level E) (ds_db s)" and ?data = "dc_data (ds_cache s)"
  let ?gone = "filter (\<lambda>e. n \<le> de_depositCount e) ?data"
  note rows = tail_rows [OF L coherentD(1) [OF coh] n]
  define t where "t = s\<lparr>ds_db := deletedDB (se_level E) ?gone h (ds_db s)\<rparr>"
  have t: "setupEventsCache E t = (r, s', out)"
    using run by (simp add: deleteDepositsGreaterThanOrEqualNBatch_def generateDepositKey_ok [OF n] t_def deletedDB_def
        Let_def rows [unfolded tailRange_def, simplified] comp_def split: if_splits)
  have kept: "filter (\<lambda>e. \<not> n \<le> de_depositCount e) ?data = filter (\<lambda>e. de_depositCount e < n) ?data"
    by (rule filter_cong) auto
  note data = data_of_delete [OF coherentD(1) [OF coh], of "\<lambda>e. n \<le> de_depositCount e", unfolded kept]
  note look = deletedDB_contents [OF L, of ?gone h "ds_db s"]
  have "data_of (filter (\<lambda>e. de_depositCount e < n) ?data) (contents (se_level E) (ds_db t))"
  proof (rule data_of_cong [THEN iffD2, OF _ data])
    fix k assume k: "in_range depositRange k"
    have "k \<noteq> ''headers''" "k \<noteq> ''last-valid-event''" using k other_keys_not_in_range by blast+
    then show "contents (se_level E) (ds_db t) k = (if k \<in> eventKey ` set ?gone then None else ?m k)"
      by (simp add: t_def look)
  qed
  moreover have "contents (se_level E) (ds_db t) ''headers'' = Some (JHeaders h)" by (simp add: t_def look)
  moreover have "contents (se_level E) (ds_db t) ''last-valid-event'' = map_option eventText
     (if \<exists>e\<in>set ?data. n \<le> de_depositCount e then None else dc_lastValidEvent (ds_cache s))"
    using coherentD(2) [OF coh] by (simp add: t_def look filter_empty_conv)
  ultimately show ?thesis using setupEventsCache_coherent [OF L _ _ _ t] by blast
qed


subsection \<open>The last valid event and the reset of the store\<close>

lemma insertLastValidEvent_eq:
  "insertLastValidEvent E e s =
    (Inr (), s\<lparr>ds_db := level_put (se_level E) ''last-valid-event'' (eventText e) (ds_db s),
               ds_cache := (ds_cache s)\<lparr>dc_lastValidEvent := Some e\<rparr>\<rparr>, [])"
  by (simp add: insertLastValidEvent_def serializeDepositEvent_def andThen_assoc)

lemma coherent_insertLast:
  assumes L: "level_laws (se_level E)" and coh: "coherent E s"
    and "contents (se_level E) (ds_db s) ''headers'' \<noteq> None"
    and run: "insertLastValidEvent E e s = (r, s', out)"
  shows "r = Inr () \<and> out = [] \<and> coherent E s' \<and> ds_cache s' = (ds_cache s)\<lparr>dc_lastValidEvent := Some e\<rparr>"
proof -
  have "data_of (dc_data (ds_cache s)) ((contents (se_level E) (ds_db s))(''last-valid-event'' \<mapsto> eventText e))"
  proof (rule data_of_cong [THEN iffD2, OF _ coherentD(1) [OF coh]])
    fix k assume "in_range depositRange k"
    then have "k \<noteq> ''last-valid-event''" using other_keys_not_in_range by blast
    then show "((contents (se_level E) (ds_db s))(''last-valid-event'' \<mapsto> eventText e)) k
      = contents (se_level E) (ds_db s) k" by simp
  qed
  then show ?thesis
    using run assms(3) coh unfolding insertLastValidEvent_eq
    by (auto simp: coherent_def Let_def contents_put [OF L] split: option.splits)
qed

lemma coherent_deleteCache:
  assumes "level_laws (se_level E)" "dc_data (se_default E) = []" "dc_lastValidEvent (se_default E) = None"
    and "deleteCache E s = (r, s', out)"
  shows "r = Inr () \<and> out = [] \<and> coherent E s' \<and> ds_cache s' = se_default E"
  using assms
  by (auto simp: deleteCache_def coherent_def data_of_def db_wf_def db_events_def contents_clear
      getDefaultCachedValue_def)

lemma getLastValidEvent_coherent:
  assumes "level_laws (se_level E)" "coherent E s"
  shows "getLastValidEvent E s = (Inr (dc_lastValidEvent (ds_cache s)), s, [])"
  using getLastValidEvent_eq coherentD(2) assms by blast

definition deletionEnd :: "'db deposit_store_env \<Rightarrow> nat option \<Rightarrow> nat" where
  "deletionEnd E b = (case b of Some n \<Rightarrow> n | None \<Rightarrow> hd_endBlock (dc_headers (se_default E)))"

lemma formDepositEventHeaderForDeletion_eq:
  "formDepositEventHeaderForDeletion E b s =
    (if deletionEnd E b < hd_startBlock (dc_headers (ds_cache s))
     then (Inl (Error ''Deposit header is not valid''), s, [])
     else (Inr ((dc_headers (ds_cache s))\<lparr>hd_endBlock := deletionEnd E b\<rparr>), s, []))"
  by (cases b) (simp_all add: formDepositEventHeaderForDeletion_def getEventsCache_def deletionEnd_def
      andThen_assoc getDefaultCachedValue_def Let_def)

definition nextCount :: "verified_event option \<Rightarrow> nat" where
  "nextCount l = (case l of Some e \<Rightarrow> de_depositCount e + 1 | None \<Rightarrow> 0)"

lemma clearFromLastValidEvent_eq:
  assumes "level_laws (se_level E)" "coherent E s"
    and "hd_startBlock (dc_headers (ds_cache s))
      \<le> deletionEnd E (map_option de_blockNumber (dc_lastValidEvent (ds_cache s)))"
  shows "clearFromLastValidEvent E s =
    deleteDepositsGreaterThanOrEqualNBatch E (int (nextCount (dc_lastValidEvent (ds_cache s))))
      ((dc_headers (ds_cache s))\<lparr>hd_endBlock :=
         deletionEnd E (map_option de_blockNumber (dc_lastValidEvent (ds_cache s)))\<rparr>) s"
  using assms(3)
  by (cases "dc_lastValidEvent (ds_cache s)")
     (simp_all add: clearFromLastValidEvent_def getLastValidEvent_coherent [OF assms(1,2)]
      andThen_apply [of "getLastValidEvent E"] andThen_apply [of "formDepositEventHeaderForDeletion _ _"]
      formDepositEventHeaderForDeletion_eq nextCount_def add.commute split: prod.splits sum.splits)

subsection \<open>The scan for the first event out of order\<close>

lemma lastOrderedIndex_spec:
  "\<exists>n \<le> length es. lastOrderedIndex es k (int k - 1) = int (k + n) - 1 \<and>
     (\<forall>i<n. de_depositCount (es ! i) = k + i) \<and>
     (n < length es \<longrightarrow> de_depositCount (es ! n) \<noteq> k + n)"
proof (induction es arbitrary: k)
  case Nil
  then show ?case by simp
next
  case (Cons e es)
  show ?case
  proof (cases "de_depositCount e = k")
    case True
    from Cons.IH [of "Suc k"] obtain n where n: "n \<le> length es"
      "lastOrderedIndex es (Suc k) (int (Suc k) - 1) = int (Suc k + n) - 1"
      "\<forall>i<n. de_depositCount (es ! i) = Suc k + i" "n < length es \<longrightarrow> de_depositCount (es ! n) \<noteq> Suc k + n"
      by blast
    have "\<forall>i<Suc n. de_depositCount ((e # es) ! i) = k + i"
      using n(3) True by (auto simp: nth_Cons split: nat.splits)
    with True n show ?thesis by (intro exI [of _ "Suc n"]) simp
  next
    case False
    then show ?thesis by (intro exI [of _ 0]) simp
  qed
qed

text \<open>In a strictly sorted list the events below the first gap are its prefix.\<close>

lemma filter_below_gap:
  assumes "sorted_wrt (<) (map de_depositCount es)" "n \<le> length es"
    and "\<forall>i<n. de_depositCount (es ! i) = i" "n < length es \<longrightarrow> de_depositCount (es ! n) \<noteq> n"
  shows "filter (\<lambda>e. de_depositCount e < n) es = take n es"
    and "e \<in> set (drop n es) \<Longrightarrow> n < de_depositCount e"
proof -
  have below: "\<forall>e\<in>set (take n es). de_depositCount e < n"
    using assms(2,3) by (auto simp: in_set_conv_nth)
  have above: "n < de_depositCount e" if e: "e \<in> set (drop n es)" for e
  proof -
    from e obtain j where "j < length es - n" "e = es ! (n + j)"
      using assms(2) by (auto simp: in_set_conv_nth)
    then have j: "n + j < length es" "e = es ! (n + j)" by simp_all
    have step: "de_depositCount (es ! i) < de_depositCount (es ! k)" if "i < k" "k < length es" for i k
      using sorted_wrt_nth_less [OF assms(1), of i k] that by simp
    have "n \<le> de_depositCount (es ! n)"
    proof (cases n)
      case (Suc m)
      with step [of m n] assms(3) j(1) show ?thesis by simp
    qed simp
    with assms(4) j(1) have "n < de_depositCount (es ! n)" by simp
    also have "\<dots> \<le> de_depositCount e" using step [of n "n + j"] j by (cases "j = 0") auto
    finally show ?thesis .
  qed
  then show "e \<in> set (drop n es) \<Longrightarrow> n < de_depositCount e" by blast
  have "filter (\<lambda>e. de_depositCount e < n) (take n es @ drop n es) = take n es"
    using below by (simp only: filter_append) (auto simp: filter_id_conv filter_empty_conv dest: above)
  then show "filter (\<lambda>e. de_depositCount e < n) es = take n es" by simp
qed


lemma validateAndClean_eq:
  assumes "hd_startBlock (dc_headers (ds_cache s)) \<le> deletionEnd E
      (if n = 0 then None else Some (de_blockNumber (dc_data (ds_cache s) ! (n - 1))))"
    and "lastOrderedIndex (dc_data (ds_cache s)) 0 (-1) = int n - 1"
  shows "validateAndCleanInconsistentCache E s =
    deleteDepositsGreaterThanOrEqualNBatch E (int n)
      ((dc_headers (ds_cache s))\<lparr>hd_endBlock := deletionEnd E
        (if n = 0 then None else Some (de_blockNumber (dc_data (ds_cache s) ! (n - 1))))\<rparr>) s"
  using assms
  by (cases n) (simp_all add: validateAndCleanInconsistentCache_def getEventsCache_def andThen_assoc Let_def
      andThen_apply [of "formDepositEventHeaderForDeletion _ _"] formDepositEventHeaderForDeletion_eq
      add.commute split: prod.splits sum.splits)

section \<open>A concrete store\<close>

text \<open>An environment and states at which the properties are applied.\<close>

definition demoDepositEnv :: "deposit_json ref_db deposit_store_env" where
  "demoDepositEnv = \<lparr>se_level = ref_level, se_byteLength = (\<lambda>text. 1), se_default = DEPOSIT_CACHE_DEFAULT\<rparr>"

definition emptyDepositStore :: "deposit_json ref_db deposit_store" where
  "emptyDepositStore = \<lparr>ds_db = [], ds_cache = DEPOSIT_CACHE_DEFAULT, ds_cacheSizeBytes = 0,
     ds_cacheEventCount = 0, ds_bytesGauge = 0, ds_countGauge = 0\<rparr>"

definition demoEvent :: "nat \<Rightarrow> verified_event" where
  "demoEvent n = \<lparr>de_pubkey = ''0xaa'', de_wc = ''0x01'', de_amount = ''0x00'', de_signature = ''0xbb'',
     de_tx = ''0xcc'', de_blockNumber = Suc n, de_blockHash = ''0xdd'', de_logIndex = 0, de_index = ''0x00'',
     de_depositCount = n, de_depositDataRoot = [of_nat n], de_valid = True\<rparr>"

definition demoDepositStore :: "deposit_json ref_db deposit_store" where
  "demoDepositStore = fst (snd (insertLastValidEvent demoDepositEnv (demoEvent 1)
     (fst (snd (insertEventsCacheBatch demoDepositEnv (map demoEvent [0, 1, 2, 5])
        \<lparr>hd_startBlock = 0, hd_endBlock = 110\<rparr> emptyDepositStore)))))"

lemma demo_level_laws: "level_laws (se_level demoDepositEnv)"
  by (simp add: demoDepositEnv_def ref_level_laws)

lemma demoEvent_count [simp]: "de_depositCount (demoEvent n) = n" "de_blockNumber (demoEvent n) = Suc n"
  by (simp_all add: demoEvent_def)

lemma emptyDepositStore_coherent: "coherent demoDepositEnv emptyDepositStore"
  by (simp add: coherent_def emptyDepositStore_def demoDepositEnv_def data_of_def db_wf_def db_events_def
      DEPOSIT_CACHE_DEFAULT_def)

lemma demoDepositStore_coherent: "coherent demoDepositEnv demoDepositStore"
  and demoDepositStore_cache: "ds_cache demoDepositStore =
    \<lparr>dc_headers = \<lparr>hd_startBlock = 0, hd_endBlock = 110\<rparr>, dc_data = map demoEvent [0, 1, 2, 5],
     dc_lastValidEvent = Some (demoEvent 1)\<rparr>"
proof -
  let ?h = "\<lparr>hd_startBlock = 0, hd_endBlock = 110\<rparr>" and ?es = "map demoEvent [0, 1, 2, 5]"
  define t where "t = fst (snd (insertEventsCacheBatch demoDepositEnv ?es ?h emptyDepositStore))"
  have bound: "\<forall>e\<in>set ?es. de_depositCount e < 2 ^ 32" by simp
  note eq = insertEventsCacheBatch_eq [OF bound, of demoDepositEnv ?h emptyDepositStore]
  have run: "insertEventsCacheBatch demoDepositEnv ?es ?h emptyDepositStore = (Inr (), t, [])"
    unfolding t_def eq by simp
  have t: "coherent demoDepositEnv t" "ds_cache t = \<lparr>dc_headers = ?h, dc_data = ?es, dc_lastValidEvent = None\<rparr>"
    using coherent_insert [OF demo_level_laws emptyDepositStore_coherent _ bound run]
    by (simp_all add: emptyDepositStore_def DEPOSIT_CACHE_DEFAULT_def)
  have "contents (se_level demoDepositEnv) (ds_db t) ''headers'' \<noteq> None"
    unfolding t_def eq by (simp add: contents_batch [OF demo_level_laws])
  moreover have demo: "demoDepositStore = fst (snd (insertLastValidEvent demoDepositEnv (demoEvent 1) t))"
    unfolding demoDepositStore_def t_def by (rule refl)
  ultimately have "coherent demoDepositEnv demoDepositStore \<and>
      ds_cache demoDepositStore = (ds_cache t)\<lparr>dc_lastValidEvent := Some (demoEvent 1)\<rparr>"
    using coherent_insertLast [OF demo_level_laws t(1), of "demoEvent 1"]
    by (cases "insertLastValidEvent demoDepositEnv (demoEvent 1) t") simp
  with t(2) show "coherent demoDepositEnv demoDepositStore" and "ds_cache demoDepositStore =
      \<lparr>dc_headers = ?h, dc_data = ?es, dc_lastValidEvent = Some (demoEvent 1)\<rparr>"
    by simp_all
qed

section \<open>Properties\<close>

text \<open>
  The keys of the database order the events by deposit count: for counts that fit in 32
  bits \<open>generateDepositKey\<close> succeeds and its result is strictly increasing in the
  lexicographic order of the keys, so an iterator over the keys visits the events by count.
\<close>

theorem generateDepositKey_strict_mono:
  "m < n \<Longrightarrow> n < 2 ^ 32 \<Longrightarrow>
   \<exists>k l. generateDepositKey (int m) = Inr k \<and> generateDepositKey (int n) = Inr l \<and> k < l \<and>
     in_range depositRange k \<and> in_range depositRange l"
  using generateDepositKey_ok [of m] generateDepositKey_ok [of n] depositKey_less [of m n] by simp

theorem generateDepositKey_strict_mono_witness:
  "\<exists>k l. generateDepositKey (int 9) = Inr k \<and> generateDepositKey (int 16) = Inr l \<and> k < l \<and>
     in_range depositRange k \<and> in_range depositRange l"
  by (rule generateDepositKey_strict_mono) simp_all

text \<open>
  \<open>generateDepositKey\<close> rejects exactly the numbers outside \<open>0 .. 2^32 - 1\<close>, but not all of
  them with its own message: the bound \<open>MAX_DEPOSIT_COUNT\<close> itself passes the check and fails
  in \<open>writeUInt32BE\<close> with a \<open>RangeError\<close>.
\<close>

theorem generateDepositKey_errors:
  "generateDepositKey i = Inl e \<longleftrightarrow>
     (i < 0 \<or> 2 ^ 32 < i) \<and> e = Error (''Deposit count is out of the valid range (0 to '' @
        int_string (2 ^ 32) @ '') received '' @ int_string i)
     \<or> i = 2 ^ 32 \<and> e = RangeError"
  by (rule generateDepositKey_error)

text \<open>
  C26: The cache in memory and the database agree after an insertion: from a state in which a
  reload gives the cache (\<open>coherent\<close>), inserting events whose counts continue the cache leaves
  a state in which a reload gives the cache extended by the events, with the new headers.
\<close>

theorem insert_then_reload:
  assumes "level_laws (se_level E)" "coherent E s"
    and "sorted_wrt (<) (map de_depositCount (dc_data (ds_cache s) @ es))"
    and "\<forall>e\<in>set es. de_depositCount e < 2 ^ 32"
  shows "\<exists>s' t. insertEventsCacheBatch E es h s = (Inr (), s', []) \<and> coherent E s' \<and>
    getEventsFromDB E s' =
      (Inr ((ds_cache s)\<lparr>dc_data := dc_data (ds_cache s) @ es, dc_headers := h\<rparr>), t, [])"
proof -
  obtain s' where run: "insertEventsCacheBatch E es h s = (Inr (), s', [])"
    using insertEventsCacheBatch_eq [OF assms(4)] by blast
  from coherent_insert [OF assms run] have "coherent E s'"
    "ds_cache s' = (ds_cache s)\<lparr>dc_data := dc_data (ds_cache s) @ es, dc_headers := h\<rparr>" by simp_all
  with run coherent_reload [OF assms(1), of s'] show ?thesis by auto
qed


theorem insert_then_reload_witness:
  "\<exists>s' t. insertEventsCacheBatch demoDepositEnv [demoEvent 7, demoEvent 9] \<lparr>hd_startBlock = 0, hd_endBlock = 120\<rparr>
      demoDepositStore = (Inr (), s', []) \<and> coherent demoDepositEnv s' \<and>
    getEventsFromDB demoDepositEnv s' =
      (Inr ((ds_cache demoDepositStore)\<lparr>dc_data := dc_data (ds_cache demoDepositStore) @ [demoEvent 7, demoEvent 9],
        dc_headers := \<lparr>hd_startBlock = 0, hd_endBlock = 120\<rparr>\<rparr>), t, [])"
  by (rule insert_then_reload [OF demo_level_laws demoDepositStore_coherent])
    (simp_all add: demoDepositStore_cache)

text \<open>
  After a failed integrity check the store keeps exactly what the last valid event vouches
  for: \<open>clearFromLastValidEvent\<close> leaves the events up to the last valid one (none when there
  is none), ends the cache at its block, and keeps cache and database in agreement.
\<close>

theorem clear_keeps_valid_prefix:
  assumes "level_laws (se_level E)" "coherent E s"
    and "nextCount (dc_lastValidEvent (ds_cache s)) < 2 ^ 32"
    and "hd_startBlock (dc_headers (ds_cache s))
      \<le> deletionEnd E (map_option de_blockNumber (dc_lastValidEvent (ds_cache s)))"
  shows "\<exists>s'. clearFromLastValidEvent E s = (Inr (), s', []) \<and> coherent E s' \<and>
    dc_data (ds_cache s') =
      filter (\<lambda>e. de_depositCount e < nextCount (dc_lastValidEvent (ds_cache s))) (dc_data (ds_cache s)) \<and>
    dc_headers (ds_cache s') = (dc_headers (ds_cache s))\<lparr>hd_endBlock :=
      deletionEnd E (map_option de_blockNumber (dc_lastValidEvent (ds_cache s)))\<rparr>"
proof -
  obtain r s' out where run: "clearFromLastValidEvent E s = (r, s', out)" by (metis prod_cases3)
  from coherent_delete [OF assms(1-3) run [unfolded clearFromLastValidEvent_eq [OF assms(1,2,4)]]]
  show ?thesis using run by simp
qed

theorem clear_keeps_valid_prefix_witness:
  "\<exists>s'. clearFromLastValidEvent demoDepositEnv demoDepositStore = (Inr (), s', []) \<and>
    coherent demoDepositEnv s' \<and> dc_data (ds_cache s') = [demoEvent 0, demoEvent 1] \<and>
    dc_headers (ds_cache s') = \<lparr>hd_startBlock = 0, hd_endBlock = Suc 1\<rparr>"
  using clear_keeps_valid_prefix [OF demo_level_laws demoDepositStore_coherent]
  by (simp add: demoDepositStore_cache nextCount_def deletionEnd_def)

text \<open>
  At start-up the store drops everything from the first gap: loading a database of events
  and headers, \<open>initialize\<close> leaves a prefix of the stored events whose counts are
  \<open>0, 1, ..., n - 1\<close>, cut at the first event whose count is not its position, and ends the
  cache at the block of the last event of the prefix.
\<close>

theorem initialize_keeps_ordered_prefix:
  assumes "level_laws (se_level E)" "data_of es (contents (se_level E) (ds_db s))" "length es < 2 ^ 32"
    and "contents (se_level E) (ds_db s) ''headers'' = Some (JHeaders h)"
    and "contents (se_level E) (ds_db s) ''last-valid-event'' = map_option eventText l"
    and "hd_startBlock h = 0"
  shows "\<exists>n s'. initializeStore E s = (Inr (), s', []) \<and> coherent E s' \<and> n \<le> length es \<and>
    dc_data (ds_cache s') = take n es \<and> map de_depositCount (take n es) = [0..<n] \<and>
    (n < length es \<longrightarrow> de_depositCount (es ! n) \<noteq> n) \<and>
    hd_endBlock (dc_headers (ds_cache s')) =
      deletionEnd E (if n = 0 then None else Some (de_blockNumber (es ! (n - 1))))"
proof -
  obtain r t out where load: "setupEventsCache E s = (r, t, out)" by (metis prod_cases3)
  have t: "r = Inr ()" "out = []" "coherent E t" "ds_cache t = \<lparr>dc_headers = h, dc_data = es, dc_lastValidEvent = l\<rparr>"
    using setupEventsCache_coherent [OF assms(1,2,4,5) load] by simp_all
  obtain n where n: "n \<le> length es" "lastOrderedIndex es 0 (-1) = int n - 1"
    "\<forall>i<n. de_depositCount (es ! i) = i" "n < length es \<longrightarrow> de_depositCount (es ! n) \<noteq> n"
    using lastOrderedIndex_spec [of es 0] by auto
  obtain r' s' out' where run: "validateAndCleanInconsistentCache E t = (r', s', out')" by (metis prod_cases3)
  have eq: "validateAndCleanInconsistentCache E t =
    deleteDepositsGreaterThanOrEqualNBatch E (int n) (h\<lparr>hd_endBlock := deletionEnd E
        (if n = 0 then None else Some (de_blockNumber (es ! (n - 1))))\<rparr>) t"
    using validateAndClean_eq [of t E n] n(2) assms(6) by (simp add: t(4))
  have "n < 2 ^ 32" using n(1) assms(3) by linarith
  note del = coherent_delete [OF assms(1) t(3) this run [unfolded eq]]
  have sorted: "sorted_wrt (<) (map de_depositCount es)" using assms(2) by (simp add: data_of_def)
  have "initializeStore E s = (Inr (), s', [])"
    using load run del by (simp add: initializeStore_def andThen_apply t(1,2))
  moreover have "map de_depositCount (take n es) = [0..<n]"
    using n(1,3) by (intro nth_equalityI) simp_all
  ultimately show ?thesis
    using del n filter_below_gap(1) [OF sorted n(1,3,4)] by (intro exI [of _ n] exI [of _ s']) (simp add: t(4))
qed


lemma demo_rows:
  "data_of (map demoEvent [0, 1, 2, 5]) (contents (se_level demoDepositEnv) (ds_db demoDepositStore))"
  "contents (se_level demoDepositEnv) (ds_db demoDepositStore) ''headers'' = Some (JHeaders \<lparr>hd_startBlock = 0, hd_endBlock = 110\<rparr>)"
  "contents (se_level demoDepositEnv) (ds_db demoDepositStore) ''last-valid-event'' = map_option eventText (Some (demoEvent 1))"
  using coherentD(1,2) [OF demoDepositStore_coherent] demoDepositStore_coherent
  by (auto simp: coherent_def Let_def demoDepositStore_cache demoDepositEnv_def DEPOSIT_CACHE_DEFAULT_def split: option.splits)

theorem initialize_keeps_ordered_prefix_witness:
  "\<exists>n s'. initializeStore demoDepositEnv (emptyDepositStore\<lparr>ds_db := ds_db demoDepositStore\<rparr>) = (Inr (), s', []) \<and>
    coherent demoDepositEnv s' \<and> n \<le> length (map demoEvent [0, 1, 2, 5]) \<and>
    dc_data (ds_cache s') = take n (map demoEvent [0, 1, 2, 5]) \<and>
    map de_depositCount (take n (map demoEvent [0, 1, 2, 5])) = [0..<n] \<and>
    (n < length (map demoEvent [0, 1, 2, 5]) \<longrightarrow> de_depositCount (map demoEvent [0, 1, 2, 5] ! n) \<noteq> n) \<and>
    hd_endBlock (dc_headers (ds_cache s')) = deletionEnd demoDepositEnv
      (if n = 0 then None else Some (de_blockNumber (map demoEvent [0, 1, 2, 5] ! (n - 1))))"
  by (rule initialize_keeps_ordered_prefix [OF demo_level_laws, where l = "Some (demoEvent 1)" and h = "\<lparr>hd_startBlock = 0, hd_endBlock = 110\<rparr>"]) (use demo_rows in simp_all)

text \<open>
  \<open>setCachedEvents\<close> leaves the cache in memory and the database in disagreement: the batch
  insertion already appends the events to the emptied cache, and the method appends them once
  more, so every event is in memory twice while a reload gives it once.
\<close>

theorem setCachedEvents_doubles:
  assumes "level_laws (se_level E)" "dc_data (se_default E) = []" "dc_lastValidEvent (se_default E) = None"
    and "sorted_wrt (<) (map de_depositCount (dc_data c))" "\<forall>e\<in>set (dc_data c). de_depositCount e < 2 ^ 32"
  shows "\<exists>s' t cache. setCachedEvents E c s = (Inr (), s', []) \<and>
    dc_data (ds_cache s') = dc_data c @ dc_data c \<and>
    getEventsFromDB E s' = (Inr cache, t, []) \<and> dc_data cache = dc_data c"
proof -
  obtain r t out where del: "deleteCache E s = (r, t, out)" by (metis prod_cases3)
  note t = coherent_deleteCache [OF assms(1-3) del]
  obtain u where ins: "insertEventsCacheBatch E (dc_data c) (dc_headers c) t = (Inr (), u, [])"
    using insertEventsCacheBatch_eq [OF assms(5)] by blast
  have u: "coherent E u" "dc_data (ds_cache u) = dc_data c"
    using coherent_insert [OF assms(1) _ _ assms(5) ins] t assms(2,4) by simp_all
  let ?s' = "u\<lparr>ds_cache := (ds_cache u)\<lparr>dc_data := dc_data c @ dc_data c, dc_headers := dc_headers c\<rparr>\<rparr>"
  have run: "setCachedEvents E c s = (Inr (), ?s', [])"
    using del t ins u(2) by (simp add: setCachedEvents_def andThen_apply)
  have hdrs: "contents (se_level E) (ds_db ?s') ''headers'' = Some (JHeaders (dc_headers c))"
    using ins by (auto simp: insertEventsCacheBatch_eq [OF assms(5)] contents_batch [OF assms(1)])
  show ?thesis
    using run getEventsFromDB_ok [OF assms(1) _ hdrs, of "dc_data c" "dc_lastValidEvent (ds_cache u)"]
      coherentD(1,2) [OF u(1)] u(2) by auto
qed

theorem setCachedEvents_doubles_witness:
  "\<exists>s' t cache. setCachedEvents demoDepositEnv (ds_cache demoDepositStore) emptyDepositStore = (Inr (), s', []) \<and>
    dc_data (ds_cache s') = dc_data (ds_cache demoDepositStore) @ dc_data (ds_cache demoDepositStore) \<and>
    getEventsFromDB demoDepositEnv s' = (Inr cache, t, []) \<and> dc_data cache = dc_data (ds_cache demoDepositStore)"
  by (rule setCachedEvents_doubles [OF demo_level_laws])
    (simp_all add: demoDepositEnv_def DEPOSIT_CACHE_DEFAULT_def demoDepositStore_cache)

end
