(* ===== verification/Deposits_Checker.thy ===== *)
theory Deposits_Checker
  imports Deposit_Tree Deposits_Store
begin

text \<open>
  The checks of deposit events (\<open>contracts/deposits-registry/sanity-checker\<close>): the age of
  the cache and reorganisations (\<open>blockchain-checker\<close>), the deposit root of the events
  against the root of the contract (\<open>integrity-checker\<close>) and the service in front of both.
  What the integrity checker needs of the tree is the locale \<open>accumulator\<close>.
\<close>

section \<open>Blockchain checker\<close>

definition validateCacheBlock :: "deposit_cache \<Rightarrow> nat \<Rightarrow> bool" where
  "validateCacheBlock cachedEvents currentBlock \<longleftrightarrow> currentBlock \<ge> hd_endBlock (dc_headers cachedEvents)"

definition findReorganizedEvent :: "verified_event list \<Rightarrow> nat \<Rightarrow> string \<Rightarrow> verified_event option" where
  "findReorganizedEvent es blockNumber blockHash =
     find (\<lambda>e. de_blockNumber e = blockNumber \<and> de_blockHash e \<noteq> blockHash) es"

section \<open>Integrity checker\<close>

text \<open>The loop of \<open>putEventsToTree\<close> for any tree with an insertion.\<close>

definition putEvent ::
  "('t \<Rightarrow> bytes \<Rightarrow> nat \<Rightarrow> (js_error + bool) \<times> 't) \<Rightarrow> verified_event \<Rightarrow> ('t, unit, unit) comp" where
  "putEvent ins e =
     andThen (\<lambda>tree. case ins tree (de_depositDataRoot e) (de_depositCount e) of (r, tree') \<Rightarrow> (r, tree', []))
       (\<lambda>insertionIsMade. if \<not> insertionIsMade
          then raise (Error ''Problem found while forming deposit tree with event'') else ret ())"

definition putEventsWith ::
  "('t \<Rightarrow> bytes \<Rightarrow> nat \<Rightarrow> (js_error + bool) \<times> 't) \<Rightarrow> verified_event list \<Rightarrow> ('t, unit, unit) comp" where
  "putEventsWith ins es = andThen (mapM (putEvent ins) es) (\<lambda>_. ret ())"

definition putEventsToTree :: "tree_lib \<Rightarrow> verified_event list \<Rightarrow> (deposit_tree, unit, unit) comp" where
  "putEventsToTree T es = putEventsWith (insertNode T) es"

text \<open>The environment: the hash functions and the call \<open>get_deposit_root\<close> of the contract.\<close>

record checker_env =
  ck_tree_lib :: tree_lib
  ck_getDepositRoot :: "string \<Rightarrow> js_error + string"

definition initializeIntegrity :: "checker_env \<Rightarrow> deposit_cache \<Rightarrow> (deposit_tree, unit, unit) comp" where
  "initializeIntegrity C initialEventsCache = putEventsToTree (ck_tree_lib C) (dc_data initialEventsCache)"

definition putFinalizedEvents ::
  "checker_env \<Rightarrow> verified_event list \<Rightarrow> (deposit_tree, unit, deposit_tree) comp" where
  "putFinalizedEvents C es = andThen (putEventsToTree (ck_tree_lib C) es) (\<lambda>_. getS)"

text \<open>\<open>putLatestEvents\<close> works on a clone: the finalized tree is only read.\<close>

definition putLatestEvents ::
  "checker_env \<Rightarrow> deposit_tree \<Rightarrow> verified_event list \<Rightarrow> js_error + deposit_tree" where
  "putLatestEvents C finalizedTree es =
     (case putEventsToTree (ck_tree_lib C) es (cloneTree finalizedTree) of
        (Inl e, tree, out) \<Rightarrow> Inl e
      | (Inr u, tree, out) \<Rightarrow> Inr tree)"

definition checkRoot :: "checker_env \<Rightarrow> string \<Rightarrow> deposit_tree \<Rightarrow> js_error + bool" where
  "checkRoot C blockHash tree =
     bindR (getRoot (ck_tree_lib C) tree) (\<lambda>localRoot.
     bindR (ck_getDepositRoot C blockHash) (\<lambda>remoteRoot. Inr (localRoot = remoteRoot)))"

text \<open>\<open>checkLatestRoot\<close> sorts its argument in place: the sorted list is part of the result.\<close>

definition sortByCount :: "verified_event list \<Rightarrow> verified_event list" where
  "sortByCount es = sort_key de_depositCount es"

definition checkLatestRoot ::
  "checker_env \<Rightarrow> deposit_tree \<Rightarrow> string \<Rightarrow> verified_event list \<Rightarrow> js_error + bool \<times> verified_event list" where
  "checkLatestRoot C finalizedTree blockHash es =
     bindR (putLatestEvents C finalizedTree (sortByCount es)) (\<lambda>tree.
     bindR (checkRoot C blockHash tree) (\<lambda>ok. Inr (ok, sortByCount es)))"

definition checkFinalizedRoot :: "checker_env \<Rightarrow> deposit_tree \<Rightarrow> string \<Rightarrow> js_error + bool" where
  "checkFinalizedRoot C finalizedTree blockHash = checkRoot C blockHash finalizedTree"

section \<open>Sanity checker\<close>

text \<open>The finalized tree and the two metrics of root mismatches.\<close>

record sanity_state =
  sc_tree :: deposit_tree
  sc_mismatches :: nat
  sc_consecutive :: nat

definition recordFreshEventsRootCheck :: "bool \<Rightarrow> sanity_state \<Rightarrow> sanity_state" where
  "recordFreshEventsRootCheck isDepositRootMatches s =
     (if isDepositRootMatches then s\<lparr>sc_consecutive := 0\<rparr>
      else s\<lparr>sc_mismatches := sc_mismatches s + 1, sc_consecutive := sc_consecutive s + 1\<rparr>)"

definition findReorganization :: "nat \<Rightarrow> string \<Rightarrow> verified_event list \<Rightarrow> bool" where
  "findReorganization blockNumber blockHash es \<longleftrightarrow> findReorganizedEvent es blockNumber blockHash \<noteq> None"

definition verifyCacheBlock :: "deposit_cache \<Rightarrow> nat \<Rightarrow> bool" where
  "verifyCacheBlock cachedEvents currentBlock = validateCacheBlock cachedEvents currentBlock"

definition initializeSanity :: "checker_env \<Rightarrow> deposit_cache \<Rightarrow> (sanity_state, unit, unit) comp" where
  "initializeSanity C cache = zoom sc_tree (\<lambda>t s. s\<lparr>sc_tree := t\<rparr>) (initializeIntegrity C cache)"

text \<open>The log of \<open>addEventGroupToIndex\<close> computes the root, which can throw.\<close>

definition addEventGroupToIndex :: "checker_env \<Rightarrow> verified_event list \<Rightarrow> (sanity_state, unit, unit) comp" where
  "addEventGroupToIndex C es =
     (if es = [] then ret ()
      else andThen (zoom sc_tree (\<lambda>t s. s\<lparr>sc_tree := t\<rparr>) (putFinalizedEvents C es)) (\<lambda>tree.
           andThen (liftR (getRoot (ck_tree_lib C) tree)) (\<lambda>_. ret ())))"

definition verifyFreshEvents ::
  "checker_env \<Rightarrow> string \<Rightarrow> verified_event list \<Rightarrow> (sanity_state, unit, bool \<times> verified_event list) comp" where
  "verifyFreshEvents C currentBlockHash freshEvents =
     andThen getS (\<lambda>s.
       if freshEvents = [] then
         andThen (liftR (checkFinalizedRoot C (sc_tree s) currentBlockHash)) (\<lambda>isDepositRootMatches.
         andThen (modifyS (recordFreshEventsRootCheck isDepositRootMatches)) (\<lambda>_.
         ret (isDepositRootMatches, freshEvents)))
       else
         (let lastEvent = last freshEvents
          in if findReorganization (de_blockNumber lastEvent) (de_blockHash lastEvent) freshEvents then
               andThen (modifyS (\<lambda>s. s\<lparr>sc_consecutive := 0\<rparr>)) (\<lambda>_. ret (False, freshEvents))
             else
               andThen (liftR (checkLatestRoot C (sc_tree s) currentBlockHash freshEvents))
                 (\<lambda>(isDepositRootMatches, sorted).
               andThen (modifyS (recordFreshEventsRootCheck isDepositRootMatches)) (\<lambda>_.
               ret (isDepositRootMatches, sorted)))))"

definition verifyUpdatedEvents :: "checker_env \<Rightarrow> string \<Rightarrow> (sanity_state, unit, bool) comp" where
  "verifyUpdatedEvents C blockHash =
     andThen getS (\<lambda>s. liftR (checkFinalizedRoot C (sc_tree s) blockHash))"

section \<open>Accumulators of leaves\<close>

lemma putEvent_accepted:
  "ins t (de_depositDataRoot e) (de_depositCount e) = (Inr True, t') \<Longrightarrow> putEvent ins e t = (Inr (), t', [])"
  by (simp add: putEvent_def andThen_apply)

lemma putEvent_rejected:
  "ins t (de_depositDataRoot e) (de_depositCount e) = (Inr False, t') \<Longrightarrow>
   putEvent ins e t = (Inl (Error ''Problem found while forming deposit tree with event''), t', [])"
  by (simp add: putEvent_def andThen_apply)

lemma putEventsWith_step:
  "putEvent ins e t = (Inr (), t', []) \<Longrightarrow> putEventsWith ins (e # es) t = putEventsWith ins es t'"
  by (simp add: putEventsWith_def andThen_assoc andThen_step)

lemma putEventsWith_stop:
  "putEvent ins e t = (Inl err, t', []) \<Longrightarrow> putEventsWith ins (e # es) t = (Inl err, t', [])"
  by (simp add: putEventsWith_def andThen_assoc andThen_fail)

text \<open>A list of events that does not count up from \<open>n\<close> has a first event that does not.\<close>

lemma first_gap:
  "map de_depositCount es \<noteq> [n ..< n + length es] \<Longrightarrow>
   \<exists>pre e rest. es = pre @ e # rest \<and> map de_depositCount pre = [n ..< n + length pre] \<and>
     de_depositCount e \<noteq> n + length pre"
proof (induction es arbitrary: n)
  case Nil
  then show ?case by simp
next
  case (Cons d es)
  show ?case
  proof (cases "de_depositCount d = n")
    case True
    with Cons.prems have "map de_depositCount es \<noteq> [Suc n ..< Suc n + length es]"
      by (simp add: upt_rec)
    from Cons.IH [OF this] obtain pre e rest where "es = pre @ e # rest"
      "map de_depositCount pre = [Suc n ..< Suc n + length pre]" "de_depositCount e \<noteq> Suc n + length pre"
      by blast
    with True show ?thesis
      by (intro exI [of _ "d # pre"] exI [of _ e] exI [of _ rest]) (simp add: upt_rec)
  next
    case False
    then show ?thesis by (intro exI [of _ "[]"] exI [of _ d] exI [of _ es]) simp
  qed
qed

text \<open>
  A tree that accepts a leaf exactly when its index is the number of leaves so far, below a
  capacity. \<open>rep\<close> relates a tree to the leaves it holds.
\<close>

locale accumulator =
  fixes ins :: "'t \<Rightarrow> bytes \<Rightarrow> nat \<Rightarrow> (js_error + bool) \<times> 't"
    and rep :: "'t \<Rightarrow> bytes list \<Rightarrow> bool"
    and capacity :: nat
  assumes ins_ok: "rep t ls \<Longrightarrow> Suc (length ls) < capacity \<Longrightarrow>
      \<exists>t'. ins t x (length ls) = (Inr True, t') \<and> rep t' (ls @ [x])"
    and ins_reject: "rep t ls \<Longrightarrow> i \<noteq> length ls \<Longrightarrow> ins t x i = (Inr False, t)"
begin

lemma put_ok:
  assumes "rep t ls" "length ls + length es < capacity"
    and "map de_depositCount es = [length ls ..< length ls + length es]"
  shows "\<exists>t'. putEventsWith ins es t = (Inr (), t', []) \<and> rep t' (ls @ map de_depositDataRoot es)"
  using assms
proof (induction es arbitrary: t ls)
  case Nil
  then show ?case by (simp add: putEventsWith_def)
next
  case (Cons e es)
  from Cons.prems(3) have e: "de_depositCount e = length ls"
    and es: "map de_depositCount es = [Suc (length ls) ..< Suc (length ls) + length es]"
    by (simp_all add: upt_rec)
  obtain t' where t': "ins t (de_depositDataRoot e) (length ls) = (Inr True, t')"
    "rep t' (ls @ [de_depositDataRoot e])"
    using ins_ok [OF Cons.prems(1)] Cons.prems(2) by fastforce
  have "putEventsWith ins (e # es) t = putEventsWith ins es t'"
    using t'(1) e by (intro putEventsWith_step putEvent_accepted) simp
  with Cons.IH [OF t'(2)] Cons.prems(2) es show ?case by simp
qed

text \<open>The first event out of order ends the loop, with the events before it in the tree.\<close>

lemma put_error:
  assumes "rep t ls" "length ls + length es < capacity"
    and "map de_depositCount es = [length ls ..< length ls + length es]"
    and "de_depositCount e \<noteq> length ls + length es"
  shows "\<exists>t'. putEventsWith ins (es @ e # rest) t =
      (Inl (Error ''Problem found while forming deposit tree with event''), t', []) \<and>
    rep t' (ls @ map de_depositDataRoot es)"
  using assms
proof (induction es arbitrary: t ls)
  case Nil
  then have "ins t (de_depositDataRoot e) (de_depositCount e) = (Inr False, t)"
    by (intro ins_reject) auto
  then have "putEventsWith ins ([] @ e # rest) t =
      (Inl (Error ''Problem found while forming deposit tree with event''), t, [])"
    by (simp add: putEventsWith_stop putEvent_rejected)
  with Nil show ?case by simp
next
  case (Cons d es)
  from Cons.prems(3) have d: "de_depositCount d = length ls"
    and es: "map de_depositCount es = [Suc (length ls) ..< Suc (length ls) + length es]"
    by (simp_all add: upt_rec)
  obtain t' where t': "ins t (de_depositDataRoot d) (length ls) = (Inr True, t')"
    "rep t' (ls @ [de_depositDataRoot d])"
    using ins_ok [OF Cons.prems(1)] Cons.prems(2) by fastforce
  have "putEventsWith ins (d # es @ e # rest) t = putEventsWith ins (es @ e # rest) t'"
    using t'(1) d by (intro putEventsWith_step putEvent_accepted) simp
  with Cons.IH [OF t'(2)] Cons.prems(2,4) es show ?case by simp
qed

text \<open>So the loop succeeds exactly on events that continue the leaves.\<close>

lemma put_succeeds_iff:
  assumes "rep t ls" "length ls + length es < capacity"
  shows "(\<exists>t' out. putEventsWith ins es t = (Inr (), t', out)) \<longleftrightarrow>
    map de_depositCount es = [length ls ..< length ls + length es]"
proof
  assume run: "\<exists>t' out. putEventsWith ins es t = (Inr (), t', out)"
  show "map de_depositCount es = [length ls ..< length ls + length es]"
  proof (rule ccontr)
    assume "\<not> ?thesis"
    from first_gap [OF this] obtain pre e rest where gap: "es = pre @ e # rest"
      "map de_depositCount pre = [length ls ..< length ls + length pre]"
      "de_depositCount e \<noteq> length ls + length pre" by blast
    from put_error [OF assms(1) _ gap(2,3), of rest] assms(2) gap(1) run show False by auto
  qed
next
  assume "map de_depositCount es = [length ls ..< length ls + length es]"
  from put_ok [OF assms this] show "\<exists>t' out. putEventsWith ins es t = (Inr (), t', out)" by blast
qed

end

interpretation tree: accumulator "insertNode T" "tree_inv T" "2 ^ DEPOSIT_CONTRACT_TREE_DEPTH"
proof unfold_locales
  fix t ls x assume "tree_inv T t ls" "Suc (length ls) < 2 ^ DEPOSIT_CONTRACT_TREE_DEPTH"
  then show "\<exists>t'. insertNode T t x (length ls) = (Inr True, t') \<and> tree_inv T t' (ls @ [x])"
    by (rule tree_inv_insert)
next
  fix t ls i x assume "tree_inv T t ls" "i \<noteq> length ls"
  then show "insertNode T t x i = (Inr False, t)"
    by (intro insertNode_rejects) (simp add: tree_inv_def)
qed

section \<open>Properties\<close>

text \<open>
  C6: The incremental tree computes the deposit root: putting fewer than \<open>2^32\<close> events with
  counts \<open>0, 1, 2, ...\<close> into a new tree succeeds, and \<open>getRoot\<close> is then the root of the full
  Merkle tree of depth 32 over their leaves, padded with zero hashes, mixed with the count.
\<close>

theorem deposit_root_is_merkle_root:
  assumes "map de_depositCount es = [0 ..< length es]" "length es < 2 ^ 32"
  shows "\<exists>tree. putEventsToTree T es newDepositTree = (Inr (), tree, []) \<and>
    getRoot T tree = Inr (merkle_root T (map de_depositDataRoot es))"
proof -
  have len: "length es < 2 ^ DEPOSIT_CONTRACT_TREE_DEPTH"
    using assms(2) by (simp add: DEPOSIT_CONTRACT_TREE_DEPTH_def)
  with tree.put_ok [OF tree_inv_new, of es T] assms(1) obtain tree
    where "putEventsToTree T es newDepositTree = (Inr (), tree, [])"
      "tree_inv T tree (map de_depositDataRoot es)"
    by (auto simp: putEventsToTree_def)
  with getRoot_merkle [of T tree "map de_depositDataRoot es"] len show ?thesis by auto
qed

definition demoHash :: tree_lib where
  "demoHash = \<lparr>digest2Bytes32 = (\<lambda>a b. [sum_list a + 2 * sum_list b + 1]),
     toLittleEndian64BigInt = dec_string, soliditySha256 = (\<lambda>node size tail. map (\<lambda>b. char_of (unat b)) node @ size)\<rparr>"

theorem deposit_root_is_merkle_root_witness:
  "\<exists>tree. putEventsToTree demoHash (map demoEvent [0, 1, 2]) newDepositTree = (Inr (), tree, []) \<and>
    getRoot demoHash tree = Inr (merkle_root demoHash (map de_depositDataRoot (map demoEvent [0, 1, 2])))"
  by (rule deposit_root_is_merkle_root) (simp_all add: upt_rec)

text \<open>
  C37: Events are indexed only in order: into a tree that holds \<open>ls\<close>, putting events succeeds
  exactly when their counts continue the leaves without a gap or a repetition.
\<close>

theorem putEventsToTree_succeeds_iff:
  assumes "tree_inv T t ls" "length ls + length es < 2 ^ 32"
  shows "(\<exists>t' out. putEventsToTree T es t = (Inr (), t', out)) \<longleftrightarrow>
    map de_depositCount es = [length ls ..< length ls + length es]"
  unfolding putEventsToTree_def
  by (rule tree.put_succeeds_iff [OF assms(1)]) (use assms(2) in \<open>simp add: DEPOSIT_CONTRACT_TREE_DEPTH_def\<close>)

theorem putEventsToTree_succeeds_iff_witness:
  "\<not> (\<exists>t' out. putEventsToTree demoHash [demoEvent 0, demoEvent 2] newDepositTree = (Inr (), t', out))"
  using putEventsToTree_succeeds_iff [OF tree_inv_new, of "[demoEvent 0, demoEvent 2]" demoHash]
  by (simp add: upt_rec)

lemma putLatestEvents_spec:
  assumes inv: "tree_inv (ck_tree_lib C) t ls" and len: "length ls + length es < 2 ^ 32"
    and run: "putLatestEvents C t es = Inr t'"
  shows "map de_depositCount es = [length ls ..< length ls + length es] \<and>
    getRoot (ck_tree_lib C) t' = Inr (merkle_root (ck_tree_lib C) (ls @ map de_depositDataRoot es))"
proof -
  let ?T = "ck_tree_lib C"
  have len': "length ls + length es < 2 ^ DEPOSIT_CONTRACT_TREE_DEPTH"
    using len by (simp add: DEPOSIT_CONTRACT_TREE_DEPTH_def)
  obtain u out where put: "putEventsWith (insertNode ?T) es t = (Inr u, t', out)"
    using run by (auto simp: putLatestEvents_def cloneTree_id putEventsToTree_def split: prod.splits sum.splits)
  then have counts: "map de_depositCount es = [length ls ..< length ls + length es]"
    using tree.put_succeeds_iff [OF inv len'] by auto
  from tree.put_ok [OF inv len' this] put have "tree_inv ?T t' (ls @ map de_depositDataRoot es)" by simp
  from getRoot_merkle [OF this] len' counts show ?thesis by simp
qed

lemma verifyFreshEvents_true:
  assumes "tree_inv (ck_tree_lib C) (sc_tree s) ls" "length ls + length fresh < 2 ^ 32"
    and "verifyFreshEvents C blockHash fresh s = (Inr (True, fresh'), s', out)"
  shows "fresh' = sortByCount fresh \<and>
    map de_depositCount fresh' = [length ls ..< length ls + length fresh] \<and>
    ck_getDepositRoot C blockHash = Inr (merkle_root (ck_tree_lib C) (ls @ map de_depositDataRoot fresh')) \<and>
    sc_tree s' = sc_tree s \<and> sc_consecutive s' = 0"
proof (cases "fresh = []")
  case True
  have "length ls < 2 ^ DEPOSIT_CONTRACT_TREE_DEPTH"
    using assms(2) True by (simp add: DEPOSIT_CONTRACT_TREE_DEPTH_def)
  from getRoot_merkle [OF assms(1) this] True assms(3) show ?thesis
    by (auto simp: verifyFreshEvents_def checkFinalizedRoot_def checkRoot_def bindR_Inr_iff sortByCount_def
        recordFreshEventsRootCheck_def andThen_ok)
next
  case False
  from assms(3) False obtain t where
    t: "putLatestEvents C (sc_tree s) (sortByCount fresh) = Inr t" "checkRoot C blockHash t = Inr True"
    and s': "s' = recordFreshEventsRootCheck True s" and fresh': "fresh' = sortByCount fresh"
    by (auto simp: verifyFreshEvents_def checkLatestRoot_def bindR_Inr_iff andThen_ok Let_def split: if_splits)
  have "length ls + length (sortByCount fresh) < 2 ^ 32" using assms(2) by (simp add: sortByCount_def)
  from putLatestEvents_spec [OF assms(1) this t(1)] t(2) s' fresh' show ?thesis
    by (simp add: checkRoot_def bindR_Inr_iff sortByCount_def recordFreshEventsRootCheck_def)
qed

text \<open>
  C18: Fresh events are accepted only when they are the chain's: with the finalized events \<open>ls\<close>
  in the tree, a positive answer of \<open>verifyFreshEvents\<close> means that the events, sorted, continue
  \<open>ls\<close> by count and that the root over both is the deposit root of the contract at the block;
  the finalized tree is unchanged and the series of mismatches is over.
\<close>

theorem verifyFreshEvents_sound:
  assumes "tree_inv (ck_tree_lib C) (sc_tree s) ls" "length ls + length fresh < 2 ^ 32"
    and "verifyFreshEvents C blockHash fresh s = (Inr (True, fresh'), s', out)"
  shows "fresh' = sortByCount fresh \<and>
    map de_depositCount fresh' = [length ls ..< length ls + length fresh] \<and>
    ck_getDepositRoot C blockHash = Inr (merkle_root (ck_tree_lib C) (ls @ map de_depositDataRoot fresh')) \<and>
    sc_tree s' = sc_tree s \<and> sc_consecutive s' = 0"
  by (rule verifyFreshEvents_true [OF assms])

definition demoChecker :: checker_env where
  "demoChecker = \<lparr>ck_tree_lib = demoHash, ck_getDepositRoot = (\<lambda>blockHash.
     Inr (merkle_root demoHash (map de_depositDataRoot (map demoEvent [0, 1, 2]))))\<rparr>"

lemma putLatestEvents_ok:
  assumes inv: "tree_inv (ck_tree_lib C) t ls" and len: "length ls + length es < 2 ^ 32"
    and counts: "map de_depositCount es = [length ls ..< length ls + length es]"
  shows "\<exists>t'. putLatestEvents C t es = Inr t' \<and>
    getRoot (ck_tree_lib C) t' = Inr (merkle_root (ck_tree_lib C) (ls @ map de_depositDataRoot es))"
proof -
  have len': "length ls + length es < 2 ^ DEPOSIT_CONTRACT_TREE_DEPTH"
    using len by (simp add: DEPOSIT_CONTRACT_TREE_DEPTH_def)
  from tree.put_ok [OF inv len' counts] obtain t' where
    "putEventsWith (insertNode (ck_tree_lib C)) es t = (Inr (), t', [])"
    "tree_inv (ck_tree_lib C) t' (ls @ map de_depositDataRoot es)" by blast
  with getRoot_merkle [of "ck_tree_lib C" t' "ls @ map de_depositDataRoot es"] len' show ?thesis
    by (simp add: putLatestEvents_def cloneTree_id putEventsToTree_def)
qed

text \<open>
  The answer of \<open>verifyFreshEvents\<close> for a non-empty list in count order: negative with the
  series of mismatches reset when another event of the last event's block has a different
  block hash, and otherwise whether the roots agree, counted in the metrics.
\<close>

theorem verifyFreshEvents_answer:
  assumes "tree_inv (ck_tree_lib C) (sc_tree s) ls" "length ls + length fresh < 2 ^ 32" "fresh \<noteq> []"
    and "map de_depositCount (sortByCount fresh) = [length ls ..< length ls + length fresh]"
    and "ck_getDepositRoot C blockHash = Inr remoteRoot"
  shows "verifyFreshEvents C blockHash fresh s =
    (if \<exists>e\<in>set fresh. de_blockNumber e = de_blockNumber (last fresh) \<and> de_blockHash e \<noteq> de_blockHash (last fresh)
     then (Inr (False, fresh), s\<lparr>sc_consecutive := 0\<rparr>, [])
     else (let ok = (merkle_root (ck_tree_lib C) (ls @ map de_depositDataRoot (sortByCount fresh)) = remoteRoot)
           in (Inr (ok, sortByCount fresh),
               if ok then s\<lparr>sc_consecutive := 0\<rparr>
               else s\<lparr>sc_mismatches := sc_mismatches s + 1, sc_consecutive := sc_consecutive s + 1\<rparr>, [])))"
proof -
  let ?root = "merkle_root (ck_tree_lib C) (ls @ map de_depositDataRoot (sortByCount fresh))"
  have reorg: "findReorganization (de_blockNumber (last fresh)) (de_blockHash (last fresh)) fresh \<longleftrightarrow>
    (\<exists>e\<in>set fresh. de_blockNumber e = de_blockNumber (last fresh) \<and> de_blockHash e \<noteq> de_blockHash (last fresh))"
    unfolding findReorganization_def findReorganizedEvent_def by (simp add: find_None_iff) blast
  have "length ls + length (sortByCount fresh) < 2 ^ 32"
    "map de_depositCount (sortByCount fresh) = [length ls ..< length ls + length (sortByCount fresh)]"
    using assms(2,4) by (simp_all add: sortByCount_def)
  from putLatestEvents_ok [OF assms(1) this]
  have latest: "checkLatestRoot C (sc_tree s) blockHash fresh = Inr (?root = remoteRoot, sortByCount fresh)"
    by (auto simp: checkLatestRoot_def checkRoot_def assms(5))
  show ?thesis
    unfolding verifyFreshEvents_def andThen_getS if_not_P [OF assms(3)] Let_def reorg
    by (auto simp: latest recordFreshEventsRootCheck_def)
qed

definition demoSanity :: sanity_state where
  "demoSanity = \<lparr>sc_tree = newDepositTree, sc_mismatches = 0, sc_consecutive = 3\<rparr>"

lemma demoEvent_block [simp]: "de_blockHash (demoEvent n) = ''0xdd''" "de_depositDataRoot (demoEvent n) = [of_nat n]"
  by (simp_all add: demoEvent_def)

theorem verifyFreshEvents_answer_witness:
  "verifyFreshEvents demoChecker ''0xee'' [demoEvent 1, demoEvent 0, demoEvent 2] demoSanity =
    (Inr (True, [demoEvent 0, demoEvent 1, demoEvent 2]), demoSanity\<lparr>sc_consecutive := 0\<rparr>, [])"
  using verifyFreshEvents_answer [of demoChecker demoSanity "[]" "[demoEvent 1, demoEvent 0, demoEvent 2]"]
  by (simp add: demoSanity_def tree_inv_new demoChecker_def sortByCount_def upt_rec)

lemma demo_verify:
  "verifyFreshEvents demoChecker ''0xee'' (map demoEvent [0, 1, 2]) demoSanity =
    (Inr (True, map demoEvent [0, 1, 2]), demoSanity\<lparr>sc_consecutive := 0\<rparr>, [])"
proof -
  have inv: "tree_inv (ck_tree_lib demoChecker) (sc_tree demoSanity) []"
    by (simp add: demoSanity_def tree_inv_new)
  from putLatestEvents_ok [OF inv, of "map demoEvent [0, 1, 2]"]
  obtain t where "putLatestEvents demoChecker (sc_tree demoSanity) (map demoEvent [0, 1, 2]) = Inr t"
    "getRoot (ck_tree_lib demoChecker) t =
       Inr (merkle_root (ck_tree_lib demoChecker) ([] @ map de_depositDataRoot (map demoEvent [0, 1, 2])))"
    by (auto simp: upt_rec)
  then show ?thesis
    by (simp add: verifyFreshEvents_def Let_def checkLatestRoot_def checkRoot_def recordFreshEventsRootCheck_def
        findReorganization_def findReorganizedEvent_def sortByCount_def demoChecker_def)
qed

theorem verifyFreshEvents_sound_witness:
  "map demoEvent [0, 1, 2] = sortByCount (map demoEvent [0, 1, 2]) \<and>
   ck_getDepositRoot demoChecker ''0xee'' = Inr (merkle_root (ck_tree_lib demoChecker) ([[0], [1], [2]]))"
  using verifyFreshEvents_sound [OF _ _ demo_verify, of "[]"]
  by (simp add: demoSanity_def tree_inv_new)

end
