(* ===== verification/Bls.thy ===== *)
theory Bls
  imports Hex_Bytes
begin

text \<open>
  The signature check of a deposit (\<open>bls/bls.service.ts\<close>): the deposit domain of the network
  and the verification, in which every exception on malformed data is a negative answer. The
  SSZ types and the BLS library are the fields of \<open>bls_lib\<close>.
\<close>

section \<open>Chains\<close>

text \<open>The chain identifiers of \<open>@lido-nestjs/constants\<close> and of the local network.\<close>

definition Mainnet :: nat where "Mainnet = 1"
definition Goerli :: nat where "Goerli = 5"
definition Holesky :: nat where "Holesky = 17000"
definition Hoodi :: nat where "Hoodi = 560048"
definition LOCAL_DEVNET_CHAIN_ID :: nat where "LOCAL_DEVNET_CHAIN_ID = 32382"

lemmas chain_defs = Mainnet_def Goerli_def Holesky_def Hoodi_def LOCAL_DEVNET_CHAIN_ID_def

definition GENESIS_FORK_VERSION_BY_CHAIN_ID :: "nat \<rightharpoonup> bytes" where
  "GENESIS_FORK_VERSION_BY_CHAIN_ID = map_of
     [(Mainnet, [0x00, 0x00, 0x00, 0x00]),
      (Goerli, [0x00, 0x00, 0x10, 0x20]),
      (Holesky, [0x01, 0x01, 0x70, 0x00]),
      (Hoodi, [0x10, 0x00, 0x09, 0x10]),
      (LOCAL_DEVNET_CHAIN_ID, [0x10, 0x00, 0x00, 0x38])]"

definition DOMAIN_DEPOSIT :: bytes where
  "DOMAIN_DEPOSIT = [3, 0, 0, 0]"

definition BLS_ZERO_HASH :: bytes where
  "BLS_ZERO_HASH = replicate 32 0"

section \<open>The service\<close>

record bls_deposit_data =
  bd_pubkey :: string
  bd_wc :: string
  bd_amount :: string
  bd_signature :: string

record ('pk, 'sig) bls_lib =
  BLSPubkey_fromJson :: "string \<Rightarrow> js_error + bytes"
  Bytes32_fromJson :: "string \<Rightarrow> js_error + bytes"
  bls_fromHexString :: "string \<Rightarrow> js_error + bytes"
  bls_uintNum64_deserialize :: "bytes \<Rightarrow> js_error + nat"
  forkData_hashTreeRoot :: "bytes \<Rightarrow> bytes \<Rightarrow> bytes"
  depositMessage_hashTreeRoot :: "bytes \<Rightarrow> bytes \<Rightarrow> nat \<Rightarrow> bytes"
  signingData_hashTreeRoot :: "bytes \<Rightarrow> bytes \<Rightarrow> bytes"
  publicKey_fromBytes :: "bytes \<Rightarrow> js_error + 'pk"
  signature_fromBytes :: "bytes \<Rightarrow> js_error + 'sig"
  blst_verify :: "bytes \<Rightarrow> 'pk \<Rightarrow> 'sig \<Rightarrow> js_error + bool"

text \<open>\<open>onModuleInit\<close>: the fork version of the network, or no start.\<close>

definition bls_onModuleInit :: "nat \<Rightarrow> js_error + bytes option" where
  "bls_onModuleInit chainId =
     (case GENESIS_FORK_VERSION_BY_CHAIN_ID chainId of
        None \<Rightarrow> Inl (Error (''GENESIS_FORK_VERSION not found for chain ID: '' @ dec_string chainId
          @ ''. Please add the fork version to GENESIS_FORK_VERSION_BY_CHAIN_ID in bls.constants.ts''))
      | Some v \<Rightarrow> Inr (Some v))"

text \<open>\<open>typedArray.set(source, offset)\<close>\<close>

definition array_set :: "bytes \<Rightarrow> bytes \<Rightarrow> nat \<Rightarrow> js_error + bytes" where
  "array_set arr source offset =
     (if offset + length source > length arr then Inl RangeError
      else Inr (take offset arr @ source @ drop (offset + length source) arr))"

definition computeForkDataRoot :: "('pk, 'sig) bls_lib \<Rightarrow> bytes \<Rightarrow> bytes \<Rightarrow> bytes" where
  "computeForkDataRoot B currentVersion genesisValidatorsRoot =
     forkData_hashTreeRoot B currentVersion genesisValidatorsRoot"

definition computeDomain :: "('pk, 'sig) bls_lib \<Rightarrow> bytes \<Rightarrow> bytes \<Rightarrow> bytes \<Rightarrow> js_error + bytes" where
  "computeDomain B domainType forkVersion genesisValidatorRoot =
     (let forkDataRoot = computeForkDataRoot B forkVersion genesisValidatorRoot;
          domain = replicate 32 0
      in bindR (array_set domain domainType 0) (\<lambda>domain.
         array_set domain (take 28 forkDataRoot) 4))"

definition computeSigningRoot ::
  "('pk, 'sig) bls_lib \<Rightarrow> bytes \<Rightarrow> bytes \<Rightarrow> nat \<Rightarrow> bytes \<Rightarrow> bytes" where
  "computeSigningRoot B pubkey withdrawalCredentials amount domain =
     signingData_hashTreeRoot B (depositMessage_hashTreeRoot B pubkey withdrawalCredentials amount) domain"

text \<open>The body of the \<open>try\<close> of \<open>verify\<close>.\<close>

definition bls_verify_body :: "('pk, 'sig) bls_lib \<Rightarrow> bytes \<Rightarrow> bls_deposit_data \<Rightarrow> js_error + bool" where
  "bls_verify_body B forkVersion d =
     bindR (BLSPubkey_fromJson B (bd_pubkey d)) (\<lambda>pubkey.
     bindR (Bytes32_fromJson B (bd_wc d)) (\<lambda>withdrawalCredentials.
     bindR (bls_fromHexString B (bd_amount d)) (\<lambda>amountBytes.
     bindR (bls_uintNum64_deserialize B amountBytes) (\<lambda>amount.
     bindR (computeDomain B DOMAIN_DEPOSIT forkVersion BLS_ZERO_HASH) (\<lambda>domain.
     let signingRoot = computeSigningRoot B pubkey withdrawalCredentials amount domain in
     bindR (publicKey_fromBytes B pubkey) (\<lambda>blsPublicKey.
     bindR (bls_fromHexString B (bd_signature d)) (\<lambda>signatureBytes.
     bindR (signature_fromBytes B signatureBytes) (\<lambda>blsSignature.
       blst_verify B signingRoot blsPublicKey blsSignature))))))))"

definition bls_verify :: "('pk, 'sig) bls_lib \<Rightarrow> bytes option \<Rightarrow> bls_deposit_data \<Rightarrow> js_error + bool" where
  "bls_verify B forkVersion d =
     (case forkVersion of
        None \<Rightarrow> Inl (Error ''Fork version is not set'')
      | Some v \<Rightarrow> (case bls_verify_body B v d of Inl error \<Rightarrow> Inr False | Inr ok \<Rightarrow> Inr ok))"

section \<open>Lemmas\<close>

lemma computeDomain_eq:
  "length domainType = 4 \<Longrightarrow> length (forkData_hashTreeRoot B v r) = 32 \<Longrightarrow>
   computeDomain B domainType v r = Inr (domainType @ take 28 (forkData_hashTreeRoot B v r))"
  by (simp add: computeDomain_def computeForkDataRoot_def array_set_def Let_def)

lemma bls_verify_initialised: "\<exists>ok. bls_verify B (Some v) d = Inr ok"
  by (auto simp: bls_verify_def split: sum.splits)

lemma fork_version_length: "bls_onModuleInit chainId = Inr v \<Longrightarrow> \<exists>w. v = Some w \<and> length w = 4"
  by (auto simp: bls_onModuleInit_def GENESIS_FORK_VERSION_BY_CHAIN_ID_def split: option.splits if_splits
      dest!: map_of_SomeD)

text \<open>
  C25: The signature check of a deposit is decided by the verification over the right message:
  once the service is initialised it never throws, and it is positive exactly when all parts
  decode and the BLS library accepts the signature of the deposit message under the domain
  \<open>DOMAIN_DEPOSIT\<close> followed by the first 28 bytes of the network's fork data root.
\<close>

theorem bls_verify_iff:
  assumes "bls_onModuleInit chainId = Inr forkVersion"
    and "\<forall>v r. length (forkData_hashTreeRoot B v r) = 32"
  shows "(bls_verify B forkVersion d = Inr True \<longleftrightarrow>
    (\<exists>pubkey wc amountBytes amount pk sigBytes sig.
       BLSPubkey_fromJson B (bd_pubkey d) = Inr pubkey \<and> Bytes32_fromJson B (bd_wc d) = Inr wc \<and>
       bls_fromHexString B (bd_amount d) = Inr amountBytes \<and>
       bls_uintNum64_deserialize B amountBytes = Inr amount \<and>
       publicKey_fromBytes B pubkey = Inr pk \<and> bls_fromHexString B (bd_signature d) = Inr sigBytes \<and>
       signature_fromBytes B sigBytes = Inr sig \<and>
       blst_verify B (signingData_hashTreeRoot B (depositMessage_hashTreeRoot B pubkey wc amount)
         (DOMAIN_DEPOSIT @ take 28 (forkData_hashTreeRoot B (the forkVersion) BLS_ZERO_HASH))) pk sig = Inr True)) \<and>
    (bls_verify B forkVersion d = Inr True \<or> bls_verify B forkVersion d = Inr False)"
proof -
  obtain v where v: "forkVersion = Some v" using fork_version_length [OF assms(1)] by blast
  have dom: "computeDomain B DOMAIN_DEPOSIT v BLS_ZERO_HASH =
    Inr (DOMAIN_DEPOSIT @ take 28 (forkData_hashTreeRoot B v BLS_ZERO_HASH))"
    by (rule computeDomain_eq) (simp_all add: DOMAIN_DEPOSIT_def assms(2))
  have "bls_verify B forkVersion d = Inr True \<longleftrightarrow> bls_verify_body B v d = Inr True"
    by (auto simp: bls_verify_def v split: sum.splits)
  also have "\<dots> \<longleftrightarrow> (\<exists>pubkey wc amountBytes amount pk sigBytes sig.
       BLSPubkey_fromJson B (bd_pubkey d) = Inr pubkey \<and> Bytes32_fromJson B (bd_wc d) = Inr wc \<and>
       bls_fromHexString B (bd_amount d) = Inr amountBytes \<and>
       bls_uintNum64_deserialize B amountBytes = Inr amount \<and>
       publicKey_fromBytes B pubkey = Inr pk \<and> bls_fromHexString B (bd_signature d) = Inr sigBytes \<and>
       signature_fromBytes B sigBytes = Inr sig \<and>
       blst_verify B (signingData_hashTreeRoot B (depositMessage_hashTreeRoot B pubkey wc amount)
         (DOMAIN_DEPOSIT @ take 28 (forkData_hashTreeRoot B (the forkVersion) BLS_ZERO_HASH))) pk sig = Inr True)"
    by (simp add: bls_verify_body_def bindR_Inr_iff dom Let_def computeSigningRoot_def v)
  finally show ?thesis using bls_verify_initialised [of B v d] v by auto
qed

definition demoBls :: "(bytes, bytes) bls_lib" where
  "demoBls = \<lparr>BLSPubkey_fromJson = (\<lambda>s. if s = [] then Inl (External ''ssz'') else Inr [1]),
     Bytes32_fromJson = (\<lambda>s. Inr [2]), bls_fromHexString = (\<lambda>s. Inr [3]),
     bls_uintNum64_deserialize = (\<lambda>b. Inr 32), forkData_hashTreeRoot = (\<lambda>v r. replicate 32 7),
     depositMessage_hashTreeRoot = (\<lambda>p w a. p @ w), signingData_hashTreeRoot = (\<lambda>r d. r @ d),
     publicKey_fromBytes = Inr, signature_fromBytes = Inr,
     blst_verify = (\<lambda>m pk sig. Inr (m = [1, 2] @ [3, 0, 0, 0] @ replicate 28 7 \<and> sig = [3]))\<rparr>"

theorem bls_verify_iff_witness:
  "bls_verify demoBls (Some [0, 0, 0, 0])
     \<lparr>bd_pubkey = ''aa'', bd_wc = [], bd_amount = [], bd_signature = []\<rparr> = Inr True"
  using bls_verify_iff [of Mainnet "Some [0, 0, 0, 0]" demoBls
      "\<lparr>bd_pubkey = ''aa'', bd_wc = [], bd_amount = [], bd_signature = []\<rparr>"]
  by (simp add: demoBls_def DOMAIN_DEPOSIT_def bls_onModuleInit_def GENESIS_FORK_VERSION_BY_CHAIN_ID_def chain_defs)

end
