(* ===== verification/Deposits_Fetcher.thy ===== *)
theory Deposits_Fetcher
  imports Fetch_Events Deposits_Checker Bls
begin

text \<open>
  The fetcher of deposit events (\<open>contracts/deposits-registry/fetcher/fetcher.service.ts\<close>):
  the logs of the deposit contract, formatted and with their signatures checked, over
  \<open>fetchEventsFallOver\<close>. It is a source of events by block range (\<open>range_source\<close>).
\<close>

record raw_deposit_event =
  rw_pubkey :: string
  rw_wc :: string
  rw_amount :: string
  rw_signature :: string
  rw_index :: string
  rw_depositCount :: string
  rw_tx :: string
  rw_blockNumber :: nat
  rw_blockHash :: string
  rw_logIndex :: nat

text \<open>
  The services of the fetcher: the SSZ functions, \<open>blsService.verify\<close>, \<open>queryFilter\<close> of the
  deposit contract and the chain id of the provider.
\<close>

record fetcher_env =
  fe_nodeLib :: node_lib
  fe_blsVerify :: "bls_deposit_data \<Rightarrow> js_error + bool"
  fe_queryFilter :: "nat \<Rightarrow> nat \<Rightarrow> js_error + raw_deposit_event list"
  fe_chainId :: nat

definition DEPLOYMENT_BLOCK_NETWORK :: "nat \<rightharpoonup> nat" where
  "DEPLOYMENT_BLOCK_NETWORK = map_of
     [(Mainnet, 11052984), (Goerli, 4367322), (Holesky, 0), (Hoodi, 0), (LOCAL_DEVNET_CHAIN_ID, 0)]"

definition formatEvent :: "node_lib \<Rightarrow> raw_deposit_event \<Rightarrow> js_error + deposit_event" where
  "formatEvent N raw =
     bindR (formDepositNode N \<lparr>nd_pubkey = rw_pubkey raw, nd_wc = rw_wc raw, nd_amount = rw_amount raw,
                                nd_signature = rw_signature raw\<rparr>) (\<lambda>depositDataRoot.
     bindR (parseLittleEndian64 N (rw_depositCount raw)) (\<lambda>depositCount.
       Inr \<lparr>de_pubkey = rw_pubkey raw, de_wc = rw_wc raw, de_amount = rw_amount raw,
            de_signature = rw_signature raw, de_tx = rw_tx raw, de_blockNumber = rw_blockNumber raw,
            de_blockHash = rw_blockHash raw, de_logIndex = rw_logIndex raw, de_index = rw_index raw,
            de_depositCount = depositCount, de_depositDataRoot = depositDataRoot\<rparr>))"

definition verifyDeposit :: "fetcher_env \<Rightarrow> deposit_event \<Rightarrow> js_error + bool" where
  "verifyDeposit F e =
     fe_blsVerify F \<lparr>bd_pubkey = de_pubkey e, bd_wc = de_wc e, bd_amount = de_amount e,
                     bd_signature = de_signature e\<rparr>"

definition decodeEvent :: "fetcher_env \<Rightarrow> raw_deposit_event \<Rightarrow> js_error + verified_event" where
  "decodeEvent F raw =
     bindR (formatEvent (fe_nodeLib F) raw) (\<lambda>formatted.
     bindR (verifyDeposit F formatted) (\<lambda>valid.
       Inr (deposit_event.extend formatted \<lparr>de_valid = valid\<rparr>)))"

definition fetchDepositEvents :: "fetcher_env \<Rightarrow> nat \<Rightarrow> nat \<Rightarrow> js_error + verified_event event_group" where
  "fetchDepositEvents F start end' =
     bindR (fe_queryFilter F start end') (\<lambda>rawEvents.
       if rawEvents = [] then Inr \<lparr>events = [], startBlock = start, endBlock = end'\<rparr>
       else bindR (traverse (decodeEvent F) rawEvents) (\<lambda>evs.
            Inr \<lparr>events = evs, startBlock = start, endBlock = end'\<rparr>))"

text \<open>The events of one request, which is what \<open>fetchEventsFallOver\<close> takes of its fetcher.\<close>

definition requestDepositEvents :: "fetcher_env \<Rightarrow> nat \<Rightarrow> nat \<Rightarrow> js_error + verified_event list" where
  "requestDepositEvents F start end' = bindR (fetchDepositEvents F start end') (\<lambda>g. Inr (events g))"

definition fetchDepositEventsFallOver :: "fetcher_env \<Rightarrow> nat \<Rightarrow> nat \<Rightarrow> js_error + verified_event event_group" where
  "fetchDepositEventsFallOver F start end' = fetchEventsFallOver start end' (requestDepositEvents F)"

definition getDeploymentBlockByNetwork :: "fetcher_env \<Rightarrow> js_error + nat" where
  "getDeploymentBlockByNetwork F =
     (case DEPLOYMENT_BLOCK_NETWORK (fe_chainId F) of
        None \<Rightarrow> Inl (Error (''Chain '' @ dec_string (fe_chainId F) @ '' is not supported''))
      | Some address \<Rightarrow> Inr address)"

section \<open>The fetcher as a source of events\<close>

text \<open>The events of a block: its logs, decoded (nothing when one of them does not decode).\<close>

definition depositChain :: "fetcher_env \<Rightarrow> (nat \<Rightarrow> raw_deposit_event list) \<Rightarrow> nat \<Rightarrow> verified_event list" where
  "depositChain F logs b = (case traverse (decodeEvent F) (logs b) of Inl e \<Rightarrow> [] | Inr evs \<Rightarrow> evs)"

lemma requestDepositEvents_eq:
  "requestDepositEvents F s e = bindR (fe_queryFilter F s e) (traverse (decodeEvent F))"
  by (auto simp: requestDepositEvents_def fetchDepositEvents_def bindR_def split: sum.splits)

lemma depositSource_sound:
  assumes "fe_queryFilter F = query_logs failure logs" and "requestDepositEvents F s e = Inr evs"
  shows "evs = chain_events (depositChain F logs) s e"
proof -
  from assms have "traverse (decodeEvent F) (concat (map logs [s ..< Suc e])) = Inr evs"
    by (auto simp: requestDepositEvents_eq query_logs_def bindR_Inr_iff chain_events_def split: option.splits)
  from traverse_concat [OF this] show ?thesis
    by (simp add: chain_events_def depositChain_def [abs_def] comp_def)
qed

interpretation deposit_logs: range_source
  "requestDepositEvents (F\<lparr>fe_queryFilter := query_logs failure logs\<rparr>)"
  "depositChain (F\<lparr>fe_queryFilter := query_logs failure logs\<rparr>) logs"
  by unfold_locales (rule depositSource_sound, simp_all)

lemma depositFallOver_complete:
  assumes "fe_queryFilter F = query_logs failure logs" and "fetchDepositEventsFallOver F s e = Inr g"
  shows "g = \<lparr>events = chain_events (depositChain F logs) s e, startBlock = s, endBlock = e\<rparr>"
proof -
  have F: "F\<lparr>fe_queryFilter := query_logs failure logs\<rparr> = F"
    using assms(1) by (cases F) simp
  from deposit_logs.fallover_complete [where F = F and failure = failure and logs = logs] assms(2) show ?thesis
    unfolding F fetchDepositEventsFallOver_def by blast
qed

end
