(* ===== verification/Deposits_Registry.thy ===== *)
theory Deposits_Registry
  imports Deposits_Fetcher "HOL-Library.Multiset"
begin

text \<open>
  The registry of deposits (\<open>contracts/deposits-registry/deposits-registry.service.ts\<close>): the
  store, the sanity checker and the fetcher composed. \<open>registry_inv\<close> ties the finalized tree
  to the cached events; the update keeps it and covers the blocks up to the finalized one.
\<close>

record 'db registry_state =
  rs_store :: "'db deposit_store"
  rs_sanity :: sanity_state

record 'db registry_env =
  rg_store :: "'db deposit_store_env"
  rg_checker :: checker_env
  rg_fetcher :: fetcher_env

abbreviation onStore :: "('db deposit_store, unit, 'a) comp \<Rightarrow> ('db registry_state, unit, 'a) comp" where
  "onStore \<equiv> zoom rs_store (\<lambda>t s. s\<lparr>rs_store := t\<rparr>)"

abbreviation onSanity :: "(sanity_state, unit, 'a) comp \<Rightarrow> ('db registry_state, unit, 'a) comp" where
  "onSanity \<equiv> zoom rs_sanity (\<lambda>t s. s\<lparr>rs_sanity := t\<rparr>)"

definition DEPOSIT_EVENTS_STEP :: "nat \<rightharpoonup> nat" where
  "DEPOSIT_EVENTS_STEP = map_of [(Mainnet, 1000), (Holesky, 50), (Hoodi, 50)]"

definition DEPOSIT_EVENTS_STEP_DEFAULT :: nat where
  "DEPOSIT_EVENTS_STEP_DEFAULT = 1000"

definition getDepositEventStep :: "nat \<Rightarrow> nat" where
  "getDepositEventStep chainId =
     (case DEPOSIT_EVENTS_STEP chainId of Some step \<Rightarrow> step | None \<Rightarrow> DEPOSIT_EVENTS_STEP_DEFAULT)"

definition getCachedEvents :: "'db registry_env \<Rightarrow> ('db registry_state, unit, deposit_cache) comp" where
  "getCachedEvents R =
     andThen (onStore getEventsCache) (\<lambda>cache.
     andThen (liftR (getDeploymentBlockByNetwork (rg_fetcher R))) (\<lambda>deploymentBlock.
       ret (cache\<lparr>dc_headers :=
         \<lparr>hd_startBlock = max (hd_startBlock (dc_headers cache)) deploymentBlock,
          hd_endBlock = max (hd_endBlock (dc_headers cache)) deploymentBlock\<rparr>\<rparr>)))"

definition sortEventsByDepositCount :: "verified_event event_group \<Rightarrow> verified_event list" where
  "sortEventsByDepositCount g = sort_key de_depositCount (events g)"

text \<open>One turn of the loop of \<open>updateEventsCache\<close>; the result is the last event of the chunk.\<close>

definition updateChunk ::
  "'db registry_env \<Rightarrow> deposit_headers \<Rightarrow> nat \<Rightarrow> nat \<Rightarrow> ('db registry_state, unit, verified_event option) comp" where
  "updateChunk R initialHeaders chunkStartBlock chunkToBlock =
     andThen (liftR (fetchDepositEventsFallOver (rg_fetcher R) chunkStartBlock chunkToBlock)) (\<lambda>chunkEventGroup.
       let sortedEvents = sortEventsByDepositCount chunkEventGroup in
     andThen (onSanity (addEventGroupToIndex (rg_checker R) sortedEvents)) (\<lambda>_.
     andThen (onStore (insertEventsCacheBatch (rg_store R) sortedEvents
                (initialHeaders\<lparr>hd_endBlock := endBlock chunkEventGroup\<rparr>))) (\<lambda>_.
       ret (if sortedEvents = [] then None else Some (last sortedEvents)))))"

function updateLoop ::
  "'db registry_env \<Rightarrow> deposit_headers \<Rightarrow> nat \<Rightarrow> nat \<Rightarrow> nat \<Rightarrow> verified_event option \<Rightarrow>
   ('db registry_state, unit, verified_event option) comp" where
  "updateLoop R initialHeaders finalizedBlockNumber step block lastIndexedEvent =
     (if block \<le> finalizedBlockNumber \<and> 0 < step then
        andThen (updateChunk R initialHeaders block (min finalizedBlockNumber (block + step - 1))) (\<lambda>lastEvent.
          updateLoop R initialHeaders finalizedBlockNumber step (block + step)
            (case lastEvent of Some e \<Rightarrow> Some e | None \<Rightarrow> lastIndexedEvent))
      else ret lastIndexedEvent)"
  by pat_completeness auto
termination
  by (relation "measure (\<lambda>(_, _, fin, _, block, _). Suc fin - block)") auto

declare updateLoop.simps [simp del]

text \<open>
  \<open>updateEventsCache\<close>, with what follows its loop named. The finalized block, number and hash,
  is the answer of the provider.
\<close>

definition finishUpdate ::
  "'db registry_env \<Rightarrow> string \<Rightarrow> verified_event option \<Rightarrow> ('db registry_state, unit, unit) comp" where
  "finishUpdate R finalizedBlockHash lastIndexedEvent =
     andThen (onSanity (verifyUpdatedEvents (rg_checker R) finalizedBlockHash)) (\<lambda>isRootValid.
     andThen (case lastIndexedEvent of
                Some e \<Rightarrow> (if isRootValid then onStore (insertLastValidEvent (rg_store R) e) else ret ())
              | None \<Rightarrow> ret ()) (\<lambda>_.
       if \<not> isRootValid then
         andThen (onStore (clearFromLastValidEvent (rg_store R))) (\<lambda>_. raise ProcessExit)
       else ret ()))"

definition updateEventsCache ::
  "'db registry_env \<Rightarrow> js_error + nat \<times> string \<Rightarrow> ('db registry_state, unit, unit) comp" where
  "updateEventsCache R finalized =
     andThen (liftR finalized) (\<lambda>(finalizedBlockNumber, finalizedBlockHash).
     andThen (getCachedEvents R) (\<lambda>initialCache.
       if \<not> verifyCacheBlock initialCache finalizedBlockNumber then ret ()
       else
     andThen (updateLoop R (dc_headers initialCache) finalizedBlockNumber
                (getDepositEventStep (fe_chainId (rg_fetcher R)))
                (hd_endBlock (dc_headers initialCache) + 1) None)
              (finishUpdate R finalizedBlockHash)))"

definition handleNewBlockDeposits ::
  "'db registry_env \<Rightarrow> js_error + nat \<times> string \<Rightarrow> ('db registry_state, unit, unit) comp" where
  "handleNewBlockDeposits R finalized = updateEventsCache R finalized"

definition initializeRegistry ::
  "'db registry_env \<Rightarrow> js_error + nat \<times> string \<Rightarrow> ('db registry_state, unit, unit) comp" where
  "initializeRegistry R finalized =
     andThen (onStore (initializeStore (rg_store R))) (\<lambda>_.
     andThen (onStore getEventsCache) (\<lambda>cachedEvents.
     andThen (onSanity (initializeSanity (rg_checker R) cachedEvents)) (\<lambda>_.
     updateEventsCache R finalized)))"

definition getAllDepositedEvents ::
  "'db registry_env \<Rightarrow> nat \<Rightarrow> string \<Rightarrow> ('db registry_state, unit, verified_event event_group) comp" where
  "getAllDepositedEvents R blockNumber blockHash =
     andThen (getCachedEvents R) (\<lambda>cachedEvents.
       if \<not> verifyCacheBlock cachedEvents blockNumber then
         raise (Error (''Deposit events cache is newer than the current block '' @ dec_string blockNumber))
       else
     andThen (liftR (fetchDepositEventsFallOver (rg_fetcher R)
                (hd_endBlock (dc_headers cachedEvents) + 1) blockNumber)) (\<lambda>freshEventGroup.
     andThen (onSanity (verifyFreshEvents (rg_checker R) blockHash (events freshEventGroup)))
       (\<lambda>(isValid, freshEvents).
       if \<not> isValid then raise (Error (''Integrity check failed on block '' @ dec_string blockNumber))
       else ret \<lparr>events = dc_data cachedEvents @ freshEvents,
                 startBlock = hd_startBlock (dc_headers cachedEvents), endBlock = blockNumber\<rparr>)))"

definition getDepositRoot :: "checker_env \<Rightarrow> string \<Rightarrow> js_error + string" where
  "getDepositRoot C blockTag = ck_getDepositRoot C blockTag"

section \<open>The invariant\<close>

definition registry_inv :: "'db registry_env \<Rightarrow> 'db registry_state \<Rightarrow> bool" where
  "registry_inv R s \<longleftrightarrow>
     coherent (rg_store R) (rs_store s) \<and>
     (let data = dc_data (ds_cache (rs_store s)) in
        map de_depositCount data = [0 ..< length data] \<and>
        tree_inv (ck_tree_lib (rg_checker R)) (sc_tree (rs_sanity s)) (map de_depositDataRoot data))"

abbreviation cachedData :: "'db registry_state \<Rightarrow> verified_event list" where
  "cachedData s \<equiv> dc_data (ds_cache (rs_store s))"

abbreviation cachedHeaders :: "'db registry_state \<Rightarrow> deposit_headers" where
  "cachedHeaders s \<equiv> dc_headers (ds_cache (rs_store s))"

lemma registry_invD:
  assumes "registry_inv R s"
  shows "coherent (rg_store R) (rs_store s)"
    and "map de_depositCount (cachedData s) = [0 ..< length (cachedData s)]"
    and "tree_inv (ck_tree_lib (rg_checker R)) (sc_tree (rs_sanity s)) (map de_depositDataRoot (cachedData s))"
  using assms by (simp_all add: registry_inv_def Let_def)

lemma zoom_apply: "zoom sel upd m t = (case m (sel t) of (r, s, out) \<Rightarrow> (r, upd s t, out))"
  by (simp add: zoom_def)

lemma getCachedEvents_eq:
  "getDeploymentBlockByNetwork (rg_fetcher R) = Inr d \<Longrightarrow>
   getCachedEvents R s = (Inr ((ds_cache (rs_store s))\<lparr>dc_headers :=
      \<lparr>hd_startBlock = max (hd_startBlock (cachedHeaders s)) d,
       hd_endBlock = max (hd_endBlock (cachedHeaders s)) d\<rparr>\<rparr>), s, [])"
  by (cases s) (simp add: getCachedEvents_def andThen_apply zoom_apply getEventsCache_def)

lemma addEventGroup_ok:
  assumes "addEventGroupToIndex C es s = (Inr u, s', out)"
    and inv: "tree_inv (ck_tree_lib C) (sc_tree s) ls" and "length ls + length es < 2 ^ 32"
  shows "map de_depositCount es = [length ls ..< length ls + length es] \<and> out = [] \<and>
    tree_inv (ck_tree_lib C) (sc_tree s') (ls @ map de_depositDataRoot es)"
proof (cases "es = []")
  case True
  with assms show ?thesis by (simp add: addEventGroupToIndex_def)
next
  case False
  let ?T = "ck_tree_lib C"
  have len: "length ls + length es < 2 ^ DEPOSIT_CONTRACT_TREE_DEPTH"
    using assms(3) by (simp add: DEPOSIT_CONTRACT_TREE_DEPTH_def)
  from assms(1) False obtain t u' o1 where put: "putEventsToTree ?T es (sc_tree s) = (Inr u', t, o1)"
    and s': "s' = s\<lparr>sc_tree := t\<rparr>" "out = o1"
    by (auto simp: addEventGroupToIndex_def andThen_ok zoom_def putFinalizedEvents_def split: prod.splits)
  then have counts: "map de_depositCount es = [length ls ..< length ls + length es]"
    using tree.put_succeeds_iff [OF inv len] by (auto simp: putEventsToTree_def)
  from tree.put_ok [OF inv len this] put s' counts show ?thesis by (simp add: putEventsToTree_def)
qed


section \<open>The update loop\<close>

text \<open>
  The environment the properties assume: a database that obeys its laws, an empty default
  cache, and logs served by block range.
\<close>

definition registry_env_ok ::
  "'db registry_env \<Rightarrow> (nat \<Rightarrow> nat \<Rightarrow> js_error option) \<Rightarrow> (nat \<Rightarrow> raw_deposit_event list) \<Rightarrow> bool" where
  "registry_env_ok R failure logs \<longleftrightarrow>
     level_laws (se_level (rg_store R)) \<and> dc_data (se_default (rg_store R)) = [] \<and>
     fe_queryFilter (rg_fetcher R) = query_logs failure logs"

abbreviation registryChain :: "'db registry_env \<Rightarrow> (nat \<Rightarrow> raw_deposit_event list) \<Rightarrow> nat \<Rightarrow> verified_event list" where
  "registryChain R logs \<equiv> depositChain (rg_fetcher R) logs"

lemma consecutive_append:
  assumes "map de_depositCount ds = [0 ..< length ds]"
    and "map de_depositCount es = [length ds ..< length ds + length es]"
    and "length ds + length es < 2 ^ 32"
  shows "map de_depositCount (ds @ es) = [0 ..< length (ds @ es)]"
    and "sorted_wrt (<) (map de_depositCount (ds @ es))"
    and "\<forall>e\<in>set es. de_depositCount e < 2 ^ 32"
proof -
  show all: "map de_depositCount (ds @ es) = [0 ..< length (ds @ es)]"
    using assms(1,2) upt_add_eq_append [of 0 "length ds" "length es"] by simp
  show "sorted_wrt (<) (map de_depositCount (ds @ es))" unfolding all by (rule sorted_wrt_upt)
  show "\<forall>e\<in>set es. de_depositCount e < 2 ^ 32"
  proof
    fix e assume "e \<in> set es"
    then have "de_depositCount e \<in> set (map de_depositCount es)" by simp
    then have "de_depositCount e < length ds + length es" unfolding assms(2) by simp
    with assms(3) show "de_depositCount e < 2 ^ 32" by linarith
  qed
qed

lemma updateChunk_ok:
  assumes env: "registry_env_ok R failure logs" and inv: "registry_inv R s"
    and len: "length (cachedData s) + length (chain_events (registryChain R logs) a b) < 2 ^ 32"
    and run: "updateChunk R h a b s = (Inr l, s', out)"
  defines "es \<equiv> sortByCount (chain_events (registryChain R logs) a b)"
  shows "out = [] \<and> registry_inv R s' \<and> cachedData s' = cachedData s @ es \<and>
    cachedHeaders s' = h\<lparr>hd_endBlock := b\<rparr> \<and>
    dc_lastValidEvent (ds_cache (rs_store s')) = dc_lastValidEvent (ds_cache (rs_store s)) \<and>
    l = (if es = [] then None else Some (last es))"
proof -
  let ?C = "rg_checker R" and ?E = "rg_store R"
  have L: "level_laws (se_level ?E)" and F: "fe_queryFilter (rg_fetcher R) = query_logs failure logs"
    using env by (simp_all add: registry_env_ok_def)
  have len': "length (map de_depositDataRoot (cachedData s)) + length es < 2 ^ 32"
    using len by (simp add: es_def sortByCount_def)
  obtain g where "fetchDepositEventsFallOver (rg_fetcher R) a b = Inr g"
    using run by (auto simp: updateChunk_def andThen_ok)
  from this depositFallOver_complete [OF F this]
  have fetch: "fetchDepositEventsFallOver (rg_fetcher R) a b =
    Inr \<lparr>events = chain_events (registryChain R logs) a b, startBlock = a, endBlock = b\<rparr>" by simp
  have sorted: "sortEventsByDepositCount
    \<lparr>events = chain_events (registryChain R logs) a b, startBlock = a, endBlock = b\<rparr> = es"
    by (simp add: sortEventsByDepositCount_def es_def sortByCount_def)
  have "andThen (onSanity (addEventGroupToIndex ?C es)) (\<lambda>_.
     andThen (onStore (insertEventsCacheBatch ?E es (h\<lparr>hd_endBlock := b\<rparr>))) (\<lambda>_.
       ret (if es = [] then None else Some (last es)))) s = (Inr l, s', out)"
    using run unfolding updateChunk_def fetch andThen_simps Let_def sorted event_group.select_convs .
  then obtain u t o1 v store' o2 where
    add: "addEventGroupToIndex ?C es (rs_sanity s) = (Inr u, t, o1)" and
    ins: "insertEventsCacheBatch ?E es (h\<lparr>hd_endBlock := b\<rparr>) (rs_store s) = (Inr v, store', o2)" and
    s': "s' = s\<lparr>rs_sanity := t, rs_store := store'\<rparr>" "out = o1 @ o2"
      "l = (if es = [] then None else Some (last es))"
    by (auto simp: andThen_ok zoom_def split: prod.splits)
  from addEventGroup_ok [OF add registry_invD(3) [OF inv] len']
  have es: "map de_depositCount es = [length (cachedData s) ..< length (cachedData s) + length es]" "o1 = []"
    "tree_inv (ck_tree_lib ?C) (sc_tree t) (map de_depositDataRoot (cachedData s) @ map de_depositDataRoot es)"
    by simp_all
  note cons = consecutive_append [OF registry_invD(2) [OF inv] es(1)]
  have "length (cachedData s) + length es < 2 ^ 32" using len' by simp
  note cons = cons [OF this]
  from coherent_insert [OF L registry_invD(1) [OF inv] cons(2,3) ins] es cons(1) s'
  show ?thesis by (simp add: registry_inv_def)
qed

text \<open>A chunk and the rest of the chain.\<close>

lemma chain_chunk:
  fixes block step fin :: nat
  assumes "block \<le> fin" and "0 < step"
  shows "chain_events chain block fin = chain_events chain block (min fin (block + step - 1)) @ chain_events chain (block + step) fin"
proof -
  let ?to = "min fin (block + step - 1)"
  have "chain_events chain (block + step) fin = chain_events chain (Suc ?to) fin"
    by (cases "block + step - 1 \<le> fin") (use assms(2) in \<open>auto simp: min_def chain_events_empty\<close>)
  moreover have "chain_events chain block fin = chain_events chain block ?to @ chain_events chain (Suc ?to) fin"
    using assms by (intro chain_events_append) simp_all
  ultimately show ?thesis by simp
qed

lemma updateLoop_ok:
  assumes "registry_env_ok R failure logs" and "registry_inv R s"
    and "length (cachedData s) + length (chain_events (registryChain R logs) block fin) < 2 ^ 32"
    and "0 < step"
    and "updateLoop R h fin step block last0 s = (Inr l, s', out)"
  shows "out = [] \<and> registry_inv R s' \<and>
    (\<exists>new. cachedData s' = cachedData s @ new \<and>
       mset new = mset (chain_events (registryChain R logs) block fin) \<and>
       l = (if new = [] then last0 else Some (last new))) \<and>
    cachedHeaders s' = (if block \<le> fin then h\<lparr>hd_endBlock := fin\<rparr> else cachedHeaders s) \<and>
    dc_lastValidEvent (ds_cache (rs_store s')) = dc_lastValidEvent (ds_cache (rs_store s))"
  using assms(2,3,5)
proof (induction "Suc fin - block" arbitrary: block last0 s out rule: less_induct)
  case less
  let ?chain = "registryChain R logs"
  show ?case
  proof (cases "block \<le> fin")
    case False
    with less.prems(3) have "l = last0" "s' = s" "out = []"
      by (simp_all add: updateLoop.simps [of R h fin step block])
    with False less.prems(1) show ?thesis by (simp add: chain_events_empty)
  next
    case True
    define to where "to = min fin (block + step - 1)"
    have to: "block \<le> to" "to \<le> fin" using True assms(4) by (simp_all add: to_def)
    obtain c s1 o1 o2 where
      chunk: "updateChunk R h block to s = (Inr c, s1, o1)" and
      rest: "updateLoop R h fin step (block + step) (case c of Some e \<Rightarrow> Some e | None \<Rightarrow> last0) s1 = (Inr l, s', o2)"
      and out: "out = o1 @ o2"
      using less.prems(3) True assms(4)
      by (auto simp: updateLoop.simps [of R h fin step block] andThen_ok to_def)
    note split = chain_chunk [OF True assms(4), of ?chain, folded to_def]
    define es where "es = sortByCount (chain_events ?chain block to)"
    have es_mset: "mset es = mset (chain_events ?chain block to)" by (simp add: es_def sortByCount_def)
    have es_len: "length es = length (chain_events ?chain block to)" by (simp add: es_def sortByCount_def)
    have "length (cachedData s) + length (chain_events ?chain block to) < 2 ^ 32"
      using less.prems(2) split by simp
    from updateChunk_ok [OF assms(1) less.prems(1) this chunk]
    have c: "o1 = []" "registry_inv R s1" "cachedData s1 = cachedData s @ es"
      "cachedHeaders s1 = h\<lparr>hd_endBlock := to\<rparr>" "c = (if es = [] then None else Some (last es))"
      "dc_lastValidEvent (ds_cache (rs_store s1)) = dc_lastValidEvent (ds_cache (rs_store s))"
      by (simp_all add: es_def)
    have measure: "Suc fin - (block + step) < Suc fin - block" using True assms(4) by simp
    have len: "length (cachedData s1) + length (chain_events ?chain (block + step) fin) < 2 ^ 32"
      using less.prems(2) by (simp add: c(3) es_len split)
    from less.hyps [OF measure c(2) len rest] obtain new where
      IH: "o2 = []" "registry_inv R s'" "cachedData s' = cachedData s1 @ new"
      "mset new = mset (chain_events ?chain (block + step) fin)"
      "l = (if new = [] then (case c of Some e \<Rightarrow> Some e | None \<Rightarrow> last0) else Some (last new))"
      "cachedHeaders s' = (if block + step \<le> fin then h\<lparr>hd_endBlock := fin\<rparr> else cachedHeaders s1)"
      "dc_lastValidEvent (ds_cache (rs_store s')) = dc_lastValidEvent (ds_cache (rs_store s1))"
      by blast
    have hdr: "cachedHeaders s' = h\<lparr>hd_endBlock := fin\<rparr>"
      using IH(6) c(4) assms(4) True by (auto simp: to_def min_def)
    have "cachedData s' = cachedData s @ (es @ new)" using IH(3) c(3) by simp
    moreover have "mset (es @ new) = mset (chain_events ?chain block fin)"
      using IH(4) es_mset by (simp add: split)
    moreover have "l = (if es @ new = [] then last0 else Some (last (es @ new)))"
      using IH(5) c(5) by simp
    ultimately show ?thesis using hdr out c(1,6) IH(1,2,7) True by (intro conjI exI [of _ "es @ new"]) auto
  qed
qed


section \<open>The update when the provider answers\<close>

text \<open>
  A provider that serves every request, logs that decode, and deposits whose counts go up by
  one along the chain, from the ones in the cache: what an honest node shows.
\<close>

definition honest_chain ::
  "'db registry_env \<Rightarrow> (nat \<Rightarrow> raw_deposit_event list) \<Rightarrow> nat \<Rightarrow> nat \<Rightarrow> nat \<Rightarrow> bool" where
  "honest_chain R logs n a b \<longleftrightarrow>
     (\<forall>s e. requestDepositEvents (rg_fetcher R) s e = Inr (chain_events (registryChain R logs) s e)) \<and>
     map de_depositCount (chain_events (registryChain R logs) a b) =
       [n ..< n + length (chain_events (registryChain R logs) a b)]"

lemma honest_split:
  assumes "honest_chain R logs n a b" "a \<le> Suc m" "m \<le> b"
  shows "map de_depositCount (chain_events (registryChain R logs) a m) =
      [n ..< n + length (chain_events (registryChain R logs) a m)]"
    and "honest_chain R logs (n + length (chain_events (registryChain R logs) a m)) (Suc m) b"
proof -
  let ?l = "chain_events (registryChain R logs) a m" and ?r = "chain_events (registryChain R logs) (Suc m) b"
  have split: "chain_events (registryChain R logs) a b = ?l @ ?r"
    by (rule chain_events_append [OF assms(2,3)])
  have "map de_depositCount ?l @ map de_depositCount ?r = [n ..< n + length ?l] @ [n + length ?l ..< n + length ?l + length ?r]"
    using assms(1) upt_add_eq_append [of n "n + length ?l" "length ?r"]
    by (simp add: honest_chain_def split add.assoc)
  then have "map de_depositCount ?l = [n ..< n + length ?l]"
    and r: "map de_depositCount ?r = [n + length ?l ..< n + length ?l + length ?r]" by simp_all
  then show "map de_depositCount ?l = [n ..< n + length ?l]" by simp
  show "honest_chain R logs (n + length ?l) (Suc m) b" using assms(1) r by (simp add: honest_chain_def)
qed

lemma sortByCount_consecutive:
  "map de_depositCount es = [n ..< n + length es] \<Longrightarrow> sortByCount es = es"
  by (simp add: sortByCount_def sort_key_id_if_sorted)

lemma addEventGroup_total:
  assumes inv: "tree_inv (ck_tree_lib C) (sc_tree s) ls" and len: "length ls + length es < 2 ^ 32"
    and "map de_depositCount es = [length ls ..< length ls + length es]"
  shows "\<exists>s'. addEventGroupToIndex C es s = (Inr (), s', [])"
proof (cases "es = []")
  case True
  then show ?thesis by (simp add: addEventGroupToIndex_def)
next
  case False
  have len': "length ls + length es < 2 ^ DEPOSIT_CONTRACT_TREE_DEPTH"
    using len by (simp add: DEPOSIT_CONTRACT_TREE_DEPTH_def)
  from tree.put_ok [OF inv len' assms(3)] obtain t where
    "putEventsToTree (ck_tree_lib C) es (sc_tree s) = (Inr (), t, [])"
    and t: "tree_inv (ck_tree_lib C) t (ls @ map de_depositDataRoot es)" by (auto simp: putEventsToTree_def)
  then have "zoom sc_tree (\<lambda>t s. s\<lparr>sc_tree := t\<rparr>) (putFinalizedEvents C es) s = (Inr t, s\<lparr>sc_tree := t\<rparr>, [])"
    by (simp add: zoom_def putFinalizedEvents_def andThen_apply getS_def)
  with getRoot_merkle [OF t] len' False show ?thesis
    by (simp add: addEventGroupToIndex_def andThen_apply)
qed

lemma updateChunk_total:
  assumes env: "registry_env_ok R failure logs" and inv: "registry_inv R s"
    and honest: "honest_chain R logs (length (cachedData s)) a b"
    and len: "length (cachedData s) + length (chain_events (registryChain R logs) a b) < 2 ^ 32"
  shows "\<exists>l s'. updateChunk R h a b s = (Inr l, s', [])"
proof -
  let ?es = "chain_events (registryChain R logs) a b"
  have fetch: "fetchDepositEventsFallOver (rg_fetcher R) a b = Inr \<lparr>events = ?es, startBlock = a, endBlock = b\<rparr>"
    using honest by (simp add: fetchDepositEventsFallOver_def fetchEventsFallOver_def honest_chain_def)
  have counts: "map de_depositCount ?es = [length (cachedData s) ..< length (cachedData s) + length ?es]"
    using honest by (simp add: honest_chain_def)
  then have sorted: "sortEventsByDepositCount \<lparr>events = ?es, startBlock = a, endBlock = b\<rparr> = ?es"
    using sortByCount_consecutive by (simp add: sortEventsByDepositCount_def sortByCount_def)
  obtain t where "addEventGroupToIndex (rg_checker R) ?es (rs_sanity s) = (Inr (), t, [])"
    using addEventGroup_total [OF registry_invD(3) [OF inv], of ?es] counts len by auto
  moreover note consecutive_append(3) [OF registry_invD(2) [OF inv] counts len]
  ultimately show ?thesis
    unfolding updateChunk_def fetch andThen_simps Let_def sorted event_group.select_convs
    by (simp add: andThen_apply zoom_def insertEventsCacheBatch_eq)
qed

lemma updateLoop_total:
  assumes "registry_env_ok R failure logs" and "registry_inv R s"
    and "honest_chain R logs (length (cachedData s)) block fin"
    and "length (cachedData s) + length (chain_events (registryChain R logs) block fin) < 2 ^ 32"
    and "0 < step"
  shows "\<exists>l s'. updateLoop R h fin step block last0 s = (Inr l, s', [])"
  using assms(2-4)
proof (induction "Suc fin - block" arbitrary: block last0 s rule: less_induct)
  case less
  let ?chain = "registryChain R logs"
  show ?case
  proof (cases "block \<le> fin")
    case False
    then show ?thesis by (simp add: updateLoop.simps [of R h fin step block])
  next
    case True
    define to where "to = min fin (block + step - 1)"
    have to: "block \<le> Suc to" "to \<le> fin" using True assms(5) by (simp_all add: to_def)
    have honest_to: "honest_chain R logs (length (cachedData s)) block to"
      using honest_split(1) [OF less.prems(2) to] less.prems(2) by (simp add: honest_chain_def)
    have split: "chain_events ?chain block fin = chain_events ?chain block to @ chain_events ?chain (Suc to) fin"
      using to by (intro chain_events_append) simp_all
    with less.prems(3) have len: "length (cachedData s) + length (chain_events ?chain block to) < 2 ^ 32" by simp
    obtain c s1 where chunk: "updateChunk R h block to s = (Inr c, s1, [])"
      using updateChunk_total [OF assms(1) less.prems(1) honest_to len] by blast
    from updateChunk_ok [OF assms(1) less.prems(1) len chunk]
    have s1: "registry_inv R s1" "length (cachedData s1) = length (cachedData s) + length (chain_events ?chain block to)"
      by (simp_all add: sortByCount_def)
    have next_block: "block + step = Suc to \<or> fin < block + step \<and> to = fin"
      using assms(5) True by (auto simp: to_def min_def)
    have same: "chain_events ?chain (block + step) fin = chain_events ?chain (Suc to) fin"
      using next_block by (auto simp: chain_events_empty)
    have "honest_chain R logs (length (cachedData s1)) (block + step) fin"
      using honest_split(2) [OF less.prems(2) to] s1(2) by (simp add: honest_chain_def same)
    moreover have "Suc fin - (block + step) < Suc fin - block" using True assms(5) by simp
    moreover have "length (cachedData s1) + length (chain_events ?chain (block + step) fin) < 2 ^ 32"
      using less.prems(3) s1(2) by (simp add: same split)
    ultimately obtain l s' where
      "updateLoop R h fin step (block + step) (case c of Some e \<Rightarrow> Some e | None \<Rightarrow> last0) s1 = (Inr l, s', [])"
      using less.hyps [OF _ s1(1)] by blast
    with chunk True assms(5) show ?thesis
      by (simp add: updateLoop.simps [of R h fin step block] andThen_apply to_def)
  qed
qed


lemma getDepositEventStep_pos: "0 < getDepositEventStep chainId"
  by (auto simp: getDepositEventStep_def DEPOSIT_EVENTS_STEP_def DEPOSIT_EVENTS_STEP_DEFAULT_def
      split: option.splits dest!: map_of_SomeD)

definition firstNotCached :: "'db registry_state \<Rightarrow> nat \<Rightarrow> nat" where
  "firstNotCached s deploymentBlock = max (hd_endBlock (cachedHeaders s)) deploymentBlock + 1"

lemma verifyUpdated_eq:
  assumes "registry_inv R s" "length (cachedData s) < 2 ^ 32"
  shows "onSanity (verifyUpdatedEvents (rg_checker R) h) s =
    (case ck_getDepositRoot (rg_checker R) h of
       Inl e \<Rightarrow> Inl e
     | Inr remoteRoot \<Rightarrow>
         Inr (merkle_root (ck_tree_lib (rg_checker R)) (map de_depositDataRoot (cachedData s)) = remoteRoot), s, [])"
  using getRoot_merkle [OF registry_invD(3) [OF assms(1)]] assms(2)
  by (simp add: zoom_def verifyUpdatedEvents_def checkFinalizedRoot_def checkRoot_def
      DEPOSIT_CONTRACT_TREE_DEPTH_def bindR_def split: sum.splits)

lemma updateEventsCache_eq:
  assumes "getDeploymentBlockByNetwork (rg_fetcher R) = Inr d"
  shows "updateEventsCache R (Inr (fin, hash)) s =
    (if fin < max (hd_endBlock (cachedHeaders s)) d then (Inr (), s, [])
     else andThen (updateLoop R
            \<lparr>hd_startBlock = max (hd_startBlock (cachedHeaders s)) d, hd_endBlock = max (hd_endBlock (cachedHeaders s)) d\<rparr>
            fin (getDepositEventStep (fe_chainId (rg_fetcher R))) (firstNotCached s d) None) (finishUpdate R hash) s)"
  unfolding updateEventsCache_def andThen_simps prod.case andThen_step [OF getCachedEvents_eq [OF assms]]
  by (simp add: verifyCacheBlock_def validateCacheBlock_def firstNotCached_def less_max_iff_disj not_le)

text \<open>The end of the update, by the answer of the contract.\<close>

lemma finishUpdate_ok:
  assumes L: "level_laws (se_level (rg_store R))" and def: "dc_data (se_default (rg_store R)) = []"
    and inv: "registry_inv R t" and len: "length (cachedData t) < 2 ^ 32"
    and last: "\<forall>e. l = Some e \<longrightarrow> cachedData t \<noteq> []"
    and remote: "ck_getDepositRoot (rg_checker R) hash =
      Inr (merkle_root (ck_tree_lib (rg_checker R)) (map de_depositDataRoot (cachedData t)))"
  shows "\<exists>s'. finishUpdate R hash l t = (Inr (), s', []) \<and> registry_inv R s' \<and>
    cachedData s' = cachedData t \<and> cachedHeaders s' = cachedHeaders t \<and>
    dc_lastValidEvent (ds_cache (rs_store s')) =
      (case l of Some e \<Rightarrow> Some e | None \<Rightarrow> dc_lastValidEvent (ds_cache (rs_store t)))"
proof -
  have root: "onSanity (verifyUpdatedEvents (rg_checker R) hash) t = (Inr True, t, [])"
    using verifyUpdated_eq [OF inv len, of hash] by (simp add: remote)
  show ?thesis
  proof (cases l)
    case None
    with root inv show ?thesis by (simp add: finishUpdate_def andThen_step)
  next
    case (Some e)
    have "contents (se_level (rg_store R)) (ds_db (rs_store t)) ''headers'' \<noteq> None"
      using registry_invD(1) [OF inv] last Some def by (auto simp: coherent_def Let_def split: option.splits)
    note coh = coherent_insertLast [OF L registry_invD(1) [OF inv] this insertLastValidEvent_eq [of _ e]]
    from root Some coh inv show ?thesis
      by (simp add: finishUpdate_def andThen_step zoom_apply andThen_apply insertLastValidEvent_eq registry_inv_def)
  qed
qed

lemma finishUpdate_Inr:
  assumes "registry_inv R t" "length (cachedData t) < 2 ^ 32" "finishUpdate R hash l t = (Inr u, s', out)"
  shows "ck_getDepositRoot (rg_checker R) hash =
    Inr (merkle_root (ck_tree_lib (rg_checker R)) (map de_depositDataRoot (cachedData t)))"
  using assms(3) verifyUpdated_eq [OF assms(1,2), of hash]
  by (auto simp: finishUpdate_def andThen_ok split: sum.splits if_splits option.splits)

section \<open>Properties\<close>

text \<open>
  C4: A completed update leaves the cache whole and verified: from a state that satisfies the
  invariant, when \<open>updateEventsCache\<close> returns it has either changed nothing (the finalized block
  is older than the cache) or has appended to the cache exactly the deposits of the blocks after
  the cached ones up to the finalized block, numbered without a gap from 0, with the tree and
  the database in step, the cache ending at the finalized block, and the root over all of them
  equal to the deposit root of the contract at that block.
\<close>

theorem updateEventsCache_covers:
  assumes "registry_env_ok R failure logs" and "registry_inv R s"
    and "getDeploymentBlockByNetwork (rg_fetcher R) = Inr d"
    and "length (cachedData s) + length (chain_events (registryChain R logs) (firstNotCached s d) fin) < 2 ^ 32"
    and "updateEventsCache R (Inr (fin, hash)) s = (Inr u, s', out)"
  shows "(fin < max (hd_endBlock (cachedHeaders s)) d \<and> s' = s) \<or>
    (registry_inv R s' \<and>
     (\<exists>new. cachedData s' = cachedData s @ new \<and>
        mset new = mset (chain_events (registryChain R logs) (firstNotCached s d) fin)) \<and>
     (firstNotCached s d \<le> fin \<longrightarrow> hd_endBlock (cachedHeaders s') = fin) \<and>
     ck_getDepositRoot (rg_checker R) hash =
       Inr (merkle_root (ck_tree_lib (rg_checker R)) (map de_depositDataRoot (cachedData s'))))"
proof (cases "fin < max (hd_endBlock (cachedHeaders s)) d")
  case True
  with assms(5) show ?thesis by (simp add: updateEventsCache_eq [OF assms(3)])
next
  case False
  from assms(5) False obtain h l t o1 o2 where
    loop: "updateLoop R h fin (getDepositEventStep (fe_chainId (rg_fetcher R))) (firstNotCached s d) None s = (Inr l, t, o1)"
    and finish: "finishUpdate R hash l t = (Inr u, s', o2)"
    by (auto simp: updateEventsCache_eq [OF assms(3)] andThen_ok)
  from updateLoop_ok [OF assms(1,2,4) getDepositEventStep_pos loop] obtain new where
    t: "registry_inv R t" "cachedData t = cachedData s @ new"
    "mset new = mset (chain_events (registryChain R logs) (firstNotCached s d) fin)"
    "l = (if new = [] then None else Some (last new))"
    "cachedHeaders t = (if firstNotCached s d \<le> fin then h\<lparr>hd_endBlock := fin\<rparr> else cachedHeaders s)" by blast
  have len: "length (cachedData t) < 2 ^ 32" using assms(4) t(2) mset_eq_length [OF t(3)] by simp
  note root = finishUpdate_Inr [OF t(1) len finish]
  have L: "level_laws (se_level (rg_store R))" and def: "dc_data (se_default (rg_store R)) = []"
    using assms(1) by (simp_all add: registry_env_ok_def)
  have "\<forall>e. l = Some e \<longrightarrow> cachedData t \<noteq> []" using t(2,4) by auto
  from finishUpdate_ok [OF L def t(1) len this root] finish
  have "registry_inv R s'" "cachedData s' = cachedData t" "cachedHeaders s' = cachedHeaders t" by auto
  with t root show ?thesis by simp
qed

lemma updateEventsCache_total:
  assumes "registry_env_ok R failure logs" and "registry_inv R s"
    and "getDeploymentBlockByNetwork (rg_fetcher R) = Inr d"
    and "max (hd_endBlock (cachedHeaders s)) d \<le> fin"
    and "honest_chain R logs (length (cachedData s)) (firstNotCached s d) fin"
    and "length (cachedData s) + length (chain_events (registryChain R logs) (firstNotCached s d) fin) < 2 ^ 32"
    and "ck_getDepositRoot (rg_checker R) hash = Inr (merkle_root (ck_tree_lib (rg_checker R))
      (map de_depositDataRoot (cachedData s @ chain_events (registryChain R logs) (firstNotCached s d) fin)))"
  shows "\<exists>s'. updateEventsCache R (Inr (fin, hash)) s = (Inr (), s', []) \<and> registry_inv R s' \<and>
    cachedData s' = cachedData s @ chain_events (registryChain R logs) (firstNotCached s d) fin"
proof -
  let ?new = "chain_events (registryChain R logs) (firstNotCached s d) fin"
  obtain h l t where loop:
    "updateLoop R h fin (getDepositEventStep (fe_chainId (rg_fetcher R))) (firstNotCached s d) None s = (Inr l, t, [])"
    and eq: "updateEventsCache R (Inr (fin, hash)) s = finishUpdate R hash l t"
    using updateLoop_total [OF assms(1,2,5,6) getDepositEventStep_pos] assms(4)
    by (metis updateEventsCache_eq [OF assms(3)] andThen_step not_le)
  from updateLoop_ok [OF assms(1,2,6) getDepositEventStep_pos loop] obtain new where
    t: "registry_inv R t" "cachedData t = cachedData s @ new" "mset new = mset ?new"
    "l = (if new = [] then None else Some (last new))" by blast
  have new: "new = ?new"
  proof -
    have "map de_depositCount (cachedData s) @ map de_depositCount new = [0 ..< length (cachedData s) + length new]"
      using registry_invD(2) [OF t(1)] t(2) by simp
    also have "\<dots> = [0 ..< length (cachedData s)] @ [length (cachedData s) ..< length (cachedData s) + length new]"
      using upt_add_eq_append [of 0 "length (cachedData s)" "length new"] by simp
    finally have "map de_depositCount new = [length (cachedData s) ..< length (cachedData s) + length new]"
      using registry_invD(2) [OF assms(2)] by simp
    moreover have len: "length new = length ?new" using mset_eq_length [OF t(3)] .
    ultimately have eq: "map de_depositCount new = map de_depositCount ?new"
      using assms(5) by (simp add: honest_chain_def)
    have "inj_on de_depositCount (set ?new)"
      using assms(5) distinct_upt by (simp add: honest_chain_def distinct_map [symmetric] flip: distinct_map) (metis distinct_map distinct_upt)
    moreover have "set new = set ?new" using t(3) by (rule mset_eq_setD)
    ultimately show ?thesis using eq by (intro map_inj_on [where f = de_depositCount]) simp_all
  qed
  have L: "level_laws (se_level (rg_store R))" and def: "dc_data (se_default (rg_store R)) = []"
    using assms(1) by (simp_all add: registry_env_ok_def)
  have len: "length (cachedData t) < 2 ^ 32" using assms(6) t(2) new by simp
  have "\<forall>e. l = Some e \<longrightarrow> cachedData t \<noteq> []" using t(2,4) by auto
  from finishUpdate_ok [OF L def t(1) len this] assms(7) t(2) new eq show ?thesis by fastforce
qed

text \<open>
  C20: With an honest provider the update succeeds: when every request is served, the logs
  decode, the new deposits are numbered on from the cache, and the contract's root is the root
  over the cache and the new deposits, \<open>updateEventsCache\<close> returns with the cache extended by
  them and the last of them recorded as the last valid event.
\<close>

theorem updateEventsCache_succeeds:
  assumes "registry_env_ok R failure logs" and "registry_inv R s"
    and "getDeploymentBlockByNetwork (rg_fetcher R) = Inr d"
    and "max (hd_endBlock (cachedHeaders s)) d \<le> fin"
    and "honest_chain R logs (length (cachedData s)) (firstNotCached s d) fin"
    and "length (cachedData s) + length (chain_events (registryChain R logs) (firstNotCached s d) fin) < 2 ^ 32"
    and "ck_getDepositRoot (rg_checker R) hash = Inr (merkle_root (ck_tree_lib (rg_checker R))
      (map de_depositDataRoot (cachedData s @ chain_events (registryChain R logs) (firstNotCached s d) fin)))"
  shows "\<exists>s'. updateEventsCache R (Inr (fin, hash)) s = (Inr (), s', []) \<and> registry_inv R s' \<and>
    cachedData s' = cachedData s @ chain_events (registryChain R logs) (firstNotCached s d) fin"
  by (rule updateEventsCache_total [OF assms])


text \<open>
  C5: What \<open>getAllDepositedEvents\<close> returns is the whole deposit history of the block: the cached
  events and the deposits of the blocks after them up to the block asked for, numbered without
  a gap from 0, and with the contract's deposit root at that block; the cache, the database and
  the finalized tree are left as they are.
\<close>

theorem getAllDepositedEvents_sound:
  assumes "registry_env_ok R failure logs" and "registry_inv R s"
    and "getDeploymentBlockByNetwork (rg_fetcher R) = Inr d"
    and "length (cachedData s) + length (chain_events (registryChain R logs) (firstNotCached s d) blockNumber) < 2 ^ 32"
    and "getAllDepositedEvents R blockNumber blockHash s = (Inr g, s', out)"
  shows "map de_depositCount (events g) = [0 ..< length (events g)] \<and>
    (\<exists>fresh. events g = cachedData s @ fresh \<and>
       mset fresh = mset (chain_events (registryChain R logs) (firstNotCached s d) blockNumber)) \<and>
    ck_getDepositRoot (rg_checker R) blockHash =
      Inr (merkle_root (ck_tree_lib (rg_checker R)) (map de_depositDataRoot (events g))) \<and>
    max (hd_endBlock (cachedHeaders s)) d \<le> blockNumber \<and> endBlock g = blockNumber \<and>
    rs_store s' = rs_store s \<and> sc_tree (rs_sanity s') = sc_tree (rs_sanity s)"
proof -
  let ?fresh = "chain_events (registryChain R logs) (firstNotCached s d) blockNumber"
  have F: "fe_queryFilter (rg_fetcher R) = query_logs failure logs"
    using assms(1) by (simp add: registry_env_ok_def)
  note run = assms(5) [unfolded getAllDepositedEvents_def andThen_step [OF getCachedEvents_eq [OF assms(3)]]]
  from run have le: "max (hd_endBlock (cachedHeaders s)) d \<le> blockNumber"
    by (auto simp: verifyCacheBlock_def validateCacheBlock_def split: if_splits)
  from run le obtain grp where
    "fetchDepositEventsFallOver (rg_fetcher R) (firstNotCached s d) blockNumber = Inr grp"
    by (auto simp: verifyCacheBlock_def validateCacheBlock_def andThen_ok firstNotCached_def)
  with depositFallOver_complete [OF F this] have fetch:
    "fetchDepositEventsFallOver (rg_fetcher R) (firstNotCached s d) blockNumber =
      Inr \<lparr>events = ?fresh, startBlock = firstNotCached s d, endBlock = blockNumber\<rparr>" by simp
  from run le obtain fresh' t o1 where
    verify: "verifyFreshEvents (rg_checker R) blockHash ?fresh (rs_sanity s) = (Inr (True, fresh'), t, o1)"
    and res: "s' = s\<lparr>rs_sanity := t\<rparr>" "events g = cachedData s @ fresh'" "endBlock g = blockNumber"
    by (auto simp: verifyCacheBlock_def validateCacheBlock_def fetch [unfolded firstNotCached_def, simplified]
        firstNotCached_def andThen_ok zoom_def split: prod.splits if_splits)
  have "length (map de_depositDataRoot (cachedData s)) + length ?fresh < 2 ^ 32" using assms(4) by simp
  note ver = verifyFreshEvents_true [OF registry_invD(3) [OF assms(2)] this verify]
  have v: "fresh' = sortByCount ?fresh"
    "map de_depositCount fresh' = [length (cachedData s) ..< length (cachedData s) + length ?fresh]"
    "ck_getDepositRoot (rg_checker R) blockHash = Inr (merkle_root (ck_tree_lib (rg_checker R))
      (map de_depositDataRoot (cachedData s) @ map de_depositDataRoot fresh'))"
    "sc_tree t = sc_tree (rs_sanity s)" using ver unfolding length_map by blast+
  have len: "length fresh' = length ?fresh" and mset: "mset fresh' = mset ?fresh"
    using v(1) by (simp_all add: sortByCount_def)
  have "map de_depositCount (events g) = [0 ..< length (events g)]"
    using consecutive_append(1) [OF registry_invD(2) [OF assms(2)] v(2) [folded len]] assms(4) len res(2) by simp
  with v(3,4) res mset le show ?thesis by auto
qed


section \<open>A registry with three deposits\<close>

definition demoNodeLib :: node_lib where
  "demoNodeLib = \<lparr>fromHexString = (\<lambda>s. Inr (map (\<lambda>c. of_nat (of_char c)) s)),
     uintNum64_deserialize = (\<lambda>bs. Inr (sum_list (map unat bs))),
     depositData_hashTreeRoot = (\<lambda>pubkey wc amount signature. [of_nat amount])\<rparr>"

definition demoRaw :: "nat \<Rightarrow> raw_deposit_event" where
  "demoRaw n = \<lparr>rw_pubkey = ''0xaa'', rw_wc = ''0x01'', rw_amount = [char_of n], rw_signature = ''0xbb'',
     rw_index = ''0x00'', rw_depositCount = [char_of n], rw_tx = ''0xcc'', rw_blockNumber = Suc n,
     rw_blockHash = ''0xdd'', rw_logIndex = 0\<rparr>"

definition demoLogs :: "nat \<Rightarrow> raw_deposit_event list" where
  "demoLogs b = (if 0 < b \<and> b \<le> 3 then [demoRaw (b - 1)] else [])"

definition demoFetcher :: fetcher_env where
  "demoFetcher = \<lparr>fe_nodeLib = demoNodeLib, fe_blsVerify = (\<lambda>d. Inr True),
     fe_queryFilter = query_logs (\<lambda>s e. None) demoLogs, fe_chainId = Holesky\<rparr>"

definition demoRegistry :: "deposit_json ref_db registry_env" where
  "demoRegistry = \<lparr>rg_store = demoDepositEnv, rg_checker = demoChecker, rg_fetcher = demoFetcher\<rparr>"

definition demoRegistryState :: "deposit_json ref_db registry_state" where
  "demoRegistryState = \<lparr>rs_store = emptyDepositStore, rs_sanity = demoSanity\<rparr>"

definition demoChainEvent :: "nat \<Rightarrow> verified_event" where
  "demoChainEvent n = projr (decodeEvent demoFetcher (demoRaw n))"

lemma demoDecode: "n < 256 \<Longrightarrow> decodeEvent demoFetcher (demoRaw n) = Inr (demoChainEvent n)"
  and demoChainEvent_fields: "n < 256 \<Longrightarrow> de_depositCount (demoChainEvent n) = n"
    "n < 256 \<Longrightarrow> de_depositDataRoot (demoChainEvent n) = [of_nat n]"
    "n < 256 \<Longrightarrow> de_blockHash (demoChainEvent n) = ''0xdd''"
  by (simp_all add: demoChainEvent_def decodeEvent_def formatEvent_def formDepositNode_def parseLittleEndian64_def
      demoFetcher_def demoNodeLib_def demoRaw_def verifyDeposit_def deposit_event.defs verified_event.defs
      unat_of_nat)


lemma demo_fields [simp]:
  "rg_store demoRegistry = demoDepositEnv" "rg_checker demoRegistry = demoChecker"
  "rg_fetcher demoRegistry = demoFetcher" "rs_store demoRegistryState = emptyDepositStore"
  "rs_sanity demoRegistryState = demoSanity" "sc_tree demoSanity = newDepositTree"
  "ck_tree_lib demoChecker = demoHash" "fe_chainId demoFetcher = Holesky"
  "ck_getDepositRoot demoChecker h = Inr (merkle_root demoHash [[0], [1], [2]])"
  "se_default demoDepositEnv = DEPOSIT_CACHE_DEFAULT" "ds_cache emptyDepositStore = DEPOSIT_CACHE_DEFAULT"
  "dc_data DEPOSIT_CACHE_DEFAULT = []" "dc_lastValidEvent DEPOSIT_CACHE_DEFAULT = None"
  "dc_headers DEPOSIT_CACHE_DEFAULT = \<lparr>hd_startBlock = 0, hd_endBlock = 0\<rparr>"
  by (simp_all add: demoRegistry_def demoRegistryState_def demoSanity_def demoChecker_def demoFetcher_def
      demoDepositEnv_def emptyDepositStore_def DEPOSIT_CACHE_DEFAULT_def)

lemma demo_env_ok: "registry_env_ok demoRegistry (\<lambda>s e. None) demoLogs"
  by (simp add: registry_env_ok_def demo_level_laws) (simp add: demoFetcher_def)

lemma demo_inv: "registry_inv demoRegistry demoRegistryState"
  by (simp add: registry_inv_def emptyDepositStore_coherent tree_inv_new)

lemma demo_deployment: "getDeploymentBlockByNetwork (rg_fetcher demoRegistry) = Inr 0"
  by (simp add: getDeploymentBlockByNetwork_def DEPLOYMENT_BLOCK_NETWORK_def chain_defs)

lemma demoLogs_in: "0 < b \<Longrightarrow> b \<le> 3 \<Longrightarrow> traverse (decodeEvent demoFetcher) (demoLogs b) = Inr [demoChainEvent (b - 1)]"
  and demoLogs_out: "b = 0 \<or> 3 < b \<Longrightarrow> demoLogs b = []"
  using demoDecode [of "b - 1"] by (auto simp: demoLogs_def)

lemma demo_chain: "depositChain demoFetcher demoLogs b = (if 0 < b \<and> b \<le> 3 then [demoChainEvent (b - 1)] else [])"
  using demoLogs_in [of b] demoLogs_out [of b] by (auto simp: depositChain_def)

lemma demo_traverse: "traverse (decodeEvent demoFetcher) (demoLogs b) = Inr (depositChain demoFetcher demoLogs b)"
  using demoLogs_in [of b] demoLogs_out [of b] by (cases "0 < b \<and> b \<le> 3") (auto simp: demo_chain)

lemma demo_chain_events: "chain_events (depositChain demoFetcher demoLogs) 1 3 = map demoChainEvent [0, 1, 2]"
  by (simp add: chain_events_def upt_rec demo_chain numeral_2_eq_2 numeral_3_eq_3)

lemma demo_request:
  "requestDepositEvents demoFetcher s e = Inr (chain_events (depositChain demoFetcher demoLogs) s e)"
proof -
  have "traverse (decodeEvent demoFetcher) (concat (map demoLogs bs)) =
    Inr (concat (map (depositChain demoFetcher demoLogs) bs))" for bs
    by (induction bs) (simp_all add: traverse_append demo_traverse)
  moreover have "fe_queryFilter demoFetcher s e = Inr (chain_events demoLogs s e)"
    by (simp add: demoFetcher_def query_logs_def)
  ultimately show ?thesis by (simp add: requestDepositEvents_eq chain_events_def del: upt_Suc)
qed

lemma demo_first: "firstNotCached demoRegistryState 0 = 1"
  by (simp add: firstNotCached_def)

lemma demo_honest: "honest_chain demoRegistry demoLogs 0 1 3"
  using demo_chain_events by (simp add: honest_chain_def demo_request demoChainEvent_fields upt_rec)

lemma demo_length: "length (chain_events (depositChain demoFetcher demoLogs) 1 3) = 3"
  using demo_chain_events by simp

theorem updateEventsCache_succeeds_witness:
  "\<exists>s'. updateEventsCache demoRegistry (Inr (3, ''0xee'')) demoRegistryState = (Inr (), s', []) \<and>
    registry_inv demoRegistry s' \<and> cachedData s' = map demoChainEvent [0, 1, 2]"
  using updateEventsCache_succeeds [OF demo_env_ok demo_inv demo_deployment, of 3 "''0xee''"]
    demo_honest demo_chain_events
  by (simp add: demo_first demoChainEvent_fields)

lemma demo_update:
  "\<exists>s'. updateEventsCache demoRegistry (Inr (3, ''0xee'')) demoRegistryState = (Inr (), s', []) \<and>
    registry_inv demoRegistry s' \<and> cachedData s' = map demoChainEvent [0, 1, 2]"
  using updateEventsCache_total [OF demo_env_ok demo_inv demo_deployment, of 3 "''0xee''"]
    demo_honest demo_chain_events
  by (simp add: demo_first demoChainEvent_fields)

theorem updateEventsCache_covers_witness:
  "\<exists>s'. updateEventsCache demoRegistry (Inr (3, ''0xee'')) demoRegistryState = (Inr (), s', []) \<and>
    registry_inv demoRegistry s' \<and> hd_endBlock (cachedHeaders s') = 3"
proof -
  obtain s' where s': "updateEventsCache demoRegistry (Inr (3, ''0xee'')) demoRegistryState = (Inr (), s', [])"
    using demo_update by blast
  have "length (cachedData demoRegistryState) +
    length (chain_events (registryChain demoRegistry demoLogs) (firstNotCached demoRegistryState 0) 3) < 2 ^ 32"
    by (simp add: demo_first demo_length [simplified])
  from updateEventsCache_covers [OF demo_env_ok demo_inv demo_deployment this s'] s'
  show ?thesis by (auto simp: demo_first)
qed


theorem getAllDepositedEvents_sound_witness:
  "\<exists>g s' out. getAllDepositedEvents demoRegistry 3 ''0xee'' demoRegistryState = (Inr g, s', out) \<and>
    map de_depositCount (events g) = [0 ..< length (events g)]"
proof -
  let ?es = "map demoChainEvent [0, 1, 2]"
  have fetch: "fetchDepositEventsFallOver demoFetcher 1 3 = Inr \<lparr>events = ?es, startBlock = 1, endBlock = 3\<rparr>"
    using demo_chain_events by (simp add: fetchDepositEventsFallOver_def fetchEventsFallOver_def demo_request)
  have inv: "tree_inv (ck_tree_lib demoChecker) newDepositTree []" by (rule tree_inv_new)
  have "checkLatestRoot demoChecker newDepositTree ''0xee'' ?es = Inr (True, ?es)"
    using putLatestEvents_ok [OF inv, of ?es]
    by (auto simp: demoChainEvent_fields upt_rec checkLatestRoot_def checkRoot_def sortByCount_def)
  then have verify: "verifyFreshEvents demoChecker ''0xee'' ?es demoSanity =
     (Inr (True, ?es), recordFreshEventsRootCheck True demoSanity, [])"
    by (simp add: verifyFreshEvents_def Let_def findReorganization_def findReorganizedEvent_def
        demoChainEvent_fields)
  have "getAllDepositedEvents demoRegistry 3 ''0xee'' demoRegistryState =
    (Inr \<lparr>events = ?es, startBlock = 0, endBlock = 3\<rparr>,
     demoRegistryState\<lparr>rs_sanity := recordFreshEventsRootCheck True demoSanity\<rparr>, [])"
    unfolding getAllDepositedEvents_def andThen_step [where s = demoRegistryState, OF getCachedEvents_eq [OF demo_deployment]]
    using fetch verify by (simp add: verifyCacheBlock_def validateCacheBlock_def andThen_apply zoom_apply)
  note run = this
  have "length (cachedData demoRegistryState) +
    length (chain_events (registryChain demoRegistry demoLogs) (firstNotCached demoRegistryState 0) 3) < 2 ^ 32"
    by (simp add: demo_first demo_length [simplified])
  from getAllDepositedEvents_sound [OF demo_env_ok demo_inv demo_deployment this run] run
  show ?thesis by blast
qed

end
