(* ===== verification/Signing_Keys_Store.thy ===== *)
theory Signing_Keys_Store
  imports Level_DB
begin

text \<open>
  The store of signing-key events
  (\<open>contracts/signing-keys-registry/store/store.service.ts\<close>): the events of a key are the
  entries whose database key starts with the signing key. A JSON text is the value it stands
  for, one constructor per kind of text the store writes.
\<close>

section \<open>Data\<close>

record key_event =
  ke_operatorIndex :: nat
  ke_key :: string
  ke_moduleAddress :: string
  ke_logIndex :: nat
  ke_blockNumber :: nat
  ke_blockHash :: string

record key_headers =
  kh_stakingModulesAddresses :: "string list"
  kh_startBlock :: nat
  kh_endBlock :: nat

record key_cache =
  kc_headers :: key_headers
  kc_data :: "key_event list"

datatype key_json = KEvent key_event | KHeaders key_headers

record 'db key_store =
  ks_db :: 'db
  ks_cacheSizeBytes :: nat
  ks_cacheEventCount :: nat
  ks_bytesGauge :: nat
  ks_countGauge :: nat

record 'db key_store_env =
  kv_level :: "('db, key_json) level"
  kv_byteLength :: "key_json \<Rightarrow> nat"
  kv_default :: key_cache

definition SIGNING_KEYS_CACHE_DEFAULT :: key_cache where
  "SIGNING_KEYS_CACHE_DEFAULT =
     \<lparr>kc_headers = \<lparr>kh_stakingModulesAddresses = [], kh_startBlock = 0, kh_endBlock = 0\<rparr>, kc_data = []\<rparr>"

section \<open>Operations\<close>

definition parseSigningKeyEvent :: "key_json \<Rightarrow> js_error + key_event" where
  "parseSigningKeyEvent text = (case text of KEvent e \<Rightarrow> Inr e | KHeaders h \<Rightarrow> Inl TypeError)"

definition parseKeyHeaders :: "key_json \<Rightarrow> js_error + key_headers" where
  "parseKeyHeaders text = (case text of KHeaders h \<Rightarrow> Inr h | KEvent e \<Rightarrow> Inl TypeError)"

definition updateKeyCacheMetrics :: "'db key_store \<Rightarrow> 'db key_store" where
  "updateKeyCacheMetrics s = s\<lparr>ks_bytesGauge := ks_cacheSizeBytes s, ks_countGauge := ks_cacheEventCount s\<rparr>"

definition trackKeyValue :: "'db key_store_env \<Rightarrow> key_json \<Rightarrow> 'db key_store \<Rightarrow> 'db key_store" where
  "trackKeyValue E value s =
     s\<lparr>ks_cacheSizeBytes := ks_cacheSizeBytes s + kv_byteLength E value,
       ks_cacheEventCount := ks_cacheEventCount s + 1\<rparr>"

definition readKeyRow :: "'db key_store_env \<Rightarrow> string \<times> key_json \<Rightarrow> ('db key_store, unit, key_event) comp" where
  "readKeyRow E row =
     andThen (modifyS (trackKeyValue E (snd row))) (\<lambda>_. liftR (parseSigningKeyEvent (snd row)))"

definition readKeyHeaders :: "'db key_store_env \<Rightarrow> ('db key_store, unit, key_headers) comp" where
  "readKeyHeaders E =
     andThen getS (\<lambda>s. liftR (bindR (level_get (kv_level E) (ks_db s) ''headers'') parseKeyHeaders))"

definition getKeyEventsCache :: "'db key_store_env \<Rightarrow> ('db key_store, unit, key_cache) comp" where
  "getKeyEventsCache E =
     catchE
       (andThen getS (\<lambda>s0.
        andThen (modifyS (\<lambda>s. s\<lparr>ks_cacheSizeBytes := 0, ks_cacheEventCount := 0\<rparr>)) (\<lambda>_.
        andThen (mapM (readKeyRow E) (level_iterator (kv_level E) (prefixRange ''signingKey:'') (ks_db s0))) (\<lambda>data.
        andThen (modifyS updateKeyCacheMetrics) (\<lambda>_.
        andThen (readKeyHeaders E) (\<lambda>headers.
          ret \<lparr>kc_headers = headers, kc_data = data\<rparr>))))))
       (\<lambda>error. if error = LevelNotFound then ret (kv_default E) else raise error)"

text \<open>\<open>getCachedEvents\<close>: one iterator per key.\<close>

definition lookupKey ::
  "'db key_store_env \<Rightarrow> 'db \<Rightarrow> string \<Rightarrow> ('db key_store, unit, key_event list) comp" where
  "lookupKey E db key =
     mapM (\<lambda>row. liftR (parseSigningKeyEvent (snd row)))
       (level_iterator (kv_level E) (prefixRange (''signingKey:'' @ key)) db)"

definition getCachedKeyEvents :: "'db key_store_env \<Rightarrow> string list \<Rightarrow> ('db key_store, unit, key_cache) comp" where
  "getCachedKeyEvents E keys =
     catchE
       (andThen getS (\<lambda>s.
        andThen (mapM (lookupKey E (ks_db s)) keys) (\<lambda>data.
        andThen (readKeyHeaders E) (\<lambda>headers.
          ret \<lparr>kc_headers = headers, kc_data = concat data\<rparr>))))
       (\<lambda>error. if error = LevelNotFound then ret (kv_default E) else raise error)"

definition getHeader :: "'db key_store_env \<Rightarrow> ('db key_store, unit, key_headers) comp" where
  "getHeader E =
     catchE (readKeyHeaders E)
       (\<lambda>error. if error = LevelNotFound then ret (kc_headers (kv_default E)) else raise error)"

definition generateSigningKeyEventStorageKey :: "key_event \<Rightarrow> string" where
  "generateSigningKeyEventStorageKey e =
     ''signingKey:'' @ ke_key e @ '':'' @ dec_string (ke_blockNumber e) @ '':'' @ dec_string (ke_logIndex e)"

definition serializeEventData :: "'db key_store_env \<Rightarrow> key_event \<Rightarrow> ('db key_store, unit, key_json) comp" where
  "serializeEventData E e =
     andThen (modifyS (\<lambda>s. updateKeyCacheMetrics (trackKeyValue E (KEvent e) s))) (\<lambda>_. ret (KEvent e))"

text \<open>\<open>validateHeader\<close> looks at the keys of the object only: \<open>Object.keys\<close> of a headers record.\<close>

definition headerKeys :: "key_headers \<Rightarrow> string list" where
  "headerKeys h = [''stakingModulesAddresses'', ''startBlock'', ''endBlock'']"

definition validateHeader :: "string list \<Rightarrow> bool" where
  "validateHeader headersKeys =
     (let requiredHeaders = [''stakingModulesAddresses'', ''startBlock'', ''endBlock''];
          hasNoExtraKey = list_all (\<lambda>key. List.member requiredHeaders key) headersKeys;
          hasAllRequiredKeys = list_all (\<lambda>key. List.member headersKeys key) requiredHeaders
      in hasNoExtraKey \<and> hasAllRequiredKeys)"

definition keyInsertOp ::
  "'db key_store_env \<Rightarrow> key_event \<Rightarrow> ('db key_store, unit, key_json level_op) comp" where
  "keyInsertOp E e =
     andThen (serializeEventData E e) (\<lambda>value. ret (PutOp (generateSigningKeyEventStorageKey e) value))"

definition insertKeyEventsBatch ::
  "'db key_store_env \<Rightarrow> key_event list \<Rightarrow> key_headers \<Rightarrow> ('db key_store, unit, unit) comp" where
  "insertKeyEventsBatch E data headers =
     (if \<not> validateHeader (headerKeys headers) then
        raise (Error ''Invalid headers: Headers must contain exactly all SigningKeyEventsCacheHeaders keys.'')
      else
        andThen (mapM (keyInsertOp E) data) (\<lambda>ops.
        modifyS (\<lambda>s. s\<lparr>ks_db := level_batch (kv_level E)
          (ops @ [PutOp ''headers'' (KHeaders headers)]) (ks_db s)\<rparr>)))"

definition deleteKeyCache :: "'db key_store_env \<Rightarrow> ('db key_store, unit, unit) comp" where
  "deleteKeyCache E =
     modifyS (\<lambda>s. updateKeyCacheMetrics
       (s\<lparr>ks_db := level_clear (kv_level E) (ks_db s), ks_cacheSizeBytes := 0, ks_cacheEventCount := 0\<rparr>))"

section \<open>Storage keys\<close>

text \<open>A signing key as the contracts emit it: \<open>0x\<close> and 96 hex digits, so no colon.\<close>

definition pubkey_ok :: "string \<Rightarrow> bool" where
  "pubkey_ok k \<longleftrightarrow> length k = 98 \<and> CHR '':'' \<notin> set k \<and> CHR 0xFF \<notin> set k"

abbreviation "storageKey \<equiv> generateSigningKeyEventStorageKey"

lemma dec_string_no_colon: "CHR '':'' \<notin> set (dec_string n)" and dec_string_no_xFF: "CHR 0xFF \<notin> set (dec_string n)"
  by (auto simp: is_digit_def dest!: dec_string_digits)

lemma split_at_colon:
  "CHR '':'' \<notin> set a \<Longrightarrow> CHR '':'' \<notin> set b \<Longrightarrow>
   a @ CHR '':'' # r = b @ CHR '':'' # t \<longleftrightarrow> a = b \<and> r = t"
proof (induction a arbitrary: b)
  case Nil
  then show ?case by (cases b) auto
next
  case (Cons x a)
  then show ?case by (cases b) auto
qed

lemma storageKey_inj:
  assumes "pubkey_ok (ke_key e)" "pubkey_ok (ke_key f)"
  shows "storageKey e = storageKey f \<longleftrightarrow>
    ke_key e = ke_key f \<and> ke_blockNumber e = ke_blockNumber f \<and> ke_logIndex e = ke_logIndex f"
  using assms
  by (auto simp: generateSigningKeyEventStorageKey_def pubkey_ok_def split_at_colon dec_string_no_colon dec_string_inj)

lemma storageKey_no_xFF: "pubkey_ok (ke_key e) \<Longrightarrow> CHR 0xFF \<notin> set (storageKey e)"
  using dec_string_no_xFF by (auto simp: generateSigningKeyEventStorageKey_def pubkey_ok_def)

lemma storageKey_in_range [simp]:
  "pubkey_ok (ke_key e) \<Longrightarrow> in_range (prefixRange ''signingKey:'') (storageKey e)"
  unfolding in_prefixRange [OF storageKey_no_xFF] by (auto simp: generateSigningKeyEventStorageKey_def)

lemma storageKey_in_key_range:
  assumes "pubkey_ok (ke_key e)" "pubkey_ok key"
  shows "in_range (prefixRange (''signingKey:'' @ key)) (storageKey e) \<longleftrightarrow> ke_key e = key"
proof -
  have "(\<exists>r. storageKey e = (''signingKey:'' @ key) @ r) \<longleftrightarrow>
    (\<exists>r. ke_key e @ '':'' @ dec_string (ke_blockNumber e) @ '':'' @ dec_string (ke_logIndex e) = key @ r)"
    by (simp add: generateSigningKeyEventStorageKey_def)
  also have "\<dots> \<longleftrightarrow> ke_key e = key" using assms by (auto simp: pubkey_ok_def)
  finally show ?thesis using in_prefixRange [OF storageKey_no_xFF [OF assms(1)]] by blast
qed

lemma headers_key_not_in_range [simp]: "\<not> in_range (prefixRange (''signingKey:'' @ p)) ''headers''"
  by (auto simp: in_range_def prefixRange_def less_char_def)

lemma storageKey_not_headers [simp]: "storageKey e \<noteq> ''headers''" "''headers'' \<noteq> storageKey e"
  by (simp_all add: generateSigningKeyEventStorageKey_def)

section \<open>The events in the database\<close>

definition keydb_wf :: "(string \<rightharpoonup> key_json) \<Rightarrow> bool" where
  "keydb_wf m \<longleftrightarrow>
     (\<forall>k v. m k = Some v \<longrightarrow> k \<noteq> ''headers'' \<longrightarrow> (\<exists>e. pubkey_ok (ke_key e) \<and> k = storageKey e \<and> v = KEvent e)) \<and>
     (\<forall>v. m ''headers'' = Some v \<longrightarrow> (\<exists>h. v = KHeaders h))"

definition keydb_events :: "(string \<rightharpoonup> key_json) \<Rightarrow> key_event set" where
  "keydb_events m = {e. pubkey_ok (ke_key e) \<and> m (storageKey e) = Some (KEvent e)}"

definition keydb_headers :: "key_headers \<Rightarrow> (string \<rightharpoonup> key_json) \<Rightarrow> key_headers" where
  "keydb_headers dflt m = (case m ''headers'' of Some (KHeaders h) \<Rightarrow> h | _ \<Rightarrow> dflt)"

text \<open>
  Events that the chain can hold together: two of them at the same place in the same block are
  the same event.
\<close>

definition located :: "key_event set \<Rightarrow> bool" where
  "located A \<longleftrightarrow> (\<forall>e\<in>A. pubkey_ok (ke_key e)) \<and>
     (\<forall>e\<in>A. \<forall>f\<in>A. ke_blockNumber e = ke_blockNumber f \<longrightarrow> ke_logIndex e = ke_logIndex f \<longrightarrow> e = f)"


lemma keydb_rows:
  assumes L: "level_laws L" and wf: "keydb_wf (contents L db)"
    and p: "\<And>e. pubkey_ok (ke_key e) \<Longrightarrow> in_range r (storageKey e) \<longleftrightarrow> P e" and h: "\<not> in_range r ''headers''"
  shows "\<exists>es. map snd (level_iterator L r db) = map KEvent es \<and> set es = {e \<in> keydb_events (contents L db). P e}"
proof -
  define rows where "rows = level_iterator L r db"
  have rows: "set rows = {(k, v). contents L db k = Some v \<and> in_range r k}"
    unfolding rows_def by (rule set_iterator [OF L])
  have ev: "\<exists>e. pubkey_ok (ke_key e) \<and> fst row = storageKey e \<and> snd row = KEvent e \<and> contents L db (fst row) = Some (snd row)"
    if row: "row \<in> set rows" for row
  proof -
    obtain k v where kv: "row = (k, v)" "contents L db k = Some v" "in_range r k"
      using row unfolding rows by blast
    with h have "k \<noteq> ''headers''" by blast
    then obtain e where "pubkey_ok (ke_key e)" "k = storageKey e" "v = KEvent e"
      using wf kv(2) unfolding keydb_wf_def by blast
    with kv show ?thesis by auto
  qed
  define es where "es = map (\<lambda>row. case snd row of KEvent e \<Rightarrow> e) rows"
  have "map snd rows = map KEvent es"
    unfolding es_def by (simp, rule ballI, drule ev, auto)
  moreover have "set es = {e \<in> keydb_events (contents L db). P e}"
  proof (intro set_eqI iffI)
    fix e assume "e \<in> set es"
    then obtain row where row: "row \<in> set rows" "e = (case snd row of KEvent e \<Rightarrow> e)" by (auto simp: es_def)
    with ev [OF row(1)] have e: "pubkey_ok (ke_key e)" "fst row = storageKey e" "snd row = KEvent e"
      "contents L db (fst row) = Some (snd row)" by auto
    moreover have "in_range r (storageKey e)" using row(1) e(2) rows by auto
    ultimately show "e \<in> {e \<in> keydb_events (contents L db). P e}" using p by (auto simp: keydb_events_def)
  next
    fix e assume "e \<in> {e \<in> keydb_events (contents L db). P e}"
    then have "(storageKey e, KEvent e) \<in> set rows" using p rows by (auto simp: keydb_events_def)
    then show "e \<in> set es" by (force simp: es_def)
  qed
  ultimately show ?thesis unfolding rows_def by blast
qed

lemma readKeyHeaders_eq:
  assumes "level_laws (kv_level E)" "keydb_wf (contents (kv_level E) (ks_db s))"
  shows "readKeyHeaders E s =
    (case contents (kv_level E) (ks_db s) ''headers'' of
       None \<Rightarrow> (Inl LevelNotFound, s, [])
     | Some v \<Rightarrow> (Inr (keydb_headers (kc_headers (kv_default E)) (contents (kv_level E) (ks_db s))), s, []))"
  using assms(2)
  by (auto simp: readKeyHeaders_def level_get_contents [OF assms(1)] keydb_headers_def keydb_wf_def
      parseKeyHeaders_def split: option.splits)

lemma getHeader_eq:
  assumes "level_laws (kv_level E)" "keydb_wf (contents (kv_level E) (ks_db s))"
  shows "getHeader E s =
    (Inr (keydb_headers (kc_headers (kv_default E)) (contents (kv_level E) (ks_db s))), s, [])"
  using assms(2)
  by (cases "contents (kv_level E) (ks_db s) ''headers''")
     (auto simp: getHeader_def catchE_def readKeyHeaders_eq [OF assms] keydb_headers_def keydb_wf_def)

lemma readKeyRows:
  "map snd rows = map KEvent es \<Longrightarrow>
   mapM (readKeyRow E) rows s = (Inr es, fold (\<lambda>e. trackKeyValue E (KEvent e)) es s, [])"
proof (induction rows arbitrary: es s)
  case Nil
  then show ?case by simp
next
  case (Cons row rows)
  then obtain e es' where "es = e # es'" "snd row = KEvent e" "map snd rows = map KEvent es'" by auto
  with Cons.IH show ?case by (simp add: readKeyRow_def andThen_assoc parseSigningKeyEvent_def andThen_apply)
qed

definition keysLoaded :: "'db key_store_env \<Rightarrow> key_event list \<Rightarrow> 'db key_store \<Rightarrow> 'db key_store" where
  "keysLoaded E es s = updateKeyCacheMetrics
     (fold (\<lambda>e. trackKeyValue E (KEvent e)) es (s\<lparr>ks_cacheSizeBytes := 0, ks_cacheEventCount := 0\<rparr>))"

lemma keysLoaded_db [simp]: "ks_db (keysLoaded E es s) = ks_db s"
proof -
  have "ks_db (fold (\<lambda>e. trackKeyValue E (KEvent e)) es t) = ks_db t" for t
    by (rule fold_keeps) (simp add: trackKeyValue_def)
  then show ?thesis by (simp add: keysLoaded_def updateKeyCacheMetrics_def)
qed

lemma getKeyEventsCache_ok:
  assumes L: "level_laws (kv_level E)" and wf: "keydb_wf (contents (kv_level E) (ks_db s))"
  shows "\<exists>es. set es = keydb_events (contents (kv_level E) (ks_db s)) \<and>
    getKeyEventsCache E s =
      (Inr (case contents (kv_level E) (ks_db s) ''headers'' of
              None \<Rightarrow> kv_default E
            | Some v \<Rightarrow> \<lparr>kc_headers = keydb_headers (kc_headers (kv_default E)) (contents (kv_level E) (ks_db s)), kc_data = es\<rparr>),
       keysLoaded E es s, [])"
proof -
  obtain es where es: "map snd (level_iterator (kv_level E) (prefixRange ''signingKey:'') (ks_db s)) = map KEvent es"
    "set es = {e \<in> keydb_events (contents (kv_level E) (ks_db s)). True}"
    using keydb_rows [OF L wf, of "prefixRange ''signingKey:''" "\<lambda>e. True"] headers_key_not_in_range [of "[]"] by auto
  have "keydb_wf (contents (kv_level E) (ks_db (keysLoaded E es s)))" using wf by simp
  note hdrs = readKeyHeaders_eq [OF L this]
  have "getKeyEventsCache E s = catchE (andThen (readKeyHeaders E) (\<lambda>headers.
      ret \<lparr>kc_headers = headers, kc_data = es\<rparr>))
      (\<lambda>error. if error = LevelNotFound then ret (kv_default E) else raise error) (keysLoaded E es s)"
    by (simp add: getKeyEventsCache_def catchE_def andThen_apply [of "mapM _ _"] readKeyRows [OF es(1)]
        keysLoaded_def [symmetric] andThen_step split: prod.splits)
  also have "\<dots> = (Inr (case contents (kv_level E) (ks_db s) ''headers'' of
              None \<Rightarrow> kv_default E
            | Some v \<Rightarrow> \<lparr>kc_headers = keydb_headers (kc_headers (kv_default E)) (contents (kv_level E) (ks_db s)), kc_data = es\<rparr>),
       keysLoaded E es s, [])"
    by (cases "contents (kv_level E) (ks_db s) ''headers''") (simp_all add: catchE_def andThen_apply hdrs)
  finally show ?thesis using es(2) by auto
qed


lemma lookupRows:
  "map snd rows = map KEvent es \<Longrightarrow>
   mapM (\<lambda>row. liftR (parseSigningKeyEvent (snd row))) rows s = (Inr es, s, [])"
proof (induction rows arbitrary: es)
  case Nil
  then show ?case by simp
next
  case (Cons row rows)
  then obtain e es' where "es = e # es'" "snd row = KEvent e" "map snd rows = map KEvent es'" by auto
  with Cons.IH show ?case by (simp add: parseSigningKeyEvent_def andThen_apply)
qed

lemma lookupKeys:
  assumes L: "level_laws (kv_level E)" and wf: "keydb_wf (contents (kv_level E) db)"
    and "\<forall>key\<in>set keys. pubkey_ok key"
  shows "\<exists>ess. set (concat ess) = {e \<in> keydb_events (contents (kv_level E) db). ke_key e \<in> set keys} \<and>
    mapM (lookupKey E db) keys s = (Inr ess, s, [])"
  using assms(3)
proof (induction keys)
  case Nil
  then show ?case by (intro exI [of _ "[]"]) simp
next
  case (Cons key keys)
  then obtain ess where IH: "set (concat ess) = {e \<in> keydb_events (contents (kv_level E) db). ke_key e \<in> set keys}"
    "mapM (lookupKey E db) keys s = (Inr ess, s, [])" by auto
  have "pubkey_ok key" using Cons.prems by simp
  from keydb_rows [OF L wf storageKey_in_key_range [OF _ this] headers_key_not_in_range] obtain es where
    es: "map snd (level_iterator (kv_level E) (prefixRange (''signingKey:'' @ key)) db) = map KEvent es"
    "set es = {e \<in> keydb_events (contents (kv_level E) db). ke_key e = key}" by blast
  have "set (concat (es # ess)) = {e \<in> keydb_events (contents (kv_level E) db). ke_key e \<in> set (key # keys)}"
    using IH(1) es(2) by auto
  moreover have "lookupKey E db key s = (Inr es, s, [])"
    unfolding lookupKey_def by (rule lookupRows [OF es(1)])
  with IH(2) have "mapM (lookupKey E db) (key # keys) s = (Inr (es # ess), s, [])"
    by (simp add: andThen_step)
  ultimately show ?case by blast
qed

lemma getCachedKeyEvents_ok:
  assumes L: "level_laws (kv_level E)" and wf: "keydb_wf (contents (kv_level E) (ks_db s))"
    and keys: "\<forall>key\<in>set keys. pubkey_ok key"
  shows "\<exists>es. set es = {e \<in> keydb_events (contents (kv_level E) (ks_db s)). ke_key e \<in> set keys} \<and>
    getCachedKeyEvents E keys s =
      (Inr (case contents (kv_level E) (ks_db s) ''headers'' of
              None \<Rightarrow> kv_default E
            | Some v \<Rightarrow> \<lparr>kc_headers = keydb_headers (kc_headers (kv_default E)) (contents (kv_level E) (ks_db s)),
                        kc_data = es\<rparr>), s, [])"
proof -
  from lookupKeys [OF L wf keys, of s] obtain ess where
    ess: "set (concat ess) = {e \<in> keydb_events (contents (kv_level E) (ks_db s)). ke_key e \<in> set keys}"
    "mapM (lookupKey E (ks_db s)) keys s = (Inr ess, s, [])" by blast
  then show ?thesis
    by (intro exI [of _ "concat ess"], cases "contents (kv_level E) (ks_db s) ''headers''")
       (simp_all add: getCachedKeyEvents_def catchE_def andThen_apply readKeyHeaders_eq [OF L wf])
qed

section \<open>Insertion\<close>

lemma validateHeader_headerKeys [simp]: "validateHeader (headerKeys h)"
  by (simp add: validateHeader_def headerKeys_def Let_def)

lemma validateHeader_iff:
  "validateHeader ks \<longleftrightarrow> set ks = {''stakingModulesAddresses'', ''startBlock'', ''endBlock''}"
  by (auto simp: validateHeader_def Let_def list_all_iff)

definition keysInserted :: "'db key_store_env \<Rightarrow> key_event list \<Rightarrow> 'db key_store \<Rightarrow> 'db key_store" where
  "keysInserted E = fold (\<lambda>e s. updateKeyCacheMetrics (trackKeyValue E (KEvent e) s))"

lemma keysInserted_db [simp]: "ks_db (keysInserted E es s) = ks_db s"
  unfolding keysInserted_def
  by (rule fold_keeps) (simp add: updateKeyCacheMetrics_def trackKeyValue_def)

lemma insertKeyEventsBatch_eq:
  "insertKeyEventsBatch E es h s =
    (Inr (), (keysInserted E es s)\<lparr>ks_db := level_batch (kv_level E)
       (map (\<lambda>e. PutOp (storageKey e) (KEvent e)) es @ [PutOp ''headers'' (KHeaders h)]) (ks_db s)\<rparr>, [])"
proof -
  have "mapM (keyInsertOp E) es s =
    (Inr (map (\<lambda>e. PutOp (storageKey e) (KEvent e)) es), keysInserted E es s, [])"
    unfolding keysInserted_def
    by (rule mapM_total, intro ballI allI) (simp add: keyInsertOp_def serializeEventData_def andThen_assoc)
  then show ?thesis by (simp add: insertKeyEventsBatch_def andThen_apply)
qed

lemma located_inj:
  assumes "located A" "e \<in> A" "f \<in> A" "storageKey e = storageKey f"
  shows "e = f"
proof -
  have "pubkey_ok (ke_key e)" "pubkey_ok (ke_key f)" using assms(1-3) by (auto simp: located_def)
  from storageKey_inj [OF this] assms(4) have "ke_blockNumber e = ke_blockNumber f" "ke_logIndex e = ke_logIndex f"
    by simp_all
  with assms(1-3) show ?thesis unfolding located_def by simp
qed

lemma key_puts:
  assumes "located A" "set es \<subseteq> A" "e \<in> set es"
  shows "fold apply_op (map (\<lambda>e. PutOp (storageKey e) (KEvent e)) es) m (storageKey e) = Some (KEvent e)"
  using assms(2,3)
proof (induction es arbitrary: m rule: rev_induct)
  case Nil
  then show ?case by simp
next
  case (snoc f es)
  show ?case
  proof (cases "storageKey e = storageKey f")
    case True
    with snoc.prems have "e = f" by (intro located_inj [OF assms(1)]) auto
    then show ?thesis by simp
  next
    case False
    then have "e \<in> set es" using snoc.prems by auto
    with snoc False show ?thesis by simp
  qed
qed

lemma key_insert:
  fixes h :: key_headers
  assumes wf: "keydb_wf m" and A: "located (keydb_events m \<union> set es)"
  defines "m' \<equiv> (fold apply_op (map (\<lambda>e. PutOp (storageKey e) (KEvent e)) es) m)(''headers'' \<mapsto> KHeaders h)"
  shows "keydb_wf m'" and "keydb_events m' = keydb_events m \<union> set es" and "keydb_headers d m' = h"
proof -
  let ?m = "fold apply_op (map (\<lambda>e. PutOp (storageKey e) (KEvent e)) es) m"
  have ok: "pubkey_ok (ke_key e)" if "e \<in> keydb_events m \<union> set es" for e
    using A that by (simp add: located_def)
  have wf_row: "\<exists>e. pubkey_ok (ke_key e) \<and> k = storageKey e \<and> v = KEvent e" if "?m k = Some v" "k \<noteq> ''headers''" for k v
    using that(1) by (cases rule: fold_put_ops_cases) (use wf ok that(2) in \<open>auto simp: keydb_wf_def\<close>)
  have event_row: "e \<in> keydb_events m \<union> set es" if "?m (storageKey e) = Some (KEvent e)" "pubkey_ok (ke_key e)" for e
    using that(1) by (cases rule: fold_put_ops_cases) (use that(2) in \<open>auto simp: keydb_events_def\<close>)
  have row: "?m (storageKey e) = Some (KEvent e)" if e: "e \<in> keydb_events m \<union> set es" for e
  proof (cases "storageKey e \<in> storageKey ` set es")
    case True
    then obtain f where f: "f \<in> set es" "storageKey e = storageKey f" by blast
    with e have "e = f" by (intro located_inj [OF A]) auto
    with key_puts [OF A _ f(1)] show ?thesis by simp
  next
    case False
    with e fold_put_ops_other [OF False, of KEvent m] show ?thesis by (auto simp: keydb_events_def)
  qed
  have look: "m' k = ?m k" if "k \<noteq> ''headers''" for k using that by (simp add: m'_def)
  have head: "m' ''headers'' = Some (KHeaders h)" by (simp add: m'_def)
  show "keydb_wf m'"
    unfolding keydb_wf_def using wf_row head by (intro conjI allI impI) (simp_all add: look)
  show "keydb_events m' = keydb_events m \<union> set es"
  proof (intro set_eqI iffI)
    fix e assume "e \<in> keydb_events m'"
    then show "e \<in> keydb_events m \<union> set es" by (intro event_row) (simp_all add: keydb_events_def look)
  next
    fix e assume e: "e \<in> keydb_events m \<union> set es"
    from row [OF e] ok [OF e] show "e \<in> keydb_events m'" by (simp add: keydb_events_def look)
  qed
  show "keydb_headers d m' = h" by (simp add: keydb_headers_def m'_def)
qed

end
