(* ===== verification/Signing_Keys_Registry.thy ===== *)
theory Signing_Keys_Registry
  imports Signing_Keys_Store Fetch_Events Bls "HOL-Library.Multiset"
begin

text \<open>
  The registry of signing keys (\<open>contracts/signing-keys-registry\<close>): the fetcher over the staking
  modules, the sanity checker and the service. The requests of one range run concurrently, one
  per module, and their events are appended in the order of completion, given by the finish times, a parameter.
\<close>

section \<open>Fetcher\<close>

record raw_key_event =
  rk_operator :: int
  rk_pubkey :: string
  rk_blockNumber :: nat
  rk_logIndex :: nat
  rk_blockHash :: string

record key_fetcher =
  kf_getSigningKeyAddedEvents :: "nat \<Rightarrow> nat \<Rightarrow> string \<Rightarrow> js_error + raw_key_event list"
  kf_finishTime :: "nat \<Rightarrow> nat \<Rightarrow> string \<Rightarrow> nat"

text \<open>\<open>BigNumber.toNumber\<close> throws outside the safe integers.\<close>

definition toNumber :: "int \<Rightarrow> js_error + nat" where
  "toNumber n = (if 0 \<le> n \<and> n \<le> MAX_SAFE_INTEGER then Inr (nat n) else Inl (External ''NUMERIC_FAULT''))"

definition formatKeyEvent :: "string \<Rightarrow> raw_key_event \<Rightarrow> js_error + key_event" where
  "formatKeyEvent address raw =
     bindR (toNumber (rk_operator raw)) (\<lambda>operatorIndex.
       Inr \<lparr>ke_operatorIndex = operatorIndex, ke_key = rk_pubkey raw, ke_moduleAddress = address,
            ke_logIndex = rk_logIndex raw, ke_blockNumber = rk_blockNumber raw, ke_blockHash = rk_blockHash raw\<rparr>)"

definition moduleKeyEvents :: "key_fetcher \<Rightarrow> nat \<Rightarrow> nat \<Rightarrow> string \<Rightarrow> js_error + key_event list" where
  "moduleKeyEvents F start end' address =
     bindR (kf_getSigningKeyAddedEvents F start end' address) (traverse (formatKeyEvent address))"

definition completionOrder :: "key_fetcher \<Rightarrow> nat \<Rightarrow> nat \<Rightarrow> string list \<Rightarrow> string list" where
  "completionOrder F start end' addresses = sort_key (kf_finishTime F start end') addresses"

definition fetchKeyEvents :: "key_fetcher \<Rightarrow> string list \<Rightarrow> nat \<Rightarrow> nat \<Rightarrow> js_error + key_event event_group" where
  "fetchKeyEvents F stakingModulesAddresses start end' =
     bindR (traverse (moduleKeyEvents F start end') (completionOrder F start end' stakingModulesAddresses)) (\<lambda>chunks.
       Inr \<lparr>events = concat chunks, startBlock = start, endBlock = end'\<rparr>)"

definition requestKeyEvents :: "key_fetcher \<Rightarrow> string list \<Rightarrow> nat \<Rightarrow> nat \<Rightarrow> js_error + key_event list" where
  "requestKeyEvents F addresses start end' = bindR (fetchKeyEvents F addresses start end') (\<lambda>g. Inr (events g))"

definition fetchKeyEventsFallOver ::
  "key_fetcher \<Rightarrow> nat \<Rightarrow> nat \<Rightarrow> string list \<Rightarrow> js_error + key_event event_group" where
  "fetchKeyEventsFallOver F start end' stakingModulesAddresses =
     fetchEventsFallOver start end' (requestKeyEvents F stakingModulesAddresses)"

section \<open>Sanity checker\<close>

definition verifyKeyCacheBlock :: "key_cache \<Rightarrow> nat \<Rightarrow> bool" where
  "verifyKeyCacheBlock cachedEvents currentBlock \<longleftrightarrow> currentBlock \<ge> kh_endBlock (kc_headers cachedEvents)"

definition findReorganizedKeyEvent :: "key_event list \<Rightarrow> nat \<Rightarrow> string \<Rightarrow> key_event option" where
  "findReorganizedKeyEvent es blockNumber blockHash =
     find (\<lambda>e. ke_blockNumber e = blockNumber \<and> ke_blockHash e \<noteq> blockHash) es"

definition checkEventsBlockHash :: "key_event list \<Rightarrow> nat \<Rightarrow> string \<Rightarrow> bool" where
  "checkEventsBlockHash es blockNumber blockHash \<longleftrightarrow> findReorganizedKeyEvent es blockNumber blockHash = None"

section \<open>Service\<close>

record 'db key_registry_env =
  kr_store :: "'db key_store_env"
  kr_fetcher :: key_fetcher
  kr_chainId :: nat

definition EARLIEST_MODULE_DEPLOYMENT_BLOCK_NETWORK :: "nat \<rightharpoonup> nat" where
  "EARLIEST_MODULE_DEPLOYMENT_BLOCK_NETWORK = map_of
     [(Mainnet, 11473216), (Holesky, 0), (Hoodi, 0), (LOCAL_DEVNET_CHAIN_ID, 0)]"

definition FETCHING_EVENTS_STEP :: nat where
  "FETCHING_EVENTS_STEP = 10000"

definition getKeysDeploymentBlock :: "'db key_registry_env \<Rightarrow> js_error + nat" where
  "getKeysDeploymentBlock R =
     (case EARLIEST_MODULE_DEPLOYMENT_BLOCK_NETWORK (kr_chainId R) of
        None \<Rightarrow> Inl (Error (''Chain '' @ dec_string (kr_chainId R) @ '' is not supported''))
      | Some block \<Rightarrow> Inr block)"

definition wasStakingModulesListUpdated :: "string list \<Rightarrow> string list \<Rightarrow> bool" where
  "wasStakingModulesListUpdated previousModules currentModules =
     (let modulesWereDeleted = list_ex (\<lambda>sm. \<not> List.member currentModules sm) previousModules;
          modulesWereAdded = list_ex (\<lambda>module. \<not> List.member previousModules module) currentModules
      in modulesWereDeleted \<or> modulesWereAdded)"

definition stakingModuleListWasUpdated ::
  "'db key_registry_env \<Rightarrow> string list \<Rightarrow> ('db key_store, unit, bool) comp" where
  "stakingModuleListWasUpdated R currentModules =
     andThen (getHeader (kr_store R)) (\<lambda>headers.
       ret (wasStakingModulesListUpdated (kh_stakingModulesAddresses headers) currentModules))"

definition getCachedKeys :: "'db key_registry_env \<Rightarrow> ('db key_store, unit, key_cache) comp" where
  "getCachedKeys R =
     andThen (getKeyEventsCache (kr_store R)) (\<lambda>cache.
     andThen (liftR (getKeysDeploymentBlock R)) (\<lambda>deploymentBlock.
       let headers = kc_headers cache in
       ret \<lparr>kc_headers = headers\<lparr>kh_startBlock := max (kh_startBlock headers) deploymentBlock,
                                  kh_endBlock := max (kh_endBlock headers) deploymentBlock\<rparr>,
            kc_data = kc_data cache\<rparr>))"

function updateKeysLoop ::
  "'db key_registry_env \<Rightarrow> string list \<Rightarrow> key_headers \<Rightarrow> nat \<Rightarrow> nat \<Rightarrow> ('db key_store, unit, unit) comp" where
  "updateKeysLoop R currentModules initialHeaders finalizedBlockNumber block =
     (if block \<le> finalizedBlockNumber then
        andThen (liftR (fetchKeyEventsFallOver (kr_fetcher R) block
                   (min finalizedBlockNumber (block + FETCHING_EVENTS_STEP - 1)) currentModules)) (\<lambda>chunkEventGroup.
        andThen (insertKeyEventsBatch (kr_store R) (events chunkEventGroup)
                   (initialHeaders\<lparr>kh_stakingModulesAddresses := currentModules,
                                    kh_endBlock := endBlock chunkEventGroup\<rparr>)) (\<lambda>_.
        updateKeysLoop R currentModules initialHeaders finalizedBlockNumber (block + FETCHING_EVENTS_STEP)))
      else ret ())"
  by pat_completeness auto
termination
  by (relation "measure (\<lambda>(_, _, _, fin, block). Suc fin - block)") (auto simp: FETCHING_EVENTS_STEP_def)

declare updateKeysLoop.simps [simp del]

definition updateKeysCache ::
  "'db key_registry_env \<Rightarrow> js_error + nat \<times> string \<Rightarrow> string list \<Rightarrow> ('db key_store, unit, unit) comp" where
  "updateKeysCache R finalized currentModules =
     andThen (stakingModuleListWasUpdated R currentModules) (\<lambda>wasUpdated.
     andThen (if wasUpdated then deleteKeyCache (kr_store R) else ret ()) (\<lambda>_.
     andThen (liftR finalized) (\<lambda>(finalizedBlockNumber, finalizedBlockHash).
     andThen (getCachedKeys R) (\<lambda>initialCache.
       if \<not> verifyKeyCacheBlock initialCache finalizedBlockNumber then ret ()
       else updateKeysLoop R currentModules (kc_headers initialCache) finalizedBlockNumber
              (kh_endBlock (kc_headers initialCache) + 1)))))"

definition handleNewBlockKeys ::
  "'db key_registry_env \<Rightarrow> js_error + nat \<times> string \<Rightarrow> string list \<Rightarrow> ('db key_store, unit, unit) comp" where
  "handleNewBlockKeys R finalized currentModules = updateKeysCache R finalized currentModules"

definition initializeKeys ::
  "'db key_registry_env \<Rightarrow> js_error + nat \<times> string \<Rightarrow> string list \<Rightarrow> ('db key_store, unit, unit) comp" where
  "initializeKeys R finalized currentModules = updateKeysCache R finalized currentModules"

definition getEventsForOperatorsKeys ::
  "'db key_registry_env \<Rightarrow> string list \<Rightarrow> ('db key_store, unit, key_cache) comp" where
  "getEventsForOperatorsKeys R keys = getCachedKeyEvents (kr_store R) (uniq keys)"

record key_events_group =
  kg_events :: "key_event list"
  kg_stakingModulesAddresses :: "string list"
  kg_startBlock :: nat
  kg_endBlock :: nat

definition getUpdatedSigningKeyEvents ::
  "'db key_registry_env \<Rightarrow> string \<Rightarrow> nat \<Rightarrow> string \<Rightarrow> ('db key_store, unit, key_events_group) comp" where
  "getUpdatedSigningKeyEvents R key blockNumber blockHash =
     andThen (getEventsForOperatorsKeys R [key]) (\<lambda>cachedEvents.
       if \<not> verifyKeyCacheBlock cachedEvents blockNumber then
         raise (Error (''Signing key events cache is newer than the current block: '' @ dec_string blockNumber))
       else
     andThen (liftR (fetchKeyEventsFallOver (kr_fetcher R) (kh_endBlock (kc_headers cachedEvents) + 1) blockNumber
                (kh_stakingModulesAddresses (kc_headers cachedEvents)))) (\<lambda>freshEventGroup.
       if \<not> checkEventsBlockHash (events freshEventGroup) blockNumber blockHash then
         raise (Error (''Reorganization found on block '' @ dec_string blockNumber))
       else ret \<lparr>kg_events = kc_data cachedEvents @ filter (\<lambda>e. ke_key e = key) (events freshEventGroup),
                 kg_stakingModulesAddresses = kh_stakingModulesAddresses (kc_headers cachedEvents),
                 kg_startBlock = kh_startBlock (kc_headers cachedEvents), kg_endBlock = blockNumber\<rparr>))"

definition setCachedKeyEvents :: "'db key_registry_env \<Rightarrow> key_cache \<Rightarrow> ('db key_store, unit, unit) comp" where
  "setCachedKeyEvents R cachedEvents =
     andThen (deleteKeyCache (kr_store R)) (\<lambda>_.
       insertKeyEventsBatch (kr_store R) (kc_data cachedEvents) (kc_headers cachedEvents))"

section \<open>The fetcher as a source of events\<close>

text \<open>
  The key events of a module in a block: its logs, formatted (nothing when one of them does not
  format); the events of a range for a list of modules.
\<close>

definition keyChain :: "(string \<Rightarrow> nat \<Rightarrow> raw_key_event list) \<Rightarrow> string \<Rightarrow> nat \<Rightarrow> key_event list" where
  "keyChain logs a b = (case traverse (formatKeyEvent a) (logs a b) of Inl e \<Rightarrow> [] | Inr evs \<Rightarrow> evs)"

definition modulesEvents ::
  "(string \<Rightarrow> nat \<Rightarrow> raw_key_event list) \<Rightarrow> string set \<Rightarrow> nat set \<Rightarrow> key_event set" where
  "modulesEvents logs modules blocks = (\<Union>a \<in> modules. \<Union>b \<in> blocks. set (keyChain logs a b))"

text \<open>The requests are answered from the logs, in any order.\<close>

definition key_source_ok ::
  "key_fetcher \<Rightarrow> (string \<Rightarrow> nat \<Rightarrow> nat \<Rightarrow> js_error option) \<Rightarrow> (string \<Rightarrow> nat \<Rightarrow> raw_key_event list) \<Rightarrow> bool" where
  "key_source_ok F failure logs \<longleftrightarrow>
     kf_getSigningKeyAddedEvents F = (\<lambda>s e a. query_logs (failure a) (logs a) s e)"

lemma moduleKeyEvents_set:
  assumes "key_source_ok F failure logs" "moduleKeyEvents F s e a = Inr evs"
  shows "set evs = modulesEvents logs {a} {s .. e}"
proof -
  from assms have "traverse (formatKeyEvent a) (concat (map (logs a) [s ..< Suc e])) = Inr evs"
    by (auto simp: moduleKeyEvents_def key_source_ok_def query_logs_def bindR_Inr_iff chain_events_def
        split: option.splits)
  from traverse_concat [OF this] have "evs = concat (map (keyChain logs a) [s ..< Suc e])"
    by (simp add: keyChain_def [abs_def] comp_def del: upt_Suc)
  then show ?thesis by (auto simp: modulesEvents_def atLeastLessThanSuc_atLeastAtMost simp del: upt_Suc)
qed

lemma requestKeyEvents_set:
  assumes "key_source_ok F failure logs" "requestKeyEvents F addresses s e = Inr evs"
  shows "set evs = (\<Union>b \<in> {s .. e}. modulesEvents logs (set addresses) {b})"
proof -
  obtain chunks where chunks: "list_all2 (\<lambda>a c. moduleKeyEvents F s e a = Inr c) (completionOrder F s e addresses) chunks"
    "evs = concat chunks"
    using assms(2) by (auto simp: requestKeyEvents_def fetchKeyEvents_def bindR_Inr_iff traverse_Inr_iff)
  have "set (concat chunks) = modulesEvents logs (set as) {s .. e}"
    if "list_all2 (\<lambda>a c. moduleKeyEvents F s e a = Inr c) as chunks" for as
    using that
    by (induction rule: list_all2_induct)
       (auto simp: moduleKeyEvents_set [OF assms(1)] modulesEvents_def)
  from this [OF chunks(1)] chunks(2) show ?thesis
    by (auto simp: completionOrder_def modulesEvents_def)
qed

interpretation key_logs: range_source_set
  "requestKeyEvents (F\<lparr>kf_getSigningKeyAddedEvents := (\<lambda>s e a. query_logs (failure a) (logs a) s e)\<rparr>) addresses"
  "\<lambda>b. modulesEvents logs (set addresses) {b}"
  by unfold_locales (rule requestKeyEvents_set, auto simp: key_source_ok_def)

lemma keysFallOver_set:
  assumes "key_source_ok F failure logs" "fetchKeyEventsFallOver F s e addresses = Inr g"
  shows "set (events g) = modulesEvents logs (set addresses) {s .. e}" and "endBlock g = e"
proof -
  have F: "F\<lparr>kf_getSigningKeyAddedEvents := (\<lambda>s e a. query_logs (failure a) (logs a) s e)\<rparr> = F"
    using assms(1) by (cases F) (simp add: key_source_ok_def)
  note all = key_logs.fallover_set [where F = F and failure = failure and logs = logs and addresses = addresses,
      unfolded F, OF assms(2) [unfolded fetchKeyEventsFallOver_def]]
  from all(1) show "set (events g) = modulesEvents logs (set addresses) {s .. e}"
    by (auto simp: modulesEvents_def)
  from all(3) show "endBlock g = e" .
qed


section \<open>The invariant of the cache\<close>

abbreviation "keyDB R s \<equiv> contents (kv_level (kr_store R)) (ks_db s)"

abbreviation "storedHeaders R s \<equiv> keydb_headers (kc_headers (kv_default (kr_store R))) (keyDB R s)"

definition keys_env_ok ::
  "'db key_registry_env \<Rightarrow> (string \<Rightarrow> nat \<Rightarrow> nat \<Rightarrow> js_error option) \<Rightarrow> (string \<Rightarrow> nat \<Rightarrow> raw_key_event list) \<Rightarrow> bool" where
  "keys_env_ok R failure logs \<longleftrightarrow>
     level_laws (kv_level (kr_store R)) \<and> kv_default (kr_store R) = SIGNING_KEYS_CACHE_DEFAULT \<and>
     key_source_ok (kr_fetcher R) failure logs \<and> located (modulesEvents logs UNIV UNIV)"

text \<open>
  The cache holds the events of the modules of its headers in the blocks after the deployment
  block \<open>d\<close> up to the end of the cache.
\<close>

definition keys_inv ::
  "'db key_registry_env \<Rightarrow> (string \<Rightarrow> nat \<Rightarrow> raw_key_event list) \<Rightarrow> nat \<Rightarrow> 'db key_store \<Rightarrow> bool" where
  "keys_inv R logs d s \<longleftrightarrow>
     keydb_wf (keyDB R s) \<and>
     keydb_events (keyDB R s) =
       modulesEvents logs (set (kh_stakingModulesAddresses (storedHeaders R s))) {Suc d .. kh_endBlock (storedHeaders R s)}"

lemma wasStakingModulesListUpdated_iff:
  "wasStakingModulesListUpdated previousModules currentModules \<longleftrightarrow> set previousModules \<noteq> set currentModules"
  by (auto simp: wasStakingModulesListUpdated_def Let_def list_ex_iff)

lemma modulesEvents_mono: "A \<subseteq> B \<Longrightarrow> C \<subseteq> D \<Longrightarrow> modulesEvents logs A C \<subseteq> modulesEvents logs B D"
  by (auto simp: modulesEvents_def)

lemma modulesEvents_union: "modulesEvents logs A (C \<union> D) = modulesEvents logs A C \<union> modulesEvents logs A D"
  by (auto simp: modulesEvents_def)

lemma located_mono: "located B \<Longrightarrow> A \<subseteq> B \<Longrightarrow> located A"
  unfolding located_def by blast

lemma updateKeysLoop_end: "fin < block \<Longrightarrow> updateKeysLoop R modules h fin block = ret ()"
  by (simp add: updateKeysLoop.simps [of R modules h fin block])

text \<open>One chunk of blocks extends the events to its end.\<close>

lemma updateKeysChunk_ok:
  assumes env: "keys_env_ok R failure logs"
    and wf: "keydb_wf (keyDB R s)"
    and old: "keydb_events (keyDB R s) = modulesEvents logs (set modules) {Suc d ..< block}" and "Suc d \<le> block" and "block \<le> to"
    and fetch: "fetchKeyEventsFallOver (kr_fetcher R) block to modules = Inr g"
    and ins: "insertKeyEventsBatch (kr_store R) (events g) (h\<lparr>kh_stakingModulesAddresses := modules, kh_endBlock := to\<rparr>) s = (Inr v, s1, out)"
  shows "keydb_wf (keyDB R s1)"
    "storedHeaders R s1 = h\<lparr>kh_stakingModulesAddresses := modules, kh_endBlock := to\<rparr>"
    "keydb_events (keyDB R s1) = modulesEvents logs (set modules) {Suc d ..< Suc to}" "out = []"
proof -
  have L: "level_laws (kv_level (kr_store R))" and src: "key_source_ok (kr_fetcher R) failure logs"
    and loc: "located (modulesEvents logs UNIV UNIV)" using env by (simp_all add: keys_env_ok_def)
  have new: "set (events g) = modulesEvents logs (set modules) {block .. to}"
    using keysFallOver_set [OF src fetch] by simp
  have "{Suc d ..< Suc to} = {Suc d ..< block} \<union> {block .. to}" using assms(4,5) by auto
  then have all: "keydb_events (keyDB R s) \<union> set (events g) = modulesEvents logs (set modules) {Suc d ..< Suc to}"
    unfolding old new by (simp only: modulesEvents_union)
  have "located (keydb_events (keyDB R s) \<union> set (events g))"
    by (rule located_mono [OF loc]) (unfold all, rule modulesEvents_mono, simp_all)
  note ins' = key_insert [OF wf this, where h = "h\<lparr>kh_stakingModulesAddresses := modules, kh_endBlock := to\<rparr>"]
  have db: "keyDB R s1 = (fold apply_op (map (\<lambda>e. PutOp (storageKey e) (KEvent e)) (events g)) (keyDB R s))
      (''headers'' \<mapsto> KHeaders (h\<lparr>kh_stakingModulesAddresses := modules, kh_endBlock := to\<rparr>))"
    using ins by (auto simp: insertKeyEventsBatch_eq contents_batch [OF L])
  show "keydb_wf (keyDB R s1)" "storedHeaders R s1 = h\<lparr>kh_stakingModulesAddresses := modules, kh_endBlock := to\<rparr>"
    "keydb_events (keyDB R s1) = modulesEvents logs (set modules) {Suc d ..< Suc to}"
    unfolding db using ins' all by simp_all
  show "out = []" using ins by (auto simp: insertKeyEventsBatch_eq)
qed

lemma updateKeysLoop_ok:
  assumes env: "keys_env_ok R failure logs"
    and "keydb_wf (keyDB R s)"
    and "keydb_events (keyDB R s) = modulesEvents logs (set modules) {Suc d ..< block}" and "Suc d \<le> block"
    and "updateKeysLoop R modules h fin block s = (Inr u, s', out)"
  shows "keydb_wf (keyDB R s') \<and> out = [] \<and>
    keydb_events (keyDB R s') = modulesEvents logs (set modules) {Suc d ..< max block (Suc fin)} \<and>
    storedHeaders R s' = (if block \<le> fin
      then h\<lparr>kh_stakingModulesAddresses := modules, kh_endBlock := fin\<rparr> else storedHeaders R s)"
  using assms(2-5)
proof (induction "Suc fin - block" arbitrary: block s out rule: less_induct)
  case less
  have src: "key_source_ok (kr_fetcher R) failure logs" using env by (simp add: keys_env_ok_def)
  show ?case
  proof (cases "block \<le> fin")
    case False
    with less.prems(4) have "s' = s" "out = []" by (simp_all add: updateKeysLoop.simps [of R modules h fin block])
    with less.prems(1,2) False show ?thesis by (simp add: max_absorb1)
  next
    case True
    define to where "to = min fin (block + FETCHING_EVENTS_STEP - 1)"
    have step: "0 < FETCHING_EVENTS_STEP" by (simp add: FETCHING_EVENTS_STEP_def)
    have to: "block \<le> to" "to \<le> fin" using True step by (simp_all add: to_def)
    obtain g s1 o1 o2 v where
      fetch: "fetchKeyEventsFallOver (kr_fetcher R) block to modules = Inr g"
      and ins: "insertKeyEventsBatch (kr_store R) (events g)
        (h\<lparr>kh_stakingModulesAddresses := modules, kh_endBlock := endBlock g\<rparr>) s = (Inr v, s1, o1)"
      and rest: "updateKeysLoop R modules h fin (block + FETCHING_EVENTS_STEP) s1 = (Inr u, s', o2)"
      and out: "out = o1 @ o2"
      using less.prems(4) True
      by (auto simp: updateKeysLoop.simps [of R modules h fin block] andThen_ok to_def)
    have "endBlock g = to" using keysFallOver_set [OF src fetch] by simp
    note s1 = updateKeysChunk_ok [OF env less.prems(1-3) to(1) fetch ins [unfolded this]]
    show ?thesis
    proof (cases "block + FETCHING_EVENTS_STEP \<le> fin")
      case True
      then have "Suc to = block + FETCHING_EVENTS_STEP" using step by (simp add: to_def)
      from less.hyps [OF _ s1(1) s1(3) [unfolded this] _ rest] True less.prems(3) \<open>block \<le> fin\<close> step out s1(4)
      show ?thesis by simp
    next
      case False
      then have to: "to = fin" by (simp add: to_def)
      from False rest have "s' = s1" "o2 = []"
        by (simp_all add: updateKeysLoop.simps [of R modules h fin "block + FETCHING_EVENTS_STEP"])
      with s1 out \<open>block \<le> fin\<close> show ?thesis by (simp add: to max_def)
    qed
  qed
qed


section \<open>Properties\<close>

lemma getCachedKeys_eq:
  assumes "level_laws (kv_level (kr_store R))" "keydb_wf (keyDB R s)" "getKeysDeploymentBlock R = Inr d"
    and "kv_default (kr_store R) = SIGNING_KEYS_CACHE_DEFAULT"
  shows "\<exists>es t. getCachedKeys R s = (Inr \<lparr>kc_headers = (storedHeaders R s)\<lparr>
      kh_startBlock := max (kh_startBlock (storedHeaders R s)) d,
      kh_endBlock := max (kh_endBlock (storedHeaders R s)) d\<rparr>, kc_data = es\<rparr>, t, []) \<and> ks_db t = ks_db s"
proof -
  obtain es where "getKeyEventsCache (kr_store R) s =
      (Inr (case keyDB R s ''headers'' of None \<Rightarrow> kv_default (kr_store R)
            | Some v \<Rightarrow> \<lparr>kc_headers = storedHeaders R s, kc_data = es\<rparr>), keysLoaded (kr_store R) es s, [])"
    using getKeyEventsCache_ok [OF assms(1,2)] by blast
  moreover have "keyDB R s ''headers'' = None \<Longrightarrow> storedHeaders R s = kc_headers (kv_default (kr_store R))"
    by (simp add: keydb_headers_def)
  ultimately show ?thesis
    by (cases "keyDB R s ''headers''") (auto simp: getCachedKeys_def andThen_step assms(3) Let_def)
qed

text \<open>
  The first steps of an update: a cache of other modules is dropped, and the rest is read, with
  the start of the cache raised to the deployment block.
\<close>

lemma dropOutdated_ok:
  assumes "level_laws (kv_level (kr_store R))" and dflt: "kv_default (kr_store R) = SIGNING_KEYS_CACHE_DEFAULT"
    and inv: "keys_inv R logs d s"
    and "upd \<longleftrightarrow> wasStakingModulesListUpdated (kh_stakingModulesAddresses (storedHeaders R s)) modules"
  shows "\<exists>t. (if upd then deleteKeyCache (kr_store R) else ret ()) s = (Inr (), t, []) \<and> keys_inv R logs d t \<and>
    kh_endBlock (storedHeaders R t) \<le> kh_endBlock (storedHeaders R s) \<and>
    keydb_events (keyDB R t) = modulesEvents logs (set modules) {Suc d .. kh_endBlock (storedHeaders R t)}"
proof (cases upd)
  case True
  let ?t = "fst (snd (deleteKeyCache (kr_store R) s))"
  have run: "deleteKeyCache (kr_store R) s = (Inr (), ?t, [])" and db: "keyDB R ?t = Map.empty"
    by (simp_all add: deleteKeyCache_def updateKeyCacheMetrics_def contents_clear [OF assms(1)])
  have "keys_inv R logs d ?t \<and> kh_endBlock (storedHeaders R ?t) \<le> kh_endBlock (storedHeaders R s) \<and>
      keydb_events (keyDB R ?t) = modulesEvents logs (set modules) {Suc d .. kh_endBlock (storedHeaders R ?t)}"
    by (simp add: keys_inv_def keydb_wf_def db keydb_events_def keydb_headers_def dflt
        SIGNING_KEYS_CACHE_DEFAULT_def modulesEvents_def)
  with run True show ?thesis by (intro exI [of _ ?t]) simp
next
  case False
  with inv assms(4) show ?thesis by (auto simp: keys_inv_def wasStakingModulesListUpdated_iff)
qed

lemma updateKeysCache_start:
  assumes "level_laws (kv_level (kr_store R))" and "kv_default (kr_store R) = SIGNING_KEYS_CACHE_DEFAULT"
    and "getKeysDeploymentBlock R = Inr d" and inv: "keys_inv R logs d s"
  shows "\<exists>t. keys_inv R logs d t \<and> kh_endBlock (storedHeaders R t) \<le> kh_endBlock (storedHeaders R s) \<and>
    keydb_events (keyDB R t) = modulesEvents logs (set modules) {Suc d .. kh_endBlock (storedHeaders R t)} \<and>
    updateKeysCache R (Inr (fin, hash)) modules s =
      (let end' = max (kh_endBlock (storedHeaders R t)) d;
           h = (storedHeaders R t)\<lparr>kh_startBlock := max (kh_startBlock (storedHeaders R t)) d, kh_endBlock := end'\<rparr>
       in (if fin < end' then ret () else updateKeysLoop R modules h fin (end' + 1)) t)"
proof -
  let ?upd = "wasStakingModulesListUpdated (kh_stakingModulesAddresses (storedHeaders R s)) modules"
  have wf: "keydb_wf (keyDB R s)" using inv by (simp add: keys_inv_def)
  obtain t1 where t1: "(if ?upd then deleteKeyCache (kr_store R) else ret ()) s = (Inr (), t1, [])"
    and inv1: "keys_inv R logs d t1" and le1: "kh_endBlock (storedHeaders R t1) \<le> kh_endBlock (storedHeaders R s)"
    and ev1: "keydb_events (keyDB R t1) = modulesEvents logs (set modules) {Suc d .. kh_endBlock (storedHeaders R t1)}"
    using dropOutdated_ok [OF assms(1,2) inv refl, of modules] by blast
  have "keydb_wf (keyDB R t1)" using inv1 by (simp add: keys_inv_def)
  from getCachedKeys_eq [OF assms(1) this assms(3,2)] obtain es t2 where
    t2: "getCachedKeys R t1 = (Inr \<lparr>kc_headers = (storedHeaders R t1)\<lparr>
      kh_startBlock := max (kh_startBlock (storedHeaders R t1)) d,
      kh_endBlock := max (kh_endBlock (storedHeaders R t1)) d\<rparr>, kc_data = es\<rparr>, t2, [])" "ks_db t2 = ks_db t1"
    by blast
  have run: "updateKeysCache R (Inr (fin, hash)) modules s =
      (let end' = max (kh_endBlock (storedHeaders R t2)) d;
           h = (storedHeaders R t2)\<lparr>kh_startBlock := max (kh_startBlock (storedHeaders R t2)) d, kh_endBlock := end'\<rparr>
       in (if fin < end' then ret () else updateKeysLoop R modules h fin (end' + 1)) t2)"
    by (simp add: updateKeysCache_def stakingModuleListWasUpdated_def andThen_assoc
        andThen_step getHeader_eq [OF assms(1) wf] t1 t2 verifyKeyCacheBlock_def not_le Let_def)
  with inv1 le1 ev1 t2(2) show ?thesis by (intro exI [of _ t2]) (simp add: keys_inv_def)
qed

lemma updateKeysCache_ok:
  assumes "keys_env_ok R failure logs" and "getKeysDeploymentBlock R = Inr d" and "keys_inv R logs d s"
    and "updateKeysCache R (Inr (fin, hash)) modules s = (Inr u, s', out)"
  shows "keys_inv R logs d s' \<and>
    fin \<le> max (kh_endBlock (storedHeaders R s')) d \<and>
    keydb_events (keyDB R s') = modulesEvents logs (set modules) {Suc d .. max (kh_endBlock (storedHeaders R s')) d} \<and>
    (max (kh_endBlock (storedHeaders R s)) d < fin \<longrightarrow>
       storedHeaders R s' = (storedHeaders R s')\<lparr>kh_stakingModulesAddresses := modules, kh_endBlock := fin\<rparr>)"
proof -
  have L: "level_laws (kv_level (kr_store R))" and dflt: "kv_default (kr_store R) = SIGNING_KEYS_CACHE_DEFAULT"
    using assms(1) by (simp_all add: keys_env_ok_def)
  obtain t where inv: "keys_inv R logs d t" and le: "kh_endBlock (storedHeaders R t) \<le> kh_endBlock (storedHeaders R s)"
    and ev: "keydb_events (keyDB R t) = modulesEvents logs (set modules) {Suc d .. kh_endBlock (storedHeaders R t)}"
    and run: "updateKeysCache R (Inr (fin, hash)) modules s =
      (let end' = max (kh_endBlock (storedHeaders R t)) d;
           h = (storedHeaders R t)\<lparr>kh_startBlock := max (kh_startBlock (storedHeaders R t)) d, kh_endBlock := end'\<rparr>
       in (if fin < end' then ret () else updateKeysLoop R modules h fin (end' + 1)) t)"
    using updateKeysCache_start [OF L dflt assms(2,3), where modules = modules and fin = fin and hash = hash] by blast
  let ?fin_end = "max (kh_endBlock (storedHeaders R t)) d"
  let ?h = "(storedHeaders R t)\<lparr>kh_startBlock := max (kh_startBlock (storedHeaders R t)) d, kh_endBlock := ?fin_end\<rparr>"
  have "{Suc d .. kh_endBlock (storedHeaders R t)} = {Suc d ..< Suc ?fin_end}" by auto
  with ev have ev': "keydb_events (keyDB R t) = modulesEvents logs (set modules) {Suc d ..< Suc ?fin_end}"
    by (simp only:)
  show ?thesis
  proof (cases "fin \<le> ?fin_end")
    case True
    with assms(4) [unfolded run] have "s' = t"
      by (simp add: Let_def updateKeysLoop_end split: if_split_asm)
    with inv ev' True le show ?thesis by (auto simp: atLeastLessThanSuc_atLeastAtMost)
  next
    case False
    with assms(4) have loop: "updateKeysLoop R modules ?h fin (?fin_end + 1) t = (Inr u, s', out)"
      by (simp add: run Let_def)
    have "keydb_wf (keyDB R t)" using inv by (simp add: keys_inv_def)
    from updateKeysLoop_ok [OF assms(1) this _ _ loop, of d] False ev' show ?thesis
      by (simp add: keys_inv_def atLeastLessThanSuc_atLeastAtMost max_def)
  qed
qed

text \<open>
  C7: The cache of signing keys is complete for the current modules: when \<open>updateEventsCache\<close>
  returns, the database holds exactly the key events of the given modules in the blocks after
  the deployment block up to the end of the cache, and that end has reached the finalized block;
  a cache written for another set of modules is dropped first. The invariant is kept.
\<close>

theorem updateKeysCache_complete:
  assumes "keys_env_ok R failure logs" and "getKeysDeploymentBlock R = Inr d" and "keys_inv R logs d s"
    and "updateKeysCache R (Inr (fin, hash)) modules s = (Inr u, s', out)"
  shows "keys_inv R logs d s' \<and>
    fin \<le> max (kh_endBlock (storedHeaders R s')) d \<and>
    keydb_events (keyDB R s') = modulesEvents logs (set modules) {Suc d .. max (kh_endBlock (storedHeaders R s')) d}"
  using updateKeysCache_ok [OF assms] by blast

text \<open>
  C36: The events returned for a key are all the events of that key: with a cache written before,
  \<open>getUpdatedSigningKeyEvents\<close> returns exactly the events of the key in the cached modules from
  the deployment block to the block asked for, some in the database and the rest fetched.
\<close>

theorem getUpdatedSigningKeyEvents_complete:
  assumes "keys_env_ok R failure logs" and "keys_inv R logs d s" and "keyDB R s ''headers'' \<noteq> None"
    and "d \<le> kh_endBlock (storedHeaders R s)" and "pubkey_ok key"
    and "getUpdatedSigningKeyEvents R key blockNumber blockHash s = (Inr g, s', out)"
  shows "set (kg_events g) =
      {e \<in> modulesEvents logs (set (kh_stakingModulesAddresses (storedHeaders R s))) {Suc d .. blockNumber}. ke_key e = key} \<and>
    kh_endBlock (storedHeaders R s) \<le> blockNumber \<and> kg_endBlock g = blockNumber \<and> s' = s"
proof -
  let ?mods = "kh_stakingModulesAddresses (storedHeaders R s)" and ?fin_end = "kh_endBlock (storedHeaders R s)"
  have L: "level_laws (kv_level (kr_store R))" and src: "key_source_ok (kr_fetcher R) failure logs"
    using assms(1) by (simp_all add: keys_env_ok_def)
  have wf: "keydb_wf (keyDB R s)" and ev: "keydb_events (keyDB R s) = modulesEvents logs (set ?mods) {Suc d .. ?fin_end}"
    using assms(2) by (simp_all add: keys_inv_def)
  have "\<forall>k\<in>set (uniq [key]). pubkey_ok k" using assms(5) by simp
  from getCachedKeyEvents_ok [OF L wf this] assms(3) obtain es where
    es: "set es = {e \<in> keydb_events (keyDB R s). ke_key e = key}"
    and get: "getEventsForOperatorsKeys R [key] s = (Inr \<lparr>kc_headers = storedHeaders R s, kc_data = es\<rparr>, s, [])"
    by (auto simp: getEventsForOperatorsKeys_def)
  from assms(6) have le: "?fin_end \<le> blockNumber"
    by (auto simp: getUpdatedSigningKeyEvents_def andThen_step get verifyKeyCacheBlock_def split: if_split_asm)
  note run = assms(6) [unfolded getUpdatedSigningKeyEvents_def 
      andThen_step [where m = "getEventsForOperatorsKeys R [key]", OF get]]
  obtain grp where fetch: "fetchKeyEventsFallOver (kr_fetcher R) (?fin_end + 1) blockNumber ?mods = Inr grp"
    using run le by (cases "fetchKeyEventsFallOver (kr_fetcher R) (?fin_end + 1) blockNumber ?mods")
      (simp_all add: verifyKeyCacheBlock_def)
  have g: "kg_events g = es @ filter (\<lambda>e. ke_key e = key) (events grp)" "kg_endBlock g = blockNumber" "s' = s"
    using run le fetch by (auto simp: verifyKeyCacheBlock_def split: if_split_asm)
  have "{Suc d .. blockNumber} = {Suc d .. ?fin_end} \<union> {?fin_end + 1 .. blockNumber}" using le assms(4) by auto
  then have "modulesEvents logs (set ?mods) {Suc d .. blockNumber} = keydb_events (keyDB R s) \<union> set (events grp)"
    using keysFallOver_set(1) [OF src fetch] ev by (simp only: modulesEvents_union)
  with g es le show ?thesis by auto
qed

text \<open>
  The list of staking modules counts as updated exactly when it differs from the stored one
  as a set: neither the order nor repetitions of addresses make the cache be dropped.
\<close>

theorem modules_list_updated_iff:
  "wasStakingModulesListUpdated previousModules currentModules \<longleftrightarrow> set previousModules \<noteq> set currentModules"
  by (rule wasStakingModulesListUpdated_iff)



section \<open>A registry of one module with two keys\<close>

definition demoKey :: "char \<Rightarrow> string" where
  "demoKey c = ''0x'' @ replicate 96 c"

definition demoKeyLogs :: "string \<Rightarrow> nat \<Rightarrow> raw_key_event list" where
  "demoKeyLogs a b =
     (if a = ''0xm'' \<and> (b = 1 \<or> b = 5) then
        [\<lparr>rk_operator = 7, rk_pubkey = demoKey (if b = 1 then CHR ''a'' else CHR ''b''), rk_blockNumber = b,
          rk_logIndex = 0, rk_blockHash = ''0xh''\<rparr>]
      else [])"

definition demoKeyEvent :: "nat \<Rightarrow> key_event" where
  "demoKeyEvent b = \<lparr>ke_operatorIndex = 7, ke_key = demoKey (if b = 1 then CHR ''a'' else CHR ''b''),
     ke_moduleAddress = ''0xm'', ke_logIndex = 0, ke_blockNumber = b, ke_blockHash = ''0xh''\<rparr>"

definition demoKeys :: "key_json ref_db key_registry_env" where
  "demoKeys = \<lparr>kr_store = \<lparr>kv_level = ref_level, kv_byteLength = (\<lambda>text. 1), kv_default = SIGNING_KEYS_CACHE_DEFAULT\<rparr>,
     kr_fetcher = \<lparr>kf_getSigningKeyAddedEvents = (\<lambda>s e a. query_logs (\<lambda>s e. None) (demoKeyLogs a) s e),
                   kf_finishTime = (\<lambda>s e a. length a)\<rparr>,
     kr_chainId = Holesky\<rparr>"

definition emptyKeyStore :: "key_json ref_db key_store" where
  "emptyKeyStore = \<lparr>ks_db = [], ks_cacheSizeBytes = 0, ks_cacheEventCount = 0, ks_bytesGauge = 0, ks_countGauge = 0\<rparr>"

lemma demo_keyChain: "keyChain demoKeyLogs a b = (if a = ''0xm'' \<and> (b = 1 \<or> b = 5) then [demoKeyEvent b] else [])"
  by (simp add: keyChain_def demoKeyLogs_def formatKeyEvent_def toNumber_def MAX_SAFE_INTEGER_def demoKeyEvent_def)

lemma demo_modulesEvents:
  "modulesEvents demoKeyLogs A B = (if ''0xm'' \<in> A then demoKeyEvent ` (B \<inter> {1, 5}) else {})"
  by (auto simp: modulesEvents_def demo_keyChain split: if_splits)

lemma demo_located: "located (modulesEvents demoKeyLogs UNIV UNIV)"
  by (auto simp: demo_modulesEvents located_def demoKeyEvent_def pubkey_ok_def demoKey_def)

lemma demo_keys_env: "keys_env_ok demoKeys (\<lambda>a s e. None) demoKeyLogs"
  by (simp add: keys_env_ok_def demoKeys_def ref_level_laws key_source_ok_def demo_located)

lemma demo_keys_deployment: "getKeysDeploymentBlock demoKeys = Inr 0"
  by (simp add: getKeysDeploymentBlock_def demoKeys_def EARLIEST_MODULE_DEPLOYMENT_BLOCK_NETWORK_def chain_defs)

lemma demo_keys_db: "contents (kv_level (kr_store demoKeys)) = map_of"
  by (simp add: demoKeys_def fun_eq_iff)

lemma demo_keys_empty: "keyDB demoKeys emptyKeyStore = Map.empty"
  by (simp add: demo_keys_db emptyKeyStore_def)

lemma demo_keys_inv: "keys_inv demoKeys demoKeyLogs 0 emptyKeyStore"
  by (simp add: keys_inv_def demo_keys_empty keydb_wf_def keydb_events_def keydb_headers_def)
     (simp add: demoKeys_def SIGNING_KEYS_CACHE_DEFAULT_def modulesEvents_def)

lemma demo_key_fetch:
  "fetchKeyEventsFallOver (kr_fetcher demoKeys) 1 3 [''0xm''] =
    Inr \<lparr>events = [demoKeyEvent 1], startBlock = 1, endBlock = 3\<rparr>"
  "fetchKeyEventsFallOver (kr_fetcher demoKeys) 4 6 [''0xm''] =
    Inr \<lparr>events = [demoKeyEvent 5], startBlock = 4, endBlock = 6\<rparr>"
  by (simp_all add: fetchKeyEventsFallOver_def fetchEventsFallOver_def requestKeyEvents_def fetchKeyEvents_def
      completionOrder_def moduleKeyEvents_def demoKeys_def query_logs_def chain_events_def upt_rec demoKeyLogs_def
      formatKeyEvent_def toNumber_def MAX_SAFE_INTEGER_def demoKeyEvent_def)

definition demoKeyStore :: "key_json ref_db key_store" where
  "demoKeyStore = fst (snd (updateKeysCache demoKeys (Inr (3, ''0xf'')) [''0xm''] emptyKeyStore))"

lemma demo_keys_run:
  "updateKeysCache demoKeys (Inr (3, ''0xf'')) [''0xm''] emptyKeyStore = (Inr (), demoKeyStore, [])"
proof -
  let ?E = "kr_store demoKeys"
  have L: "level_laws (kv_level ?E)" and dflt: "kv_default ?E = SIGNING_KEYS_CACHE_DEFAULT"
    by (simp_all add: demoKeys_def ref_level_laws)
  have wf: "keydb_wf (keyDB demoKeys s)" if "keyDB demoKeys s = Map.empty" for s
    using that by (simp add: keydb_wf_def)
  obtain t1 where t1: "deleteKeyCache ?E emptyKeyStore = (Inr (), t1, [])" "keyDB demoKeys t1 = Map.empty"
    by (simp add: deleteKeyCache_def updateKeyCacheMetrics_def contents_clear [OF L])
  obtain es t2 where t2: "getCachedKeys demoKeys t1 = (Inr \<lparr>kc_headers = (storedHeaders demoKeys t1)\<lparr>
      kh_startBlock := max (kh_startBlock (storedHeaders demoKeys t1)) 0,
      kh_endBlock := max (kh_endBlock (storedHeaders demoKeys t1)) 0\<rparr>, kc_data = es\<rparr>, t2, [])"
    using getCachedKeys_eq [OF L wf [OF t1(2)] demo_keys_deployment dflt] by blast
  have hd: "storedHeaders demoKeys t1 = kc_headers SIGNING_KEYS_CACHE_DEFAULT"
    "storedHeaders demoKeys emptyKeyStore = kc_headers SIGNING_KEYS_CACHE_DEFAULT"
    by (simp_all add: t1(2) demo_keys_empty keydb_headers_def dflt)
  note hdr = getHeader_eq [OF L wf [OF demo_keys_empty], unfolded hd(2)]
  have "\<exists>s'. updateKeysCache demoKeys (Inr (3, ''0xf'')) [''0xm''] emptyKeyStore = (Inr (), s', [])"
    using demo_key_fetch(1)
    by (simp add: updateKeysCache_def stakingModuleListWasUpdated_def andThen_assoc andThen_step hdr
        wasStakingModulesListUpdated_def SIGNING_KEYS_CACHE_DEFAULT_def t1(1) t2 [unfolded hd] verifyKeyCacheBlock_def
        updateKeysLoop.simps [of demoKeys _ _ 3 "Suc 0"] updateKeysLoop_end FETCHING_EVENTS_STEP_def insertKeyEventsBatch_eq)
  then show ?thesis by (auto simp: demoKeyStore_def)
qed

lemma demo_stored:
  "keys_inv demoKeys demoKeyLogs 0 demoKeyStore"
  "kh_stakingModulesAddresses (storedHeaders demoKeys demoKeyStore) = [''0xm'']"
  "kh_endBlock (storedHeaders demoKeys demoKeyStore) = 3"
proof -
  note ok = updateKeysCache_ok [OF demo_keys_env demo_keys_deployment demo_keys_inv demo_keys_run]
  from ok show "keys_inv demoKeys demoKeyLogs 0 demoKeyStore" by blast
  have "max (kh_endBlock (storedHeaders demoKeys emptyKeyStore)) 0 < 3"
    by (simp add: demo_keys_empty keydb_headers_def) (simp add: demoKeys_def SIGNING_KEYS_CACHE_DEFAULT_def)
  with ok have eq: "storedHeaders demoKeys demoKeyStore =
      (storedHeaders demoKeys demoKeyStore)\<lparr>kh_stakingModulesAddresses := [''0xm''], kh_endBlock := 3\<rparr>" by blast
  show "kh_stakingModulesAddresses (storedHeaders demoKeys demoKeyStore) = [''0xm'']"
    "kh_endBlock (storedHeaders demoKeys demoKeyStore) = 3"
    by (subst eq, simp)+
qed

lemma demo_stored_headers: "keyDB demoKeys demoKeyStore ''headers'' \<noteq> None"
  using demo_stored(3)
  by (cases "keyDB demoKeys demoKeyStore ''headers''")
     (simp_all add: keydb_headers_def, simp add: demoKeys_def SIGNING_KEYS_CACHE_DEFAULT_def)

lemma demo_key_run:
  "\<exists>g. getUpdatedSigningKeyEvents demoKeys (demoKey CHR ''b'') 6 ''0xh'' demoKeyStore = (Inr g, demoKeyStore, [])"
proof -
  have L: "level_laws (kv_level (kr_store demoKeys))" by (simp add: demoKeys_def ref_level_laws)
  have wf: "keydb_wf (keyDB demoKeys demoKeyStore)" using demo_stored(1) by (simp add: keys_inv_def)
  have "\<forall>k\<in>set (uniq [demoKey CHR ''b'']). pubkey_ok k" by (simp add: pubkey_ok_def demoKey_def)
  from getCachedKeyEvents_ok [OF L wf this] demo_stored_headers obtain es where
    "getEventsForOperatorsKeys demoKeys [demoKey CHR ''b''] demoKeyStore =
       (Inr \<lparr>kc_headers = storedHeaders demoKeys demoKeyStore, kc_data = es\<rparr>, demoKeyStore, [])"
    by (auto simp: getEventsForOperatorsKeys_def)
  then show ?thesis
    using demo_key_fetch(2)
    by (simp add: getUpdatedSigningKeyEvents_def andThen_step demo_stored verifyKeyCacheBlock_def
        checkEventsBlockHash_def findReorganizedKeyEvent_def demoKeyEvent_def)
qed

theorem getUpdatedSigningKeyEvents_complete_witness:
  "\<exists>g. getUpdatedSigningKeyEvents demoKeys (demoKey CHR ''b'') 6 ''0xh'' demoKeyStore = (Inr g, demoKeyStore, []) \<and>
     set (kg_events g) = {demoKeyEvent 5}"
proof -
  obtain g where run: "getUpdatedSigningKeyEvents demoKeys (demoKey CHR ''b'') 6 ''0xh'' demoKeyStore =
      (Inr g, demoKeyStore, [])"
    using demo_key_run by blast
  have "0 \<le> kh_endBlock (storedHeaders demoKeys demoKeyStore)" "pubkey_ok (demoKey CHR ''b'')"
    by (simp_all add: pubkey_ok_def demoKey_def)
  note all = getUpdatedSigningKeyEvents_complete [OF demo_keys_env demo_stored(1) demo_stored_headers this run]
  have "{e \<in> demoKeyEvent ` ({Suc 0 .. 6} \<inter> {1, 5}). ke_key e = demoKey CHR ''b''} = {demoKeyEvent 5}"
    by (auto simp: demoKeyEvent_def demoKey_def)
  with all run show ?thesis by (auto simp: demo_modulesEvents demo_stored(2))
qed

theorem updateKeysCache_complete_witness:
  "keydb_events (keyDB demoKeys demoKeyStore) =
     demoKeyEvent ` ({Suc 0 .. max (kh_endBlock (storedHeaders demoKeys demoKeyStore)) 0} \<inter> {1, 5}) \<and>
   3 \<le> kh_endBlock (storedHeaders demoKeys demoKeyStore)"
  using updateKeysCache_complete [OF demo_keys_env demo_keys_deployment demo_keys_inv demo_keys_run]
  by (simp add: demo_modulesEvents)

end
