(* ===== verification/Guardian_Types.thy ===== *)
theory Guardian_Types
  imports Deposits_Store Fetch_Events
begin

text \<open>
  The data the guardian services pass to each other (\<open>guardian/interfaces\<close>, \<open>keys-api/interfaces\<close>,
  \<open>messages/interfaces\<close>, \<open>contracts/security\<close>) and the outputs they emit: gauges and counters
  of the metrics, transactions handed to the node, messages handed to the transport.
\<close>

section \<open>Keys of the registry\<close>

record registry_key =
  lk_key :: string
  lk_depositSignature :: string
  lk_operatorIndex :: nat
  lk_used :: bool
  lk_index :: nat
  lk_moduleAddress :: string
  lk_vetted :: bool

section \<open>State of a cycle\<close>

datatype guardian_mode = LegacyEoa | Edf

record guardian_context =
  gc_dsmAddress :: string
  gc_dsmVersion :: nat
  gc_delegateAddress :: string
  gc_guardianAddress :: string
  gc_guardianIndex :: int
  gc_mode :: guardian_mode

record block_data =
  bk_blockNumber :: nat
  bk_blockHash :: string
  bk_depositRoot :: string
  bk_depositedEvents :: "verified_event event_group"
  bk_guardianContext :: guardian_context
  bk_guardianAddress :: string
  bk_guardianIndex :: int
  bk_securityVersion :: nat
  bk_alreadyPausedDeposits :: bool
  bk_hasFrontRunning :: bool
  bk_hasWrongWCType :: bool
  bk_walletBalanceCritical :: bool

record module_data =
  sm_blockHash :: string
  sm_vettedUnusedKeys :: "registry_key list"
  sm_nonce :: nat
  sm_stakingModuleId :: nat
  sm_stakingModuleAddress :: string
  sm_lastChangedBlockHash :: string
  sm_duplicatedKeys :: "registry_key list"
  sm_invalidKeys :: "registry_key list"
  sm_crossTypeKeys :: "registry_key list"
  sm_frontRunKeys :: "registry_key list"
  sm_unresolvedDuplicatedKeys :: "registry_key list"
  sm_withdrawalCredentials :: string
  sm_isModuleDepositsPaused :: bool

record contracts_state =
  cs_blockNumber :: nat
  cs_nonce :: nat
  cs_depositRoot :: string
  cs_lastChangedBlockHash :: string

section \<open>Signatures and messages\<close>

text \<open>The fields of the signature of \<open>@ethersproject/bytes\<close> the code reads.\<close>

record signature =
  sig_r :: string
  sig_s :: string
  sig_v :: nat
  sig_vs :: string

record message_required =
  mr_guardianAddress :: string
  mr_guardianIndex :: int
  mr_dsmVersion :: "nat option"

record message_deposit = message_required +
  md_depositRoot :: string
  md_nonce :: nat
  md_blockNumber :: nat
  md_blockHash :: string
  md_signature :: signature
  md_stakingModuleId :: nat

record message_pause = message_required +
  mp_blockNumber :: nat
  mp_blockHash :: string
  mp_signature :: signature

record message_unvet = message_required +
  mu_nonce :: nat
  mu_blockNumber :: nat
  mu_blockHash :: string
  mu_stakingModuleId :: nat
  mu_signature :: signature
  mu_operatorIds :: string
  mu_vettedKeysByOperator :: string

record message_ping = message_required +
  mg_blockNumber :: nat
  mg_stakingModuleIds :: "nat list"

datatype message_type = PAUSE | DEPOSIT | PING | UNVET

text \<open>A message and its \<open>type\<close> field in one: the constructor is the type.\<close>

datatype message =
    Message_Deposit message_deposit
  | Message_Pause message_pause
  | Message_Unvet message_unvet
  | Message_Ping message_ping

fun message_type_of :: "message \<Rightarrow> message_type" where
  "message_type_of (Message_Deposit _) = DEPOSIT"
| "message_type_of (Message_Pause _) = PAUSE"
| "message_type_of (Message_Unvet _) = UNVET"
| "message_type_of (Message_Ping _) = PING"

fun required_fields :: "message \<Rightarrow> message_required" where
  "required_fields (Message_Deposit m) = message_required.truncate m"
| "required_fields (Message_Pause m) = message_required.truncate m"
| "required_fields (Message_Unvet m) = message_required.truncate m"
| "required_fields (Message_Ping m) = message_required.truncate m"

record message_app =
  ap_version :: string
  ap_name :: string

section \<open>Transactions\<close>

text \<open>
  A transaction the daemon sends: the wallet it is signed with, the contract it is sent to and
  the call. A delegation contract is asked to \<open>execute\<close> encoded call data with a value.
\<close>

record unvet_params =
  up_nonce :: nat
  up_blockNumber :: nat
  up_blockHash :: string
  up_stakingModuleId :: nat
  up_operatorIds :: string
  up_vettedKeysByOperator :: string

datatype dsm_call =
    PauseDeposits nat "string \<times> string"
  | UnvetSigningKeys unvet_params "string \<times> string"
  | Execute string string nat

record transaction =
  tr_wallet :: string
  tr_contract :: string
  tr_call :: dsm_call

section \<open>Outputs\<close>

datatype metric =
    ValidatedDeposits string nat
  | DepositedKeys string nat
  | OperatorsKeys string nat
  | Intersections string nat
  | DuplicatedKeys string nat
  | InvalidKeys nat
  | HistoricalFrontRun string
  | AccountBalance string
  | NonceLatest string
  | NoncePending string
  | NonceGap string
  | GuardianInfo guardian_context string bool

datatype counter = PauseAttempts | UnvetAttempts | SentMessages message_type | BlockDataErrors

datatype effect =
    GaugeSet metric int
  | GuardianInfoReset
  | CounterInc counter
  | SendTransaction transaction
  | Publish string message message_app

fun is_transaction :: "effect \<Rightarrow> bool" where
  "is_transaction (SendTransaction _) = True"
| "is_transaction _ = False"

fun is_publication :: "effect \<Rightarrow> bool" where
  "is_publication (Publish _ _ _) = True"
| "is_publication _ = False"

text \<open>Metrics are neither: the outputs others act on.\<close>

definition acts :: "effect list \<Rightarrow> effect list" where
  "acts = filter (\<lambda>e. is_transaction e \<or> is_publication e)"

lemma acts_simps [simp]:
  "acts [] = []"
  "acts (GaugeSet m n # es) = acts es"
  "acts (GuardianInfoReset # es) = acts es"
  "acts (CounterInc c # es) = acts es"
  "acts (SendTransaction t # es) = SendTransaction t # acts es"
  "acts (Publish p msg a # es) = Publish p msg a # acts es"
  "acts (es @ fs) = acts es @ acts fs"
  by (simp_all add: acts_def)

end
