(* ===== verification/Keys_Duplication.thy ===== *)
theory Keys_Duplication
  imports Guardian_Types Signing_Keys_Registry Range_Utils
begin

text \<open>
  The search for duplicated keys (\<open>guardian/duplicates/keys-duplication-checker.service.ts\<close>).
  The registry of signing keys is asked for the events of a key through \<open>ask\<close>, the answer of
  \<open>getUpdatedSigningKeyEvents\<close> for a key, a block number and a block hash.
\<close>

type_synonym key_history = "string \<Rightarrow> nat \<Rightarrow> string \<Rightarrow> js_error + key_events_group"

record duplicates_result =
  dr_duplicates :: "registry_key list"
  dr_unresolved :: "registry_key list"

definition DUPLICATES_BATCH_SIZE :: int where
  "DUPLICATES_BATCH_SIZE = 10"

section \<open>Groups of keys\<close>

fun addToGroup :: "registry_key \<Rightarrow> (string \<times> registry_key list) list \<Rightarrow> (string \<times> registry_key list) list" where
  "addToGroup key acc =
     (let duplicateKeys = (case map_of acc (lk_key key) of Some ks \<Rightarrow> ks | None \<Rightarrow> [])
      in AList.update (lk_key key) (duplicateKeys @ [key]) acc)"

definition getDuplicateKeyGroups :: "registry_key list \<Rightarrow> (string \<times> registry_key list) list" where
  "getDuplicateKeyGroups keys =
     filter (\<lambda>(_, duplicateKeys). length duplicateKeys > 1) (fold addToGroup keys [])"

definition getKeyOperatorIdentifier :: "registry_key \<Rightarrow> string" where
  "getKeyOperatorIdentifier key = lk_moduleAddress key @ ''-'' @ dec_string (lk_operatorIndex key)"

definition getUniqueIdentifiersForOperators :: "registry_key list \<Rightarrow> string list" where
  "getUniqueIdentifiersForOperators keys = uniq (map getKeyOperatorIdentifier keys)"

section \<open>Keys of one operator\<close>

text \<open>The reduction starts from the first key; on equal indices the later key wins.\<close>

definition findEarliestKeyWithinOperator :: "registry_key list \<Rightarrow> registry_key option" where
  "findEarliestKeyWithinOperator operatorKeys =
     (case operatorKeys of [] \<Rightarrow> None
      | key # _ \<Rightarrow> Some (fold (\<lambda>curr prev. if lk_index prev < lk_index curr then prev else curr) operatorKeys key))"

definition findDuplicatesWithinOperator :: "registry_key list \<Rightarrow> registry_key list" where
  "findDuplicatesWithinOperator operatorKeys =
     (case findEarliestKeyWithinOperator operatorKeys of
        None \<Rightarrow> []
      | Some earliestKey \<Rightarrow> filter (\<lambda>key. lk_index key \<noteq> lk_index earliestKey) operatorKeys)"

definition handleSingleOperatorDuplicates :: "registry_key list \<Rightarrow> duplicates_result" where
  "handleSingleOperatorDuplicates keys =
     \<lparr>dr_duplicates = findDuplicatesWithinOperator keys, dr_unresolved = []\<rparr>"

definition hasDepositedKey :: "registry_key list \<Rightarrow> bool" where
  "hasDepositedKey keys = list_ex lk_used keys"

definition handleDepositedKeyDuplicates :: "registry_key list \<Rightarrow> duplicates_result" where
  "handleDepositedKeyDuplicates keys =
     \<lparr>dr_duplicates = filter (\<lambda>key. \<not> lk_used key) keys, dr_unresolved = []\<rparr>"

section \<open>Keys of several operators\<close>

definition eventOperatorIdentifier :: "key_event \<Rightarrow> string" where
  "eventOperatorIdentifier event = ke_moduleAddress event @ ''-'' @ dec_string (ke_operatorIndex event)"

definition getOperatorsWithoutEvents :: "string list \<Rightarrow> key_event list \<Rightarrow> string list" where
  "getOperatorsWithoutEvents uniqueOperatorIdentifiers evs =
     (let eventOperators = map eventOperatorIdentifier evs
      in filter (\<lambda>operatorIdentifier. \<not> List.member eventOperators operatorIdentifier) uniqueOperatorIdentifiers)"

fun earliestStep :: "key_event \<Rightarrow> nat \<times> key_event list \<Rightarrow> nat \<times> key_event list" where
  "earliestStep currEvent (earliestBlockNumber, blockEvents) =
     (if earliestBlockNumber = ke_blockNumber currEvent then (earliestBlockNumber, blockEvents @ [currEvent])
      else if earliestBlockNumber > ke_blockNumber currEvent then (ke_blockNumber currEvent, [currEvent])
      else (earliestBlockNumber, blockEvents))"

definition findEarliestEvents :: "key_event list \<Rightarrow> key_event list" where
  "findEarliestEvents evs =
     (if length evs \<le> 1 then evs
      else snd (fold earliestStep evs (ke_blockNumber (hd evs), [])))"

definition findOperatorKeys :: "registry_key list \<Rightarrow> string \<Rightarrow> nat \<Rightarrow> registry_key list" where
  "findOperatorKeys keys moduleAddress operatorIndex =
     filter (\<lambda>key. lk_moduleAddress key = moduleAddress \<and> lk_operatorIndex key = operatorIndex) keys"

definition isSameKey :: "registry_key \<Rightarrow> registry_key \<Rightarrow> bool" where
  "isSameKey key1 key2 \<longleftrightarrow>
     lk_moduleAddress key1 = lk_moduleAddress key2 \<and> lk_operatorIndex key1 = lk_operatorIndex key2 \<and>
     lk_index key1 = lk_index key2"

definition filterNonEarliestKeys :: "key_event \<Rightarrow> registry_key list \<Rightarrow> js_error + registry_key list" where
  "filterNonEarliestKeys earliestEvent suspectedDuplicateKeys =
     (let operatorKeys = findOperatorKeys suspectedDuplicateKeys
            (ke_moduleAddress earliestEvent) (ke_operatorIndex earliestEvent)
      in case findEarliestKeyWithinOperator operatorKeys of
           None \<Rightarrow> (if suspectedDuplicateKeys = [] then Inr [] else Inl TypeError)
         | Some earliestKey \<Rightarrow> Inr (filter (\<lambda>key. \<not> isSameKey key earliestKey) suspectedDuplicateKeys))"

definition handleEventsForDuplicates ::
  "key_event list \<Rightarrow> registry_key list \<Rightarrow> js_error + duplicates_result" where
  "handleEventsForDuplicates evs suspectedDuplicateKeys =
     (case findEarliestEvents evs of
        [earliestEvent] \<Rightarrow>
          (if findOperatorKeys suspectedDuplicateKeys (ke_moduleAddress earliestEvent)
                (ke_operatorIndex earliestEvent) = []
           then Inr \<lparr>dr_duplicates = suspectedDuplicateKeys, dr_unresolved = []\<rparr>
           else bindR (filterNonEarliestKeys earliestEvent suspectedDuplicateKeys)
                  (\<lambda>duplicateKeys. Inr \<lparr>dr_duplicates = duplicateKeys, dr_unresolved = []\<rparr>))
      | _ \<Rightarrow> Inr \<lparr>dr_duplicates = suspectedDuplicateKeys, dr_unresolved = []\<rparr>)"

definition fetchSigningKeyEvents :: "key_history \<Rightarrow> string \<Rightarrow> block_data \<Rightarrow> js_error + key_events_group" where
  "fetchSigningKeyEvents ask key blockData = ask key (bk_blockNumber blockData) (bk_blockHash blockData)"

definition getDuplicatesAcrossOperators ::
  "key_history \<Rightarrow> string \<Rightarrow> registry_key list \<Rightarrow> string list \<Rightarrow> block_data \<Rightarrow> js_error + duplicates_result" where
  "getDuplicatesAcrossOperators ask key suspectedDuplicateKeys uniqueOperatorIdentifiers blockData =
     bindR (fetchSigningKeyEvents ask key blockData) (\<lambda>g.
       if getOperatorsWithoutEvents uniqueOperatorIdentifiers (kg_events g) \<noteq> []
       then Inr \<lparr>dr_duplicates = [], dr_unresolved = suspectedDuplicateKeys\<rparr>
       else handleEventsForDuplicates (kg_events g) suspectedDuplicateKeys)"

definition handleMultiOperatorDuplicates ::
  "key_history \<Rightarrow> string \<Rightarrow> registry_key list \<Rightarrow> string list \<Rightarrow> block_data \<Rightarrow> js_error + duplicates_result" where
  "handleMultiOperatorDuplicates ask key suspectedDuplicateKeys uniqueOperatorIdentifiers blockData =
     getDuplicatesAcrossOperators ask key suspectedDuplicateKeys uniqueOperatorIdentifiers blockData"

section \<open>The whole search\<close>

definition processDuplicateKeyGroup ::
  "key_history \<Rightarrow> string \<Rightarrow> registry_key list \<Rightarrow> block_data \<Rightarrow> js_error + duplicates_result" where
  "processDuplicateKeyGroup ask key suspectedDuplicateKeys blockData =
     (let uniqueOperatorIdentifiers = getUniqueIdentifiersForOperators suspectedDuplicateKeys
      in if length uniqueOperatorIdentifiers = 1 then Inr (handleSingleOperatorDuplicates suspectedDuplicateKeys)
         else if hasDepositedKey suspectedDuplicateKeys then Inr (handleDepositedKeyDuplicates suspectedDuplicateKeys)
         else handleMultiOperatorDuplicates ask key suspectedDuplicateKeys uniqueOperatorIdentifiers blockData)"

definition getDuplicatedKeys :: "key_history \<Rightarrow> registry_key list \<Rightarrow> block_data \<Rightarrow> js_error + duplicates_result" where
  "getDuplicatedKeys ask keys blockData =
     (if length keys = 0 then Inr \<lparr>dr_duplicates = [], dr_unresolved = []\<rparr>
      else
        let groups = getDuplicateKeyGroups keys;
            processDuplicateGroup = (\<lambda>index.
              case groups ! nat index of (key, suspectedDuplicateKeys) \<Rightarrow>
                processDuplicateKeyGroup ask key suspectedDuplicateKeys blockData)
        in bindR (rangePromise processDuplicateGroup 0 (int (length groups)) DUPLICATES_BATCH_SIZE) (\<lambda>result.
             Inr \<lparr>dr_duplicates = concat (map dr_duplicates result),
                  dr_unresolved = concat (map dr_unresolved result)\<rparr>))"

section \<open>Groups\<close>

text \<open>The groups are the keys of one public key, in their order, for the keys that occur twice.\<close>

definition occurrences :: "string \<Rightarrow> registry_key list \<Rightarrow> registry_key list" where
  "occurrences pk keys = filter (\<lambda>k. lk_key k = pk) keys"

lemma groups_fold:
  "distinct (map fst acc) \<Longrightarrow>
   distinct (map fst (fold addToGroup keys acc)) \<and>
   (\<forall>pk. map_of (fold addToGroup keys acc) pk =
     (case map_of acc pk of
        None \<Rightarrow> (if occurrences pk keys = [] then None else Some (occurrences pk keys))
      | Some ks \<Rightarrow> Some (ks @ occurrences pk keys)))"
proof (induction keys arbitrary: acc)
  case Nil
  then show ?case by (simp add: occurrences_def split: option.splits)
next
  case (Cons k keys)
  have "distinct (map fst (addToGroup k acc))"
    using Cons.prems by (simp add: Let_def distinct_update)
  note IH = Cons.IH [OF this]
  have "map_of (addToGroup k acc) pk =
      (if pk = lk_key k then Some ((case map_of acc pk of Some ks \<Rightarrow> ks | None \<Rightarrow> []) @ [k]) else map_of acc pk)" for pk
    by (simp add: Let_def update_map_of)
  with IH show ?case by (auto simp: occurrences_def split: option.splits)
qed

lemma group_iff:
  "(pk, ks) \<in> set (getDuplicateKeyGroups keys) \<longleftrightarrow> ks = occurrences pk keys \<and> length ks > 1"
proof -
  have inv: "distinct (map fst (fold addToGroup keys []))"
    "map_of (fold addToGroup keys []) pk = (if occurrences pk keys = [] then None else Some (occurrences pk keys))"
    using groups_fold [of "[]" keys] by auto
  have "(pk, ks) \<in> set (fold addToGroup keys []) \<longleftrightarrow> map_of (fold addToGroup keys []) pk = Some ks"
    using inv(1) by simp
  then show ?thesis by (auto simp: getDuplicateKeyGroups_def inv(2) split: if_split_asm)
qed

lemma getDuplicatedKeys_cases:
  assumes "getDuplicatedKeys ask keys blockData = Inr r"
  shows "\<exists>rs. list_all2 (\<lambda>(pk, ks) g. processDuplicateKeyGroup ask pk ks blockData = Inr g)
      (getDuplicateKeyGroups keys) rs \<and>
    dr_duplicates r = concat (map dr_duplicates rs) \<and> dr_unresolved r = concat (map dr_unresolved rs)"
proof (cases "keys = []")
  case True
  with assms show ?thesis
    by (intro exI [of _ "[]"]) (auto simp: getDuplicatedKeys_def getDuplicateKeyGroups_def)
next
  case False
  let ?gs = "getDuplicateKeyGroups keys"
  let ?cb = "\<lambda>index. case ?gs ! nat index of (key, ks) \<Rightarrow> processDuplicateKeyGroup ask key ks blockData"
  from assms False obtain rs where
    rs: "rangePromise ?cb 0 (int (length ?gs)) DUPLICATES_BATCH_SIZE = Inr rs"
    "dr_duplicates r = concat (map dr_duplicates rs)" "dr_unresolved r = concat (map dr_unresolved rs)"
    by (auto simp: getDuplicatedKeys_def Let_def bindR_Inr_iff)
  have "list_all2 (\<lambda>x y. ?cb x = Inr y) [0 .. int (length ?gs) - 1] rs"
    using rs(1) by (simp add: rangePromise_eq_traverse DUPLICATES_BATCH_SIZE_def traverse_Inr_iff)
  then have "list_all2 (\<lambda>(pk, ks) g. processDuplicateKeyGroup ask pk ks blockData = Inr g) ?gs rs"
    by (auto simp: list_all2_conv_all_nth split: prod.splits)
  with rs(2,3) show ?thesis by blast
qed

section \<open>One group\<close>

lemma identifier_inj:
  "m1 @ ''-'' @ dec_string n1 = m2 @ ''-'' @ dec_string n2 \<longleftrightarrow> m1 = m2 \<and> n1 = n2"
proof
  assume eq: "m1 @ ''-'' @ dec_string n1 = m2 @ ''-'' @ dec_string n2"
  have dig: "takeWhile is_digit (rev (m @ ''-'' @ dec_string n)) = rev (dec_string n)" for m n
    by (simp add: takeWhile_append dec_string_digits) (simp add: is_digit_def)
  from eq dig [of m1 n1] dig [of m2 n2] have "n1 = n2" by (simp add: dec_string_inj)
  with eq show "m1 = m2 \<and> n1 = n2" by simp
qed simp

definition owner :: "registry_key \<Rightarrow> string \<times> nat" where
  "owner k = (lk_moduleAddress k, lk_operatorIndex k)"

definition event_owner :: "key_event \<Rightarrow> string \<times> nat" where
  "event_owner e = (ke_moduleAddress e, ke_operatorIndex e)"

lemma identifier_eq_iff [simp]:
  "getKeyOperatorIdentifier k1 = getKeyOperatorIdentifier k2 \<longleftrightarrow> owner k1 = owner k2"
  "getKeyOperatorIdentifier k1 = eventOperatorIdentifier e \<longleftrightarrow> owner k1 = event_owner e"
  "eventOperatorIdentifier e = getKeyOperatorIdentifier k1 \<longleftrightarrow> owner k1 = event_owner e"
  by (auto simp: getKeyOperatorIdentifier_def eventOperatorIdentifier_def owner_def event_owner_def
      identifier_inj simp del: append_Cons)

text \<open>A key has its place: the operator and the index within it.\<close>

definition distinct_places :: "registry_key list \<Rightarrow> bool" where
  "distinct_places keys \<longleftrightarrow> distinct (map (\<lambda>k. (owner k, lk_index k)) keys)"

lemma distinct_placesD:
  "distinct_places keys \<Longrightarrow> k1 \<in> set keys \<Longrightarrow> k2 \<in> set keys \<Longrightarrow> owner k1 = owner k2 \<Longrightarrow>
   lk_index k1 = lk_index k2 \<Longrightarrow> k1 = k2"
  by (auto simp: distinct_places_def distinct_map inj_on_def)

lemma isSameKey_iff: "isSameKey k1 k2 \<longleftrightarrow> owner k1 = owner k2 \<and> lk_index k1 = lk_index k2"
  by (auto simp: isSameKey_def owner_def)

lemma findOperatorKeys_eq: "findOperatorKeys keys m i = filter (\<lambda>k. owner k = (m, i)) keys"
  by (simp add: findOperatorKeys_def owner_def)

lemma one_operator_iff:
  "ks \<noteq> [] \<Longrightarrow> length (getUniqueIdentifiersForOperators ks) = 1 \<longleftrightarrow> (\<forall>k1\<in>set ks. \<forall>k2\<in>set ks. owner k1 = owner k2)"
proof -
  assume ne: "ks \<noteq> []"
  let ?I = "getKeyOperatorIdentifier ` set ks"
  have "length (getUniqueIdentifiersForOperators ks) = card ?I"
    by (simp add: getUniqueIdentifiersForOperators_def length_uniq)
  moreover have "card ?I = 1 \<longleftrightarrow> (\<forall>x\<in>?I. \<forall>y\<in>?I. x = y)"
  proof
    assume "card ?I = 1"
    then obtain a where "?I = {a}" by (rule card_1_singletonE)
    then show "\<forall>x\<in>?I. \<forall>y\<in>?I. x = y" by simp
  next
    assume same: "\<forall>x\<in>?I. \<forall>y\<in>?I. x = y"
    have "getKeyOperatorIdentifier (hd ks) \<in> ?I" using ne by simp
    with same have "?I = {getKeyOperatorIdentifier (hd ks)}" by blast
    then show "card ?I = 1" by simp
  qed
  ultimately show ?thesis by (simp only:) simp
qed

lemma earliest_fold:
  fixes k :: registry_key
  assumes "e = fold (\<lambda>curr prev. if lk_index prev < lk_index curr then prev else curr) ks k"
  shows "e \<in> insert k (set ks) \<and> lk_index e \<le> lk_index k \<and> (\<forall>k'\<in>set ks. lk_index e \<le> lk_index k')"
  using assms
proof (induction ks arbitrary: k)
  case (Cons a ks)
  from Cons.IH [of "if lk_index k < lk_index a then k else a"] Cons.prems show ?case
    by (auto split: if_split_asm)
qed simp

lemma findEarliest_Some:
  assumes "findEarliestKeyWithinOperator ks = Some e"
  shows "e \<in> set ks \<and> (\<forall>k\<in>set ks. lk_index e \<le> lk_index k)"
proof (cases ks)
  case (Cons k ks')
  with assms earliest_fold [of e ks k] show ?thesis
    by (auto simp: findEarliestKeyWithinOperator_def)
qed (use assms in \<open>simp add: findEarliestKeyWithinOperator_def\<close>)

lemma findEarliest_None: "findEarliestKeyWithinOperator ks = None \<longleftrightarrow> ks = []"
  by (cases ks) (simp_all add: findEarliestKeyWithinOperator_def)

section \<open>The earliest events\<close>

lemma earliestStep_fold:
  "fold earliestStep evs (b, acc) =
    (let m = fold (\<lambda>e b. min b (ke_blockNumber e)) evs b
     in (m, (if m = b then acc else []) @ filter (\<lambda>e. ke_blockNumber e = m) evs))"
proof (induction evs arbitrary: b acc)
  case (Cons e evs)
  have le: "fold (\<lambda>e b. min b (ke_blockNumber e)) evs c \<le> c" for c :: nat
  proof (induction evs arbitrary: c)
    case (Cons a evs)
    from Cons.IH [of "min c (ke_blockNumber a)"] show ?case by simp
  qed simp
  show ?case
    using le [of b] le [of "ke_blockNumber e"] by (auto simp: Cons.IH Let_def min_def)
qed simp

lemma min_fold: "fold (\<lambda>e b. min b (ke_blockNumber e)) evs b = Min (insert b (ke_blockNumber ` set evs))"
proof (induction evs arbitrary: b)
  case (Cons e evs)
  then show ?case by (cases "evs = []") (simp_all add: min.assoc)
qed simp

lemma findEarliestEvents_eq:
  "findEarliestEvents evs = filter (\<lambda>e. \<forall>e'\<in>set evs. ke_blockNumber e \<le> ke_blockNumber e') evs"
proof (cases evs)
  case (Cons e es)
  let ?B = "ke_blockNumber ` set evs"
  have "snd (fold earliestStep evs (ke_blockNumber e, [])) = filter (\<lambda>e. ke_blockNumber e = Min ?B) evs"
    unfolding earliestStep_fold Let_def min_fold using Cons by simp
  moreover have "x = Min ?B \<longleftrightarrow> (\<forall>e'\<in>set evs. x \<le> ke_blockNumber e')" if "x \<in> ?B" for x
    using that by (auto intro: Min_eqI [symmetric])
  then have "filter (\<lambda>e. ke_blockNumber e = Min ?B) evs =
      filter (\<lambda>e. \<forall>e'\<in>set evs. ke_blockNumber e \<le> ke_blockNumber e') evs"
    by (intro filter_cong) auto
  ultimately show ?thesis using Cons by (cases es) (simp_all add: findEarliestEvents_def)
qed (simp add: findEarliestEvents_def)

section \<open>What is left of a group\<close>

definition kept :: "duplicates_result \<Rightarrow> registry_key \<Rightarrow> bool" where
  "kept r k \<longleftrightarrow> k \<notin> set (dr_duplicates r) \<and> k \<notin> set (dr_unresolved r)"

definition sole_earliest :: "key_event list \<Rightarrow> key_event \<Rightarrow> bool" where
  "sole_earliest evs e \<longleftrightarrow> filter (\<lambda>e'. \<forall>e''\<in>set evs. ke_blockNumber e' \<le> ke_blockNumber e'') evs = [e]"

lemma single_operator_kept:
  assumes "distinct_places ks" "\<forall>k1\<in>set ks. \<forall>k2\<in>set ks. owner k1 = owner k2" "k \<in> set ks"
  shows "kept (handleSingleOperatorDuplicates ks) k \<longleftrightarrow> (\<forall>k'\<in>set ks. lk_index k \<le> lk_index k')"
proof -
  obtain e where e: "findEarliestKeyWithinOperator ks = Some e" using assms(3) findEarliest_None [of ks]
    by (cases "findEarliestKeyWithinOperator ks") auto
  from findEarliest_Some [OF this] assms(3)
  have "lk_index k = lk_index e \<longleftrightarrow> (\<forall>k'\<in>set ks. lk_index k \<le> lk_index k')" by (auto intro: antisym)
  with assms(3) show ?thesis
    by (auto simp: kept_def handleSingleOperatorDuplicates_def findDuplicatesWithinOperator_def e)
qed

lemma events_kept:
  assumes "handleEventsForDuplicates evs ks = Inr r" "distinct_places ks" "k \<in> set ks"
  shows "kept r k \<longleftrightarrow> (\<exists>e. sole_earliest evs e \<and> event_owner e = owner k) \<and>
    (\<forall>k'\<in>set ks. owner k' = owner k \<longrightarrow> lk_index k \<le> lk_index k')"
proof (cases "\<exists>e. findEarliestEvents evs = [e]")
  case False
  then have "r = \<lparr>dr_duplicates = ks, dr_unresolved = []\<rparr>"
    using assms(1) by (auto simp: handleEventsForDuplicates_def split: list.splits)
  with False assms(3) show ?thesis by (auto simp: kept_def sole_earliest_def findEarliestEvents_eq)
next
  case True
  then obtain e where e: "findEarliestEvents evs = [e]" by blast
  then have sole: "sole_earliest evs e' \<longleftrightarrow> e' = e" for e'
    by (auto simp: sole_earliest_def findEarliestEvents_eq)
  let ?own = "findOperatorKeys ks (ke_moduleAddress e) (ke_operatorIndex e)"
  have own: "set ?own = {k \<in> set ks. owner k = event_owner e}"
    by (auto simp: findOperatorKeys_eq event_owner_def)
  show ?thesis
  proof (cases "?own = []")
    case True
    with own have "\<forall>k\<in>set ks. owner k \<noteq> event_owner e" by auto
    moreover from True assms(1) e have "r = \<lparr>dr_duplicates = ks, dr_unresolved = []\<rparr>"
      by (simp add: handleEventsForDuplicates_def)
    ultimately show ?thesis using assms(3) by (auto simp: kept_def sole)
  next
    case False
    then obtain m where m: "findEarliestKeyWithinOperator ?own = Some m"
      using findEarliest_None [of ?own] by (cases "findEarliestKeyWithinOperator ?own") auto
    with assms(1) e False have r: "r = \<lparr>dr_duplicates = filter (\<lambda>key. \<not> isSameKey key m) ks, dr_unresolved = []\<rparr>"
      by (simp add: handleEventsForDuplicates_def filterNonEarliestKeys_def Let_def)
    from findEarliest_Some [OF m] own have
      mm: "m \<in> set ks" "owner m = event_owner e" "\<forall>k\<in>set ks. owner k = event_owner e \<longrightarrow> lk_index m \<le> lk_index k"
      by auto
    have "kept r k \<longleftrightarrow> owner k = owner m \<and> lk_index k = lk_index m"
      using assms(3) by (auto simp: r kept_def isSameKey_iff)
    with mm assms(3) show ?thesis by (auto simp: sole intro: antisym)
  qed
qed

lemma group_subset:
  "processDuplicateKeyGroup ask pk ks bd = Inr g \<Longrightarrow> set (dr_duplicates g) \<union> set (dr_unresolved g) \<subseteq> set ks"
  by (auto simp: processDuplicateKeyGroup_def handleSingleOperatorDuplicates_def findDuplicatesWithinOperator_def
      handleDepositedKeyDuplicates_def handleMultiOperatorDuplicates_def getDuplicatesAcrossOperators_def
      handleEventsForDuplicates_def filterNonEarliestKeys_def Let_def bindR_Inr_iff
      split: if_split_asm option.splits list.splits)

text \<open>A key is judged by the group of its public key.\<close>

lemma kept_by_group:
  assumes "getDuplicatedKeys ask keys bd = Inr r" "length (occurrences (lk_key k) keys) > 1" "k \<in> set keys"
  shows "\<exists>g. processDuplicateKeyGroup ask (lk_key k) (occurrences (lk_key k) keys) bd = Inr g \<and>
    (k \<in> set (dr_duplicates r) \<longleftrightarrow> k \<in> set (dr_duplicates g)) \<and>
    (k \<in> set (dr_unresolved r) \<longleftrightarrow> k \<in> set (dr_unresolved g))"
proof -
  let ?gs = "getDuplicateKeyGroups keys"
  obtain rs where rs: "list_all2 (\<lambda>(pk, ks) g. processDuplicateKeyGroup ask pk ks bd = Inr g) ?gs rs"
    and dup: "dr_duplicates r = concat (map dr_duplicates rs)"
    and unr: "dr_unresolved r = concat (map dr_unresolved rs)"
    using getDuplicatedKeys_cases [OF assms(1)] by blast
  let ?ok = "\<lambda>g. processDuplicateKeyGroup ask (lk_key k) (occurrences (lk_key k) keys) bd = Inr g"
  have "(lk_key k, occurrences (lk_key k) keys) \<in> set ?gs" using assms(2) by (simp add: group_iff)
  from list_all2_left [OF rs this] obtain g where g: "?ok g" "g \<in> set rs" by auto
  have "g' = g" if g': "g' \<in> set rs" and k: "k \<in> set (dr_duplicates g') \<union> set (dr_unresolved g')" for g'
  proof -
    from list_all2_right [OF rs g'] obtain pk ks where
      ks: "(pk, ks) \<in> set (getDuplicateKeyGroups keys)" "processDuplicateKeyGroup ask pk ks bd = Inr g'" by auto
    with group_subset k have "k \<in> set ks" by blast
    with ks(1) have "lk_key k = pk" "ks = occurrences pk keys" by (auto simp: group_iff occurrences_def)
    with ks(2) g(1) show "g' = g" by simp
  qed
  note only = this
  have "k \<in> set (dr_duplicates r) \<longleftrightarrow> (\<exists>g'\<in>set rs. k \<in> set (dr_duplicates g'))"
    "k \<in> set (dr_unresolved r) \<longleftrightarrow> (\<exists>g'\<in>set rs. k \<in> set (dr_unresolved g'))"
    by (simp_all add: dup unr)
  with g only show ?thesis by blast
qed

lemma flagged_occurs_twice:
  assumes "getDuplicatedKeys ask keys bd = Inr r" "\<not> kept r k"
  shows "k \<in> set keys \<and> length (occurrences (lk_key k) keys) > 1"
proof -
  obtain rs where rs: "list_all2 (\<lambda>(pk, ks) g. processDuplicateKeyGroup ask pk ks bd = Inr g)
      (getDuplicateKeyGroups keys) rs"
    "dr_duplicates r = concat (map dr_duplicates rs)" "dr_unresolved r = concat (map dr_unresolved rs)"
    using getDuplicatedKeys_cases [OF assms(1)] by blast
  with assms(2) obtain g where g: "g \<in> set rs" "k \<in> set (dr_duplicates g) \<union> set (dr_unresolved g)"
    by (auto simp: kept_def)
  from list_all2_right [OF rs(1) g(1)] obtain pk ks where
    ks: "(pk, ks) \<in> set (getDuplicateKeyGroups keys)" "processDuplicateKeyGroup ask pk ks bd = Inr g" by auto
  with group_subset g(2) have "k \<in> set ks" by blast
  with ks(1) show ?thesis by (auto simp: group_iff occurrences_def)
qed

lemma distinct_places_occurrences: "distinct_places keys \<Longrightarrow> distinct_places (occurrences pk keys)"
  by (simp add: distinct_places_def occurrences_def distinct_map_filter)

section \<open>Properties\<close>

lemma two_kept:
  assumes "processDuplicateKeyGroup ask pk ks bd = Inr g" "distinct_places ks"
    and "k1 \<in> set ks" "k2 \<in> set ks" "kept g k1" "kept g k2" "k1 \<noteq> k2"
  shows "lk_used k1 \<and> lk_used k2"
proof -
  have ne: "ks \<noteq> []" using assms(3) by auto
  note run = assms(1) [unfolded processDuplicateKeyGroup_def Let_def one_operator_iff [OF ne]
      handleMultiOperatorDuplicates_def getDuplicatesAcrossOperators_def]
  consider (same) "\<forall>k1\<in>set ks. \<forall>k2\<in>set ks. owner k1 = owner k2" "g = handleSingleOperatorDuplicates ks"
    | (deposited) "g = handleDepositedKeyDuplicates ks"
    | (missing) "g = \<lparr>dr_duplicates = [], dr_unresolved = ks\<rparr>"
    | (history) evs where "handleEventsForDuplicates evs ks = Inr g"
  proof (cases "\<forall>k1\<in>set ks. \<forall>k2\<in>set ks. owner k1 = owner k2")
    case True
    from run [unfolded if_P [OF this]] have "g = handleSingleOperatorDuplicates ks" by (rule sum.inject(2) [THEN iffD1, symmetric])
    from that(1) [OF True this] show ?thesis .
  next
    case single: False
    show ?thesis
    proof (cases "hasDepositedKey ks")
      case True
      with run [unfolded if_not_P [OF single]] show ?thesis by (intro that(2)) simp
    next
      case False
      from run [unfolded if_not_P [OF single] if_not_P [OF False] bindR_Inr_iff] obtain h where "(if getOperatorsWithoutEvents (getUniqueIdentifiersForOperators ks) (kg_events (h :: key_events_group)) \<noteq> []
          then Inr \<lparr>dr_duplicates = [], dr_unresolved = ks\<rparr>
          else handleEventsForDuplicates (kg_events h) ks) = Inr g" by blast
      then show ?thesis using that(3,4) by (cases "getOperatorsWithoutEvents (getUniqueIdentifiersForOperators ks) (kg_events h) = []") simp_all
    qed
  qed
  then show ?thesis
  proof cases
    case same
    with single_operator_kept [OF assms(2) same(1)] assms(3-6) have "lk_index k1 = lk_index k2"
      by (auto intro: antisym)
    with distinct_placesD [OF assms(2-4)] same(1) assms(3,4,7) show ?thesis by blast
  next
    case deposited
    with assms(3-6) show ?thesis by (auto simp: kept_def handleDepositedKeyDuplicates_def)
  next
    case missing
    with assms(3,5) show ?thesis by (simp add: kept_def)
  next
    case history
    note k = events_kept [OF history assms(2)]
    from k [OF assms(3)] k [OF assms(4)] assms(5,6) have "owner k1 = owner k2"
      by (auto simp: sole_earliest_def)
    with k [OF assms(3)] k [OF assms(4)] assms(3-6) have "lk_index k1 = lk_index k2"
      by (auto intro: antisym)
    with \<open>owner k1 = owner k2\<close> distinct_placesD [OF assms(2-4)] assms(7) show ?thesis by blast
  qed
qed

lemma duplicates_safe:
  assumes "distinct_places keys" and "getDuplicatedKeys ask keys blockData = Inr r"
  shows "(\<forall>k1 \<in> set keys. \<forall>k2 \<in> set keys.
      lk_key k1 = lk_key k2 \<and> k1 \<noteq> k2 \<and> kept r k1 \<and> kept r k2 \<longrightarrow> lk_used k1 \<and> lk_used k2) \<and>
    (\<forall>k. \<not> kept r k \<longrightarrow> k \<in> set keys \<and> length (occurrences (lk_key k) keys) > 1)"
proof -
  have "lk_used k1 \<and> lk_used k2"
    if k: "k1 \<in> set keys" "k2 \<in> set keys" "lk_key k1 = lk_key k2" "k1 \<noteq> k2" "kept r k1" "kept r k2" for k1 k2
  proof -
    let ?ks = "occurrences (lk_key k1) keys"
    have in_ks: "k1 \<in> set ?ks" "k2 \<in> set ?ks" using k by (simp_all add: occurrences_def)
    have "length ?ks > 1"
    proof (rule ccontr)
      assume "\<not> ?thesis"
      with in_ks k(4) show False by (cases ?ks) auto
    qed
    note long = this
    note grp = kept_by_group [OF assms(2)]
    from grp [OF long k(1)] k(5) obtain g where g: "processDuplicateKeyGroup ask (lk_key k1) ?ks blockData = Inr g"
      "kept g k1" unfolding kept_def by blast
    from grp [OF long [unfolded k(3)] k(2)] k(3,6) g(1) have "kept g k2" by (auto simp: kept_def)
    from two_kept [OF g(1) distinct_places_occurrences [OF assms(1)] in_ks g(2) this k(4)] show ?thesis .
  qed
  with flagged_occurs_twice [OF assms(2)] show ?thesis by blast
qed

text \<open>
  C8: No public key is left twice for a deposit: of two distinct keys with one public key that
  are neither reported as duplicates nor unresolved, both are already used; and a key is reported
  only when its public key occurs at least twice, so a key that occurs once is never reported.
\<close>

theorem getDuplicatedKeys_safe:
  assumes "distinct_places keys" and "getDuplicatedKeys ask keys blockData = Inr r"
  shows "(\<forall>k1 \<in> set keys. \<forall>k2 \<in> set keys.
      lk_key k1 = lk_key k2 \<and> k1 \<noteq> k2 \<and> kept r k1 \<and> kept r k2 \<longrightarrow> lk_used k1 \<and> lk_used k2) \<and>
    (\<forall>k. \<not> kept r k \<longrightarrow> k \<in> set keys \<and> length (occurrences (lk_key k) keys) > 1)"
  by (rule duplicates_safe [OF assms])

lemma operators_with_events:
  "getOperatorsWithoutEvents (getUniqueIdentifiersForOperators ks) evs = [] \<longleftrightarrow>
   (\<forall>c\<in>set ks. owner c \<in> event_owner ` set evs)"
proof -
  have "getKeyOperatorIdentifier c \<in> eventOperatorIdentifier ` set evs \<longleftrightarrow> owner c \<in> event_owner ` set evs" for c
    by (auto simp: image_iff)
  then show ?thesis
    by (simp add: getOperatorsWithoutEvents_def Let_def filter_empty_conv getUniqueIdentifiersForOperators_def)
qed

lemma process_multi:
  assumes "length (getUniqueIdentifiersForOperators ks) \<noteq> 1" "\<not> hasDepositedKey ks"
    and "ask pk (bk_blockNumber bd) (bk_blockHash bd) = Inr g"
  shows "processDuplicateKeyGroup ask pk ks bd = (if \<forall>c\<in>set ks. owner c \<in> event_owner ` set (kg_events g)
      then handleEventsForDuplicates (kg_events g) ks else Inr \<lparr>dr_duplicates = [], dr_unresolved = ks\<rparr>)"
  unfolding operators_with_events [symmetric] processDuplicateKeyGroup_def Let_def if_not_P [OF assms(1)]
    if_not_P [OF assms(2)] handleMultiOperatorDuplicates_def getDuplicatesAcrossOperators_def
    fetchSigningKeyEvents_def assms(3) bindR_simps
  by simp

text \<open>
  The original of an undeposited key shared by several operators is decided by the history:
  such a key is left exactly when every operator holding the key has an event for it, the single
  earliest of all events is its operator's (no other event is as early), and it has the lowest
  index among the keys of its operator with that public key. When two events share the earliest
  block, or an operator has no event, no key of the group is left.
\<close>

theorem getDuplicatedKeys_by_history:
  assumes "distinct_places keys" and "getDuplicatedKeys ask keys blockData = Inr r"
    and "ask (lk_key k) (bk_blockNumber blockData) (bk_blockHash blockData) = Inr g"
    and "k \<in> set keys" and "k' \<in> set keys" and "lk_key k' = lk_key k" and "owner k' \<noteq> owner k"
    and "\<forall>c \<in> set (occurrences (lk_key k) keys). \<not> lk_used c"
  shows "kept r k \<longleftrightarrow>
    (\<forall>c \<in> set (occurrences (lk_key k) keys). owner c \<in> event_owner ` set (kg_events g)) \<and>
    (\<exists>e. sole_earliest (kg_events g) e \<and> event_owner e = owner k) \<and>
    (\<forall>c \<in> set (occurrences (lk_key k) keys). owner c = owner k \<longrightarrow> lk_index k \<le> lk_index c)"
proof -
  let ?ks = "occurrences (lk_key k) keys"
  have in_ks: "k \<in> set ?ks" "k' \<in> set ?ks" using assms(4-6) by (simp_all add: occurrences_def)
  have "length ?ks > 1"
  proof (rule ccontr)
    assume "\<not> ?thesis"
    with in_ks assms(7) show False by (cases ?ks) auto
  qed
  from kept_by_group [OF assms(2) this assms(4)] obtain d where
    d: "processDuplicateKeyGroup ask (lk_key k) ?ks blockData = Inr d" "kept r k \<longleftrightarrow> kept d k"
    by (auto simp: kept_def)
  have "?ks \<noteq> []" using in_ks by auto
  from one_operator_iff [OF this] in_ks assms(7) have several: "length (getUniqueIdentifiersForOperators ?ks) \<noteq> 1"
    by blast
  have unused: "\<not> hasDepositedKey ?ks" using assms(8) by (auto simp: hasDepositedKey_def list_ex_iff)
  have d_eq: "Inr d = (if \<forall>c\<in>set ?ks. owner c \<in> event_owner ` set (kg_events g)
      then handleEventsForDuplicates (kg_events g) ?ks else Inr \<lparr>dr_duplicates = [], dr_unresolved = ?ks\<rparr>)"
    by (rule trans [OF d(1) [symmetric] process_multi [where ask = ask and pk = "lk_key k" and bd = blockData, OF several unused assms(3)]])
  show ?thesis
  proof (cases "\<forall>c\<in>set ?ks. owner c \<in> event_owner ` set (kg_events g)")
    case True
    with d_eq have "handleEventsForDuplicates (kg_events g) ?ks = Inr d" by simp
    from events_kept [OF this distinct_places_occurrences [OF assms(1)] in_ks(1)] True d(2) show ?thesis by blast
  next
    case False
    with d_eq have "d = \<lparr>dr_duplicates = [], dr_unresolved = ?ks\<rparr>" by simp
    with in_ks have "\<not> kept d k" by (simp add: kept_def)
    with False d(2) show ?thesis by blast
  qed
qed

section \<open>Three operators, one key\<close>

definition demoLidoKey :: "nat \<Rightarrow> nat \<Rightarrow> registry_key" where
  "demoLidoKey operator index = \<lparr>lk_key = demoKey CHR ''a'', lk_depositSignature = ''0xs'', lk_operatorIndex = operator,
     lk_used = False, lk_index = index, lk_moduleAddress = ''0xm'', lk_vetted = True\<rparr>"

definition demoHistory :: key_history where
  "demoHistory key blockNumber blockHash =
     Inr \<lparr>kg_events = [(demoKeyEvent 5)\<lparr>ke_operatorIndex := 2\<rparr>, (demoKeyEvent 1)\<lparr>ke_operatorIndex := 1\<rparr>],
          kg_stakingModulesAddresses = [''0xm''], kg_startBlock = 0, kg_endBlock = blockNumber\<rparr>"

definition demoContext :: guardian_context where
  "demoContext = \<lparr>gc_dsmAddress = ''0xd'', gc_dsmVersion = 4, gc_delegateAddress = ''0xw'',
     gc_guardianAddress = ''0xw'', gc_guardianIndex = 0, gc_mode = LegacyEoa\<rparr>"

definition demoBlock :: block_data where
  "demoBlock = \<lparr>bk_blockNumber = 9, bk_blockHash = ''0xb'', bk_depositRoot = ''0xr'',
     bk_depositedEvents = \<lparr>events = [], startBlock = 0, endBlock = 9\<rparr>, bk_guardianContext = demoContext,
     bk_guardianAddress = ''0xw'', bk_guardianIndex = 0, bk_securityVersion = 4, bk_alreadyPausedDeposits = False,
     bk_hasFrontRunning = False, bk_hasWrongWCType = False, bk_walletBalanceCritical = False\<rparr>"

definition demoLidoKeys :: "registry_key list" where
  "demoLidoKeys = [demoLidoKey 1 4, demoLidoKey 2 0, demoLidoKey 1 3]"

lemma demo_places: "distinct_places demoLidoKeys"
  by (simp add: distinct_places_def demoLidoKeys_def demoLidoKey_def owner_def)

lemma demo_occurrences: "occurrences (demoKey CHR ''a'') demoLidoKeys = demoLidoKeys"
  by (simp add: occurrences_def demoLidoKeys_def demoLidoKey_def)

lemma demo_duplicates:
  "getDuplicatedKeys demoHistory demoLidoKeys demoBlock =
     Inr \<lparr>dr_duplicates = [demoLidoKey 1 4, demoLidoKey 2 0], dr_unresolved = []\<rparr>"
proof -
  have groups: "getDuplicateKeyGroups demoLidoKeys = [(demoKey CHR ''a'', demoLidoKeys)]"
    by (simp add: getDuplicateKeyGroups_def demoLidoKeys_def demoLidoKey_def)
  have "processDuplicateKeyGroup demoHistory (demoKey CHR ''a'') demoLidoKeys demoBlock =
     Inr \<lparr>dr_duplicates = [demoLidoKey 1 4, demoLidoKey 2 0], dr_unresolved = []\<rparr>"
    by (simp add: processDuplicateKeyGroup_def getUniqueIdentifiersForOperators_def demoLidoKeys_def
        getKeyOperatorIdentifier_def demoLidoKey_def dec_string_inj hasDepositedKey_def handleMultiOperatorDuplicates_def
        getDuplicatesAcrossOperators_def fetchSigningKeyEvents_def demoHistory_def getOperatorsWithoutEvents_def
        eventOperatorIdentifier_def demoKeyEvent_def handleEventsForDuplicates_def findEarliestEvents_def
        findOperatorKeys_def filterNonEarliestKeys_def findEarliestKeyWithinOperator_def isSameKey_def)
  moreover have "demoLidoKeys \<noteq> []" by (simp add: demoLidoKeys_def)
  ultimately show ?thesis
    by (simp add: getDuplicatedKeys_def groups rangePromise_eq_traverse DUPLICATES_BATCH_SIZE_def)
qed

theorem getDuplicatedKeys_safe_witness:
  "length (occurrences (demoKey CHR ''a'') demoLidoKeys) > 1 \<and>
   kept \<lparr>dr_duplicates = [demoLidoKey 1 4, demoLidoKey 2 0], dr_unresolved = []\<rparr> (demoLidoKey 1 3)"
  using getDuplicatedKeys_safe [OF demo_places demo_duplicates]
  by (auto simp: kept_def demoLidoKey_def)

theorem getDuplicatedKeys_by_history_witness:
  "kept \<lparr>dr_duplicates = [demoLidoKey 1 4, demoLidoKey 2 0], dr_unresolved = []\<rparr> (demoLidoKey 1 3) \<and>
   (\<exists>e. event_owner e = owner (demoLidoKey 1 3))"
proof -
  have pk: "lk_key (demoLidoKey i j) = demoKey CHR ''a''" for i j by (simp add: demoLidoKey_def)
  obtain g where g: "demoHistory (lk_key (demoLidoKey 1 3)) (bk_blockNumber demoBlock) (bk_blockHash demoBlock) = Inr g"
    by (simp add: demoHistory_def)
  have "\<forall>c\<in>set (occurrences (lk_key (demoLidoKey 1 3)) demoLidoKeys). \<not> lk_used c"
    unfolding pk demo_occurrences by (simp add: demoLidoKeys_def demoLidoKey_def)
  from getDuplicatedKeys_by_history [OF demo_places demo_duplicates g, of "demoLidoKey 2 0", OF _ _ _ _ this]
  show ?thesis by (auto simp: demoLidoKeys_def pk kept_def demoLidoKey_def owner_def)
qed

end
