(* ===== verification/Withdrawal_Credentials.thy ===== *)
theory Withdrawal_Credentials
  imports Guardian_Types
begin

text \<open>
  \<open>guardian/withdrawal-credentials.ts\<close>: the withdrawal credentials of a module from its type and
  the shared base, and the credentials a module used before a rotation.
\<close>

definition buildModuleWc :: "hex_lib \<Rightarrow> nat \<Rightarrow> string \<Rightarrow> js_error + string" where
  "buildModuleWc H withdrawalCredentialsType baseWC =
     bindR (hexlify H (int withdrawalCredentialsType)) (\<lambda>h.
     bindR (hexZeroPad H h 1) (\<lambda>typePrefix. Inr (typePrefix @ drop 4 baseWC)))"

record legacy_wc =
  lw_wc :: string
  lw_validUntilBlock :: nat

definition LEGACY_WITHDRAWAL_CREDENTIALS :: "nat \<rightharpoonup> string \<rightharpoonup> legacy_wc list" where
  "LEGACY_WITHDRAWAL_CREDENTIALS =
     [1 \<mapsto>
       [''0x55032650b14df07b85bf18a3a3ec8e0af2e028d5'' \<mapsto>
         [\<lparr>lw_wc = ''0x009690e5d4472c7c0dbdf490425d89862535d2a52fb686333f3a0a9ff5d2125e'',
           lw_validUntilBlock = 25444424\<rparr>]]]"

definition getLegacyModuleWCs :: "nat \<Rightarrow> string \<Rightarrow> legacy_wc list" where
  "getLegacyModuleWCs chainId moduleAddress =
     (case LEGACY_WITHDRAWAL_CREDENTIALS chainId of
        None \<Rightarrow> []
      | Some byModule \<Rightarrow> (case byModule (toLowerCase moduleAddress) of None \<Rightarrow> [] | Some wcs \<Rightarrow> wcs))"

lemma buildModuleWc_ok:
  assumes "hex_laws H" "t < 256"
  shows "buildModuleWc H t baseWC = Inr (''0x'' @ fixed_hex 2 t @ drop 4 baseWC)"
proof -
  have "bindR (hexlify H (int t)) (\<lambda>h. hexZeroPad H h 1) = Inr (''0x'' @ fixed_hex 2 t)"
    using assms by (simp add: hex_laws_def MAX_SAFE_INTEGER_def)
  then show ?thesis
    by (cases "hexlify H (int t)"; cases "hexZeroPad H (projr (hexlify H (int t))) 1") (auto simp: buildModuleWc_def)
qed

lemma buildModuleWc_overflow:
  assumes "hex_laws H" "256 \<le> t"
  shows "\<exists>e. buildModuleWc H t baseWC = Inl e"
proof -
  have "\<exists>e. bindR (hexlify H (int t)) (\<lambda>h. hexZeroPad H h 1) = Inl e"
    using assms by (simp add: hex_laws_def)
  then show ?thesis
    by (cases "hexlify H (int t)"; cases "hexZeroPad H (projr (hexlify H (int t))) 1") (auto simp: buildModuleWc_def)
qed

text \<open>
  The withdrawal credentials of two modules built from one base are the same exactly when the
  modules have the same type: the type byte replaces the first byte of the base and nothing else,
  so modules of different types never share withdrawal credentials.
\<close>

theorem buildModuleWc_by_type:
  assumes "hex_laws H" and "t1 < 256" and "t2 < 256"
  shows "\<exists>wc1 wc2. buildModuleWc H t1 baseWC = Inr wc1 \<and> buildModuleWc H t2 baseWC = Inr wc2 \<and>
    (wc1 = wc2 \<longleftrightarrow> t1 = t2) \<and> drop 4 wc1 = drop 4 baseWC \<and> drop 4 wc2 = drop 4 baseWC"
proof -
  have "drop 4 (''0x'' @ fixed_hex 2 t @ drop 4 baseWC) = drop 4 baseWC" for t
    by simp
  with assms show ?thesis by (simp add: buildModuleWc_ok [OF assms(1)] fixed_hex_inj del: drop_drop)
qed

theorem buildModuleWc_by_type_witness:
  "\<exists>wc1 wc2. buildModuleWc ref_hex 1 (''0x00'' @ replicate 62 CHR ''a'') = Inr wc1 \<and>
     buildModuleWc ref_hex 2 (''0x00'' @ replicate 62 CHR ''a'') = Inr wc2 \<and> wc1 \<noteq> wc2"
  using buildModuleWc_by_type [OF ref_hex_laws, of 1 2 "''0x00'' @ replicate 62 CHR ''a''"] by auto

end
