(* ===== verification/Guardian_Metrics.thy ===== *)
theory Guardian_Metrics
  imports Guardian_Types
begin

text \<open>
  \<open>guardian/guardian-metrics/guardian-metrics.service.ts\<close>: each operation is the list of gauges
  it sets, in order.
\<close>

definition collectValidatingMetrics :: "module_data \<Rightarrow> block_data \<Rightarrow> effect list" where
  "collectValidatingMetrics moduleData blockData =
     (let evs = events (bk_depositedEvents blockData);
          valid = fold (\<lambda>e sum. sum + (if de_valid e then 1 else 0)) evs 0;
          invalid = fold (\<lambda>e sum. sum + (if de_valid e then 0 else 1)) evs 0
      in [GaugeSet (ValidatedDeposits ''valid'' (sm_stakingModuleId moduleData)) valid,
          GaugeSet (ValidatedDeposits ''invalid'' (sm_stakingModuleId moduleData)) invalid])"

definition collectDepositMetrics :: "module_data \<Rightarrow> block_data \<Rightarrow> effect list" where
  "collectDepositMetrics moduleData blockData =
     (let depositedKeys = map de_pubkey (events (bk_depositedEvents blockData));
          depositedKeysSet = uniq depositedKeys
      in [GaugeSet (DepositedKeys ''total'' (sm_stakingModuleId moduleData)) (int (length depositedKeys)),
          GaugeSet (DepositedKeys ''unique'' (sm_stakingModuleId moduleData)) (int (length depositedKeysSet))])"

definition collectOperatorMetrics :: "module_data \<Rightarrow> effect list" where
  "collectOperatorMetrics moduleData =
     [GaugeSet (OperatorsKeys ''vetted_unused'' (sm_stakingModuleId moduleData))
        (int (length (sm_vettedUnusedKeys moduleData)))]"

definition collectMetrics :: "module_data \<Rightarrow> block_data \<Rightarrow> effect list" where
  "collectMetrics moduleData blockData =
     collectValidatingMetrics moduleData blockData @ collectDepositMetrics moduleData blockData @
     collectOperatorMetrics moduleData"

definition collectIntersectionsMetrics :: "nat \<Rightarrow> nat \<Rightarrow> nat \<Rightarrow> nat \<Rightarrow> effect list" where
  "collectIntersectionsMetrics stakingModuleId all filtered crossTypeCount =
     [GaugeSet (Intersections ''all'' stakingModuleId) (int all),
      GaugeSet (Intersections ''filtered'' stakingModuleId) (int filtered),
      GaugeSet (Intersections ''cross_type'' stakingModuleId) (int crossTypeCount)]"

definition collectDuplicatedKeysMetrics :: "nat \<Rightarrow> nat \<Rightarrow> nat \<Rightarrow> nat \<Rightarrow> nat \<Rightarrow> effect list" where
  "collectDuplicatedKeysMetrics stakingModuleId allUnresolved unresolved allVettedUnused vettedUnused =
     [GaugeSet (DuplicatedKeys ''all_unresolved'' stakingModuleId) (int allUnresolved),
      GaugeSet (DuplicatedKeys ''vetted_unused_unresolved'' stakingModuleId) (int unresolved),
      GaugeSet (DuplicatedKeys ''all_vetted_unused'' stakingModuleId) (int allVettedUnused),
      GaugeSet (DuplicatedKeys ''vetted_unused'' stakingModuleId) (int vettedUnused)]"

definition collectInvalidKeysMetrics :: "nat \<Rightarrow> nat \<Rightarrow> effect list" where
  "collectInvalidKeysMetrics stakingModuleId invalidKeysCount =
     [GaugeSet (InvalidKeys stakingModuleId) (int invalidKeysCount)]"

definition collectHistoricalFrontRunMetrics :: "nat \<Rightarrow> effect list" where
  "collectHistoricalFrontRunMetrics frontRunCount =
     [GaugeSet (HistoricalFrontRun ''front_run'') (int frontRunCount)]"

definition collectWrongWCTypeMetrics :: "nat \<Rightarrow> effect list" where
  "collectWrongWCTypeMetrics wrongWCTypeCount =
     [GaugeSet (HistoricalFrontRun ''wrong_wc_type'') (int wrongWCTypeCount)]"

lemmas metrics_defs =
  collectValidatingMetrics_def collectDepositMetrics_def collectOperatorMetrics_def collectMetrics_def
  collectIntersectionsMetrics_def collectDuplicatedKeysMetrics_def collectInvalidKeysMetrics_def
  collectHistoricalFrontRunMetrics_def collectWrongWCTypeMetrics_def

text \<open>The metrics are no acts: no message and no transaction is among them.\<close>

lemma acts_metrics [simp]:
  "acts (collectMetrics sm bk) = []" "acts (collectIntersectionsMetrics i a f c) = []"
  "acts (collectDuplicatedKeysMetrics i a b c d) = []" "acts (collectInvalidKeysMetrics i n) = []"
  "acts (collectHistoricalFrontRunMetrics n) = []" "acts (collectWrongWCTypeMetrics n) = []"
  by (simp_all add: metrics_defs Let_def)

lemma count_fold: "fold (\<lambda>e sum. sum + (if P e then 1 else 0)) evs (n::int) = n + int (length (filter P evs))"
  by (induction evs arbitrary: n) simp_all

lemma count_fold_not: "fold (\<lambda>e sum. sum + (if P e then 0 else 1)) evs (n::int) = n + int (length (filter (\<lambda>e. \<not> P e) evs))"
  by (induction evs arbitrary: n) simp_all

end
