(* ===== verification/Front_Run_Checks.thy ===== *)
theory Front_Run_Checks
  imports Withdrawal_Credentials Guardian_Metrics
begin

text \<open>
  The checks of deposit events against the keys of the protocol
  (\<open>guardian/staking-module-guard/staking-module-guard.service.ts\<close>): the earliest valid deposit
  of every used key, the two historical checks over it, and the keys of a module that were
  deposited before. A \<open>Map\<close> is an association list, \<open>Record<string, string>\<close> too.
\<close>

record expected_wc =
  ew_moduleAddress :: string
  ew_wc :: string

definition isFirstEventEarlier :: "verified_event \<Rightarrow> verified_event \<Rightarrow> bool" where
  "isFirstEventEarlier firstEvent secondEvent \<longleftrightarrow>
     (let isSameBlock = (de_blockNumber firstEvent = de_blockNumber secondEvent)
      in if isSameBlock then de_logIndex firstEvent < de_logIndex secondEvent
         else de_blockNumber firstEvent < de_blockNumber secondEvent)"

text \<open>An absent credential and the empty string are both falsy.\<close>

fun usedKeysLoop ::
  "(string \<times> string) list \<Rightarrow> registry_key list \<Rightarrow> (string \<times> expected_wc) list \<Rightarrow>
   js_error + (string \<times> expected_wc) list" where
  "usedKeysLoop moduleAddressToWC [] acc = Inr acc"
| "usedKeysLoop moduleAddressToWC (key # keys) acc =
     (if lk_used key then
        (case map_of moduleAddressToWC (lk_moduleAddress key) of
           None \<Rightarrow> Inl (Error ''Unexpected module address'')
         | Some expectedWC \<Rightarrow>
             (if expectedWC = '''' then Inl (Error ''Unexpected module address'')
              else usedKeysLoop moduleAddressToWC keys
                (AList.update (lk_key key) \<lparr>ew_moduleAddress = lk_moduleAddress key, ew_wc = expectedWC\<rparr> acc)))
      else usedKeysLoop moduleAddressToWC keys acc)"

definition getUsedKeyExpectedWCs ::
  "registry_key list \<Rightarrow> (string \<times> string) list \<Rightarrow> js_error + (string \<times> expected_wc) list" where
  "getUsedKeyExpectedWCs lidoKeys moduleAddressToWC = usedKeysLoop moduleAddressToWC lidoKeys []"

definition earliestDepositStep ::
  "(string \<times> expected_wc) list \<Rightarrow> verified_event \<Rightarrow> (string \<times> verified_event) list \<Rightarrow> (string \<times> verified_event) list" where
  "earliestDepositStep usedKeyExpectedWCs event earliestDeposits =
     (if \<not> de_valid event then earliestDeposits
      else if map_of usedKeyExpectedWCs (de_pubkey event) = None then earliestDeposits
      else (case map_of earliestDeposits (de_pubkey event) of
              None \<Rightarrow> AList.update (de_pubkey event) event earliestDeposits
            | Some existing \<Rightarrow>
                (if isFirstEventEarlier event existing
                 then AList.update (de_pubkey event) event earliestDeposits else earliestDeposits)))"

definition getEarliestDeposits ::
  "verified_event event_group \<Rightarrow> (string \<times> expected_wc) list \<Rightarrow> (string \<times> verified_event) list" where
  "getEarliestDeposits depositedEvents usedKeyExpectedWCs =
     fold (earliestDepositStep usedKeyExpectedWCs) (events depositedEvents) []"

definition hasAcceptableWC :: "nat \<Rightarrow> verified_event \<Rightarrow> expected_wc \<Rightarrow> bool" where
  "hasAcceptableWC chainId event expectedWC \<longleftrightarrow>
     de_wc event = ew_wc expectedWC \<or>
     list_ex (\<lambda>legacyWC. toLowerCase (lw_wc legacyWC) = toLowerCase (de_wc event) \<and>
                        de_blockNumber event \<le> lw_validUntilBlock legacyWC)
       (getLegacyModuleWCs chainId (ew_moduleAddress expectedWC))"

text \<open>The public keys of the map whose earliest deposit satisfies a condition, in order.\<close>

definition selectKeys ::
  "(string \<times> expected_wc) list \<Rightarrow> (string \<times> verified_event) list \<Rightarrow> (verified_event \<Rightarrow> expected_wc \<Rightarrow> bool) \<Rightarrow>
   string list" where
  "selectKeys usedKeyExpectedWCs earliestDeposits p =
     map fst (filter (\<lambda>(pubkey, event).
        case map_of usedKeyExpectedWCs pubkey of None \<Rightarrow> False | Some expectedWC \<Rightarrow> p event expectedWC)
      earliestDeposits)"

definition checkHistoricalFrontRun ::
  "nat \<Rightarrow> verified_event event_group \<Rightarrow> registry_key list \<Rightarrow> (string \<times> string) list \<Rightarrow> ('s, effect, bool) comp" where
  "checkHistoricalFrontRun chainId depositedEvents lidoKeys moduleAddressToWC =
     andThen (liftR (getUsedKeyExpectedWCs lidoKeys moduleAddressToWC)) (\<lambda>usedKeyExpectedWCs.
       let earliestDeposits = getEarliestDeposits depositedEvents usedKeyExpectedWCs;
           lidoWCs = map snd moduleAddressToWC;
           frontRunnedKeys = selectKeys usedKeyExpectedWCs earliestDeposits
             (\<lambda>event expectedWC. \<not> hasAcceptableWC chainId event expectedWC \<and> \<not> List.member lidoWCs (de_wc event))
       in andThen (emit (collectHistoricalFrontRunMetrics (length frontRunnedKeys))) (\<lambda>_.
          ret (length frontRunnedKeys > 0)))"

definition checkWrongWCType ::
  "nat \<Rightarrow> verified_event event_group \<Rightarrow> registry_key list \<Rightarrow> (string \<times> string) list \<Rightarrow> ('s, effect, bool) comp" where
  "checkWrongWCType chainId depositedEvents lidoKeys moduleAddressToWC =
     andThen (liftR (getUsedKeyExpectedWCs lidoKeys moduleAddressToWC)) (\<lambda>usedKeyExpectedWCs.
       let earliestDeposits = getEarliestDeposits depositedEvents usedKeyExpectedWCs;
           lidoWCs = map snd moduleAddressToWC;
           otherLidoWCsKeys = selectKeys usedKeyExpectedWCs earliestDeposits
             (\<lambda>event expectedWC. \<not> hasAcceptableWC chainId event expectedWC \<and> List.member lidoWCs (de_wc event))
       in andThen (emit (collectWrongWCTypeMetrics (length otherLidoWCsKeys))) (\<lambda>_.
          ret (length otherLidoWCsKeys > 0)))"

section \<open>Keys deposited before\<close>

definition getKeysIntersections :: "module_data \<Rightarrow> block_data \<Rightarrow> verified_event list" where
  "getKeysIntersections stakingModuleData blockData =
     (let vettedUnusedKeys = map lk_key (sm_vettedUnusedKeys stakingModuleData)
      in filter (\<lambda>event. List.member vettedUnusedKeys (de_pubkey event)) (events (bk_depositedEvents blockData)))"

record front_run_attempts =
  fa_frontRunKeys :: "registry_key list"
  fa_crossTypeKeys :: "registry_key list"

text \<open>The sets of public keys, in insertion order.\<close>

fun attemptSets ::
  "string \<Rightarrow> string list \<Rightarrow> verified_event list \<Rightarrow> string list \<Rightarrow> string list \<Rightarrow> string list \<times> string list" where
  "attemptSets moduleWC lidoWCSet [] frontRunPubkeys crossTypePubkeys = (frontRunPubkeys, crossTypePubkeys)"
| "attemptSets moduleWC lidoWCSet (event # es) frontRunPubkeys crossTypePubkeys =
     (if \<not> de_valid event then attemptSets moduleWC lidoWCSet es frontRunPubkeys crossTypePubkeys
      else if de_wc event = moduleWC then attemptSets moduleWC lidoWCSet es frontRunPubkeys crossTypePubkeys
      else if List.member lidoWCSet (de_wc event)
      then attemptSets moduleWC lidoWCSet es frontRunPubkeys (crossTypePubkeys @ [de_pubkey event])
      else attemptSets moduleWC lidoWCSet es (frontRunPubkeys @ [de_pubkey event]) crossTypePubkeys)"

definition getFrontRunAttempts ::
  "module_data \<Rightarrow> block_data \<Rightarrow> string list \<Rightarrow> ('s, effect, front_run_attempts) comp" where
  "getFrontRunAttempts stakingModuleData blockData lidoWCSet =
     (let keysIntersections = getKeysIntersections stakingModuleData blockData;
          moduleWC = sm_withdrawalCredentials stakingModuleData;
          (frontRunPubkeys, crossTypePubkeys) = attemptSets moduleWC lidoWCSet keysIntersections [] []
      in andThen (emit (collectIntersectionsMetrics (sm_stakingModuleId stakingModuleData) (length keysIntersections)
             (length (uniq frontRunPubkeys) + length (uniq crossTypePubkeys)) (length (uniq crossTypePubkeys)))) (\<lambda>_.
         ret \<lparr>fa_frontRunKeys = filter (\<lambda>k. List.member frontRunPubkeys (lk_key k)) (sm_vettedUnusedKeys stakingModuleData),
              fa_crossTypeKeys = filter (\<lambda>k. List.member crossTypePubkeys (lk_key k)) (sm_vettedUnusedKeys stakingModuleData)\<rparr>))"

section \<open>The earliest deposit of a key\<close>

lemma usedKeysLoop_map:
  "usedKeysLoop m keys acc = Inr r \<Longrightarrow>
   map_of r pk = (case find (\<lambda>k. lk_used k \<and> lk_key k = pk) (rev keys) of
      None \<Rightarrow> map_of acc pk
    | Some k \<Rightarrow> Some \<lparr>ew_moduleAddress = lk_moduleAddress k, ew_wc = the (map_of m (lk_moduleAddress k))\<rparr>)"
proof (induction keys arbitrary: acc)
  case (Cons k keys)
  have snoc: "find P (xs @ [x]) = (case find P xs of None \<Rightarrow> (if P x then Some x else None) | Some y \<Rightarrow> Some y)"
    for P :: "registry_key \<Rightarrow> bool" and xs x by (induction xs) auto
  from Cons show ?case
    by (auto simp: snoc update_map_of split: if_split_asm option.split_asm option.split)
qed simp

definition expectedWCOf :: "registry_key list \<Rightarrow> (string \<times> string) list \<Rightarrow> string \<Rightarrow> expected_wc option" where
  "expectedWCOf lidoKeys moduleAddressToWC pubkey =
     map_option (\<lambda>k. \<lparr>ew_moduleAddress = lk_moduleAddress k, ew_wc = the (map_of moduleAddressToWC (lk_moduleAddress k))\<rparr>)
       (find (\<lambda>k. lk_used k \<and> lk_key k = pubkey) (rev lidoKeys))"

lemma getUsedKeyExpectedWCs_map:
  "getUsedKeyExpectedWCs lidoKeys m = Inr r \<Longrightarrow> map_of r = expectedWCOf lidoKeys m"
  by (rule ext) (simp add: getUsedKeyExpectedWCs_def usedKeysLoop_map expectedWCOf_def split: option.split)

lemma expectedWCOf_iff:
  "expectedWCOf lidoKeys m pk \<noteq> None \<longleftrightarrow> (\<exists>k\<in>set lidoKeys. lk_used k \<and> lk_key k = pk)"
  by (auto simp: expectedWCOf_def find_None_iff)

text \<open>The first event of a list that is not preceded by another: block number and log index decide.\<close>

definition earliestOf :: "verified_event list \<Rightarrow> verified_event \<Rightarrow> bool" where
  "earliestOf es e \<longleftrightarrow> e \<in> set es \<and> (\<forall>e'\<in>set es. \<not> isFirstEventEarlier e' e)"

lemma earlier_trans:
  "\<not> isFirstEventEarlier b a \<Longrightarrow> \<not> isFirstEventEarlier c b \<Longrightarrow> \<not> isFirstEventEarlier c a"
  "isFirstEventEarlier a b \<Longrightarrow> \<not> isFirstEventEarlier a c \<Longrightarrow> \<not> isFirstEventEarlier b c"
  "\<not> isFirstEventEarlier a a"
  by (auto simp: isFirstEventEarlier_def Let_def split: if_split_asm)

definition validDeposits :: "string \<Rightarrow> verified_event list \<Rightarrow> verified_event list" where
  "validDeposits pk es = filter (\<lambda>e. de_valid e \<and> de_pubkey e = pk) es"

lemma earliest_fold_map:
  "map_of (fold (earliestDepositStep used) es acc) pk =
     (if map_of used pk = None then map_of acc pk
      else fold (\<lambda>e best. case best of None \<Rightarrow> Some e
             | Some b \<Rightarrow> if isFirstEventEarlier e b then Some e else Some b) (validDeposits pk es) (map_of acc pk))"
proof (induction es arbitrary: acc)
  case (Cons e es)
  have step: "map_of (earliestDepositStep used e acc) pk =
      (if de_valid e \<and> de_pubkey e = pk \<and> map_of used pk \<noteq> None
       then (case map_of acc pk of None \<Rightarrow> Some e
             | Some b \<Rightarrow> if isFirstEventEarlier e b then Some e else Some b)
       else map_of acc pk)"
    by (auto simp: earliestDepositStep_def update_map_of split: option.splits)
  have "map_of (fold (earliestDepositStep used) (e # es) acc) pk =
      map_of (fold (earliestDepositStep used) es (earliestDepositStep used e acc)) pk" by simp
  then show ?case unfolding Cons.IH [of "earliestDepositStep used e acc"] step by (simp add: validDeposits_def)
qed (simp add: validDeposits_def)

lemma best_fold:
  "\<exists>b. fold (\<lambda>e best. case best of None \<Rightarrow> Some e
      | Some b \<Rightarrow> if isFirstEventEarlier e b then Some e else Some b) es (Some a) = Some b \<and>
    b \<in> insert a (set es) \<and> \<not> isFirstEventEarlier a b \<and> (\<forall>e\<in>set es. \<not> isFirstEventEarlier e b)"
proof (induction es arbitrary: a)
  case (Cons e es)
  let ?f = "\<lambda>e best. case best of None \<Rightarrow> Some e | Some b \<Rightarrow> if isFirstEventEarlier e b then Some e else Some b"
  show ?case
  proof (cases "isFirstEventEarlier e a")
    case True
    from Cons.IH [of e] obtain b where b: "fold ?f es (Some e) = Some b" "b \<in> insert e (set es)"
      "\<not> isFirstEventEarlier e b" "\<forall>e\<in>set es. \<not> isFirstEventEarlier e b" by blast
    from earlier_trans(2) [OF True b(3)] b True show ?thesis by (intro exI [of _ b]) auto
  next
    case False
    from Cons.IH [of a] obtain b where b: "fold ?f es (Some a) = Some b" "b \<in> insert a (set es)"
      "\<not> isFirstEventEarlier a b" "\<forall>e\<in>set es. \<not> isFirstEventEarlier e b" by blast
    from earlier_trans(1) [OF b(3) False] b False show ?thesis by (intro exI [of _ b]) auto
  qed
qed (simp add: earlier_trans(3))

lemma getEarliestDeposits_map:
  "case map_of (getEarliestDeposits g used) pk of
     None \<Rightarrow> map_of used pk = None \<or> validDeposits pk (events g) = []
   | Some e \<Rightarrow> map_of used pk \<noteq> None \<and> earliestOf (validDeposits pk (events g)) e"
proof (cases "map_of used pk")
  case None
  then show ?thesis by (simp add: getEarliestDeposits_def earliest_fold_map)
next
  case (Some x)
  show ?thesis
  proof (cases "validDeposits pk (events g)")
    case Nil
    with Some show ?thesis by (simp add: getEarliestDeposits_def earliest_fold_map)
  next
    case (Cons e es)
    with Some best_fold [of es e] show ?thesis
      by (auto simp: getEarliestDeposits_def earliest_fold_map earliestOf_def)
  qed
qed

lemma earliest_keys_distinct: "distinct (map fst acc) \<Longrightarrow> distinct (map fst (fold (earliestDepositStep used) es acc))"
  by (induction es arbitrary: acc) (simp_all add: earliestDepositStep_def distinct_update split: option.split)

section \<open>Properties\<close>

lemma earliestOf_unique:
  assumes "inj_on (\<lambda>e. (de_blockNumber e, de_logIndex e)) (set es)" "earliestOf es a" "earliestOf es b"
  shows "a = b"
proof -
  from assms(2,3) have "\<not> isFirstEventEarlier a b" "\<not> isFirstEventEarlier b a" by (auto simp: earliestOf_def)
  then have "(de_blockNumber a, de_logIndex a) = (de_blockNumber b, de_logIndex b)"
    by (auto simp: isFirstEventEarlier_def Let_def split: if_split_asm)
  with assms show ?thesis by (auto simp: earliestOf_def inj_on_def)
qed

lemma selectKeys_iff:
  assumes "inj_on (\<lambda>e. (de_blockNumber e, de_logIndex e)) (set (events g))" "map_of used = expectedWCOf keys m"
  shows "selectKeys used (getEarliestDeposits g used) p \<noteq> [] \<longleftrightarrow>
    (\<exists>pk ew e. expectedWCOf keys m pk = Some ew \<and> earliestOf (validDeposits pk (events g)) e \<and> p e ew)"
proof -
  have inj: "inj_on (\<lambda>e. (de_blockNumber e, de_logIndex e)) (set (validDeposits pk (events g)))" for pk
    using assms(1) by (auto simp: validDeposits_def inj_on_def)
  have "distinct (map fst (getEarliestDeposits g used))"
    unfolding getEarliestDeposits_def by (rule earliest_keys_distinct) simp
  then have mem: "(pk, e) \<in> set (getEarliestDeposits g used) \<longleftrightarrow> map_of (getEarliestDeposits g used) pk = Some e" for pk e
    by simp
  have "(pk, e) \<in> set (getEarliestDeposits g used) \<longleftrightarrow>
      map_of used pk \<noteq> None \<and> earliestOf (validDeposits pk (events g)) e" for pk e
  proof
    assume "(pk, e) \<in> set (getEarliestDeposits g used)"
    with getEarliestDeposits_map [where g = g and used = used and pk = pk] show "map_of used pk \<noteq> None \<and> earliestOf (validDeposits pk (events g)) e"
      by (simp add: mem)
  next
    assume e: "map_of used pk \<noteq> None \<and> earliestOf (validDeposits pk (events g)) e"
    then have "validDeposits pk (events g) \<noteq> []" by (auto simp: earliestOf_def)
    with e getEarliestDeposits_map [where g = g and used = used and pk = pk] obtain b where
      b: "map_of (getEarliestDeposits g used) pk = Some b" "earliestOf (validDeposits pk (events g)) b"
      by (cases "map_of (getEarliestDeposits g used) pk") auto
    from earliestOf_unique [OF inj b(2)] e b(1) show "(pk, e) \<in> set (getEarliestDeposits g used)"
      by (auto simp: mem)
  qed
  then show ?thesis
    unfolding selectKeys_def map_is_Nil_conv filter_empty_conv by (fastforce simp: assms(2) split: option.split_asm)
qed

lemma historical_iff:
  assumes "inj_on (\<lambda>e. (de_blockNumber e, de_logIndex e)) (set (events g))"
    and "checkHistoricalFrontRun chainId g lidoKeys wcs s = (Inr frontRun, s1, out1)"
    and "checkWrongWCType chainId g lidoKeys wcs s = (Inr wrongType, s2, out2)"
  shows "(frontRun \<longleftrightarrow> (\<exists>pk ew e. expectedWCOf lidoKeys wcs pk = Some ew \<and>
      earliestOf (validDeposits pk (events g)) e \<and> \<not> hasAcceptableWC chainId e ew \<and> de_wc e \<notin> snd ` set wcs)) \<and>
    (wrongType \<longleftrightarrow> (\<exists>pk ew e. expectedWCOf lidoKeys wcs pk = Some ew \<and>
      earliestOf (validDeposits pk (events g)) e \<and> \<not> hasAcceptableWC chainId e ew \<and> de_wc e \<in> snd ` set wcs)) \<and>
    (\<not> frontRun \<and> \<not> wrongType \<longleftrightarrow> (\<forall>pk ew e. expectedWCOf lidoKeys wcs pk = Some ew \<longrightarrow>
      earliestOf (validDeposits pk (events g)) e \<longrightarrow> hasAcceptableWC chainId e ew))"
proof -
  obtain used where used: "getUsedKeyExpectedWCs lidoKeys wcs = Inr used"
    using assms(2) by (cases "getUsedKeyExpectedWCs lidoKeys wcs") (auto simp: checkHistoricalFrontRun_def)
  note iff = selectKeys_iff [OF assms(1) getUsedKeyExpectedWCs_map [OF used]]
  from assms(2) have f: "frontRun \<longleftrightarrow> selectKeys used (getEarliestDeposits g used)
      (\<lambda>e ew. \<not> hasAcceptableWC chainId e ew \<and> \<not> List.member (map snd wcs) (de_wc e)) \<noteq> []"
    by (auto simp: checkHistoricalFrontRun_def used Let_def)
  from assms(3) have w: "wrongType \<longleftrightarrow> selectKeys used (getEarliestDeposits g used)
      (\<lambda>e ew. \<not> hasAcceptableWC chainId e ew \<and> List.member (map snd wcs) (de_wc e)) \<noteq> []"
    by (auto simp: checkWrongWCType_def used Let_def)
  show ?thesis unfolding f w iff List.member_iff set_map by blast
qed

lemma historical_ok:
  assumes "inj_on (\<lambda>e. (de_blockNumber e, de_logIndex e)) (set (events g))"
    and "checkHistoricalFrontRun chainId g lidoKeys wcs s = (Inr False, s1, out1)"
    and "checkWrongWCType chainId g lidoKeys wcs s' = (Inr False, s2, out2)"
  shows "\<forall>pk ew e. expectedWCOf lidoKeys wcs pk = Some ew \<longrightarrow>
      earliestOf (validDeposits pk (events g)) e \<longrightarrow> hasAcceptableWC chainId e ew"
proof -
  have "\<exists>s3 out3. checkWrongWCType chainId g lidoKeys wcs s = (Inr False, s3, out3)"
    using assms(3) by (cases "getUsedKeyExpectedWCs lidoKeys wcs") (auto simp: checkWrongWCType_def Let_def)
  with historical_iff [OF assms(1,2)] show ?thesis by blast
qed

text \<open>
  C11: The two historical checks find every theft and every deposit of a wrong type: with events
  at distinct positions, the first answers yes exactly when some used key has an earliest valid
  deposit whose withdrawal credentials are neither acceptable for the module of the key (its own,
  or a legacy one before its cutoff block) nor those of any module; the second exactly when they
  are not acceptable and are those of another module. So both answer no exactly when the earliest
  valid deposit of every used key is acceptable.
\<close>

theorem historical_checks:
  assumes "inj_on (\<lambda>e. (de_blockNumber e, de_logIndex e)) (set (events g))"
    and "checkHistoricalFrontRun chainId g lidoKeys wcs s = (Inr frontRun, s1, out1)"
    and "checkWrongWCType chainId g lidoKeys wcs s = (Inr wrongType, s2, out2)"
  shows "(frontRun \<longleftrightarrow> (\<exists>pk ew e. expectedWCOf lidoKeys wcs pk = Some ew \<and>
      earliestOf (validDeposits pk (events g)) e \<and> \<not> hasAcceptableWC chainId e ew \<and> de_wc e \<notin> snd ` set wcs)) \<and>
    (wrongType \<longleftrightarrow> (\<exists>pk ew e. expectedWCOf lidoKeys wcs pk = Some ew \<and>
      earliestOf (validDeposits pk (events g)) e \<and> \<not> hasAcceptableWC chainId e ew \<and> de_wc e \<in> snd ` set wcs)) \<and>
    (\<not> frontRun \<and> \<not> wrongType \<longleftrightarrow> (\<forall>pk ew e. expectedWCOf lidoKeys wcs pk = Some ew \<longrightarrow>
      earliestOf (validDeposits pk (events g)) e \<longrightarrow> hasAcceptableWC chainId e ew))"
  by (rule historical_iff [OF assms])

lemma attemptSets_eq:
  "attemptSets wc lido es fr ct =
    (fr @ map de_pubkey (filter (\<lambda>e. de_valid e \<and> de_wc e \<noteq> wc \<and> de_wc e \<notin> set lido) es),
     ct @ map de_pubkey (filter (\<lambda>e. de_valid e \<and> de_wc e \<noteq> wc \<and> de_wc e \<in> set lido) es))"
  by (induction es arbitrary: fr ct) (auto simp: List.member_iff)

lemma getFrontRunAttempts_eq:
  "getFrontRunAttempts sm bk lido s =
    (Inr \<lparr>fa_frontRunKeys = filter (\<lambda>k. \<exists>e\<in>set (events (bk_depositedEvents bk)). de_pubkey e = lk_key k \<and> de_valid e \<and>
           de_wc e \<noteq> sm_withdrawalCredentials sm \<and> de_wc e \<notin> set lido) (sm_vettedUnusedKeys sm),
          fa_crossTypeKeys = filter (\<lambda>k. \<exists>e\<in>set (events (bk_depositedEvents bk)). de_pubkey e = lk_key k \<and> de_valid e \<and>
           de_wc e \<noteq> sm_withdrawalCredentials sm \<and> de_wc e \<in> set lido) (sm_vettedUnusedKeys sm)\<rparr>,
     s, snd (snd (getFrontRunAttempts sm bk lido s)))"
  by (auto simp: getFrontRunAttempts_def attemptSets_eq Let_def List.member_iff getKeysIntersections_def
      image_iff intro!: filter_cong)

text \<open>
  C12: The keys of a module reported as front-run attempts are exactly the vetted unused keys that
  have a valid deposit with credentials of no module, those reported as cross-type the ones with a
  valid deposit with the credentials of another module: a vetted unused key is in one of the two
  lists exactly when it was validly deposited with credentials other than its module's, at any
  time; an invalid deposit, which anyone can make, reports no key.
\<close>

theorem getFrontRunAttempts_iff:
  assumes "getFrontRunAttempts sm bk lidoWCSet s = (Inr r, s', out)"
  shows "set (fa_frontRunKeys r) = {k \<in> set (sm_vettedUnusedKeys sm). \<exists>e \<in> set (events (bk_depositedEvents bk)).
      de_pubkey e = lk_key k \<and> de_valid e \<and> de_wc e \<noteq> sm_withdrawalCredentials sm \<and> de_wc e \<notin> set lidoWCSet} \<and>
    set (fa_crossTypeKeys r) = {k \<in> set (sm_vettedUnusedKeys sm). \<exists>e \<in> set (events (bk_depositedEvents bk)).
      de_pubkey e = lk_key k \<and> de_valid e \<and> de_wc e \<noteq> sm_withdrawalCredentials sm \<and> de_wc e \<in> set lidoWCSet} \<and>
    s' = s \<and> acts out = []"
proof -
  have "acts (snd (snd (getFrontRunAttempts sm bk lidoWCSet s))) = []"
    by (simp add: getFrontRunAttempts_def Let_def split: prod.split)
  with getFrontRunAttempts_eq [of sm bk lidoWCSet s] assms show ?thesis by auto
qed

text \<open>
  Old credentials are accepted for one module only and only up to the cutoff: a deposit with
  credentials other than the expected ones is acceptable exactly when the key belongs to the
  curated module of mainnet, the deposit has that module's credentials from before the rotation,
  in any letter case, and its block is not after 25444424.
\<close>

theorem legacy_credentials:
  "hasAcceptableWC chainId e ew \<longleftrightarrow> de_wc e = ew_wc ew \<or>
    (chainId = 1 \<and> toLowerCase (ew_moduleAddress ew) = ''0x55032650b14df07b85bf18a3a3ec8e0af2e028d5'' \<and>
     toLowerCase (de_wc e) = ''0x009690e5d4472c7c0dbdf490425d89862535d2a52fb686333f3a0a9ff5d2125e'' \<and>
     de_blockNumber e \<le> 25444424)"
proof -
  have lower: "toLowerCase ''0x009690e5d4472c7c0dbdf490425d89862535d2a52fb686333f3a0a9ff5d2125e'' =
      ''0x009690e5d4472c7c0dbdf490425d89862535d2a52fb686333f3a0a9ff5d2125e''" by code_simp
  show ?thesis
    by (auto simp: hasAcceptableWC_def getLegacyModuleWCs_def LEGACY_WITHDRAWAL_CREDENTIALS_def lower
        split: if_split_asm)
qed

section \<open>A theft and a deposit of a wrong type\<close>

definition demoDeposit :: "string \<Rightarrow> nat \<Rightarrow> string \<Rightarrow> verified_event" where
  "demoDeposit pk block wc = \<lparr>de_pubkey = pk, de_wc = wc, de_amount = ''32'', de_signature = ''0xs'', de_tx = ''0xt'',
     de_blockNumber = block, de_blockHash = ''0xh'', de_logIndex = 0, de_index = ''0'', de_depositCount = block,
     de_depositDataRoot = [], de_valid = True\<rparr>"

definition demoUsedKey :: "string \<Rightarrow> registry_key" where
  "demoUsedKey pk = \<lparr>lk_key = pk, lk_depositSignature = ''0xs'', lk_operatorIndex = 0, lk_used = True, lk_index = 0,
     lk_moduleAddress = ''0xm'', lk_vetted = True\<rparr>"

definition demoDeposits :: "verified_event event_group" where
  "demoDeposits = \<lparr>events = [demoDeposit ''k'' 3 ''lido'', demoDeposit ''k'' 2 ''thief'', demoDeposit ''l'' 4 ''lido2''],
     startBlock = 0, endBlock = 9\<rparr>"

lemma demo_checks:
  "checkHistoricalFrontRun 5 demoDeposits [demoUsedKey ''k'', demoUsedKey ''l''] [(''0xm'', ''lido''), (''0xn'', ''lido2'')] s =
     (Inr True, s, [GaugeSet (HistoricalFrontRun ''front_run'') 1])"
  "checkWrongWCType 5 demoDeposits [demoUsedKey ''k'', demoUsedKey ''l''] [(''0xm'', ''lido''), (''0xn'', ''lido2'')] s =
     (Inr True, s, [GaugeSet (HistoricalFrontRun ''wrong_wc_type'') 1])"
  by (simp_all add: checkHistoricalFrontRun_def checkWrongWCType_def getUsedKeyExpectedWCs_def demoUsedKey_def
      getEarliestDeposits_def demoDeposits_def earliestDepositStep_def demoDeposit_def isFirstEventEarlier_def
      selectKeys_def hasAcceptableWC_def getLegacyModuleWCs_def LEGACY_WITHDRAWAL_CREDENTIALS_def metrics_defs)

theorem historical_checks_witness:
  "\<exists>pk ew e. expectedWCOf [demoUsedKey ''k'', demoUsedKey ''l''] [(''0xm'', ''lido''), (''0xn'', ''lido2'')] pk = Some ew \<and>
     earliestOf (validDeposits pk (events demoDeposits)) e \<and> \<not> hasAcceptableWC 5 e ew"
proof -
  have "inj_on (\<lambda>e. (de_blockNumber e, de_logIndex e)) (set (events demoDeposits))"
    by (simp add: demoDeposits_def demoDeposit_def)
  from historical_checks [OF this demo_checks] show ?thesis by blast
qed

definition demoModule :: module_data where
  "demoModule = \<lparr>sm_blockHash = ''0xb'', sm_vettedUnusedKeys = [(demoUsedKey ''k'')\<lparr>lk_used := False\<rparr>], sm_nonce = 3,
     sm_stakingModuleId = 1, sm_stakingModuleAddress = ''0xm'', sm_lastChangedBlockHash = ''0xc'', sm_duplicatedKeys = [],
     sm_invalidKeys = [], sm_crossTypeKeys = [], sm_frontRunKeys = [], sm_unresolvedDuplicatedKeys = [],
     sm_withdrawalCredentials = ''lido'', sm_isModuleDepositsPaused = False\<rparr>"

definition demoDepositBlock :: block_data where
  "demoDepositBlock = \<lparr>bk_blockNumber = 9, bk_blockHash = ''0xb'', bk_depositRoot = ''0xr'',
     bk_depositedEvents = demoDeposits,
     bk_guardianContext = \<lparr>gc_dsmAddress = ''0xd'', gc_dsmVersion = 4, gc_delegateAddress = ''0xw'',
       gc_guardianAddress = ''0xw'', gc_guardianIndex = 0, gc_mode = LegacyEoa\<rparr>,
     bk_guardianAddress = ''0xw'', bk_guardianIndex = 0, bk_securityVersion = 4, bk_alreadyPausedDeposits = False,
     bk_hasFrontRunning = False, bk_hasWrongWCType = False, bk_walletBalanceCritical = False\<rparr>"

theorem getFrontRunAttempts_iff_witness:
  "\<exists>r out. getFrontRunAttempts demoModule demoDepositBlock [''lido'', ''lido2''] () = (Inr r, (), out) \<and>
     set (fa_frontRunKeys r) = set (sm_vettedUnusedKeys demoModule) \<and> set (fa_crossTypeKeys r) = {}"
proof -
  let ?r = "getFrontRunAttempts demoModule demoDepositBlock [''lido'', ''lido2''] ()"
  obtain r out where r: "?r = (Inr r, (), out)" using getFrontRunAttempts_eq [of demoModule demoDepositBlock _ "()"] by auto
  have all: "\<exists>e\<in>set (events (bk_depositedEvents demoDepositBlock)). de_pubkey e = lk_key k \<and> de_valid e \<and>
      de_wc e \<noteq> sm_withdrawalCredentials demoModule \<and> de_wc e \<notin> set [''lido'', ''lido2'']"
    and none: "\<not> (\<exists>e\<in>set (events (bk_depositedEvents demoDepositBlock)). de_pubkey e = lk_key k \<and> de_valid e \<and>
      de_wc e \<noteq> sm_withdrawalCredentials demoModule \<and> de_wc e \<in> set [''lido'', ''lido2''])"
    if "k \<in> set (sm_vettedUnusedKeys demoModule)" for k
    using that by (simp_all add: demoModule_def demoDepositBlock_def demoDeposits_def demoDeposit_def demoUsedKey_def)
  note iff = getFrontRunAttempts_iff [OF r]
  have "k \<in> set (fa_frontRunKeys r) \<longleftrightarrow> k \<in> set (sm_vettedUnusedKeys demoModule)" for k
    unfolding iff [THEN conjunct1] mem_Collect_eq using all by (rule conj_cong [OF refl, of _ _ True, simplified])
  moreover have "k \<notin> set (fa_crossTypeKeys r)" for k
    unfolding iff [THEN conjunct2, THEN conjunct1] mem_Collect_eq
    by (rule notI) (erule conjE, erule notE [OF none])
  ultimately have "set (fa_frontRunKeys r) = set (sm_vettedUnusedKeys demoModule)" "set (fa_crossTypeKeys r) = {}"
    by (simp_all only: set_eq_iff empty_iff simp_thms)
  with r show ?thesis by blast
qed

end
