(* ===== verification/Dsm_Strategy.thy ===== *)
theory Dsm_Strategy
  imports Guardian_Types
begin

text \<open>
  What differs between the versions of the deposit security module
  (\<open>contracts/security/dsm-version.strategy.ts\<close>): digests, signature layout, events of the data
  bus, wallet and transactions. The \<open>ethers\<close> functions are parameters; \<open>crypto_laws\<close> is their
  documented behaviour, with \<open>keccak256\<close> idealised as injective.
\<close>

section \<open>The library\<close>

datatype abi_value = ABytes32 string | AUint256 nat | AAddress string | ABytes string

record guardian_signature =
  gs_guardian :: string
  gs_signature :: string

text \<open>The calls of the version 5 interface that are encoded.\<close>

datatype v5_call =
    CallPauseDeposits nat guardian_signature
  | CallUnvetSigningKeys unvet_params guardian_signature

record crypto_lib =
  cl_keccak256 :: "string \<Rightarrow> string"
  cl_abiEncode :: "abi_value list \<Rightarrow> js_error + string"
  cl_solidityPack :: "abi_value list \<Rightarrow> js_error + string"
  cl_isAddress :: "string \<Rightarrow> bool"
  cl_getAddress :: "string \<Rightarrow> js_error + string"
  cl_hexConcat :: "string list \<Rightarrow> js_error + string"
  cl_hexlify :: "nat \<Rightarrow> js_error + string"
  cl_encodeFunctionData :: "v5_call \<Rightarrow> js_error + string"

section \<open>Parameters of the digests\<close>

record signing_identity =
  si_dsmVersion :: "nat option"
  si_guardianAddress :: "string option"

record sign_deposit = signing_identity +
  sd_prefix :: string
  sd_blockNumber :: nat
  sd_blockHash :: string
  sd_depositRoot :: string
  sd_nonce :: nat
  sd_stakingModuleId :: nat

record sign_pause = signing_identity +
  sz_prefix :: string
  sz_blockNumber :: nat

record sign_unvet = signing_identity +
  sn_prefix :: string
  sn_blockNumber :: nat
  sn_blockHash :: string
  sn_stakingModuleId :: nat
  sn_nonce :: nat
  sn_operatorIds :: string
  sn_vettedKeysByOperator :: string

section \<open>The strategies\<close>

datatype signer = Legacy | Delegate

datatype wire_signature = Compact string string | Blob string

record bus_events =
  be_deposit :: string
  be_pause :: string
  be_unvet :: string

text \<open>A contract connected to a wallet: the address of the wallet and of the contract.\<close>

record connected =
  cn_wallet :: string
  cn_address :: string

record dsm_tx_deps =
  td_dsm :: connected
  td_delegation :: "unit \<Rightarrow> js_error + connected"
  td_dsmAddress :: string

record dsm_strategy =
  st_signer :: signer
  st_depositDigest :: "sign_deposit \<Rightarrow> js_error + string"
  st_pauseDigest :: "sign_pause \<Rightarrow> js_error + string"
  st_unvetDigest :: "sign_unvet \<Rightarrow> js_error + string"
  st_wireSignature :: "signature \<Rightarrow> js_error + wire_signature"
  st_busEvents :: bus_events
  st_sendPause :: "dsm_tx_deps \<Rightarrow> nat \<Rightarrow> signature \<Rightarrow> js_error + transaction"
  st_sendUnvet :: "dsm_tx_deps \<Rightarrow> unvet_params \<Rightarrow> signature \<Rightarrow> js_error + transaction"

definition DSM_CONTRACT_VERSION_4 :: nat where "DSM_CONTRACT_VERSION_4 = 4"
definition DSM_CONTRACT_VERSION_5 :: nat where "DSM_CONTRACT_VERSION_5 = 5"

definition AddressZero :: string where
  "AddressZero = ''0x'' @ replicate 40 CHR ''0''"

definition EMPTY_GUARDIAN_SIGNATURE :: guardian_signature where
  "EMPTY_GUARDIAN_SIGNATURE = \<lparr>gs_guardian = AddressZero, gs_signature = ''0x''\<rparr>"

definition requireGuardianAddress :: "crypto_lib \<Rightarrow> string option \<Rightarrow> js_error + string" where
  "requireGuardianAddress L guardianAddress =
     (case guardianAddress of
        None \<Rightarrow> Inl (Error ''A valid guardian address is required for DSM version 5'')
      | Some a \<Rightarrow>
          (if a = '''' \<or> \<not> cl_isAddress L a
           then Inl (Error ''A valid guardian address is required for DSM version 5'')
           else cl_getAddress L a))"

definition compactSignature :: "signature \<Rightarrow> string \<times> string" where
  "compactSignature sig = (sig_r sig, sig_vs sig)"

definition v4DepositDigest :: "crypto_lib \<Rightarrow> sign_deposit \<Rightarrow> js_error + string" where
  "v4DepositDigest L p =
     bindR (cl_abiEncode L [ABytes32 (sd_prefix p), AUint256 (sd_blockNumber p), ABytes32 (sd_blockHash p),
       ABytes32 (sd_depositRoot p), AUint256 (sd_stakingModuleId p), AUint256 (sd_nonce p)])
       (\<lambda>encoded. Inr (cl_keccak256 L encoded))"

definition v4PauseDigest :: "crypto_lib \<Rightarrow> sign_pause \<Rightarrow> js_error + string" where
  "v4PauseDigest L p =
     bindR (cl_abiEncode L [ABytes32 (sz_prefix p), AUint256 (sz_blockNumber p)])
       (\<lambda>encoded. Inr (cl_keccak256 L encoded))"

definition v4UnvetDigest :: "crypto_lib \<Rightarrow> sign_unvet \<Rightarrow> js_error + string" where
  "v4UnvetDigest L p =
     bindR (cl_solidityPack L [ABytes32 (sn_prefix p), AUint256 (sn_blockNumber p), ABytes32 (sn_blockHash p),
       AUint256 (sn_stakingModuleId p), AUint256 (sn_nonce p), ABytes (sn_operatorIds p),
       ABytes (sn_vettedKeysByOperator p)])
       (\<lambda>packed. Inr (cl_keccak256 L packed))"

definition v4SendPause :: "dsm_tx_deps \<Rightarrow> nat \<Rightarrow> signature \<Rightarrow> js_error + transaction" where
  "v4SendPause deps blockNumber sig =
     Inr \<lparr>tr_wallet = cn_wallet (td_dsm deps), tr_contract = cn_address (td_dsm deps),
          tr_call = PauseDeposits blockNumber (compactSignature sig)\<rparr>"

definition v4SendUnvet :: "dsm_tx_deps \<Rightarrow> unvet_params \<Rightarrow> signature \<Rightarrow> js_error + transaction" where
  "v4SendUnvet deps params sig =
     Inr \<lparr>tr_wallet = cn_wallet (td_dsm deps), tr_contract = cn_address (td_dsm deps),
          tr_call = UnvetSigningKeys params (compactSignature sig)\<rparr>"

definition v4Strategy :: "crypto_lib \<Rightarrow> dsm_strategy" where
  "v4Strategy L =
     \<lparr>st_signer = Legacy, st_depositDigest = v4DepositDigest L, st_pauseDigest = v4PauseDigest L,
      st_unvetDigest = v4UnvetDigest L,
      st_wireSignature = (\<lambda>sig. Inr (case compactSignature sig of (r, vs) \<Rightarrow> Compact r vs)),
      st_busEvents = \<lparr>be_deposit = ''MessageDepositV1'', be_pause = ''MessagePauseV3'', be_unvet = ''MessageUnvetV1''\<rparr>,
      st_sendPause = v4SendPause, st_sendUnvet = v4SendUnvet\<rparr>"

definition v5DepositDigest :: "crypto_lib \<Rightarrow> sign_deposit \<Rightarrow> js_error + string" where
  "v5DepositDigest L p =
     bindR (requireGuardianAddress L (si_guardianAddress p)) (\<lambda>guardian.
     bindR (cl_solidityPack L [ABytes32 (sd_prefix p), AAddress guardian, AUint256 (sd_blockNumber p),
       ABytes32 (sd_blockHash p), ABytes32 (sd_depositRoot p), AUint256 (sd_stakingModuleId p), AUint256 (sd_nonce p)])
       (\<lambda>packed. Inr (cl_keccak256 L packed)))"

definition v5PauseDigest :: "crypto_lib \<Rightarrow> sign_pause \<Rightarrow> js_error + string" where
  "v5PauseDigest L p =
     bindR (requireGuardianAddress L (si_guardianAddress p)) (\<lambda>guardian.
     bindR (cl_solidityPack L [ABytes32 (sz_prefix p), AAddress guardian, AUint256 (sz_blockNumber p)])
       (\<lambda>packed. Inr (cl_keccak256 L packed)))"

definition v5UnvetDigest :: "crypto_lib \<Rightarrow> sign_unvet \<Rightarrow> js_error + string" where
  "v5UnvetDigest L p =
     bindR (requireGuardianAddress L (si_guardianAddress p)) (\<lambda>guardian.
     bindR (cl_solidityPack L [ABytes32 (sn_prefix p), AAddress guardian, AUint256 (sn_blockNumber p),
       ABytes32 (sn_blockHash p), AUint256 (sn_stakingModuleId p), AUint256 (sn_nonce p), ABytes (sn_operatorIds p),
       ABytes (sn_vettedKeysByOperator p)])
       (\<lambda>packed. Inr (cl_keccak256 L packed)))"

definition v5WireSignature :: "crypto_lib \<Rightarrow> signature \<Rightarrow> js_error + wire_signature" where
  "v5WireSignature L sig =
     bindR (cl_hexlify L (sig_v sig)) (\<lambda>v.
     bindR (cl_hexConcat L [sig_r sig, sig_s sig, v]) (\<lambda>blob. Inr (Blob blob)))"

definition executeOn :: "crypto_lib \<Rightarrow> dsm_tx_deps \<Rightarrow> v5_call \<Rightarrow> js_error + transaction" where
  "executeOn L deps call =
     bindR (td_delegation deps ()) (\<lambda>delegation.
     bindR (cl_encodeFunctionData L call) (\<lambda>callData.
       Inr \<lparr>tr_wallet = cn_wallet delegation, tr_contract = cn_address delegation,
            tr_call = Execute (td_dsmAddress deps) callData 0\<rparr>))"

definition v5SendPause :: "crypto_lib \<Rightarrow> dsm_tx_deps \<Rightarrow> nat \<Rightarrow> signature \<Rightarrow> js_error + transaction" where
  "v5SendPause L deps blockNumber sig = executeOn L deps (CallPauseDeposits blockNumber EMPTY_GUARDIAN_SIGNATURE)"

definition v5SendUnvet :: "crypto_lib \<Rightarrow> dsm_tx_deps \<Rightarrow> unvet_params \<Rightarrow> signature \<Rightarrow> js_error + transaction" where
  "v5SendUnvet L deps params sig = executeOn L deps (CallUnvetSigningKeys params EMPTY_GUARDIAN_SIGNATURE)"

definition v5Strategy :: "crypto_lib \<Rightarrow> dsm_strategy" where
  "v5Strategy L =
     \<lparr>st_signer = Delegate, st_depositDigest = v5DepositDigest L, st_pauseDigest = v5PauseDigest L,
      st_unvetDigest = v5UnvetDigest L, st_wireSignature = v5WireSignature L,
      st_busEvents = \<lparr>be_deposit = ''MessageDepositV2'', be_pause = ''MessagePauseV4'', be_unvet = ''MessageUnvetV2''\<rparr>,
      st_sendPause = v5SendPause L, st_sendUnvet = v5SendUnvet L\<rparr>"

definition getDsmStrategy :: "crypto_lib \<Rightarrow> nat option \<Rightarrow> dsm_strategy" where
  "getDsmStrategy L dsmVersion =
     (if dsmVersion = Some DSM_CONTRACT_VERSION_5 then v5Strategy L else v4Strategy L)"

section \<open>Documented behaviour of the library\<close>

definition is_hex_char :: "char \<Rightarrow> bool" where
  "is_hex_char c \<longleftrightarrow> c \<in> set ''0123456789abcdefABCDEF''"

definition is_hex_string :: "string \<Rightarrow> bool" where
  "is_hex_string s \<longleftrightarrow> take 2 s = ''0x'' \<and> even (length s) \<and> list_all is_hex_char (drop 2 s)"

fun abi_ok :: "abi_value \<Rightarrow> bool" where
  "abi_ok (ABytes32 s) \<longleftrightarrow> is_hex_string s \<and> length s = 66"
| "abi_ok (AUint256 n) \<longleftrightarrow> int n \<le> MAX_SAFE_INTEGER"
| "abi_ok (AAddress s) \<longleftrightarrow> is_hex_string s \<and> length s = 42"
| "abi_ok (ABytes s) \<longleftrightarrow> is_hex_string s"

fun packed_hex :: "abi_value \<Rightarrow> string" where
  "packed_hex (ABytes32 s) = toLowerCase (drop 2 s)"
| "packed_hex (AUint256 n) = fixed_hex 64 n"
| "packed_hex (AAddress s) = toLowerCase (drop 2 s)"
| "packed_hex (ABytes s) = toLowerCase (drop 2 s)"

fun is_word_value :: "abi_value \<Rightarrow> bool" where
  "is_word_value (ABytes32 _) = True"
| "is_word_value (AUint256 _) = True"
| "is_word_value _ = False"

text \<open>
  \<open>solidityPack\<close> concatenates the values without padding; the ABI encoding of words of 32 bytes
  is the same; a value that does not fit its type is an exception.
\<close>

definition crypto_laws :: "crypto_lib \<Rightarrow> bool" where
  "crypto_laws L \<longleftrightarrow>
     inj (cl_keccak256 L) \<and>
     (\<forall>vs. list_all abi_ok vs \<longrightarrow> cl_solidityPack L vs = Inr (''0x'' @ concat (map packed_hex vs))) \<and>
     (\<forall>vs. \<not> list_all abi_ok vs \<longrightarrow> (\<exists>e. cl_solidityPack L vs = Inl e)) \<and>
     (\<forall>vs. list_all is_word_value vs \<longrightarrow> list_all abi_ok vs \<longrightarrow>
        cl_abiEncode L vs = Inr (''0x'' @ concat (map packed_hex vs))) \<and>
     (\<forall>vs. \<not> list_all abi_ok vs \<longrightarrow> (\<exists>e. cl_abiEncode L vs = Inl e)) \<and>
     (\<forall>a b. cl_isAddress L a \<longrightarrow> cl_getAddress L a = Inr b \<longrightarrow> toLowerCase b = toLowerCase a)"

lemma crypto_lawsD:
  assumes "crypto_laws L"
  shows "cl_keccak256 L a = cl_keccak256 L b \<longleftrightarrow> a = b"
    and "cl_solidityPack L vs = Inr s \<Longrightarrow> list_all abi_ok vs \<and> s = ''0x'' @ concat (map packed_hex vs)"
    and "list_all is_word_value vs \<Longrightarrow> cl_abiEncode L vs = Inr s \<Longrightarrow>
      list_all abi_ok vs \<and> s = ''0x'' @ concat (map packed_hex vs)"
    and "requireGuardianAddress L g = Inr c \<Longrightarrow> \<exists>a. g = Some a \<and> cl_isAddress L a \<and> toLowerCase c = toLowerCase a"
  using assms
  by (auto simp: crypto_laws_def inj_eq requireGuardianAddress_def split: option.splits if_split_asm)
     (metis sum.distinct(2) sum.inject(2))+

text \<open>Values of one shape: their encodings have the same lengths, so a concatenation can be cut.\<close>

fun same_shape :: "abi_value \<Rightarrow> abi_value \<Rightarrow> bool" where
  "same_shape (ABytes32 _) (ABytes32 _) = True"
| "same_shape (AUint256 _) (AUint256 _) = True"
| "same_shape (AAddress _) (AAddress _) = True"
| "same_shape _ _ = False"

lemma length_toLowerCase [simp]: "length (toLowerCase s) = length s"
  by (simp add: toLowerCase_def)

lemma same_shape_length:
  "same_shape v w \<Longrightarrow> abi_ok v \<Longrightarrow> abi_ok w \<Longrightarrow> length (packed_hex v) = length (packed_hex w)"
  by (cases v; cases w) simp_all

lemma lower_drop2:
  assumes "is_hex_string a" "is_hex_string b"
  shows "toLowerCase (drop 2 a) = toLowerCase (drop 2 b) \<longleftrightarrow> toLowerCase a = toLowerCase b"
proof -
  have "toLowerCase x = toLowerCase (take 2 x) @ toLowerCase (drop 2 x)" for x
    by (metis append_take_drop_id map_append toLowerCase_def)
  with assms show ?thesis by (metis append_eq_append_conv is_hex_string_def same_append_eq)
qed

fun same_value :: "abi_value \<Rightarrow> abi_value \<Rightarrow> bool" where
  "same_value (ABytes32 a) (ABytes32 b) \<longleftrightarrow> toLowerCase a = toLowerCase b"
| "same_value (AUint256 m) (AUint256 n) \<longleftrightarrow> m = n"
| "same_value (AAddress a) (AAddress b) \<longleftrightarrow> toLowerCase a = toLowerCase b"
| "same_value (ABytes a) (ABytes b) \<longleftrightarrow> toLowerCase a = toLowerCase b"
| "same_value _ _ \<longleftrightarrow> False"

lemma safe_fixed_hex: "int m \<le> MAX_SAFE_INTEGER \<Longrightarrow> int n \<le> MAX_SAFE_INTEGER \<Longrightarrow> fixed_hex 64 m = fixed_hex 64 n \<longleftrightarrow> m = n"
  by (rule fixed_hex_inj) (simp_all add: MAX_SAFE_INTEGER_def)

lemma packed_hex_inj:
  "same_shape v w \<Longrightarrow> abi_ok v \<Longrightarrow> abi_ok w \<Longrightarrow> packed_hex v = packed_hex w \<Longrightarrow> same_value v w"
  by (cases v; cases w) (simp_all add: lower_drop2 safe_fixed_hex)

text \<open>A packing starts with values of a fixed shape; the rest of it is a common tail.\<close>

lemma packed_prefix:
  "list_all2 same_shape vs ws \<Longrightarrow> list_all abi_ok vs \<Longrightarrow> list_all abi_ok ws \<Longrightarrow>
   concat (map packed_hex vs) @ s = concat (map packed_hex ws) @ t \<Longrightarrow> list_all2 same_value vs ws \<and> s = t"
proof (induction rule: list_all2_induct)
  case (Cons v vs w ws)
  then have "packed_hex v = packed_hex w" "concat (map packed_hex vs) @ s = concat (map packed_hex ws) @ t"
    using same_shape_length [OF Cons(1)] by (auto simp: append_eq_append_conv)
  with Cons packed_hex_inj [OF Cons(1)] show ?case by simp
qed simp

lemma packed_inj:
  "list_all2 same_shape vs ws \<Longrightarrow> list_all abi_ok vs \<Longrightarrow> list_all abi_ok ws \<Longrightarrow>
   concat (map packed_hex vs) = concat (map packed_hex ws) \<Longrightarrow> list_all2 same_value vs ws"
  using packed_prefix [of vs ws "[]" "[]"] by simp

section \<open>Digests bind what they are made of\<close>

text \<open>
  A digest binds a content when equal digests have equal contents, so that a signature on one
  cannot be used for another. \<open>laws\<close> is what the scheme relies on.
\<close>

locale digest_scheme =
  fixes laws :: bool
    and digest :: "'p \<Rightarrow> js_error + string"
    and content :: "'p \<Rightarrow> 'c"
  assumes binds: "laws \<Longrightarrow> digest p = Inr d \<Longrightarrow> digest q = Inr d \<Longrightarrow> content p = content q"
begin

lemma no_reuse: "laws \<Longrightarrow> digest p = Inr d \<Longrightarrow> content p \<noteq> content q \<Longrightarrow> digest q \<noteq> Inr d"
  using binds by blast

lemma digest_iff: "laws \<Longrightarrow> digest p = Inr d \<Longrightarrow> digest q = Inr e \<Longrightarrow> content p \<noteq> content q \<Longrightarrow> d \<noteq> e"
  using binds by blast

end

definition depositContent :: "sign_deposit \<Rightarrow> string \<times> nat \<times> string \<times> string \<times> nat \<times> nat" where
  "depositContent p = (toLowerCase (sd_prefix p), sd_blockNumber p, toLowerCase (sd_blockHash p),
     toLowerCase (sd_depositRoot p), sd_stakingModuleId p, sd_nonce p)"

definition pauseContent :: "sign_pause \<Rightarrow> string \<times> nat" where
  "pauseContent p = (toLowerCase (sz_prefix p), sz_blockNumber p)"

text \<open>The two byte strings are packed one after the other: the digest binds their concatenation.\<close>

definition unvetContent :: "sign_unvet \<Rightarrow> string \<times> nat \<times> string \<times> nat \<times> nat \<times> string" where
  "unvetContent p = (toLowerCase (sn_prefix p), sn_blockNumber p, toLowerCase (sn_blockHash p),
     sn_stakingModuleId p, sn_nonce p, toLowerCase (drop 2 (sn_operatorIds p)) @ toLowerCase (drop 2 (sn_vettedKeysByOperator p)))"

definition guardianOf :: "'a signing_identity_scheme \<Rightarrow> string option" where
  "guardianOf p = map_option toLowerCase (si_guardianAddress p)"

lemma abi_binds:
  assumes "crypto_laws L" "cl_abiEncode L vs = Inr s" "cl_abiEncode L ws = Inr s"
    and "list_all is_word_value vs" "list_all is_word_value ws" "list_all2 same_shape vs ws"
  shows "list_all2 same_value vs ws"
  using crypto_lawsD(3) [OF assms(1,4,2)] crypto_lawsD(3) [OF assms(1,5,3)] packed_inj [OF assms(6)] by auto

lemma pack_binds:
  assumes "crypto_laws L" "cl_solidityPack L vs = Inr s" "cl_solidityPack L ws = Inr s" "list_all2 same_shape vs ws"
  shows "list_all2 same_value vs ws"
  using crypto_lawsD(2) [OF assms(1,2)] crypto_lawsD(2) [OF assms(1,3)] packed_inj [OF assms(4)] by auto

lemma pack_tail_binds:
  assumes "crypto_laws L" "cl_solidityPack L (vs @ [ABytes a, ABytes b]) = Inr s"
    and "cl_solidityPack L (ws @ [ABytes c, ABytes d]) = Inr s" "list_all2 same_shape vs ws"
  shows "list_all2 same_value vs ws \<and>
    toLowerCase (drop 2 a) @ toLowerCase (drop 2 b) = toLowerCase (drop 2 c) @ toLowerCase (drop 2 d)"
  using crypto_lawsD(2) [OF assms(1,2)] crypto_lawsD(2) [OF assms(1,3)]
    packed_prefix [OF assms(4), of "toLowerCase (drop 2 a) @ toLowerCase (drop 2 b)"
      "toLowerCase (drop 2 c) @ toLowerCase (drop 2 d)"]
  by auto

lemma guardian_lower:
  "crypto_laws L \<Longrightarrow> requireGuardianAddress L (si_guardianAddress p) = Inr g \<Longrightarrow> guardianOf p = Some (toLowerCase g)"
  using crypto_lawsD(4) by (fastforce simp: guardianOf_def)

lemma v4DepositDigest_binds:
  assumes "crypto_laws L" "v4DepositDigest L p = Inr d" "v4DepositDigest L q = Inr d"
  shows "depositContent p = depositContent q"
proof -
  let ?vs = "\<lambda>p. [ABytes32 (sd_prefix p), AUint256 (sd_blockNumber p), ABytes32 (sd_blockHash p),
    ABytes32 (sd_depositRoot p), AUint256 (sd_stakingModuleId p), AUint256 (sd_nonce p)]"
  obtain s where s: "cl_abiEncode L (?vs p) = Inr s" "cl_abiEncode L (?vs q) = Inr s"
    using assms by (auto simp: v4DepositDigest_def bindR_Inr_iff crypto_lawsD(1))
  from abi_binds [OF assms(1) s] show ?thesis by (simp add: depositContent_def)
qed

lemma v4PauseDigest_binds:
  assumes "crypto_laws L" "v4PauseDigest L p = Inr d" "v4PauseDigest L q = Inr d"
  shows "pauseContent p = pauseContent q"
proof -
  let ?vs = "\<lambda>p. [ABytes32 (sz_prefix p), AUint256 (sz_blockNumber p)]"
  obtain s where s: "cl_abiEncode L (?vs p) = Inr s" "cl_abiEncode L (?vs q) = Inr s"
    using assms by (auto simp: v4PauseDigest_def bindR_Inr_iff crypto_lawsD(1))
  from abi_binds [OF assms(1) s] show ?thesis by (simp add: pauseContent_def)
qed

lemma v4UnvetDigest_binds:
  assumes "crypto_laws L" "v4UnvetDigest L p = Inr d" "v4UnvetDigest L q = Inr d"
  shows "unvetContent p = unvetContent q"
proof -
  let ?fixed = "\<lambda>p. [ABytes32 (sn_prefix p), AUint256 (sn_blockNumber p), ABytes32 (sn_blockHash p),
    AUint256 (sn_stakingModuleId p), AUint256 (sn_nonce p)]"
  obtain s where "cl_solidityPack L (?fixed p @ [ABytes (sn_operatorIds p), ABytes (sn_vettedKeysByOperator p)]) = Inr s"
    "cl_solidityPack L (?fixed q @ [ABytes (sn_operatorIds q), ABytes (sn_vettedKeysByOperator q)]) = Inr s"
    using assms by (auto simp: v4UnvetDigest_def bindR_Inr_iff crypto_lawsD(1))
  from pack_tail_binds [OF assms(1) this] show ?thesis by (simp add: unvetContent_def)
qed

lemma v5DepositDigest_binds:
  assumes "crypto_laws L" "v5DepositDigest L p = Inr d" "v5DepositDigest L q = Inr d"
  shows "guardianOf p = guardianOf q \<and> depositContent p = depositContent q"
proof -
  let ?vs = "\<lambda>p g. [ABytes32 (sd_prefix p), AAddress g, AUint256 (sd_blockNumber p), ABytes32 (sd_blockHash p),
    ABytes32 (sd_depositRoot p), AUint256 (sd_stakingModuleId p), AUint256 (sd_nonce p)]"
  obtain g h s where g: "requireGuardianAddress L (si_guardianAddress p) = Inr g"
      "requireGuardianAddress L (si_guardianAddress q) = Inr h"
    and s: "cl_solidityPack L (?vs p g) = Inr s" "cl_solidityPack L (?vs q h) = Inr s"
    using assms by (auto simp: v5DepositDigest_def bindR_Inr_iff crypto_lawsD(1))
  from pack_binds [OF assms(1) s] show ?thesis
    by (simp add: depositContent_def guardian_lower [OF assms(1) g(1)] guardian_lower [OF assms(1) g(2)])
qed

lemma v5PauseDigest_binds:
  assumes "crypto_laws L" "v5PauseDigest L p = Inr d" "v5PauseDigest L q = Inr d"
  shows "guardianOf p = guardianOf q \<and> pauseContent p = pauseContent q"
proof -
  let ?vs = "\<lambda>p g. [ABytes32 (sz_prefix p), AAddress g, AUint256 (sz_blockNumber p)]"
  obtain g h s where g: "requireGuardianAddress L (si_guardianAddress p) = Inr g"
      "requireGuardianAddress L (si_guardianAddress q) = Inr h"
    and s: "cl_solidityPack L (?vs p g) = Inr s" "cl_solidityPack L (?vs q h) = Inr s"
    using assms by (auto simp: v5PauseDigest_def bindR_Inr_iff crypto_lawsD(1))
  from pack_binds [OF assms(1) s] show ?thesis
    by (simp add: pauseContent_def guardian_lower [OF assms(1) g(1)] guardian_lower [OF assms(1) g(2)])
qed

lemma v5UnvetDigest_binds:
  assumes "crypto_laws L" "v5UnvetDigest L p = Inr d" "v5UnvetDigest L q = Inr d"
  shows "guardianOf p = guardianOf q \<and> unvetContent p = unvetContent q"
proof -
  let ?fixed = "\<lambda>p g. [ABytes32 (sn_prefix p), AAddress g, AUint256 (sn_blockNumber p), ABytes32 (sn_blockHash p),
    AUint256 (sn_stakingModuleId p), AUint256 (sn_nonce p)]"
  obtain g h s where g: "requireGuardianAddress L (si_guardianAddress p) = Inr g"
      "requireGuardianAddress L (si_guardianAddress q) = Inr h"
    and s: "cl_solidityPack L (?fixed p g @ [ABytes (sn_operatorIds p), ABytes (sn_vettedKeysByOperator p)]) = Inr s"
    "cl_solidityPack L (?fixed q h @ [ABytes (sn_operatorIds q), ABytes (sn_vettedKeysByOperator q)]) = Inr s"
    using assms by (auto simp: v5UnvetDigest_def bindR_Inr_iff crypto_lawsD(1))
  from pack_tail_binds [OF assms(1) s] show ?thesis
    by (simp add: unvetContent_def guardian_lower [OF assms(1) g(1)] guardian_lower [OF assms(1) g(2)])
qed

interpretation v4_deposit: digest_scheme "crypto_laws L" "v4DepositDigest L" depositContent
  by unfold_locales (rule v4DepositDigest_binds)

interpretation v4_pause: digest_scheme "crypto_laws L" "v4PauseDigest L" pauseContent
  by unfold_locales (rule v4PauseDigest_binds)

interpretation v4_unvet: digest_scheme "crypto_laws L" "v4UnvetDigest L" unvetContent
  by unfold_locales (rule v4UnvetDigest_binds)

interpretation v5_deposit: digest_scheme "crypto_laws L" "v5DepositDigest L" "\<lambda>p. (guardianOf p, depositContent p)"
  by unfold_locales (unfold prod.inject, rule v5DepositDigest_binds)

interpretation v5_pause: digest_scheme "crypto_laws L" "v5PauseDigest L" "\<lambda>p. (guardianOf p, pauseContent p)"
  by unfold_locales (unfold prod.inject, rule v5PauseDigest_binds)

interpretation v5_unvet: digest_scheme "crypto_laws L" "v5UnvetDigest L" "\<lambda>p. (guardianOf p, unvetContent p)"
  by unfold_locales (unfold prod.inject, rule v5UnvetDigest_binds)

text \<open>The packing of \<open>n\<close> operators: 8 bytes for an operator, 16 bytes for its count of keys.\<close>

definition packed_chunk :: "nat \<Rightarrow> sign_unvet \<Rightarrow> bool" where
  "packed_chunk n p \<longleftrightarrow> length (drop 2 (sn_operatorIds p)) = 16 * n \<and> length (drop 2 (sn_vettedKeysByOperator p)) = 32 * n"

lemma packed_chunk_cut:
  assumes "packed_chunk m p" "packed_chunk n q" "unvetContent p = unvetContent q"
  shows "toLowerCase (drop 2 (sn_operatorIds p)) = toLowerCase (drop 2 (sn_operatorIds q)) \<and>
    toLowerCase (drop 2 (sn_vettedKeysByOperator p)) = toLowerCase (drop 2 (sn_vettedKeysByOperator q))"
proof -
  from assms(3) have eq: "toLowerCase (drop 2 (sn_operatorIds p)) @ toLowerCase (drop 2 (sn_vettedKeysByOperator p)) =
      toLowerCase (drop 2 (sn_operatorIds q)) @ toLowerCase (drop 2 (sn_vettedKeysByOperator q))"
    by (simp add: unvetContent_def)
  from arg_cong [where f = length, OF this] assms(1,2) have "m = n" by (simp add: packed_chunk_def)
  with eq assms(1,2) show ?thesis by (simp add: packed_chunk_def append_eq_append_conv)
qed


section \<open>An instance of the library\<close>

definition ref_crypto :: crypto_lib where
  "ref_crypto =
     \<lparr>cl_keccak256 = (\<lambda>s. s),
      cl_abiEncode = (\<lambda>vs. if list_all abi_ok vs then Inr (''0x'' @ concat (map packed_hex vs))
                          else Inl (External ''INVALID_ARGUMENT'')),
      cl_solidityPack = (\<lambda>vs. if list_all abi_ok vs then Inr (''0x'' @ concat (map packed_hex vs))
                             else Inl (External ''INVALID_ARGUMENT'')),
      cl_isAddress = (\<lambda>a. is_hex_string a \<and> length a = 42),
      cl_getAddress = (\<lambda>a. if is_hex_string a \<and> length a = 42 then Inr (toLowerCase a)
                          else Inl (External ''INVALID_ARGUMENT'')),
      cl_hexConcat = (\<lambda>xs. Inr (''0x'' @ concat (map (drop 2) xs))),
      cl_hexlify = (\<lambda>n. Inr (''0x'' @ fixed_hex 2 n)),
      cl_encodeFunctionData = (\<lambda>call. Inr ''0x'')\<rparr>"

lemma lower_char_idem [simp]: "lower_char (lower_char c) = lower_char c"
  by (auto simp: lower_char_def less_eq_char_def)

lemma toLowerCase_idem [simp]: "toLowerCase (toLowerCase s) = toLowerCase s"
  by (simp add: toLowerCase_def)

lemma ref_crypto_laws: "crypto_laws ref_crypto"
  by (auto simp: crypto_laws_def ref_crypto_def inj_def)

definition demoPause :: "char \<Rightarrow> sign_pause" where
  "demoPause c = \<lparr>si_dsmVersion = Some 5, si_guardianAddress = Some (''0x'' @ replicate 40 c),
     sz_prefix = ''0x'' @ replicate 64 CHR ''a'', sz_blockNumber = 7\<rparr>"

lemma demo_pause_digest: "\<exists>d. v5PauseDigest ref_crypto (demoPause CHR ''b'') = Inr d"
  by (simp add: v5PauseDigest_def requireGuardianAddress_def demoPause_def ref_crypto_def is_hex_string_def
      is_hex_char_def toLowerCase_def lower_char_def MAX_SAFE_INTEGER_def list_all_iff)


end
