(* ===== verification/One_At_Time.thy ===== *)
theory One_At_Time
  imports JS_Prelude
begin

text \<open>
  The decorator \<open>OneAtTime\<close> (\<open>common/decorators/one-at-time.ts\<close>). The decorated method keeps a
  flag, or one flag for every call id. The model has two views of it: a step relation over calls,
  completions and timeouts, and the wrapper that a service's method goes through in the other
  theories.
\<close>

section \<open>The wrapper\<close>

text \<open>
  A call while the flag is set returns \<open>undefined\<close> (\<open>None\<close>); an exception is logged and the call
  returns \<open>undefined\<close> too. A method that is awaited runs to its end, then the flag is cleared.
  \<open>process.exit\<close> is not an exception and is not caught.
\<close>

definition oneAtTime ::
  "('s \<Rightarrow> bool) \<Rightarrow> (bool \<Rightarrow> 's \<Rightarrow> 's) \<Rightarrow> ('s, 'o, 'a) comp \<Rightarrow> ('s, 'o, 'a option) comp" where
  "oneAtTime executing setExecuting method =
     andThen getS (\<lambda>s.
       if executing s then ret None
       else andThen (modifyS (setExecuting True)) (\<lambda>_.
         finallyE (catchE (andThen method (\<lambda>x. ret (Some x)))
                  (\<lambda>error. if error = ProcessExit then raise ProcessExit else ret None)) (setExecuting False)))"

text \<open>
  A method that is not awaited (none of them ends the process): its first part runs at the call, the flag stays set until its
  promise settles, unless the first part throws.
\<close>

definition oneAtTimeStart ::
  "('s \<Rightarrow> bool) \<Rightarrow> (bool \<Rightarrow> 's \<Rightarrow> 's) \<Rightarrow> ('s, 'o, 'a) comp \<Rightarrow> ('s, 'o, 'a option) comp" where
  "oneAtTimeStart executing setExecuting method =
     andThen getS (\<lambda>s.
       if executing s then ret None
       else andThen (modifyS (setExecuting True)) (\<lambda>_.
         catchE (andThen method (\<lambda>x. ret (Some x)))
                (\<lambda>error. andThen (modifyS (setExecuting False)) (\<lambda>_. ret None))))"

lemma oneAtTime_busy: "executing s \<Longrightarrow> oneAtTime executing setExecuting m s = (Inr None, s, [])"
  by (simp add: oneAtTime_def)

lemma oneAtTime_run:
  "\<not> executing s \<Longrightarrow> m (setExecuting True s) = (r, t, out) \<Longrightarrow>
   oneAtTime executing setExecuting m s =
     (case r of Inl e \<Rightarrow> if e = ProcessExit then Inl ProcessExit else Inr None | Inr x \<Rightarrow> Inr (Some x),
      setExecuting False t, out)"
  by (cases r) (simp_all add: oneAtTime_def catchE_def finallyE_def andThen_apply)

lemma oneAtTimeStart_busy: "executing s \<Longrightarrow> oneAtTimeStart executing setExecuting m s = (Inr None, s, [])"
  by (simp add: oneAtTimeStart_def)

lemma oneAtTimeStart_run:
  "\<not> executing s \<Longrightarrow> m (setExecuting True s) = (r, t, out) \<Longrightarrow>
   oneAtTimeStart executing setExecuting m s =
     (Inr (case r of Inl e \<Rightarrow> None | Inr x \<Rightarrow> Some x), if isl r then setExecuting False t else t, out)"
  by (cases r) (simp_all add: oneAtTimeStart_def catchE_def andThen_apply)

lemma keeps_oneAtTime [keep_rules]:
  assumes "keeps I m A" and "\<And>b s. I s \<Longrightarrow> I (setExecuting b s)"
  shows "keeps I (oneAtTime executing setExecuting m) A"
  unfolding oneAtTime_def by (intro keep_rules assms)

lemma keeps_oneAtTimeStart [keep_rules]:
  assumes "keeps I m A" and "\<And>b s. I s \<Longrightarrow> I (setExecuting b s)"
  shows "keeps I (oneAtTimeStart executing setExecuting m) A"
  unfolding oneAtTimeStart_def by (intro keep_rules assms)

section \<open>The decorator as a state machine\<close>

text \<open>
  The flags of one decorated method, and the executions of it: the call id (none when the method
  has no such parameter) and whether the caller has stopped waiting because of the timeout. A
  falsy call id (\<open>0\<close>) counts as none.
\<close>

record execution =
  ex_number :: nat
  ex_callId :: "nat option"
  ex_timedOut :: bool

record decorated =
  dt_isExecuting :: bool
  dt_isExecutingMap :: "nat \<Rightarrow> bool"
  dt_running :: "execution list"
  dt_started :: nat

definition initialDecorated :: decorated where
  "initialDecorated = \<lparr>dt_isExecuting = False, dt_isExecutingMap = (\<lambda>_. False), dt_running = [], dt_started = 0\<rparr>"

definition truthyId :: "nat option \<Rightarrow> nat option" where
  "truthyId callId = (case callId of Some 0 \<Rightarrow> None | _ \<Rightarrow> callId)"

definition alreadyRunning :: "nat option \<Rightarrow> decorated \<Rightarrow> bool" where
  "alreadyRunning callId d \<longleftrightarrow>
     (case truthyId callId of Some i \<Rightarrow> dt_isExecutingMap d i | None \<Rightarrow> False) \<or> dt_isExecuting d"

definition setFlag :: "nat option \<Rightarrow> bool \<Rightarrow> decorated \<Rightarrow> decorated" where
  "setFlag callId v d =
     (case truthyId callId of
        Some i \<Rightarrow> d\<lparr>dt_isExecutingMap := (dt_isExecutingMap d)(i := v)\<rparr>
      | None \<Rightarrow> d\<lparr>dt_isExecuting := v\<rparr>)"

text \<open>The number of the execution a call starts, if it starts one.\<close>

definition callDecorated :: "nat option \<Rightarrow> decorated \<Rightarrow> nat option \<times> decorated" where
  "callDecorated callId d =
     (if alreadyRunning callId d then (None, d)
      else (Some (dt_started d),
        (setFlag callId True d)\<lparr>dt_running := \<lparr>ex_number = dt_started d, ex_callId = callId, ex_timedOut = False\<rparr> # dt_running d,
                               dt_started := Suc (dt_started d)\<rparr>))"

text \<open>\<open>finally\<close> of a call whose method settled, and of one whose timer fired first.\<close>

definition settleDecorated :: "execution \<Rightarrow> decorated \<Rightarrow> decorated" where
  "settleDecorated e d =
     (if ex_timedOut e then d else setFlag (ex_callId e) False d)\<lparr>dt_running := remove1 e (dt_running d)\<rparr>"

definition timeoutDecorated :: "execution \<Rightarrow> decorated \<Rightarrow> decorated" where
  "timeoutDecorated e d =
     (setFlag (ex_callId e) False d)\<lparr>dt_running := map (\<lambda>x. if x = e then e\<lparr>ex_timedOut := True\<rparr> else x) (dt_running d)\<rparr>"

inductive one_at_time_step :: "decorated \<Rightarrow> decorated \<Rightarrow> bool" where
  call: "one_at_time_step d (snd (callDecorated callId d))"
| settle: "e \<in> set (dt_running d) \<Longrightarrow> one_at_time_step d (settleDecorated e d)"
| timeout: "e \<in> set (dt_running d) \<Longrightarrow> \<not> ex_timedOut e \<Longrightarrow> one_at_time_step d (timeoutDecorated e d)"

inductive reachable_decorated :: "decorated \<Rightarrow> bool" where
  start: "reachable_decorated initialDecorated"
| step: "reachable_decorated d \<Longrightarrow> one_at_time_step d d' \<Longrightarrow> reachable_decorated d'"

text \<open>The executions whose caller is still waiting.\<close>

definition waiting :: "decorated \<Rightarrow> execution list" where
  "waiting d = filter (\<lambda>e. \<not> ex_timedOut e) (dt_running d)"

text \<open>The group of an execution: its truthy call id, or none.\<close>

definition group_of :: "execution \<Rightarrow> nat option" where
  "group_of e = truthyId (ex_callId e)"

text \<open>
  The flags are exactly those of the groups with a waiting execution, and a group has at most one.
\<close>

definition decorated_inv :: "decorated \<Rightarrow> bool" where
  "decorated_inv d \<longleftrightarrow>
     distinct (map ex_number (dt_running d)) \<and> (\<forall>e\<in>set (dt_running d). ex_number e < dt_started d) \<and>
     distinct (map group_of (waiting d)) \<and>
     (dt_isExecuting d \<longleftrightarrow> None \<in> group_of ` set (waiting d)) \<and>
     (\<forall>i. dt_isExecutingMap d i \<longleftrightarrow> Some i \<in> group_of ` set (waiting d))"

declare one_at_time_step.intros [intro]

inductive_cases one_at_time_stepE: "one_at_time_step d d'"

lemma setFlag_fields [simp]:
  "dt_running (setFlag c v d) = dt_running d" "dt_started (setFlag c v d) = dt_started d"
  "dt_isExecuting (setFlag c v d) = (if truthyId c = None then v else dt_isExecuting d)"
  "dt_isExecutingMap (setFlag c v d) i = (if truthyId c = Some i then v else dt_isExecutingMap d i)"
  by (auto simp: setFlag_def split: option.splits)

lemma alreadyRunning_iff:
  "decorated_inv d \<Longrightarrow> alreadyRunning callId d \<longleftrightarrow>
   truthyId callId \<in> group_of ` set (waiting d) \<or> None \<in> group_of ` set (waiting d)"
  by (auto simp: alreadyRunning_def decorated_inv_def split: option.splits)

lemma call_inv:
  assumes "decorated_inv d"
  shows "decorated_inv (snd (callDecorated callId d))"
proof (cases "alreadyRunning callId d")
  case True
  with assms show ?thesis by (simp add: callDecorated_def)
next
  case False
  with assms have "truthyId callId \<notin> group_of ` set (waiting d)" by (simp add: alreadyRunning_iff)
  with assms False show ?thesis
    by (auto simp: callDecorated_def decorated_inv_def waiting_def group_of_def)
qed

lemma drop_waiting_inv:
  assumes "decorated_inv d" "e \<in> set (waiting d)"
    and "waiting d' = filter (\<lambda>x. x \<noteq> e) (waiting d)"
    and "dt_isExecuting d' = dt_isExecuting (setFlag (ex_callId e) False d)"
    and "dt_isExecutingMap d' = dt_isExecutingMap (setFlag (ex_callId e) False d)"
    and "distinct (map ex_number (dt_running d'))" "\<forall>x\<in>set (dt_running d'). ex_number x < dt_started d'"
  shows "decorated_inv d'"
proof -
  have inj: "inj_on group_of (set (waiting d))" and "distinct (waiting d)"
    using assms(1) by (simp_all add: decorated_inv_def distinct_map)
  then have groups: "group_of ` set (waiting d') = group_of ` set (waiting d) - {group_of e}"
    using assms(2,3) by (auto simp: inj_on_def)
  have "distinct (map group_of (waiting d'))"
    using assms(1,3) by (simp add: decorated_inv_def distinct_map_filter)
  then show ?thesis
    using assms(1,4-7) by (auto simp: decorated_inv_def groups simp flip: group_of_def)
qed

lemma settle_inv:
  assumes "decorated_inv d" "e \<in> set (dt_running d)"
  shows "decorated_inv (settleDecorated e d)"
proof -
  have dist: "distinct (dt_running d)" using assms(1) by (auto simp: decorated_inv_def distinct_map)
  then have rem: "remove1 e (dt_running d) = filter (\<lambda>x. x \<noteq> e) (dt_running d)"
    by (auto simp: distinct_remove1_removeAll removeAll_filter_not_eq intro: filter_cong)
  have w: "waiting (settleDecorated e d) = filter (\<lambda>x. x \<noteq> e) (waiting d)"
    by (auto simp: waiting_def settleDecorated_def rem intro!: filter_cong)
  have num: "distinct (map ex_number (dt_running (settleDecorated e d)))"
    "\<forall>x\<in>set (dt_running (settleDecorated e d)). ex_number x < dt_started (settleDecorated e d)"
    using assms(1) by (auto simp: settleDecorated_def rem decorated_inv_def distinct_map_filter)
  show ?thesis
  proof (cases "ex_timedOut e")
    case True
    then have "e \<notin> set (waiting d)" by (simp add: waiting_def)
    then have "waiting (settleDecorated e d) = waiting d" unfolding w by (auto simp: filter_id_conv)
    with assms(1) num True show ?thesis by (simp add: decorated_inv_def settleDecorated_def)
  next
    case False
    with assms(2) have "e \<in> set (waiting d)" by (simp add: waiting_def)
    from drop_waiting_inv [OF assms(1) this w _ _ num] False show ?thesis by (simp add: settleDecorated_def fun_eq_iff)
  qed
qed

lemma timeout_inv:
  assumes "decorated_inv d" "e \<in> set (dt_running d)" "\<not> ex_timedOut e"
  shows "decorated_inv (timeoutDecorated e d)"
proof -
  let ?m = "\<lambda>x. if x = e then e\<lparr>ex_timedOut := True\<rparr> else x"
  have w: "waiting (timeoutDecorated e d) = filter (\<lambda>x. x \<noteq> e) (waiting d)"
  proof -
    have "filter (\<lambda>x. \<not> ex_timedOut x) (map ?m xs) = filter (\<lambda>x. x \<noteq> e) (filter (\<lambda>x. \<not> ex_timedOut x) xs)" for xs
      by (induction xs) auto
    then show ?thesis by (simp add: waiting_def timeoutDecorated_def)
  qed
  have same: "map ex_number (map ?m (dt_running d)) = map ex_number (dt_running d)" by simp
  have num: "distinct (map ex_number (dt_running (timeoutDecorated e d)))"
    "\<forall>x\<in>set (dt_running (timeoutDecorated e d)). ex_number x < dt_started (timeoutDecorated e d)"
    using assms(1,2) by (auto simp: timeoutDecorated_def decorated_inv_def same simp del: map_map)
  have "e \<in> set (waiting d)" using assms(2,3) by (simp add: waiting_def)
  from drop_waiting_inv [OF assms(1) this w _ _ num] show ?thesis by (simp add: timeoutDecorated_def fun_eq_iff)
qed

lemma reachable_decorated_inv: "reachable_decorated d \<Longrightarrow> decorated_inv d"
proof (induction rule: reachable_decorated.induct)
  case start
  show ?case by (simp add: decorated_inv_def initialDecorated_def waiting_def)
next
  case (step d d')
  from step(2,3) show ?case by (auto elim!: one_at_time_stepE intro: call_inv settle_inv timeout_inv)
qed

text \<open>
  C34: In every reachable state of a decorated method at most one execution is waited for per call
  id (and at most one without an id), and a call starts an execution exactly when none is waited
  for with its id or without id: the flags never stay set after the last waited execution has
  settled or timed out, so the method can always be called again.
\<close>

theorem one_at_time_exclusion:
  assumes "reachable_decorated d"
  shows "distinct (map group_of (waiting d)) \<and>
    (fst (callDecorated callId d) = None \<longleftrightarrow>
       truthyId callId \<in> group_of ` set (waiting d) \<or> None \<in> group_of ` set (waiting d))"
  using reachable_decorated_inv [OF assms] alreadyRunning_iff [OF reachable_decorated_inv [OF assms]]
  by (simp add: decorated_inv_def callDecorated_def)

text \<open>A call, its timeout, and a second call.\<close>

definition demoOverlap :: decorated where
  "demoOverlap =
     (let d1 = snd (callDecorated (Some 3) initialDecorated);
          d2 = timeoutDecorated (hd (dt_running d1)) d1
      in snd (callDecorated (Some 3) d2))"

lemma demoOverlap_reachable: "reachable_decorated demoOverlap"
proof -
  let ?d1 = "snd (callDecorated (Some 3) initialDecorated)"
  have d1: "reachable_decorated ?d1" by (rule reachable_decorated.step [OF reachable_decorated.start]) blast
  have "hd (dt_running ?d1) \<in> set (dt_running ?d1)" "\<not> ex_timedOut (hd (dt_running ?d1))"
    by (simp_all add: callDecorated_def initialDecorated_def alreadyRunning_def truthyId_def)
  then have "one_at_time_step ?d1 (timeoutDecorated (hd (dt_running ?d1)) ?d1)" by blast
  from reachable_decorated.step [OF reachable_decorated.step [OF d1 this] one_at_time_step.call]
  show ?thesis by (simp add: demoOverlap_def Let_def)
qed

lemma demoOverlap_running:
  "dt_running demoOverlap = [\<lparr>ex_number = 1, ex_callId = Some 3, ex_timedOut = False\<rparr>,
     \<lparr>ex_number = 0, ex_callId = Some 3, ex_timedOut = True\<rparr>]"
  by (simp add: demoOverlap_def Let_def callDecorated_def initialDecorated_def alreadyRunning_def truthyId_def
      timeoutDecorated_def setFlag_def)

theorem one_at_time_exclusion_witness:
  "distinct (map group_of (waiting demoOverlap)) \<and> fst (callDecorated (Some 3) demoOverlap) = None"
  using one_at_time_exclusion [OF demoOverlap_reachable, of "Some 3"]
  by (simp add: waiting_def demoOverlap_running group_of_def)

text \<open>
  The decorator does not keep two executions of a method apart once one of them has timed out:
  there is a reachable state in which two executions with one call id run, the first one no longer
  waited for, since the timeout clears the flag and does not stop the method.
\<close>

theorem one_at_time_overlap:
  "\<exists>d e1 e2. reachable_decorated d \<and> e1 \<in> set (dt_running d) \<and> e2 \<in> set (dt_running d) \<and> e1 \<noteq> e2 \<and>
     group_of e1 = group_of e2"
proof -
  let ?e1 = "\<lparr>ex_number = 1, ex_callId = Some 3, ex_timedOut = False\<rparr>"
  let ?e2 = "\<lparr>ex_number = 0, ex_callId = Some 3, ex_timedOut = True\<rparr>"
  have "?e1 \<in> set (dt_running demoOverlap)" "?e2 \<in> set (dt_running demoOverlap)" "?e1 \<noteq> ?e2" "group_of ?e1 = group_of ?e2"
    by (simp_all add: demoOverlap_running group_of_def)
  with demoOverlap_reachable show ?thesis by blast
qed

end
