(* ===== verification/Wallet.thy ===== *)
theory Wallet
  imports Dsm_Strategy One_At_Time
begin

text \<open>
  The wallets of the guardian (\<open>wallet/wallet.service.ts\<close>): the configured private keys become
  wallets once, one of them is active. The wallet class of \<open>ethers\<close> and the provider are
  parameters; a balance is its amount in wei.
\<close>

record wallet =
  wl_privateKey :: string
  wl_address :: string

record wallet_env =
  we_crypto :: crypto_lib
  we_privateKeys :: "string list"
  we_newWallet :: "string \<Rightarrow> js_error + wallet"
  we_randomKey :: string
  we_signDigest :: "string \<Rightarrow> string \<Rightarrow> js_error + signature"
  we_getBalance :: "string \<Rightarrow> js_error + nat"
  we_getTransactionCount :: "string \<Rightarrow> string \<Rightarrow> js_error + nat"
  we_criticalBalance :: nat
  we_minBalance :: nat

record wallet_state =
  ws_activeWallet :: "wallet option"
  ws_cachedWallets :: "wallet list option"
  ws_monitoring :: bool

definition WALLET_BALANCE_UPDATE_BLOCK_RATE :: nat where
  "WALLET_BALANCE_UPDATE_BLOCK_RATE = 50"

type_synonym 'a wallets = "(wallet_state, effect, 'a) comp"

section \<open>Selection\<close>

text \<open>The getter \<open>wallets\<close>: without a private key a random one is made, for test runs.\<close>

definition getWallets :: "wallet_env \<Rightarrow> wallet list wallets" where
  "getWallets E =
     andThen getS (\<lambda>s.
       case ws_cachedWallets s of
         Some ws \<Rightarrow> ret ws
       | None \<Rightarrow>
           let privateKeys = filter (\<lambda>k. k \<noteq> '''') (we_privateKeys E);
               keys = (if length privateKeys = 0 then [we_randomKey E] else privateKeys)
           in andThen (liftR (traverse (we_newWallet E) keys)) (\<lambda>ws.
              andThen (modifyS (\<lambda>s. s\<lparr>ws_cachedWallets := Some ws\<rparr>)) (\<lambda>_. ret ws)))"

definition getWallet :: "wallet_env \<Rightarrow> wallet wallets" where
  "getWallet E =
     andThen getS (\<lambda>s.
       case ws_activeWallet s of Some w \<Rightarrow> ret w | None \<Rightarrow> andThen (getWallets E) (\<lambda>ws. ret (hd ws)))"

definition walletAddress :: "wallet_env \<Rightarrow> string wallets" where
  "walletAddress E = andThen (getWallet E) (\<lambda>w. ret (wl_address w))"

definition walletAddresses :: "wallet_env \<Rightarrow> string list wallets" where
  "walletAddresses E = andThen (getWallets E) (\<lambda>ws. ret (map wl_address ws))"

definition selectLegacyWallet :: "wallet_env \<Rightarrow> unit wallets" where
  "selectLegacyWallet E =
     andThen (getWallets E) (\<lambda>ws. modifyS (\<lambda>s. s\<lparr>ws_activeWallet := Some (hd ws)\<rparr>))"

definition selectDelegateWallet :: "wallet_env \<Rightarrow> string \<Rightarrow> unit wallets" where
  "selectDelegateWallet E delegateAddress =
     andThen (liftR (cl_getAddress (we_crypto E) delegateAddress)) (\<lambda>normalizedAddress.
     andThen (getWallets E) (\<lambda>ws.
       case find (\<lambda>candidate. wl_address candidate = normalizedAddress) ws of
         None \<Rightarrow> raise (Error (''No configured wallet private key matches active delegate '' @ normalizedAddress))
       | Some w \<Rightarrow> modifyS (\<lambda>s. s\<lparr>ws_activeWallet := Some w\<rparr>)))"

section \<open>Signing\<close>

definition signMessage :: "wallet_env \<Rightarrow> string \<Rightarrow> signature wallets" where
  "signMessage E message = andThen (getWallet E) (\<lambda>w. liftR (we_signDigest E (wl_privateKey w) message))"

definition signDepositData :: "wallet_env \<Rightarrow> sign_deposit \<Rightarrow> signature wallets" where
  "signDepositData E params =
     andThen (liftR (st_depositDigest (getDsmStrategy (we_crypto E) (si_dsmVersion params)) params)) (signMessage E)"

definition signPauseData :: "wallet_env \<Rightarrow> sign_pause \<Rightarrow> signature wallets" where
  "signPauseData E params =
     andThen (liftR (st_pauseDigest (getDsmStrategy (we_crypto E) (si_dsmVersion params)) params)) (signMessage E)"

definition signUnvetData :: "wallet_env \<Rightarrow> sign_unvet \<Rightarrow> signature wallets" where
  "signUnvetData E params =
     andThen (liftR (st_unvetDigest (getDsmStrategy (we_crypto E) (si_dsmVersion params)) params)) (signMessage E)"

section \<open>Balance\<close>

definition getAccountBalance :: "wallet_env \<Rightarrow> string option \<Rightarrow> nat wallets" where
  "getAccountBalance E address =
     andThen (case address of Some a \<Rightarrow> ret a | None \<Rightarrow> walletAddress E) (\<lambda>a. liftR (we_getBalance E a))"

definition isBalanceCritical :: "wallet_env \<Rightarrow> bool wallets" where
  "isBalanceCritical E =
     andThen (getAccountBalance E None) (\<lambda>balanceWei. ret (balanceWei \<le> we_criticalBalance E))"

definition isBalanceSufficient :: "wallet_env \<Rightarrow> nat \<Rightarrow> bool" where
  "isBalanceSufficient E balanceWei \<longleftrightarrow> balanceWei \<ge> we_minBalance E"

definition monitorBody :: "wallet_env \<Rightarrow> unit wallets" where
  "monitorBody E =
     andThen (walletAddress E) (\<lambda>delegateAddress.
     andThen (getAccountBalance E (Some delegateAddress)) (\<lambda>balanceWei.
     andThen (liftR (we_getTransactionCount E delegateAddress ''latest'')) (\<lambda>latestNonce.
     andThen (liftR (we_getTransactionCount E delegateAddress ''pending'')) (\<lambda>pendingNonce.
       emit [GaugeSet (AccountBalance delegateAddress) (int balanceWei),
             GaugeSet (NonceLatest delegateAddress) (int latestNonce),
             GaugeSet (NoncePending delegateAddress) (int pendingNonce),
             GaugeSet (NonceGap delegateAddress) (int pendingNonce - int latestNonce)]))))"

definition monitorGuardianBalance :: "wallet_env \<Rightarrow> unit option wallets" where
  "monitorGuardianBalance E =
     oneAtTime ws_monitoring (\<lambda>b s. s\<lparr>ws_monitoring := b\<rparr>) (monitorBody E)"

text \<open>The handler of a new block.\<close>

definition onWalletBlock :: "wallet_env \<Rightarrow> nat \<Rightarrow> unit wallets" where
  "onWalletBlock E blockNumber =
     (if blockNumber mod WALLET_BALANCE_UPDATE_BLOCK_RATE \<noteq> 0 then ret ()
      else catchE (andThen (monitorGuardianBalance E) (\<lambda>_. ret ())) (\<lambda>error. ret ()))"

section \<open>The invariant of the selection\<close>

definition configuredKeys :: "wallet_env \<Rightarrow> string list" where
  "configuredKeys E = (let ks = filter (\<lambda>k. k \<noteq> '''') (we_privateKeys E) in if ks = [] then [we_randomKey E] else ks)"

text \<open>
  The wallets of the configured keys; they are the same whenever they are asked for, and the
  active wallet is one of them.
\<close>

definition wallet_inv :: "wallet_env \<Rightarrow> wallet list \<Rightarrow> wallet_state \<Rightarrow> bool" where
  "wallet_inv E ws s \<longleftrightarrow>
     traverse (we_newWallet E) (configuredKeys E) = Inr ws \<and>
     (\<forall>c. ws_cachedWallets s = Some c \<longrightarrow> c = ws) \<and>
     (\<forall>w. ws_activeWallet s = Some w \<longrightarrow> w \<in> set ws)"

lemma wallet_inv_nonempty: "wallet_inv E ws s \<Longrightarrow> ws \<noteq> []"
  by (auto simp: wallet_inv_def configuredKeys_def Let_def traverse_Inr_iff split: if_split_asm)

definition cached :: "wallet list \<Rightarrow> wallet_state \<Rightarrow> wallet_state" where
  "cached ws s = s\<lparr>ws_cachedWallets := Some ws\<rparr>"

lemma wallet_inv_cached [simp]: "wallet_inv E ws s \<Longrightarrow> wallet_inv E ws (cached ws s)"
  by (simp add: wallet_inv_def cached_def)

lemma getWallets_eq: "wallet_inv E ws s \<Longrightarrow> getWallets E s = (Inr ws, cached ws s, [])"
  by (cases s) (auto simp: getWallets_def wallet_inv_def configuredKeys_def cached_def Let_def split: option.split)

definition activeOf :: "wallet list \<Rightarrow> wallet_state \<Rightarrow> wallet" where
  "activeOf ws s = (case ws_activeWallet s of Some w \<Rightarrow> w | None \<Rightarrow> hd ws)"

lemma getWallet_ok:
  assumes "wallet_inv E ws s"
  shows "\<exists>t. getWallet E s = (Inr (activeOf ws s), t, []) \<and> wallet_inv E ws t \<and> ws_activeWallet t = ws_activeWallet s \<and>
    ws_monitoring t = ws_monitoring s"
  using assms
  by (cases "ws_activeWallet s") (auto simp: getWallet_def activeOf_def andThen_step getWallets_eq cached_def wallet_inv_def)

definition activated :: "wallet \<Rightarrow> wallet list \<Rightarrow> wallet_state \<Rightarrow> wallet_state" where
  "activated w ws s = (cached ws s)\<lparr>ws_activeWallet := Some w\<rparr>"

lemma activated_fields [simp]:
  "ws_activeWallet (activated w ws s) = Some w" "ws_monitoring (activated w ws s) = ws_monitoring s"
  "ws_cachedWallets (activated w ws s) = Some ws"
  by (simp_all add: activated_def cached_def)

lemma wallet_inv_activated: "wallet_inv E ws s \<Longrightarrow> w \<in> set ws \<Longrightarrow> wallet_inv E ws (activated w ws s)"
  by (simp add: wallet_inv_def activated_def cached_def)

lemma selectLegacyWallet_eq:
  "wallet_inv E ws s \<Longrightarrow> selectLegacyWallet E s = (Inr (), activated (hd ws) ws s, [])"
  by (simp add: selectLegacyWallet_def andThen_step getWallets_eq activated_def)

lemma selectDelegateWallet_eq:
  assumes "wallet_inv E ws s"
  shows "selectDelegateWallet E a s =
    (case cl_getAddress (we_crypto E) a of
       Inl e \<Rightarrow> (Inl e, s, [])
     | Inr n \<Rightarrow> (case find (\<lambda>w. wl_address w = n) ws of
          None \<Rightarrow> (Inl (Error (''No configured wallet private key matches active delegate '' @ n)), cached ws s, [])
        | Some w \<Rightarrow> (Inr (), activated w ws s, [])))"
  by (simp add: selectDelegateWallet_def andThen_step getWallets_eq [OF assms] activated_def split: sum.split option.split)

lemma signMessage_activated:
  "signMessage E d (activated w ws s) = (we_signDigest E (wl_privateKey w) d, activated w ws s, [])"
  by (simp add: signMessage_def getWallet_def andThen_apply split: sum.split)

end
