(* ===== verification/Security.thy ===== *)
theory Security
  imports Wallet Signing_Keys_Registry
begin

text \<open>
  The service of the deposit security module (\<open>contracts/security/security.service.ts\<close>): the
  execution context of a guardian, signatures, transactions and reads of the contract. Contracts
  and provider are parameters, read at a block hash; requests of one \<open>Promise.all\<close> are made in
  order. A transaction that is not waited for leaves its flag set until it settles.
\<close>

record security_env =
  sv_wallet :: wallet_env
  sv_dsmContract :: "js_error + string"
  sv_getGuardians :: "string \<Rightarrow> js_error + string list"
  sv_VERSION :: "string \<Rightarrow> js_error + int"
  sv_isDepositsPaused :: "string \<Rightarrow> js_error + bool"
  sv_getMaxOperatorsPerUnvetting :: "string \<Rightarrow> js_error + int"
  sv_ATTEST_MESSAGE_PREFIX :: "string \<Rightarrow> js_error + string"
  sv_PAUSE_MESSAGE_PREFIX :: "string \<Rightarrow> js_error + string"
  sv_UNVET_MESSAGE_PREFIX :: "string \<Rightarrow> js_error + string"
  sv_DELEGATION_CONTRACT_ADDRESS :: string
  sv_getCode :: "string \<Rightarrow> string \<Rightarrow> js_error + string"
  sv_getDelegate :: "string \<Rightarrow> string \<Rightarrow> js_error + string"
  sv_isTerminated :: "string \<Rightarrow> string \<Rightarrow> js_error + bool"
  sv_supportsInterface :: "string \<Rightarrow> string \<Rightarrow> string \<Rightarrow> js_error + bool"
  sv_sendTransaction :: "transaction \<Rightarrow> js_error + string"

record security_state =
  sy_wallet :: wallet_state
  sy_pausing :: bool
  sy_unvetting :: "nat option \<Rightarrow> bool"

type_synonym 'a security = "(security_state, effect, 'a) comp"

abbreviation onWallet :: "'a wallets \<Rightarrow> 'a security" where
  "onWallet \<equiv> zoom sy_wallet (\<lambda>w s. s\<lparr>sy_wallet := w\<rparr>)"

abbreviation cryptoOf :: "security_env \<Rightarrow> crypto_lib" where
  "cryptoOf E \<equiv> we_crypto (sv_wallet E)"

definition DSM_CONTRACT_SUPPORTED_VERSIONS :: "nat list" where
  "DSM_CONTRACT_SUPPORTED_VERSIONS = [DSM_CONTRACT_VERSION_4, DSM_CONTRACT_VERSION_5]"

definition ERC1271_INTERFACE_ID :: string where
  "ERC1271_INTERFACE_ID = ''0x1626ba7e''"

section \<open>Contracts and wallets\<close>

definition getContractWithSigner :: "security_env \<Rightarrow> connected security" where
  "getContractWithSigner E =
     andThen (onWallet (getWallet (sv_wallet E))) (\<lambda>w.
     andThen (liftR (sv_dsmContract E)) (\<lambda>contract.
       ret \<lparr>cn_wallet = wl_address w, cn_address = contract\<rparr>))"

definition selectWallet :: "security_env \<Rightarrow> guardian_context \<Rightarrow> unit security" where
  "selectWallet E context =
     (if st_signer (getDsmStrategy (cryptoOf E) (Some (gc_dsmVersion context))) = Delegate
      then onWallet (selectDelegateWallet (sv_wallet E) (gc_delegateAddress context))
      else onWallet (selectLegacyWallet (sv_wallet E)))"

definition getDelegationContractWithSigner :: "security_env \<Rightarrow> guardian_context \<Rightarrow> connected security" where
  "getDelegationContractWithSigner E context =
     andThen (selectWallet E context) (\<lambda>_.
     andThen (onWallet (getWallet (sv_wallet E))) (\<lambda>w.
       ret \<lparr>cn_wallet = wl_address w, cn_address = gc_guardianAddress context\<rparr>))"

text \<open>\<open>delegation\<close> is a thunk; the wallet it selects is the one selected before.\<close>

definition getTxDeps :: "security_env \<Rightarrow> guardian_context \<Rightarrow> dsm_tx_deps security" where
  "getTxDeps E context =
     andThen (selectWallet E context) (\<lambda>_.
     andThen (getContractWithSigner E) (\<lambda>dsm.
     andThen getS (\<lambda>s.
       ret \<lparr>td_dsm = dsm, td_delegation = (\<lambda>_. fst (getDelegationContractWithSigner E context s)),
            td_dsmAddress = gc_dsmAddress context\<rparr>)))"

section \<open>Reads of the contract\<close>

definition getGuardians :: "security_env \<Rightarrow> string \<Rightarrow> js_error + string list" where
  "getGuardians E blockTag = bindR (sv_dsmContract E) (\<lambda>_. sv_getGuardians E blockTag)"

definition findGuardianIndex :: "string list \<Rightarrow> string \<Rightarrow> int" where
  "findGuardianIndex guardians guardianAddress =
     findIndex (\<lambda>guardian. toLowerCase guardian = toLowerCase guardianAddress) guardians"

definition dsmVersionAt :: "security_env \<Rightarrow> string \<Rightarrow> nat security" where
  "dsmVersionAt E blockTag =
     andThen (getContractWithSigner E) (\<lambda>_.
     andThen (liftR (sv_VERSION E blockTag)) (\<lambda>version.
     andThen (liftR (toNumber version)) (\<lambda>currentVersion.
       if \<not> list_ex (\<lambda>supportedVersion. supportedVersion = currentVersion) DSM_CONTRACT_SUPPORTED_VERSIONS
       then raise (Error (''Unsupported DSM contract version found: '' @ int_string version))
       else ret currentVersion)))"

definition getMaxOperatorsPerUnvetting :: "security_env \<Rightarrow> string \<Rightarrow> nat security" where
  "getMaxOperatorsPerUnvetting E blockTag =
     andThen (getContractWithSigner E) (\<lambda>_.
       liftR (bindR (sv_getMaxOperatorsPerUnvetting E blockTag) toNumber))"

definition isDepositsPaused :: "security_env \<Rightarrow> string \<Rightarrow> js_error + bool" where
  "isDepositsPaused E blockTag = bindR (sv_dsmContract E) (\<lambda>_. sv_isDepositsPaused E blockTag)"

definition getAttestMessagePrefix :: "security_env \<Rightarrow> string \<Rightarrow> js_error + string" where
  "getAttestMessagePrefix E blockHash = bindR (sv_dsmContract E) (\<lambda>_. sv_ATTEST_MESSAGE_PREFIX E blockHash)"

definition getPauseMessagePrefix :: "security_env \<Rightarrow> string \<Rightarrow> js_error + string" where
  "getPauseMessagePrefix E blockHash = bindR (sv_dsmContract E) (\<lambda>_. sv_PAUSE_MESSAGE_PREFIX E blockHash)"

definition getUnvetMessagePrefix :: "security_env \<Rightarrow> string \<Rightarrow> js_error + string" where
  "getUnvetMessagePrefix E blockHash = bindR (sv_dsmContract E) (\<lambda>_. sv_UNVET_MESSAGE_PREFIX E blockHash)"

section \<open>The execution context\<close>

definition legacyContext :: "security_env \<Rightarrow> string \<Rightarrow> string \<Rightarrow> nat \<Rightarrow> guardian_context security" where
  "legacyContext E blockTag dsmAddress dsmVersion =
     andThen (onWallet (selectLegacyWallet (sv_wallet E))) (\<lambda>_.
     andThen (onWallet (walletAddress (sv_wallet E))) (\<lambda>address.
     andThen (liftR (cl_getAddress (cryptoOf E) address)) (\<lambda>delegateAddress.
     andThen (liftR (getGuardians E blockTag)) (\<lambda>guardians.
       ret \<lparr>gc_dsmAddress = dsmAddress, gc_dsmVersion = dsmVersion, gc_delegateAddress = delegateAddress,
            gc_guardianAddress = delegateAddress,
            gc_guardianIndex = findGuardianIndex guardians delegateAddress, gc_mode = LegacyEoa\<rparr>))))"

definition edfContext :: "security_env \<Rightarrow> string \<Rightarrow> string \<Rightarrow> nat \<Rightarrow> guardian_context security" where
  "edfContext E blockTag dsmAddress dsmVersion =
     (let configuredAddress = sv_DELEGATION_CONTRACT_ADDRESS E in
      if configuredAddress = '''' \<or> \<not> cl_isAddress (cryptoOf E) configuredAddress
      then raise (Error ''DELEGATION_CONTRACT_ADDRESS is required for DSM version 5'')
      else
     andThen (liftR (cl_getAddress (cryptoOf E) configuredAddress)) (\<lambda>guardianAddress.
     andThen (liftR (sv_getCode E guardianAddress blockTag)) (\<lambda>code.
       if code = ''0x'' then raise (Error (''No contract code at DELEGATION_CONTRACT_ADDRESS '' @ guardianAddress))
       else
     andThen (liftR (sv_getDelegate E guardianAddress blockTag)) (\<lambda>effectiveDelegate.
     andThen (liftR (sv_isTerminated E guardianAddress blockTag)) (\<lambda>terminated.
     andThen (liftR (sv_supportsInterface E guardianAddress ERC1271_INTERFACE_ID blockTag)) (\<lambda>supportsErc1271.
     andThen (liftR (getGuardians E blockTag)) (\<lambda>guardians.
       if terminated then raise (Error (''DelegationContract '' @ guardianAddress @ '' is terminated''))
       else if effectiveDelegate = AddressZero
       then raise (Error (''DelegationContract '' @ guardianAddress @ '' has no active delegate''))
       else
     andThen (liftR (cl_getAddress (cryptoOf E) effectiveDelegate)) (\<lambda>delegateAddress.
       if \<not> supportsErc1271
       then raise (Error (''DelegationContract '' @ guardianAddress @ '' does not support ERC-1271''))
       else
       let guardianIndex = findGuardianIndex guardians guardianAddress in
       if guardianIndex = -1
       then raise (Error (''DelegationContract '' @ guardianAddress @ '' is not a DSM guardian''))
       else
     andThen (onWallet (selectDelegateWallet (sv_wallet E) delegateAddress)) (\<lambda>_.
       ret \<lparr>gc_dsmAddress = dsmAddress, gc_dsmVersion = dsmVersion, gc_delegateAddress = delegateAddress,
            gc_guardianAddress = guardianAddress, gc_guardianIndex = guardianIndex, gc_mode = Edf\<rparr>)))))))))"

definition getGuardianExecutionContext :: "security_env \<Rightarrow> string \<Rightarrow> guardian_context security" where
  "getGuardianExecutionContext E blockTag =
     andThen (liftR (sv_dsmContract E)) (\<lambda>contract.
     andThen (liftR (cl_getAddress (cryptoOf E) contract)) (\<lambda>dsmAddress.
     andThen (dsmVersionAt E blockTag) (\<lambda>dsmVersion.
       if dsmVersion \<noteq> DSM_CONTRACT_VERSION_5 then legacyContext E blockTag dsmAddress dsmVersion
       else edfContext E blockTag dsmAddress dsmVersion)))"

text \<open>
  The report on the delegation contract before the switch to version 5: the reason why it is not
  ready, if it is not. It never throws; its wallets are read first.
\<close>

definition edfReadiness :: "security_env \<Rightarrow> string \<Rightarrow> string list \<Rightarrow> js_error + string option" where
  "edfReadiness E blockTag configuredWalletAddresses =
     (let configuredAddress = sv_DELEGATION_CONTRACT_ADDRESS E in
      if configuredAddress = '''' then Inr (Some ''DELEGATION_CONTRACT_ADDRESS is not configured'')
      else if \<not> cl_isAddress (cryptoOf E) configuredAddress
      then Inr (Some ''DELEGATION_CONTRACT_ADDRESS is not a valid address'')
      else
      bindR (cl_getAddress (cryptoOf E) configuredAddress) (\<lambda>delegationContractAddress.
      bindR (sv_getCode E delegationContractAddress blockTag) (\<lambda>code.
        if code = ''0x'' then Inr (Some ''No contract code at DELEGATION_CONTRACT_ADDRESS'')
        else
      bindR (sv_getDelegate E delegationContractAddress blockTag) (\<lambda>effectiveDelegate.
      bindR (sv_supportsInterface E delegationContractAddress ERC1271_INTERFACE_ID blockTag) (\<lambda>supportsErc1271.
        if \<not> cl_isAddress (cryptoOf E) effectiveDelegate \<or> effectiveDelegate = AddressZero
        then Inr (Some ''DelegationContract has no valid active delegate'')
        else if \<not> supportsErc1271 then Inr (Some ''DelegationContract does not support ERC-1271'')
        else
      bindR (cl_getAddress (cryptoOf E) effectiveDelegate) (\<lambda>delegateAddress.
        if \<not> list_ex (\<lambda>walletAddress. toLowerCase walletAddress = toLowerCase delegateAddress) configuredWalletAddresses
        then Inr (Some ''No configured wallet matches the active delegate'')
        else Inr None))))))"

definition logEdfReadiness :: "security_env \<Rightarrow> string \<Rightarrow> string option security" where
  "logEdfReadiness E blockTag =
     catchE (andThen (onWallet (walletAddresses (sv_wallet E))) (\<lambda>addresses. liftR (edfReadiness E blockTag addresses)))
       (\<lambda>error. ret (Some ''EDF preflight check failed''))"

text \<open>\<open>initialize\<close>; the report is not waited for and nothing depends on it.\<close>

definition initializeSecurity :: "security_env \<Rightarrow> string \<Rightarrow> guardian_context security" where
  "initializeSecurity E blockTag =
     andThen (logEdfReadiness E blockTag) (\<lambda>_.
     andThen (getGuardianExecutionContext E blockTag) (\<lambda>context.
     andThen (onWallet (monitorGuardianBalance (sv_wallet E))) (\<lambda>_. ret context)))"

section \<open>Signatures\<close>

definition securitySignDepositData ::
  "security_env \<Rightarrow> string \<Rightarrow> nat \<Rightarrow> nat \<Rightarrow> string \<Rightarrow> nat \<Rightarrow> guardian_context \<Rightarrow> signature security" where
  "securitySignDepositData E depositRoot nonce blockNumber blockHash stakingModuleId context =
     andThen (liftR (getAttestMessagePrefix E blockHash)) (\<lambda>prefix.
     andThen (selectWallet E context) (\<lambda>_.
       onWallet (signDepositData (sv_wallet E)
         \<lparr>si_dsmVersion = Some (gc_dsmVersion context), si_guardianAddress = Some (gc_guardianAddress context),
          sd_prefix = prefix, sd_blockNumber = blockNumber, sd_blockHash = blockHash, sd_depositRoot = depositRoot,
          sd_nonce = nonce, sd_stakingModuleId = stakingModuleId\<rparr>)))"

definition securitySignPauseData :: "security_env \<Rightarrow> nat \<Rightarrow> string \<Rightarrow> guardian_context \<Rightarrow> signature security" where
  "securitySignPauseData E blockNumber blockHash context =
     andThen (liftR (getPauseMessagePrefix E blockHash)) (\<lambda>prefix.
     andThen (selectWallet E context) (\<lambda>_.
       onWallet (signPauseData (sv_wallet E)
         \<lparr>si_dsmVersion = Some (gc_dsmVersion context), si_guardianAddress = Some (gc_guardianAddress context),
          sz_prefix = prefix, sz_blockNumber = blockNumber\<rparr>)))"

definition securitySignUnvetData ::
  "security_env \<Rightarrow> nat \<Rightarrow> nat \<Rightarrow> string \<Rightarrow> nat \<Rightarrow> string \<Rightarrow> string \<Rightarrow> guardian_context \<Rightarrow> signature security" where
  "securitySignUnvetData E nonce blockNumber blockHash stakingModuleId operatorIds vettedKeysByOperator context =
     andThen (liftR (getUnvetMessagePrefix E blockHash)) (\<lambda>prefix.
     andThen (selectWallet E context) (\<lambda>_.
       onWallet (signUnvetData (sv_wallet E)
         \<lparr>si_dsmVersion = Some (gc_dsmVersion context), si_guardianAddress = Some (gc_guardianAddress context),
          sn_prefix = prefix, sn_blockNumber = blockNumber, sn_blockHash = blockHash, sn_stakingModuleId = stakingModuleId,
          sn_nonce = nonce, sn_operatorIds = operatorIds, sn_vettedKeysByOperator = vettedKeysByOperator\<rparr>)))"

section \<open>Transactions\<close>

definition sendTx :: "security_env \<Rightarrow> transaction \<Rightarrow> unit security" where
  "sendTx E tx = andThen (liftR (sv_sendTransaction E tx)) (\<lambda>txHash. emit [SendTransaction tx])"

definition pauseBody :: "security_env \<Rightarrow> nat \<Rightarrow> signature \<Rightarrow> guardian_context \<Rightarrow> unit security" where
  "pauseBody E pauseBlockNumber sig context =
     andThen (emit [CounterInc PauseAttempts]) (\<lambda>_.
     andThen (getTxDeps E context) (\<lambda>deps.
     andThen (liftR (st_sendPause (getDsmStrategy (cryptoOf E) (Some (gc_dsmVersion context))) deps pauseBlockNumber sig))
       (sendTx E)))"

definition pauseDeposits :: "security_env \<Rightarrow> nat \<Rightarrow> signature \<Rightarrow> guardian_context \<Rightarrow> unit option security" where
  "pauseDeposits E pauseBlockNumber sig context =
     oneAtTimeStart sy_pausing (\<lambda>b s. s\<lparr>sy_pausing := b\<rparr>) (pauseBody E pauseBlockNumber sig context)"

definition unvetBody :: "security_env \<Rightarrow> unvet_params \<Rightarrow> signature \<Rightarrow> guardian_context \<Rightarrow> unit security" where
  "unvetBody E params sig context =
     andThen (emit [CounterInc UnvetAttempts]) (\<lambda>_.
     andThen (getTxDeps E context) (\<lambda>deps.
     andThen (liftR (st_sendUnvet (getDsmStrategy (cryptoOf E) (Some (gc_dsmVersion context))) deps params sig))
       (sendTx E)))"

text \<open>The call id of \<open>unvetSigningKeys\<close> is the module.\<close>

definition unvetSigningKeys :: "security_env \<Rightarrow> unvet_params \<Rightarrow> signature \<Rightarrow> guardian_context \<Rightarrow> unit option security" where
  "unvetSigningKeys E params sig context =
     (let callId = truthyId (Some (up_stakingModuleId params)) in
      oneAtTimeStart (\<lambda>s. sy_unvetting s callId \<or> sy_unvetting s None)
        (\<lambda>b s. s\<lparr>sy_unvetting := (sy_unvetting s)(callId := b)\<rparr>) (unvetBody E params sig context))"

text \<open>A transaction that was not waited for settles.\<close>

definition settlePause :: "security_state \<Rightarrow> security_state" where
  "settlePause s = s\<lparr>sy_pausing := False\<rparr>"

definition settleUnvet :: "nat \<Rightarrow> security_state \<Rightarrow> security_state" where
  "settleUnvet stakingModuleId s = s\<lparr>sy_unvetting := (sy_unvetting s)(truthyId (Some stakingModuleId) := False)\<rparr>"

section \<open>The wallet of a context\<close>

definition chosen :: "security_env \<Rightarrow> wallet list \<Rightarrow> guardian_context \<Rightarrow> js_error + wallet" where
  "chosen E ws context =
     (if gc_dsmVersion context = DSM_CONTRACT_VERSION_5
      then bindR (cl_getAddress (cryptoOf E) (gc_delegateAddress context)) (\<lambda>a.
        case find (\<lambda>w. wl_address w = a) ws of
          None \<Rightarrow> Inl (Error (''No configured wallet private key matches active delegate '' @ a))
        | Some w \<Rightarrow> Inr w)
      else Inr (hd ws))"

abbreviation "walletInv E ws s \<equiv> wallet_inv (sv_wallet E) ws (sy_wallet s)"

definition withWallet :: "wallet \<Rightarrow> wallet list \<Rightarrow> security_state \<Rightarrow> security_state" where
  "withWallet w ws s = s\<lparr>sy_wallet := activated w ws (sy_wallet s)\<rparr>"

lemma withWallet_fields [simp]:
  "sy_wallet (withWallet w ws s) = activated w ws (sy_wallet s)"
  "sy_pausing (withWallet w ws s) = sy_pausing s" "sy_unvetting (withWallet w ws s) = sy_unvetting s"
  by (simp_all add: withWallet_def)

lemma signer_iff: "st_signer (getDsmStrategy L (Some v)) = Delegate \<longleftrightarrow> v = DSM_CONTRACT_VERSION_5"
  by (simp add: getDsmStrategy_def v4Strategy_def v5Strategy_def)

lemma chosen_in: "chosen E ws context = Inr w \<Longrightarrow> ws \<noteq> [] \<Longrightarrow> w \<in> set ws"
  by (auto simp: chosen_def bindR_Inr_iff dest: find_SomeD split: if_split_asm option.split_asm)

lemma selectWallet_ok:
  assumes "walletInv E ws s" "chosen E ws context = Inr w"
  shows "selectWallet E context s = (Inr (), withWallet w ws s, [])"
  using assms
  by (auto simp: selectWallet_def signer_iff chosen_def zoom_def selectLegacyWallet_eq selectDelegateWallet_eq
      withWallet_def bindR_Inr_iff split: if_split_asm option.split_asm option.split)

lemma selectWallet_fails:
  assumes "walletInv E ws s" "chosen E ws context = Inl e"
  shows "\<exists>t. selectWallet E context s = (Inl e, t, []) \<and> walletInv E ws t \<and> sy_pausing t = sy_pausing s \<and>
    sy_unvetting t = sy_unvetting s"
  using assms
  by (auto simp: selectWallet_def signer_iff chosen_def zoom_def selectDelegateWallet_eq bindR_def
      split: if_split_asm option.split_asm option.split sum.split_asm)

lemma walletInv_withWallet:
  "walletInv E ws s \<Longrightarrow> chosen E ws context = Inr w \<Longrightarrow> walletInv E ws (withWallet w ws s)"
  by (simp add: wallet_inv_activated chosen_in wallet_inv_nonempty)

lemma zoomed_sign:
  "onWallet (signMessage W d) (withWallet w ws s) = (we_signDigest W (wl_privateKey w) d, withWallet w ws s, [])"
  by (simp add: zoom_def signMessage_activated withWallet_def)

text \<open>
  A signature: prefix, wallet of the context, digest, in this order; what stays of the call is the
  wallet it selected.
\<close>

definition signedWith ::
  "security_env \<Rightarrow> wallet list \<Rightarrow> guardian_context \<Rightarrow> js_error + string \<Rightarrow> (string \<Rightarrow> js_error + string) \<Rightarrow> js_error + signature" where
  "signedWith E ws context prefix digest =
     bindR prefix (\<lambda>p. bindR (chosen E ws context) (\<lambda>w. bindR (digest p) (\<lambda>d.
       we_signDigest (sv_wallet E) (wl_privateKey w) d)))"

definition sameFlags :: "security_state \<Rightarrow> security_state \<Rightarrow> bool" where
  "sameFlags s t \<longleftrightarrow> sy_pausing t = sy_pausing s \<and> sy_unvetting t = sy_unvetting s"

lemma sign_run:
  assumes "walletInv E ws s"
  shows "\<exists>t. andThen (liftR prefix) (\<lambda>p. andThen (selectWallet E context) (\<lambda>_.
      onWallet (andThen (liftR (digest p)) (signMessage (sv_wallet E))))) s = (signedWith E ws context prefix digest, t, []) \<and>
    walletInv E ws t \<and> sameFlags s t"
proof (cases prefix)
  case (Inl e)
  with assms show ?thesis by (simp add: signedWith_def sameFlags_def)
next
  case p: (Inr p)
  show ?thesis
  proof (cases "chosen E ws context")
    case (Inl e)
    with selectWallet_fails [OF assms this] show ?thesis by (auto simp: p andThen_apply signedWith_def sameFlags_def)
  next
    case (Inr w)
    note sel = selectWallet_ok [OF assms Inr] and inv = walletInv_withWallet [OF assms Inr]
    show ?thesis
      using inv
      by (cases "digest p")
         (auto simp: p andThen_step sel Inr zoom_def signMessage_activated signedWith_def sameFlags_def withWallet_def)
  qed
qed

definition depositParams ::
  "string \<Rightarrow> string \<Rightarrow> nat \<Rightarrow> nat \<Rightarrow> string \<Rightarrow> nat \<Rightarrow> guardian_context \<Rightarrow> sign_deposit" where
  "depositParams prefix depositRoot nonce blockNumber blockHash stakingModuleId context =
     \<lparr>si_dsmVersion = Some (gc_dsmVersion context), si_guardianAddress = Some (gc_guardianAddress context),
      sd_prefix = prefix, sd_blockNumber = blockNumber, sd_blockHash = blockHash, sd_depositRoot = depositRoot,
      sd_nonce = nonce, sd_stakingModuleId = stakingModuleId\<rparr>"

definition pauseParams :: "string \<Rightarrow> nat \<Rightarrow> guardian_context \<Rightarrow> sign_pause" where
  "pauseParams prefix blockNumber context =
     \<lparr>si_dsmVersion = Some (gc_dsmVersion context), si_guardianAddress = Some (gc_guardianAddress context),
      sz_prefix = prefix, sz_blockNumber = blockNumber\<rparr>"

abbreviation "strategyOf E context \<equiv> getDsmStrategy (cryptoOf E) (Some (gc_dsmVersion context))"

definition unvetSignParams ::
  "string \<Rightarrow> nat \<Rightarrow> nat \<Rightarrow> string \<Rightarrow> nat \<Rightarrow> string \<Rightarrow> string \<Rightarrow> guardian_context \<Rightarrow> sign_unvet" where
  "unvetSignParams prefix nonce blockNumber blockHash stakingModuleId operatorIds vettedKeysByOperator context =
     \<lparr>si_dsmVersion = Some (gc_dsmVersion context), si_guardianAddress = Some (gc_guardianAddress context),
      sn_prefix = prefix, sn_blockNumber = blockNumber, sn_blockHash = blockHash, sn_stakingModuleId = stakingModuleId,
      sn_nonce = nonce, sn_operatorIds = operatorIds, sn_vettedKeysByOperator = vettedKeysByOperator\<rparr>"

definition depositSigned where
  "depositSigned E ws root nonce blockNumber blockHash moduleId context =
     signedWith E ws context (getAttestMessagePrefix E blockHash)
       (\<lambda>p. st_depositDigest (strategyOf E context) (depositParams p root nonce blockNumber blockHash moduleId context))"

definition pauseSigned where
  "pauseSigned E ws blockNumber blockHash context =
     signedWith E ws context (getPauseMessagePrefix E blockHash)
       (\<lambda>p. st_pauseDigest (strategyOf E context) (pauseParams p blockNumber context))"

definition unvetSigned where
  "unvetSigned E ws nonce blockNumber blockHash moduleId ids counts context =
     signedWith E ws context (getUnvetMessagePrefix E blockHash)
       (\<lambda>p. st_unvetDigest (strategyOf E context) (unvetSignParams p nonce blockNumber blockHash moduleId ids counts context))"

lemma signDeposit_run:
  "walletInv E ws s \<Longrightarrow>
   \<exists>t. securitySignDepositData E root nonce blockNumber blockHash moduleId context s =
     (depositSigned E ws root nonce blockNumber blockHash moduleId context, t, []) \<and> walletInv E ws t \<and> sameFlags s t"
  unfolding depositSigned_def securitySignDepositData_def signDepositData_def depositParams_def sign_deposit.select_convs
    signing_identity.select_convs by (rule sign_run)

lemma signPause_run:
  "walletInv E ws s \<Longrightarrow>
   \<exists>t. securitySignPauseData E blockNumber blockHash context s =
     (pauseSigned E ws blockNumber blockHash context, t, []) \<and> walletInv E ws t \<and> sameFlags s t"
  unfolding pauseSigned_def securitySignPauseData_def signPauseData_def pauseParams_def sign_pause.select_convs
    signing_identity.select_convs by (rule sign_run)

lemma signUnvet_run:
  "walletInv E ws s \<Longrightarrow>
   \<exists>t. securitySignUnvetData E nonce blockNumber blockHash moduleId ids counts context s =
     (unvetSigned E ws nonce blockNumber blockHash moduleId ids counts context, t, []) \<and> walletInv E ws t \<and> sameFlags s t"
  unfolding unvetSigned_def securitySignUnvetData_def signUnvetData_def unvetSignParams_def sign_unvet.select_convs
    signing_identity.select_convs by (rule sign_run)

section \<open>Transactions of a context\<close>

definition depsOf :: "string \<Rightarrow> wallet \<Rightarrow> guardian_context \<Rightarrow> dsm_tx_deps" where
  "depsOf contract w context =
     \<lparr>td_dsm = \<lparr>cn_wallet = wl_address w, cn_address = contract\<rparr>,
      td_delegation = (\<lambda>_. Inr \<lparr>cn_wallet = wl_address w, cn_address = gc_guardianAddress context\<rparr>),
      td_dsmAddress = gc_dsmAddress context\<rparr>"

lemma getWallet_with: "onWallet (getWallet W) (withWallet w ws s) = (Inr w, withWallet w ws s, [])"
  by (simp add: zoom_def getWallet_def withWallet_def)

lemma withWallet_idem [simp]: "withWallet w ws (withWallet w ws s) = withWallet w ws s"
  by (simp add: withWallet_def activated_def cached_def)

lemma getTxDeps_ok:
  assumes "walletInv E ws s" "chosen E ws context = Inr w" "sv_dsmContract E = Inr contract"
  shows "getTxDeps E context s = (Inr (depsOf contract w context), withWallet w ws s, [])"
proof -
  note again = selectWallet_ok [OF walletInv_withWallet [OF assms(1,2)] assms(2)]
  show ?thesis
    by (simp add: getTxDeps_def andThen_step selectWallet_ok [OF assms(1,2)] getContractWithSigner_def getWallet_with
        assms(3) depsOf_def getDelegationContractWithSigner_def again fun_eq_iff)
qed

definition pauseTransaction :: "security_env \<Rightarrow> string \<Rightarrow> wallet \<Rightarrow> guardian_context \<Rightarrow> nat \<Rightarrow> signature \<Rightarrow> js_error + transaction" where
  "pauseTransaction E contract w context blockNumber sig =
     st_sendPause (strategyOf E context) (depsOf contract w context) blockNumber sig"

definition unvetTransaction :: "security_env \<Rightarrow> string \<Rightarrow> wallet \<Rightarrow> guardian_context \<Rightarrow> unvet_params \<Rightarrow> signature \<Rightarrow> js_error + transaction" where
  "unvetTransaction E contract w context params sig =
     st_sendUnvet (strategyOf E context) (depsOf contract w context) params sig"

text \<open>A transaction goes from the wallet of the context, under version 5 through the guardian's contract.\<close>

lemma pauseTransaction_shape:
  assumes "pauseTransaction E contract w context blockNumber sig = Inr tx"
  shows "tr_wallet tx = wl_address w \<and>
    (if gc_dsmVersion context = DSM_CONTRACT_VERSION_5
     then tr_contract tx = gc_guardianAddress context \<and> (\<exists>callData. tr_call tx = Execute (gc_dsmAddress context) callData 0)
     else tr_contract tx = contract \<and> tr_call tx = PauseDeposits blockNumber (sig_r sig, sig_vs sig))"
  using assms
  by (auto simp: pauseTransaction_def getDsmStrategy_def v4Strategy_def v5Strategy_def v4SendPause_def v5SendPause_def
      executeOn_def depsOf_def bindR_Inr_iff compactSignature_def split: if_split_asm)

lemma sendTx_eq:
  "sendTx E tx s = (case sv_sendTransaction E tx of Inl e \<Rightarrow> (Inl e, s, []) | Inr h \<Rightarrow> (Inr (), s, [SendTransaction tx]))"
  by (simp add: sendTx_def split: sum.split)

text \<open>
  The transaction a call sends when it may run: the wallet of the context and the contract are
  there, the call can be built and the node takes it.
\<close>

definition sentBy ::
  "security_env \<Rightarrow> wallet list \<Rightarrow> guardian_context \<Rightarrow> (dsm_tx_deps \<Rightarrow> js_error + transaction) \<Rightarrow> transaction option" where
  "sentBy E ws context mk =
     (case bindR (chosen E ws context) (\<lambda>w. bindR (sv_dsmContract E) (\<lambda>contract.
        bindR (mk (depsOf contract w context)) (\<lambda>tx. bindR (sv_sendTransaction E tx) (\<lambda>txHash. Inr tx)))) of
        Inr tx \<Rightarrow> Some tx
      | Inl e \<Rightarrow> None)"

definition sentActs :: "transaction option \<Rightarrow> effect list" where
  "sentActs sent = (case sent of None \<Rightarrow> [] | Some tx \<Rightarrow> [SendTransaction tx])"

lemma sentActs_simps [simp]:
  "sentActs None = []" "sentActs (Some tx) = [SendTransaction tx]" "acts (sentActs sent) = sentActs sent"
  by (simp_all add: sentActs_def split: option.split)

abbreviation sendBody ::
  "security_env \<Rightarrow> counter \<Rightarrow> guardian_context \<Rightarrow> (dsm_tx_deps \<Rightarrow> js_error + transaction) \<Rightarrow> unit security" where
  "sendBody E c context mk \<equiv>
     andThen (emit [CounterInc c]) (\<lambda>_. andThen (getTxDeps E context) (\<lambda>deps. andThen (liftR (mk deps)) (sendTx E)))"

lemma sendBody_run:
  assumes inv: "walletInv E ws s"
  obtains r t where "sendBody E c context mk s = (r, t, CounterInc c # sentActs (sentBy E ws context mk))"
    "walletInv E ws t" "sy_pausing t = sy_pausing s" "sy_unvetting t = sy_unvetting s"
    "isl r \<longleftrightarrow> sentBy E ws context mk = None"
proof (cases "chosen E ws context")
  case (Inl e)
  from selectWallet_fails [OF inv this] obtain t where
    "selectWallet E context s = (Inl e, t, [])" "walletInv E ws t" "sy_pausing t = sy_pausing s" "sy_unvetting t = sy_unvetting s"
    by blast
  with that [of "Inl e" t] Inl show ?thesis by (simp add: getTxDeps_def andThen_apply sentBy_def)
next
  case w: (Inr w)
  note inv' = walletInv_withWallet [OF inv w]
  show ?thesis
  proof (cases "sv_dsmContract E")
    case (Inl e)
    with that [of "Inl e" "withWallet w ws s"] inv' w show ?thesis
      by (simp add: getTxDeps_def andThen_apply selectWallet_ok [OF inv w] getContractWithSigner_def getWallet_with sentBy_def)
  next
    case contract: (Inr contract)
    note deps = getTxDeps_ok [OF inv w contract]
    show ?thesis
    proof (cases "mk (depsOf contract w context)")
      case (Inl e)
      with that [of "Inl e" "withWallet w ws s"] inv' w contract show ?thesis
        by (simp add: andThen_apply deps sentBy_def)
    next
      case (Inr tx)
      with that [of "map_sum id (\<lambda>_. ()) (sv_sendTransaction E tx)" "withWallet w ws s"] inv' w contract show ?thesis
        by (cases "sv_sendTransaction E tx") (simp_all add: andThen_apply deps sentBy_def sendTx_eq)
    qed
  qed
qed

definition pauseSent :: "security_env \<Rightarrow> wallet list \<Rightarrow> nat \<Rightarrow> signature \<Rightarrow> guardian_context \<Rightarrow> transaction option" where
  "pauseSent E ws blockNumber sig context =
     sentBy E ws context (\<lambda>deps. st_sendPause (strategyOf E context) deps blockNumber sig)"

definition unvetSent :: "security_env \<Rightarrow> wallet list \<Rightarrow> unvet_params \<Rightarrow> signature \<Rightarrow> guardian_context \<Rightarrow> transaction option" where
  "unvetSent E ws params sig context =
     sentBy E ws context (\<lambda>deps. st_sendUnvet (strategyOf E context) deps params sig)"

text \<open>
  What a call of \<open>pauseDeposits\<close> or \<open>unvetSigningKeys\<close> does: it never throws, sends at most one
  transaction, and leaves its flag set exactly when one is on its way.
\<close>

lemma pauseDeposits_run:
  assumes "walletInv E ws s"
  obtains r t out where "pauseDeposits E blockNumber sig context s = (Inr r, t, out)" "walletInv E ws t"
    "sy_unvetting t = sy_unvetting s"
    "acts out = (if sy_pausing s then [] else sentActs (pauseSent E ws blockNumber sig context))"
    "sy_pausing t \<longleftrightarrow> sy_pausing s \<or> pauseSent E ws blockNumber sig context \<noteq> None"
proof (cases "sy_pausing s")
  case True
  then have "pauseDeposits E blockNumber sig context s = (Inr None, s, [])"
    by (simp add: pauseDeposits_def oneAtTimeStart_busy)
  from that [OF this] True assms show ?thesis by simp
next
  case idle: False
  let ?s = "s\<lparr>sy_pausing := True\<rparr>"
  have "walletInv E ws ?s" using assms by simp
  then obtain r t where body: "pauseBody E blockNumber sig context ?s =
      (r, t, CounterInc PauseAttempts # sentActs (pauseSent E ws blockNumber sig context))"
    and t: "walletInv E ws t" "sy_pausing t = sy_pausing ?s" "sy_unvetting t = sy_unvetting ?s"
    and r: "isl r \<longleftrightarrow> pauseSent E ws blockNumber sig context = None"
    unfolding pauseBody_def pauseSent_def by (rule sendBody_run)
  from idle have "pauseDeposits E blockNumber sig context s =
      (Inr (case r of Inl e \<Rightarrow> None | Inr x \<Rightarrow> Some x), if isl r then t\<lparr>sy_pausing := False\<rparr> else t,
       CounterInc PauseAttempts # sentActs (pauseSent E ws blockNumber sig context))"
    unfolding pauseDeposits_def by (rule oneAtTimeStart_run) (rule body)
  from that [OF this] idle t r show ?thesis by simp
qed

lemma unvetSigningKeys_run:
  fixes params :: unvet_params
  assumes "walletInv E ws s"
  defines "i \<equiv> truthyId (Some (up_stakingModuleId params))"
  obtains r t out where "unvetSigningKeys E params sig context s = (Inr r, t, out)" "walletInv E ws t"
    "sy_pausing t = sy_pausing s" "\<And>j. j \<noteq> i \<Longrightarrow> sy_unvetting t j = sy_unvetting s j"
    "acts out = (if sy_unvetting s i \<or> sy_unvetting s None then [] else sentActs (unvetSent E ws params sig context))"
    "\<not> sy_unvetting s None \<Longrightarrow> sy_unvetting t i \<longleftrightarrow> sy_unvetting s i \<or> unvetSent E ws params sig context \<noteq> None"
proof (cases "sy_unvetting s i \<or> sy_unvetting s None")
  case True
  then have "unvetSigningKeys E params sig context s = (Inr None, s, [])"
    by (auto simp: unvetSigningKeys_def Let_def oneAtTimeStart_busy i_def)
  with that True assms(1) show ?thesis by auto
next
  case idle: False
  let ?s = "s\<lparr>sy_unvetting := (sy_unvetting s)(i := True)\<rparr>"
  have "walletInv E ws ?s" using assms by simp
  then obtain r t where body: "unvetBody E params sig context ?s =
      (r, t, CounterInc UnvetAttempts # sentActs (unvetSent E ws params sig context))"
    and t: "walletInv E ws t" "sy_pausing t = sy_pausing ?s" "sy_unvetting t = sy_unvetting ?s"
    and r: "isl r \<longleftrightarrow> unvetSent E ws params sig context = None"
    unfolding unvetBody_def unvetSent_def by (rule sendBody_run)
  from idle have "unvetSigningKeys E params sig context s =
      (Inr (case r of Inl e \<Rightarrow> None | Inr x \<Rightarrow> Some x),
       if isl r then t\<lparr>sy_unvetting := (sy_unvetting t)(i := False)\<rparr> else t,
       CounterInc UnvetAttempts # sentActs (unvetSent E ws params sig context))"
    unfolding unvetSigningKeys_def Let_def i_def by (rule oneAtTimeStart_run) (rule body [unfolded i_def])
  from that [OF this] idle t r show ?thesis by simp
qed

section \<open>The context of a guardian\<close>

lemma zoom_ok:
  "zoom sel upd m s = (Inr x, t, out) \<longleftrightarrow> (\<exists>u. m (sel s) = (Inr x, u, out) \<and> t = upd u s)"
  by (auto simp: zoom_def split: prod.splits)

lemma dsmVersionAt_ok:
  assumes "walletInv E ws s" "dsmVersionAt E blockTag s = (Inr v, t, out)"
  shows "walletInv E ws t \<and> out = [] \<and> sv_VERSION E blockTag = Inr (int v) \<and>
    (v = DSM_CONTRACT_VERSION_4 \<or> v = DSM_CONTRACT_VERSION_5)"
proof -
  from getWallet_ok [OF assms(1)] obtain u where u:
    "onWallet (getWallet (sv_wallet E)) s = (Inr (activeOf ws (sy_wallet s)), s\<lparr>sy_wallet := u\<rparr>, [])" "wallet_inv (sv_wallet E) ws u"
    by (auto simp: zoom_def)
  with assms(2) show ?thesis
    by (auto simp: dsmVersionAt_def getContractWithSigner_def andThen_ok u DSM_CONTRACT_SUPPORTED_VERSIONS_def
        toNumber_def split: if_split_asm)
qed

lemma toNumber_iff: "toNumber n = Inr m \<longleftrightarrow> n = int m \<and> n \<le> MAX_SAFE_INTEGER"
  by (auto simp: toNumber_def)

lemma getMaxOperators_run:
  assumes "walletInv E ws s"
  shows "\<exists>t. getMaxOperatorsPerUnvetting E blockTag s =
      (bindR (sv_dsmContract E) (\<lambda>_. bindR (sv_getMaxOperatorsPerUnvetting E blockTag) toNumber), t, []) \<and>
    walletInv E ws t \<and> sameFlags s t"
proof -
  from getWallet_ok [OF assms] obtain u where u:
    "onWallet (getWallet (sv_wallet E)) s = (Inr (activeOf ws (sy_wallet s)), s\<lparr>sy_wallet := u\<rparr>, [])" "wallet_inv (sv_wallet E) ws u"
    by (auto simp: zoom_def)
  then show ?thesis
    by (cases "sv_dsmContract E")
       (auto simp: getMaxOperatorsPerUnvetting_def getContractWithSigner_def andThen_apply sameFlags_def)
qed

text \<open>The facts a context rests on, at the block it was made for.\<close>

definition legacy_facts :: "security_env \<Rightarrow> string \<Rightarrow> wallet list \<Rightarrow> guardian_context \<Rightarrow> bool" where
  "legacy_facts E blockTag ws c \<longleftrightarrow>
     gc_mode c = LegacyEoa \<and> gc_guardianAddress c = gc_delegateAddress c \<and>
     cl_getAddress (cryptoOf E) (wl_address (hd ws)) = Inr (gc_delegateAddress c)"

definition edf_facts :: "security_env \<Rightarrow> string \<Rightarrow> guardian_context \<Rightarrow> bool" where
  "edf_facts E blockTag c \<longleftrightarrow>
     gc_mode c = Edf \<and> gc_guardianIndex c \<noteq> -1 \<and>
     cl_getAddress (cryptoOf E) (sv_DELEGATION_CONTRACT_ADDRESS E) = Inr (gc_guardianAddress c) \<and>
     (\<exists>code. sv_getCode E (gc_guardianAddress c) blockTag = Inr code \<and> code \<noteq> ''0x'') \<and>
     sv_isTerminated E (gc_guardianAddress c) blockTag = Inr False \<and>
     sv_supportsInterface E (gc_guardianAddress c) ERC1271_INTERFACE_ID blockTag = Inr True \<and>
     (\<exists>delegate. sv_getDelegate E (gc_guardianAddress c) blockTag = Inr delegate \<and> delegate \<noteq> AddressZero \<and>
        cl_getAddress (cryptoOf E) delegate = Inr (gc_delegateAddress c))"

definition listed_at :: "security_env \<Rightarrow> string \<Rightarrow> guardian_context \<Rightarrow> bool" where
  "listed_at E blockTag c \<longleftrightarrow>
     (\<exists>guardians. sv_getGuardians E blockTag = Inr guardians \<and>
        gc_guardianIndex c = findGuardianIndex guardians (gc_guardianAddress c))"

lemma legacyContext_ok:
  assumes "walletInv E ws s" "legacyContext E blockTag a v s = (Inr c, t, out)"
  shows "walletInv E ws t \<and> out = [] \<and> gc_dsmVersion c = v \<and> gc_dsmAddress c = a \<and> legacy_facts E blockTag ws c \<and>
    listed_at E blockTag c \<and> ws_activeWallet (sy_wallet t) = Some (hd ws)"
proof -
  have "hd ws \<in> set ws" using wallet_inv_nonempty [OF assms(1)] by simp
  note inv = wallet_inv_activated [OF assms(1) this]
  show ?thesis
    using assms(2) inv
    by (auto simp: legacyContext_def andThen_ok zoom_ok selectLegacyWallet_eq [OF assms(1)] walletAddress_def getWallet_def
        legacy_facts_def listed_at_def getGuardians_def bindR_Inr_iff)
qed

lemma edfContext_ok:
  assumes "walletInv E ws s" "edfContext E blockTag a v s = (Inr c, t, out)"
  shows "walletInv E ws t \<and> out = [] \<and> gc_dsmVersion c = v \<and> gc_dsmAddress c = a \<and> edf_facts E blockTag c \<and>
    listed_at E blockTag c \<and>
    (\<exists>n w. cl_getAddress (cryptoOf E) (gc_delegateAddress c) = Inr n \<and> find (\<lambda>w. wl_address w = n) ws = Some w \<and>
      ws_activeWallet (sy_wallet t) = Some w)"
proof -
  from assms(2) obtain u where
    c: "edf_facts E blockTag c" "listed_at E blockTag c" "gc_dsmVersion c = v" "gc_dsmAddress c = a"
    and sel: "selectDelegateWallet (sv_wallet E) (gc_delegateAddress c) (sy_wallet s) = (Inr (), u, out)" "t = s\<lparr>sy_wallet := u\<rparr>"
    by (auto simp: edfContext_def Let_def andThen_ok zoom_ok edf_facts_def listed_at_def getGuardians_def bindR_Inr_iff
        split: if_split_asm)
  from sel obtain n w where "cl_getAddress (cryptoOf E) (gc_delegateAddress c) = Inr n"
    "find (\<lambda>w. wl_address w = n) ws = Some w" "u = activated w ws (sy_wallet s)" "out = []"
    by (auto simp: selectDelegateWallet_eq [OF assms(1)] split: sum.split_asm option.split_asm)
  with c sel(2) find_SomeD [of "\<lambda>w. wl_address w = n" ws w] wallet_inv_activated [OF assms(1)] show ?thesis by auto
qed

lemma context_ok:
  assumes "walletInv E ws s" "getGuardianExecutionContext E blockTag s = (Inr c, t, out)"
  shows "walletInv E ws t \<and> out = [] \<and> sv_VERSION E blockTag = Inr (int (gc_dsmVersion c)) \<and> listed_at E blockTag c \<and>
    (if gc_dsmVersion c = DSM_CONTRACT_VERSION_5 then edf_facts E blockTag c
     else gc_dsmVersion c = DSM_CONTRACT_VERSION_4 \<and> legacy_facts E blockTag ws c) \<and>
    (\<exists>w. chosen E ws c = Inr w \<and> ws_activeWallet (sy_wallet t) = Some w)"
proof -
  from assms(2) obtain u v a where version: "dsmVersionAt E blockTag s = (Inr v, u, [])"
    and rest: "(if v \<noteq> DSM_CONTRACT_VERSION_5 then legacyContext E blockTag a v else edfContext E blockTag a v) u = (Inr c, t, out)"
    using dsmVersionAt_ok [OF assms(1)] by (fastforce simp: getGuardianExecutionContext_def andThen_ok)
  note u = dsmVersionAt_ok [OF assms(1) version]
  from u have inv: "walletInv E ws u" by simp
  show ?thesis
    using u rest legacyContext_ok [OF inv, of blockTag a v c t out] edfContext_ok [OF inv, of blockTag a v c t out]
    by (auto simp: chosen_def split: if_split_asm)
qed

text \<open>
  C35: A signature does not depend on the wallet that was active: the deposit and the pause signature
  for a context are those of the wallet of the context (the delegate's under version 5, the first
  one otherwise) on the digest of the version of the context, whatever wallet another task had
  selected before; when the delegate has no configured wallet, or the digest cannot be made, the
  call throws and nothing is signed.
\<close>

theorem signatures_by_context:
  assumes "walletInv E ws s"
  shows "fst (securitySignDepositData E root nonce blockNumber blockHash moduleId context s) =
     bindR (getAttestMessagePrefix E blockHash) (\<lambda>p. bindR (chosen E ws context) (\<lambda>w.
     bindR (st_depositDigest (strategyOf E context) (depositParams p root nonce blockNumber blockHash moduleId context))
       (we_signDigest (sv_wallet E) (wl_privateKey w)))) \<and>
    fst (securitySignPauseData E blockNumber blockHash context s) =
     bindR (getPauseMessagePrefix E blockHash) (\<lambda>p. bindR (chosen E ws context) (\<lambda>w.
     bindR (st_pauseDigest (strategyOf E context) (pauseParams p blockNumber context))
       (we_signDigest (sv_wallet E) (wl_privateKey w))))"
  using signDeposit_run [OF assms, of root nonce blockNumber blockHash moduleId "context"]
    signPause_run [OF assms, of blockNumber blockHash "context"]
  by (auto simp: depositSigned_def pauseSigned_def signedWith_def)

text \<open>
  C10: A context that \<open>getGuardianExecutionContext\<close> returns rests on the contract at the block it was
  asked for: the version is supported and the guardian's index is its place in the guardian list;
  under version 4 guardian and delegate are the first wallet; under version 5 the guardian is the
  configured delegation contract, it has code, supports ERC-1271, is not terminated, is in the
  guardian list, and its delegate is not the zero address. The active wallet is then the one that
  signs for this context, and all of the invariant holds again.
\<close>

theorem execution_context_sound:
  assumes "walletInv E ws s" "getGuardianExecutionContext E blockTag s = (Inr c, t, out)"
  shows "walletInv E ws t \<and> sv_VERSION E blockTag = Inr (int (gc_dsmVersion c)) \<and> listed_at E blockTag c \<and>
    (if gc_dsmVersion c = DSM_CONTRACT_VERSION_5 then edf_facts E blockTag c
     else gc_dsmVersion c = DSM_CONTRACT_VERSION_4 \<and> legacy_facts E blockTag ws c) \<and>
    (\<exists>w. chosen E ws c = Inr w \<and> ws_activeWallet (sy_wallet t) = Some w)"
  using context_ok [OF assms] by blast


section \<open>An instance\<close>

definition demoAddress :: "char \<Rightarrow> string" where
  "demoAddress x = ''0x'' @ replicate 40 x"

definition demoWallets :: "wallet list" where
  "demoWallets = [\<lparr>wl_privateKey = ''k1'', wl_address = demoAddress CHR ''1''\<rparr>, \<lparr>wl_privateKey = ''k2'', wl_address = demoAddress CHR ''2''\<rparr>]"

definition demoWalletEnv :: wallet_env where
  "demoWalletEnv =
     \<lparr>we_crypto = ref_crypto, we_privateKeys = [''k1'', '''', ''k2''],
      we_newWallet = (\<lambda>k. case find (\<lambda>w. wl_privateKey w = k) demoWallets of Some w \<Rightarrow> Inr w | None \<Rightarrow> Inl TypeError),
      we_randomKey = ''k1'',
      we_signDigest = (\<lambda>k d. Inr \<lparr>sig_r = k, sig_s = d, sig_v = 27, sig_vs = d\<rparr>),
      we_getBalance = (\<lambda>a. Inr 100), we_getTransactionCount = (\<lambda>a tag. Inr 3), we_criticalBalance = 10, we_minBalance = 50\<rparr>"

definition demoSecurity :: "int \<Rightarrow> security_env" where
  "demoSecurity version =
     \<lparr>sv_wallet = demoWalletEnv, sv_dsmContract = Inr (demoAddress CHR ''d''),
      sv_getGuardians = (\<lambda>_. Inr [demoAddress CHR ''9'', demoAddress CHR ''1'', demoAddress CHR ''e'']),
      sv_VERSION = (\<lambda>_. Inr version), sv_isDepositsPaused = (\<lambda>_. Inr False),
      sv_getMaxOperatorsPerUnvetting = (\<lambda>_. Inr 2),
      sv_ATTEST_MESSAGE_PREFIX = (\<lambda>_. Inr (''0x'' @ replicate 64 CHR ''a'')),
      sv_PAUSE_MESSAGE_PREFIX = (\<lambda>_. Inr (''0x'' @ replicate 64 CHR ''b'')),
      sv_UNVET_MESSAGE_PREFIX = (\<lambda>_. Inr (''0x'' @ replicate 64 CHR ''c'')),
      sv_DELEGATION_CONTRACT_ADDRESS = demoAddress CHR ''e'',
      sv_getCode = (\<lambda>_ _. Inr ''0x6001''), sv_getDelegate = (\<lambda>_ _. Inr (demoAddress CHR ''2'')),
      sv_isTerminated = (\<lambda>_ _. Inr False), sv_supportsInterface = (\<lambda>_ _ _. Inr True),
      sv_sendTransaction = (\<lambda>_. Inr ''0xhash'')\<rparr>"

definition demoSecurityState :: security_state where
  "demoSecurityState =
     \<lparr>sy_wallet = \<lparr>ws_activeWallet = None, ws_cachedWallets = None, ws_monitoring = False\<rparr>,
      sy_pausing = False, sy_unvetting = (\<lambda>_. False)\<rparr>"

lemma demo_walletInv: "walletInv (demoSecurity v) demoWallets demoSecurityState"
  by (simp add: wallet_inv_def configuredKeys_def demoSecurity_def demoWalletEnv_def demoSecurityState_def demoWallets_def)

definition demoContext5 :: guardian_context where
  "demoContext5 =
     \<lparr>gc_dsmAddress = demoAddress CHR ''d'', gc_dsmVersion = 5, gc_delegateAddress = demoAddress CHR ''2'',
      gc_guardianAddress = demoAddress CHR ''e'', gc_guardianIndex = 2, gc_mode = Edf\<rparr>"

lemma demo_context: "fst (getGuardianExecutionContext (demoSecurity 5) ''b'' demoSecurityState) = Inr demoContext5"
  by code_simp

lemma demo_chosen: "chosen (demoSecurity 5) demoWallets demoContext5 = Inr (demoWallets ! 1)"
  by code_simp

lemma demo_pause: "tr_wallet (the (pauseSent (demoSecurity 5) demoWallets 7 \<lparr>sig_r = ''0x1'', sig_s = ''0x2'', sig_v = 27, sig_vs = ''0x3''\<rparr> demoContext5)) = demoAddress CHR ''2''"
  "pauseSent (demoSecurity 5) demoWallets 7 \<lparr>sig_r = ''0x1'', sig_s = ''0x2'', sig_v = 27, sig_vs = ''0x3''\<rparr> demoContext5 \<noteq> None"
  by (code_simp, code_simp)

theorem signatures_by_context_witness:
  "\<exists>d. fst (securitySignPauseData (demoSecurity 5) 7 ''b'' demoContext5 demoSecurityState) =
     Inr \<lparr>sig_r = ''k2'', sig_s = d, sig_v = 27, sig_vs = d\<rparr>"
proof -
  have "isl (bindR (getPauseMessagePrefix (demoSecurity 5) ''b'') (\<lambda>p.
      st_pauseDigest (strategyOf (demoSecurity 5) demoContext5) (pauseParams p 7 demoContext5))) = False"
    by code_simp
  then obtain d where "bindR (getPauseMessagePrefix (demoSecurity 5) ''b'') (\<lambda>p.
      st_pauseDigest (strategyOf (demoSecurity 5) demoContext5) (pauseParams p 7 demoContext5)) = Inr d"
    by (auto simp: isl_def intro: sum.exhaust)
  with signatures_by_context [OF demo_walletInv, of 5 "''r''" 1 7 "''b''" 1 demoContext5]
  show ?thesis
    by (auto simp: demo_chosen bindR_Inr_iff) (simp add: demoSecurity_def demoWalletEnv_def demoWallets_def)
qed

theorem execution_context_sound_witness:
  "edf_facts (demoSecurity 5) ''b'' demoContext5 \<and> listed_at (demoSecurity 5) ''b'' demoContext5"
proof -
  obtain t out where "getGuardianExecutionContext (demoSecurity 5) ''b'' demoSecurityState = (Inr demoContext5, t, out)"
    using demo_context by (cases "getGuardianExecutionContext (demoSecurity 5) ''b'' demoSecurityState") auto
  from execution_context_sound [OF demo_walletInv this] show ?thesis
    by (simp add: demoContext5_def DSM_CONTRACT_VERSION_5_def)
qed


end
