(* ===== verification/Messages.thy ===== *)
theory Messages
  imports Guardian_Types Bls
begin

text \<open>
  Messages on their way to the broker: \<open>guardian/guardian-message/guardian-message.service.ts\<close> adds
  the type and the data of the application, \<open>messages/messages.service.ts\<close> finds the topic of the
  chain and publishes. The transport and the provider are parameters. A message is in the outputs
  when the transport took it.
\<close>

record messages_env =
  me_getNetwork :: "js_error + nat"
  me_BROKER_TOPIC :: string
  me_publish :: "string \<Rightarrow> message \<Rightarrow> message_app \<Rightarrow> js_error + unit"
  me_app :: message_app

type_synonym 's sending = "('s, effect, unit) comp"

section \<open>The topic\<close>

definition MESSAGE_TOPIC_PREFIX_BY_NETWORK :: "nat \<rightharpoonup> string" where
  "MESSAGE_TOPIC_PREFIX_BY_NETWORK = map_of
     [(Mainnet, ''mainnet''), (Goerli, ''goerli''), (Holesky, ''holesky''), (Hoodi, ''hoodi''),
      (LOCAL_DEVNET_CHAIN_ID, ''testnet'')]"

definition getMessageTopicPrefix :: "nat \<Rightarrow> js_error + string" where
  "getMessageTopicPrefix chainId =
     (case MESSAGE_TOPIC_PREFIX_BY_NETWORK chainId of
        None \<Rightarrow> Inl (Error (''Chain '' @ dec_string chainId @ '' is not supported''))
      | Some prefix \<Rightarrow> Inr prefix)"

definition getMessageTopic :: "messages_env \<Rightarrow> js_error + string" where
  "getMessageTopic M =
     bindR (me_getNetwork M) (\<lambda>chainId.
     bindR (getMessageTopicPrefix chainId) (\<lambda>prefix. Inr (prefix @ ''-'' @ me_BROKER_TOPIC M)))"

section \<open>Sending\<close>

definition sendMessage :: "messages_env \<Rightarrow> message \<Rightarrow> message_app \<Rightarrow> 's sending" where
  "sendMessage M msg app =
     andThen (liftR (getMessageTopic M)) (\<lambda>topic.
     andThen (liftR (me_publish M topic msg app)) (\<lambda>_.
       emit [Publish topic msg app, CounterInc (SentMessages (message_type_of msg))]))"

definition addMessageMetaData :: "messages_env \<Rightarrow> message \<Rightarrow> message \<times> message_app" where
  "addMessageMetaData M msg = (msg, me_app M)"

definition sendMessageFromGuardian :: "messages_env \<Rightarrow> message \<Rightarrow> 's sending" where
  "sendMessageFromGuardian M messageData =
     (if mr_guardianIndex (required_fields messageData) = -1 then ret ()
      else case addMessageMetaData M messageData of (msg, app) \<Rightarrow> sendMessage M msg app)"

definition pingMessageBroker :: "messages_env \<Rightarrow> nat list \<Rightarrow> block_data \<Rightarrow> 's sending" where
  "pingMessageBroker M stakingModuleIds blockData =
     sendMessageFromGuardian M (Message_Ping
       \<lparr>mr_guardianAddress = bk_guardianAddress blockData, mr_guardianIndex = bk_guardianIndex blockData,
        mr_dsmVersion = None, mg_blockNumber = bk_blockNumber blockData, mg_stakingModuleIds = stakingModuleIds\<rparr>)"

definition sendDepositMessage :: "messages_env \<Rightarrow> message_deposit \<Rightarrow> 's sending" where
  "sendDepositMessage M msg = sendMessageFromGuardian M (Message_Deposit msg)"

definition sendPauseMessage :: "messages_env \<Rightarrow> message_pause \<Rightarrow> 's sending" where
  "sendPauseMessage M msg = sendMessageFromGuardian M (Message_Pause msg)"

definition sendUnvetMessage :: "messages_env \<Rightarrow> message_unvet \<Rightarrow> 's sending" where
  "sendUnvetMessage M msg = sendMessageFromGuardian M (Message_Unvet msg)"

section \<open>What is published\<close>

text \<open>
  The messages a call publishes: none when the guardian is not in the list, when the chain has no
  topic or when the transport fails.
\<close>

definition publishedFor :: "messages_env \<Rightarrow> message \<Rightarrow> effect list" where
  "publishedFor M msg =
     (if mr_guardianIndex (required_fields msg) = -1 then []
      else case getMessageTopic M of
        Inl e \<Rightarrow> []
      | Inr topic \<Rightarrow> (case me_publish M topic msg (me_app M) of
          Inl e \<Rightarrow> [] | Inr _ \<Rightarrow> [Publish topic msg (me_app M)]))"

lemma sendMessageFromGuardian_eq:
  "sendMessageFromGuardian M msg s =
    (if mr_guardianIndex (required_fields msg) = -1 then (Inr (), s, [])
     else case bindR (getMessageTopic M) (\<lambda>topic. bindR (me_publish M topic msg (me_app M)) (\<lambda>_. Inr topic)) of
       Inl e \<Rightarrow> (Inl e, s, [])
     | Inr topic \<Rightarrow> (Inr (), s, [Publish topic msg (me_app M), CounterInc (SentMessages (message_type_of msg))]))"
  by (simp add: sendMessageFromGuardian_def addMessageMetaData_def sendMessage_def andThen_apply bindR_def split: sum.split)

lemma sendMessageFromGuardian_run:
  "\<exists>r out. sendMessageFromGuardian M msg s = (r, s, out) \<and> acts out = publishedFor M msg \<and> (isl r \<longrightarrow> publishedFor M msg = [])"
  by (auto simp: sendMessageFromGuardian_eq publishedFor_def bindR_def split: sum.split)

lemmas send_defs = sendDepositMessage_def sendPauseMessage_def sendUnvetMessage_def pingMessageBroker_def

section \<open>An instance\<close>

definition demoMessages :: messages_env where
  "demoMessages =
     \<lparr>me_getNetwork = Inr Holesky, me_BROKER_TOPIC = ''defender'', me_publish = (\<lambda>topic msg app. Inr ()),
      me_app = \<lparr>ap_version = ''1.0'', ap_name = ''daemon''\<rparr>\<rparr>"

end
