(* ===== verification/Keys_Validation.thy ===== *)
theory Keys_Validation
  imports Guardian_Types Bls "HOL-Library.Multiset"
begin

text \<open>
  Validation of the deposit signatures of keys (\<open>guardian/keys-validation/keys-validation.service.ts\<close>).
  The cache of \<open>lru-cache\<close> and the validator of \<open>@lido-nestjs/key-validation\<close> are parameters; the
  serialised deposit data, a JSON text, is the record it stands for.
\<close>

record serialized_deposit =
  dj_key :: string
  dj_depositSignature :: string
  dj_withdrawalCredentials :: string
  dj_genesisForkVersion :: string

record deposit_key = registry_key +
  dk_withdrawalCredentials :: bytes
  dk_genesisForkVersion :: bytes

text \<open>A read may change the order in which entries are dropped, a write may drop other entries.\<close>

record 'c lru_lib =
  lr_empty :: 'c
  lr_get :: "serialized_deposit \<Rightarrow> 'c \<Rightarrow> bool option \<times> 'c"
  lr_set :: "serialized_deposit \<Rightarrow> bool \<Rightarrow> 'c \<Rightarrow> 'c"

record 'c validation_env =
  kv_lru :: "'c lru_lib"
  kv_bufferFromHexString :: "string \<Rightarrow> js_error + bytes"
  kv_getNetwork :: "js_error + nat"
  kv_validateKeys :: "deposit_key list \<Rightarrow> js_error + (deposit_key \<times> bool) list"

definition DEPOSIT_DATA_LRU_CACHE_SIZE :: nat where
  "DEPOSIT_DATA_LRU_CACHE_SIZE = 80000"

definition serializeDepositData :: "deposit_key \<Rightarrow> serialized_deposit" where
  "serializeDepositData dkey =
     \<lparr>dj_key = lk_key dkey, dj_depositSignature = lk_depositSignature dkey,
      dj_withdrawalCredentials = toHex (dk_withdrawalCredentials dkey),
      dj_genesisForkVersion = toHex (dk_genesisForkVersion dkey)\<rparr>"

definition getCachedDepositData :: "'c validation_env \<Rightarrow> deposit_key \<Rightarrow> ('c, effect, bool option) comp" where
  "getCachedDepositData V dkey =
     (\<lambda>cache. case lr_get (kv_lru V) (serializeDepositData dkey) cache of (r, cache') \<Rightarrow> (Inr r, cache', []))"

definition forkVersion :: "'c validation_env \<Rightarrow> js_error + bytes" where
  "forkVersion V =
     bindR (kv_getNetwork V) (\<lambda>chainId.
       case GENESIS_FORK_VERSION_BY_CHAIN_ID chainId of
         None \<Rightarrow> Inl (Error (''Unsupported chain id '' @ dec_string chainId))
       | Some v \<Rightarrow> Inr v)"

definition depositKeyOf :: "bytes \<Rightarrow> bytes \<Rightarrow> registry_key \<Rightarrow> deposit_key" where
  "depositKeyOf wc fork key =
     registry_key.extend key \<lparr>dk_withdrawalCredentials = wc, dk_genesisForkVersion = fork\<rparr>"

fun partitionCachedData ::
  "'c validation_env \<Rightarrow> bytes \<Rightarrow> bytes \<Rightarrow> registry_key list \<Rightarrow> ('c, effect, registry_key list \<times> deposit_key list) comp" where
  "partitionCachedData V wc fork [] = ret ([], [])"
| "partitionCachedData V wc fork (key # keys) =
     andThen (getCachedDepositData V (depositKeyOf wc fork key)) (\<lambda>cacheResult.
     andThen (partitionCachedData V wc fork keys) (\<lambda>(cachedInvalidKeyList, uncachedDepositKeyList).
       ret (if cacheResult = Some False then key # cachedInvalidKeyList else cachedInvalidKeyList,
            if cacheResult = None then depositKeyOf wc fork key # uncachedDepositKeyList else uncachedDepositKeyList)))"

definition updateCache :: "'c validation_env \<Rightarrow> (deposit_key \<times> bool) list \<Rightarrow> 'c \<Rightarrow> 'c" where
  "updateCache V validatedKeys cache =
     fold (\<lambda>(depositData, isValid). lr_set (kv_lru V) (serializeDepositData depositData) isValid) validatedKeys cache"

definition filterInvalidKeys :: "(deposit_key \<times> bool) list \<Rightarrow> registry_key list" where
  "filterInvalidKeys validatedKeys =
     map (\<lambda>(data, isValid).
       \<lparr>lk_key = lk_key data, lk_depositSignature = lk_depositSignature data, lk_operatorIndex = lk_operatorIndex data,
        lk_used = lk_used data, lk_index = lk_index data, lk_moduleAddress = lk_moduleAddress data,
        lk_vetted = lk_vetted data\<rparr>)
       (filter (\<lambda>(data, isValid). \<not> isValid) validatedKeys)"

definition validateInvalidKeys ::
  "'c validation_env \<Rightarrow> registry_key list \<Rightarrow> string \<Rightarrow> ('c, effect, registry_key list) comp" where
  "validateInvalidKeys V keys withdrawalCredentials =
     andThen (liftR (kv_bufferFromHexString V withdrawalCredentials)) (\<lambda>withdrawalCredentialsBuffer.
     andThen (liftR (forkVersion V)) (\<lambda>genesisForkVersion.
     andThen (partitionCachedData V withdrawalCredentialsBuffer genesisForkVersion keys)
       (\<lambda>(cachedInvalidKeyList, uncachedDepositKeyList).
     andThen (liftR (kv_validateKeys V uncachedDepositKeyList)) (\<lambda>validatedDepositKeyList.
     andThen (modifyS (updateCache V validatedDepositKeyList)) (\<lambda>_.
       ret (cachedInvalidKeyList @ filterInvalidKeys validatedDepositKeyList))))))"

section \<open>The libraries\<close>

definition lru_laws :: "'c lru_lib \<Rightarrow> bool" where
  "lru_laws L \<longleftrightarrow>
     (\<forall>k. fst (lr_get L k (lr_empty L)) = None) \<and>
     (\<forall>k k' c. fst (lr_get L k' (snd (lr_get L k c))) = fst (lr_get L k' c)) \<and>
     (\<forall>k v k' w c. fst (lr_get L k' (lr_set L k v c)) = Some w \<longrightarrow>
        (k' = k \<and> w = v) \<or> fst (lr_get L k' c) = Some w)"

text \<open>
  The validator answers for every key it was given, in any order; the answer depends on the
  deposit data of the key alone.
\<close>

definition validator_laws :: "'c validation_env \<Rightarrow> (serialized_deposit \<Rightarrow> bool) \<Rightarrow> bool" where
  "validator_laws V valid \<longleftrightarrow>
     (\<forall>ks rs. kv_validateKeys V ks = Inr rs \<longrightarrow> mset rs = mset (map (\<lambda>k. (k, valid (serializeDepositData k))) ks))"

section \<open>What the cache knows is true\<close>

definition cache_inv :: "'c validation_env \<Rightarrow> (serialized_deposit \<Rightarrow> bool) \<Rightarrow> 'c \<Rightarrow> bool" where
  "cache_inv V valid c \<longleftrightarrow> (\<forall>k v. fst (lr_get (kv_lru V) k c) = Some v \<longrightarrow> v = valid k)"

lemma cache_inv_empty: "lru_laws (kv_lru V) \<Longrightarrow> cache_inv V valid (lr_empty (kv_lru V))"
  by (simp add: lru_laws_def cache_inv_def)

lemma cache_inv_get:
  "lru_laws (kv_lru V) \<Longrightarrow> cache_inv V valid c \<Longrightarrow> cache_inv V valid (snd (lr_get (kv_lru V) k c))"
  by (simp add: lru_laws_def cache_inv_def)

lemma cache_inv_set:
  "lru_laws (kv_lru V) \<Longrightarrow> cache_inv V valid c \<Longrightarrow> v = valid k \<Longrightarrow> cache_inv V valid (lr_set (kv_lru V) k v c)"
  unfolding lru_laws_def cache_inv_def by metis

lemma cache_inv_updateCache:
  assumes "lru_laws (kv_lru V)" "cache_inv V valid c" "\<forall>(k, v)\<in>set rs. v = valid (serializeDepositData k)"
  shows "cache_inv V valid (updateCache V rs c)"
  using assms(2,3) unfolding updateCache_def
proof (induction rs arbitrary: c)
  case (Cons r rs)
  obtain k v where r: "r = (k, v)" by (cases r)
  with Cons.prems have "cache_inv V valid (lr_set (kv_lru V) (serializeDepositData k) v c)"
    by (intro cache_inv_set [OF assms(1)]) auto
  with Cons.IH Cons.prems(2) r show ?case by simp
qed simp

abbreviation depositDataOf :: "bytes \<Rightarrow> bytes \<Rightarrow> registry_key \<Rightarrow> serialized_deposit" where
  "depositDataOf wc fork key \<equiv> serializeDepositData (depositKeyOf wc fork key)"

lemma truncate_depositKeyOf [simp]: "registry_key.truncate (depositKeyOf wc fork key) = key"
  by (cases key) (simp add: depositKeyOf_def registry_key.defs)

lemma filterInvalidKeys_eq:
  "filterInvalidKeys rs = map (registry_key.truncate \<circ> fst) (filter (\<lambda>r. \<not> snd r) rs)"
  by (simp add: filterInvalidKeys_def registry_key.defs case_prod_unfold comp_def)

lemma partitionCachedData_run:
  assumes "lru_laws (kv_lru V)" "cache_inv V valid c"
  shows "\<exists>old new c'. partitionCachedData V wc fork keys c = (Inr (old, map (depositKeyOf wc fork) new), c', []) \<and>
    cache_inv V valid c' \<and>
    mset (filter (\<lambda>k. \<not> valid (depositDataOf wc fork k)) keys) =
      mset old + mset (filter (\<lambda>k. \<not> valid (depositDataOf wc fork k)) new)"
  using assms(2)
proof (induction keys arbitrary: c)
  case (Cons key keys)
  obtain r c1 where get: "lr_get (kv_lru V) (depositDataOf wc fork key) c = (r, c1)" by force
  with cache_inv_get [OF assms(1) Cons.prems, of "depositDataOf wc fork key"] have "cache_inv V valid c1" by simp
  from Cons.IH [OF this] obtain old new c' where IH:
    "partitionCachedData V wc fork keys c1 = (Inr (old, map (depositKeyOf wc fork) new), c', [])" "cache_inv V valid c'"
    "mset (filter (\<lambda>k. \<not> valid (depositDataOf wc fork k)) keys) =
      mset old + mset (filter (\<lambda>k. \<not> valid (depositDataOf wc fork k)) new)"
    by blast
  have known: "v = valid (depositDataOf wc fork key)" if "r = Some v" for v
    using Cons.prems get that unfolding cache_inv_def by (metis fst_conv)
  have run: "partitionCachedData V wc fork (key # keys) c =
      (Inr (if r = Some False then key # old else old,
            map (depositKeyOf wc fork) (if r = None then key # new else new)), c', [])"
    by (simp add: andThen_apply getCachedDepositData_def get IH(1))
  show ?case
    by (rule exI [of _ "if r = Some False then key # old else old"],
        rule exI [of _ "if r = None then key # new else new"], rule exI [of _ c'])
       (use run IH known in \<open>auto simp: option.split_asm split: option.splits\<close>)
qed simp

lemma mset_filter_invalid:
  assumes "mset rs = mset (map (\<lambda>k. (k, valid (serializeDepositData k))) (map (depositKeyOf wc fork) new))"
  shows "mset (filterInvalidKeys rs) = mset (filter (\<lambda>k. \<not> valid (depositDataOf wc fork k)) new)"
proof -
  have "mset (filterInvalidKeys rs) = image_mset (registry_key.truncate \<circ> fst) (filter_mset (\<lambda>r. \<not> snd r) (mset rs))"
    by (simp add: filterInvalidKeys_eq flip: mset_filter mset_map)
  also have "\<dots> = mset (filter (\<lambda>k. \<not> valid (depositDataOf wc fork k)) new)"
    unfolding assms by (induction new) simp_all
  finally show ?thesis .
qed

text \<open>The two outcomes of a call: the validator answers or not, and what the cache then holds is true.\<close>

lemma validateInvalidKeys_run:
  assumes "lru_laws (kv_lru V)" "validator_laws V valid" "cache_inv V valid c"
  shows "cache_inv V valid (fst (snd (validateInvalidKeys V keys w c)))" (is ?inv)
    and "snd (snd (validateInvalidKeys V keys w c)) = []" (is ?quiet)
    and "validateInvalidKeys V keys w c = (Inr bad, c', out) \<Longrightarrow>
      \<exists>wc fork. kv_bufferFromHexString V w = Inr wc \<and> forkVersion V = Inr fork \<and>
        mset bad = mset (filter (\<lambda>k. \<not> valid (depositDataOf wc fork k)) keys)"
proof -
  have "?inv \<and> ?quiet \<and> (\<forall>bad c' out. validateInvalidKeys V keys w c = (Inr bad, c', out) \<longrightarrow>
      (\<exists>wc fork. kv_bufferFromHexString V w = Inr wc \<and> forkVersion V = Inr fork \<and>
        mset bad = mset (filter (\<lambda>k. \<not> valid (depositDataOf wc fork k)) keys)))"
  proof (cases "\<exists>wc fork. kv_bufferFromHexString V w = Inr wc \<and> forkVersion V = Inr fork")
    case False
    then show ?thesis
      using assms(3)
      by (cases "kv_bufferFromHexString V w"; cases "forkVersion V") (simp_all add: validateInvalidKeys_def)
  next
    case True
    then obtain wc fork where bufs: "kv_bufferFromHexString V w = Inr wc" "forkVersion V = Inr fork" by blast
    from partitionCachedData_run [OF assms(1,3), of wc fork keys] obtain old new c1 where part:
      "partitionCachedData V wc fork keys c = (Inr (old, map (depositKeyOf wc fork) new), c1, [])" "cache_inv V valid c1"
      "mset (filter (\<lambda>k. \<not> valid (depositDataOf wc fork k)) keys) =
        mset old + mset (filter (\<lambda>k. \<not> valid (depositDataOf wc fork k)) new)"
      by blast
    show ?thesis
    proof (cases "kv_validateKeys V (map (depositKeyOf wc fork) new)")
      case (Inl e)
      with part(2) show ?thesis by (simp add: validateInvalidKeys_def bufs andThen_apply part(1))
    next
      case (Inr rs)
      with assms(2) have rs: "mset rs = mset (map (\<lambda>k. (k, valid (serializeDepositData k))) (map (depositKeyOf wc fork) new))"
        by (simp only: validator_laws_def)
      then have "set rs = set (map (\<lambda>k. (k, valid (serializeDepositData k))) (map (depositKeyOf wc fork) new))"
        by (rule mset_eq_setD)
      then have "\<forall>(k, v)\<in>set rs. v = valid (serializeDepositData k)" by auto
      then have "cache_inv V valid (updateCache V rs c1)" by (rule cache_inv_updateCache [OF assms(1) part(2)])
      with part(3) mset_filter_invalid [where valid = valid, OF rs] show ?thesis
        by (simp add: validateInvalidKeys_def bufs andThen_apply part(1) Inr)
    qed
  qed
  then show ?inv ?quiet
    "validateInvalidKeys V keys w c = (Inr bad, c', out) \<Longrightarrow>
      \<exists>wc fork. kv_bufferFromHexString V w = Inr wc \<and> forkVersion V = Inr fork \<and>
        mset bad = mset (filter (\<lambda>k. \<not> valid (depositDataOf wc fork k)) keys)"
    by blast+
qed

text \<open>
  C24: The keys reported as invalid are exactly the given keys whose deposit data does not validate, each
  as often as it is given, and what the cache holds does not matter: it only ever holds true
  answers, before and after the call, also when entries were dropped from it or the validator failed.
\<close>

theorem invalid_keys_exact:
  assumes "lru_laws (kv_lru V)" "validator_laws V valid" "cache_inv V valid c"
  shows "cache_inv V valid (fst (snd (validateInvalidKeys V keys w c))) \<and>
    (\<forall>bad c' out. validateInvalidKeys V keys w c = (Inr bad, c', out) \<longrightarrow>
      (\<exists>wc fork. kv_bufferFromHexString V w = Inr wc \<and> forkVersion V = Inr fork \<and>
        mset bad = mset (filter (\<lambda>k. \<not> valid (depositDataOf wc fork k)) keys)))"
  using validateInvalidKeys_run [OF assms] by blast

section \<open>An instance\<close>

text \<open>A list of at most \<open>n\<close> entries, the most recent one first.\<close>

definition ref_lru :: "nat \<Rightarrow> (serialized_deposit \<times> bool) list lru_lib" where
  "ref_lru n =
     \<lparr>lr_empty = [],
      lr_get = (\<lambda>k c. (map_of c k, case map_of c k of None \<Rightarrow> c | Some v \<Rightarrow> (k, v) # filter (\<lambda>e. fst e \<noteq> k) c)),
      lr_set = (\<lambda>k v c. take n ((k, v) # filter (\<lambda>e. fst e \<noteq> k) c))\<rparr>"

lemma map_of_filter_key: "map_of (filter (\<lambda>e. fst e \<noteq> k) c) k' = (if k' = k then None else map_of c k')"
  by (induction c) auto

lemma map_of_take: "map_of (take n c) k = Some v \<Longrightarrow> map_of c k = Some v"
  by (induction c arbitrary: n) (auto simp: take_Cons split: nat.split_asm)

lemma ref_lru_laws: "lru_laws (ref_lru n)"
proof -
  have "(k' = k \<and> w = v) \<or> map_of c k' = Some w" if "map_of (take n ((k, v) # filter (\<lambda>e. fst e \<noteq> k) c)) k' = Some w"
    for k k' :: serialized_deposit and v w c
    using map_of_take [OF that] by (auto simp: map_of_filter_key split: if_split_asm)
  then show ?thesis
    unfolding lru_laws_def
    by (intro conjI allI impI) (simp_all add: ref_lru_def map_of_filter_key split: option.split)
qed

definition demoValid :: "serialized_deposit \<Rightarrow> bool" where
  "demoValid d \<longleftrightarrow> dj_depositSignature d = ''0xgood''"

definition demoValidation :: "(serialized_deposit \<times> bool) list validation_env" where
  "demoValidation =
     \<lparr>kv_lru = ref_lru 2, kv_bufferFromHexString = (\<lambda>s. Inr [1]), kv_getNetwork = Inr Holesky,
      kv_validateKeys = (\<lambda>ks. Inr (map (\<lambda>k. (k, demoValid (serializeDepositData k))) (rev ks)))\<rparr>"

lemma demo_validator_laws: "validator_laws demoValidation demoValid"
  by (simp add: validator_laws_def demoValidation_def rev_map [symmetric])

definition demoSignedKey :: "nat \<Rightarrow> string \<Rightarrow> registry_key" where
  "demoSignedKey n signature =
     \<lparr>lk_key = [char_of (65 + n)], lk_depositSignature = signature, lk_operatorIndex = n, lk_used = False, lk_index = n,
      lk_moduleAddress = ''0xm'', lk_vetted = True\<rparr>"

definition demoSignedKeys :: "registry_key list" where
  "demoSignedKeys = [demoSignedKey 0 ''0xgood'', demoSignedKey 1 ''0xbad'', demoSignedKey 2 ''0xbad'']"

text \<open>The first call fills the cache, the second one is answered from it.\<close>

lemma demo_validation_run:
  "fst (validateInvalidKeys demoValidation demoSignedKeys ''0x01''
     (fst (snd (validateInvalidKeys demoValidation (tl demoSignedKeys) ''0x01'' [])))) =
   Inr [demoSignedKey 1 ''0xbad'', demoSignedKey 2 ''0xbad'']"
  by (simp add: validateInvalidKeys_def demoValidation_def forkVersion_def GENESIS_FORK_VERSION_BY_CHAIN_ID_def chain_defs
      demoSignedKeys_def andThen_apply getCachedDepositData_def ref_lru_def serializeDepositData_def depositKeyOf_def
      registry_key.defs demoSignedKey_def updateCache_def filterInvalidKeys_def demoValid_def)

theorem invalid_keys_exact_witness:
  "\<exists>wc fork. mset [demoSignedKey 1 ''0xbad'', demoSignedKey 2 ''0xbad''] =
     mset (filter (\<lambda>k. \<not> demoValid (depositDataOf wc fork k)) demoSignedKeys)"
proof -
  have lru: "lru_laws (kv_lru demoValidation)" by (simp add: demoValidation_def ref_lru_laws)
  have "cache_inv demoValidation demoValid []"
    using cache_inv_empty [OF lru] by (simp add: demoValidation_def ref_lru_def)
  from validateInvalidKeys_run(1) [OF lru demo_validator_laws this]
  have "cache_inv demoValidation demoValid (fst (snd (validateInvalidKeys demoValidation (tl demoSignedKeys) ''0x01'' [])))" .
  from invalid_keys_exact [OF lru demo_validator_laws this, of demoSignedKeys "''0x01''"] demo_validation_run
  show ?thesis by (metis prod.exhaust_sel)
qed

end
