(* ===== verification/Staking_Module_Guard.thy ===== *)
theory Staking_Module_Guard
  imports Security Messages Keys_Validation Front_Run_Checks
begin

text \<open>
  The acts of the guard of the staking modules
  (\<open>guardian/staking-module-guard/staking-module-guard.service.ts\<close>): the pause, the deposit message
  and the validation of keys; its checks of deposit events are in \<open>Front_Run_Checks\<close>.
\<close>

record 'c guard_env =
  ge_security :: security_env
  ge_messages :: messages_env
  ge_validation :: "'c validation_env"

record 'c guard_state =
  gu_security :: security_state
  gu_validation :: 'c
  gu_lastContractsState :: "nat \<rightharpoonup> contracts_state"

type_synonym ('c, 'a) guard = "('c guard_state, effect, 'a) comp"

abbreviation onSecurity :: "'a security \<Rightarrow> ('c, 'a) guard" where
  "onSecurity \<equiv> zoom gu_security (\<lambda>t s. s\<lparr>gu_security := t\<rparr>)"

abbreviation onValidation :: "('c, effect, 'a) comp \<Rightarrow> ('c, 'a) guard" where
  "onValidation \<equiv> zoom gu_validation (\<lambda>t s. s\<lparr>gu_validation := t\<rparr>)"

definition GUARDIAN_DEPOSIT_RESIGNING_BLOCKS :: nat where
  "GUARDIAN_DEPOSIT_RESIGNING_BLOCKS = 10"

section \<open>Pause\<close>

definition pauseMessageOf :: "block_data \<Rightarrow> signature \<Rightarrow> message_pause" where
  "pauseMessageOf bk sig =
     \<lparr>mr_guardianAddress = bk_guardianAddress bk, mr_guardianIndex = bk_guardianIndex bk,
      mr_dsmVersion = Some (gc_dsmVersion (bk_guardianContext bk)), mp_blockNumber = bk_blockNumber bk,
      mp_blockHash = bk_blockHash bk, mp_signature = sig\<rparr>"

definition handlePause :: "'c guard_env \<Rightarrow> block_data \<Rightarrow> ('c, unit) guard" where
  "handlePause G blockData =
     andThen (onSecurity (securitySignPauseData (ge_security G) (bk_blockNumber blockData) (bk_blockHash blockData)
                (bk_guardianContext blockData))) (\<lambda>sig.
     andThen (onSecurity (pauseDeposits (ge_security G) (bk_blockNumber blockData) sig (bk_guardianContext blockData))) (\<lambda>_.
       sendPauseMessage (ge_messages G) (pauseMessageOf blockData sig)))"

section \<open>Deposit messages\<close>

definition isSameContractsStates :: "contracts_state option \<Rightarrow> contracts_state option \<Rightarrow> bool" where
  "isSameContractsStates firstState secondState =
     (case (firstState, secondState) of
        (Some a, Some b) \<Rightarrow>
          (if cs_depositRoot a \<noteq> cs_depositRoot b then False
           else if cs_lastChangedBlockHash a \<noteq> cs_lastChangedBlockHash b then False
           else if cs_blockNumber a div GUARDIAN_DEPOSIT_RESIGNING_BLOCKS \<noteq> cs_blockNumber b div GUARDIAN_DEPOSIT_RESIGNING_BLOCKS
           then False
           else True)
      | _ \<Rightarrow> False)"

definition currentContractState :: "module_data \<Rightarrow> block_data \<Rightarrow> contracts_state" where
  "currentContractState sm bk =
     \<lparr>cs_blockNumber = bk_blockNumber bk, cs_nonce = sm_nonce sm, cs_depositRoot = bk_depositRoot bk,
      cs_lastChangedBlockHash = sm_lastChangedBlockHash sm\<rparr>"

definition depositMessageOf :: "module_data \<Rightarrow> block_data \<Rightarrow> signature \<Rightarrow> message_deposit" where
  "depositMessageOf sm bk sig =
     \<lparr>mr_guardianAddress = bk_guardianAddress bk, mr_guardianIndex = bk_guardianIndex bk,
      mr_dsmVersion = Some (gc_dsmVersion (bk_guardianContext bk)), md_depositRoot = bk_depositRoot bk,
      md_nonce = sm_nonce sm, md_blockNumber = bk_blockNumber bk, md_blockHash = bk_blockHash bk, md_signature = sig,
      md_stakingModuleId = sm_stakingModuleId sm\<rparr>"

definition handleCorrectKeys :: "'c guard_env \<Rightarrow> module_data \<Rightarrow> block_data \<Rightarrow> ('c, unit) guard" where
  "handleCorrectKeys G stakingModuleData blockData =
     andThen getS (\<lambda>s.
       let current = currentContractState stakingModuleData blockData;
           lastState = gu_lastContractsState s (sm_stakingModuleId stakingModuleData)
       in if isSameContractsStates (Some current) lastState then ret ()
          else
     andThen (onSecurity (securitySignDepositData (ge_security G) (bk_depositRoot blockData) (sm_nonce stakingModuleData)
                (bk_blockNumber blockData) (bk_blockHash blockData) (sm_stakingModuleId stakingModuleData)
                (bk_guardianContext blockData))) (\<lambda>sig.
     andThen (sendDepositMessage (ge_messages G) (depositMessageOf stakingModuleData blockData sig)) (\<lambda>_.
       modifyS (\<lambda>s. s\<lparr>gu_lastContractsState :=
         (gu_lastContractsState s)(sm_stakingModuleId stakingModuleData \<mapsto> current)\<rparr>))))"

section \<open>Validation\<close>

definition guardInvalidKeys :: "'c guard_env \<Rightarrow> module_data \<Rightarrow> ('c, registry_key list) guard" where
  "guardInvalidKeys G stakingModuleData =
     onValidation (validateInvalidKeys (ge_validation G) (sm_vettedUnusedKeys stakingModuleData)
       (sm_withdrawalCredentials stakingModuleData))"

section \<open>What the guard sends\<close>

abbreviation "guardInv G ws s \<equiv> walletInv (ge_security G) ws (gu_security s)"

definition pauseActs :: "'c guard_env \<Rightarrow> wallet list \<Rightarrow> block_data \<Rightarrow> bool \<Rightarrow> effect list" where
  "pauseActs G ws bk busy =
     (case pauseSigned (ge_security G) ws (bk_blockNumber bk) (bk_blockHash bk) (bk_guardianContext bk) of
        Inl e \<Rightarrow> []
      | Inr sig \<Rightarrow>
          (if busy then [] else sentActs (pauseSent (ge_security G) ws (bk_blockNumber bk) sig (bk_guardianContext bk))) @
          publishedFor (ge_messages G) (Message_Pause (pauseMessageOf bk sig)))"

lemma handlePause_run:
  assumes "guardInv G ws s"
  shows "\<exists>r t out. handlePause G bk s = (r, t, out) \<and> guardInv G ws t \<and>
    gu_validation t = gu_validation s \<and> gu_lastContractsState t = gu_lastContractsState s \<and>
    acts out = pauseActs G ws bk (sy_pausing (gu_security s))"
proof -
  let ?E = "ge_security G" and ?c = "bk_guardianContext bk" and ?n = "bk_blockNumber bk"
  let ?signed = "pauseSigned ?E ws ?n (bk_blockHash bk) ?c"
  obtain u where sign: "securitySignPauseData ?E ?n (bk_blockHash bk) ?c (gu_security s) = (?signed, u, [])"
    "walletInv ?E ws u" "sameFlags (gu_security s) u"
    using signPause_run [OF assms] by blast
  have sign': "onSecurity (securitySignPauseData ?E ?n (bk_blockHash bk) ?c) s = (?signed, s\<lparr>gu_security := u\<rparr>, [])"
    by (rule zoom_eq) (rule sign(1))
  show ?thesis
  proof (cases ?signed)
    case (Inl e)
    with sign sign' show ?thesis by (simp add: handlePause_def andThen_apply pauseActs_def)
  next
    case (Inr sig)
    obtain r v out where tx: "pauseDeposits ?E ?n sig ?c u = (Inr r, v, out)" "walletInv ?E ws v"
      "acts out = (if sy_pausing u then [] else sentActs (pauseSent ?E ws ?n sig ?c))"
      by (rule pauseDeposits_run [OF sign(2)])
    let ?s = "s\<lparr>gu_security := v\<rparr>" and ?m = "Message_Pause (pauseMessageOf bk sig)"
    obtain r' out' where msg: "sendPauseMessage (ge_messages G) (pauseMessageOf bk sig) ?s = (r', ?s, out')"
      "acts out' = publishedFor (ge_messages G) ?m"
      using sendMessageFromGuardian_run [of "ge_messages G" ?m ?s] unfolding sendPauseMessage_def by blast
    have tx': "onSecurity (pauseDeposits ?E ?n sig ?c) (s\<lparr>gu_security := u\<rparr>) = (Inr r, ?s, out)"
      by (simp add: zoom_def tx(1))
    have "handlePause G bk s = (r', ?s, [] @ out @ out')"
      unfolding handlePause_def by (rule andThen_run, rule sign' [unfolded Inr], rule andThen_run, rule tx', rule msg(1))
    with tx(2,3) msg(2) sign(3) Inr show ?thesis by (simp add: pauseActs_def sameFlags_def)
  qed
qed

text \<open>The deposit message, when the state of the contracts is not the one signed last.\<close>

definition depositActs :: "'c guard_env \<Rightarrow> wallet list \<Rightarrow> module_data \<Rightarrow> block_data \<Rightarrow> contracts_state option \<Rightarrow> effect list" where
  "depositActs G ws sm bk lastState =
     (if isSameContractsStates (Some (currentContractState sm bk)) lastState then []
      else case depositSigned (ge_security G) ws (bk_depositRoot bk) (sm_nonce sm) (bk_blockNumber bk) (bk_blockHash bk)
          (sm_stakingModuleId sm) (bk_guardianContext bk) of
        Inl e \<Rightarrow> []
      | Inr sig \<Rightarrow> publishedFor (ge_messages G) (Message_Deposit (depositMessageOf sm bk sig)))"

lemma handleCorrectKeys_run:
  assumes "guardInv G ws s"
  shows "\<exists>r t out. handleCorrectKeys G sm bk s = (r, t, out) \<and> guardInv G ws t \<and> sameFlags (gu_security s) (gu_security t) \<and>
    gu_validation t = gu_validation s \<and>
    acts out = depositActs G ws sm bk (gu_lastContractsState s (sm_stakingModuleId sm)) \<and>
    gu_lastContractsState t =
      (if r = Inr () \<and> \<not> isSameContractsStates (Some (currentContractState sm bk)) (gu_lastContractsState s (sm_stakingModuleId sm))
       then (gu_lastContractsState s)(sm_stakingModuleId sm \<mapsto> currentContractState sm bk) else gu_lastContractsState s) \<and>
    (isl r \<longrightarrow> acts out = [])"
proof (cases "isSameContractsStates (Some (currentContractState sm bk)) (gu_lastContractsState s (sm_stakingModuleId sm))")
  case True
  with assms show ?thesis by (simp add: handleCorrectKeys_def Let_def depositActs_def sameFlags_def)
next
  case changed: False
  let ?E = "ge_security G" and ?c = "bk_guardianContext bk"
  let ?signed = "depositSigned ?E ws (bk_depositRoot bk) (sm_nonce sm) (bk_blockNumber bk) (bk_blockHash bk) (sm_stakingModuleId sm) ?c"
  obtain u where sign: "securitySignDepositData ?E (bk_depositRoot bk) (sm_nonce sm) (bk_blockNumber bk) (bk_blockHash bk)
      (sm_stakingModuleId sm) ?c (gu_security s) = (?signed, u, [])"
    "walletInv ?E ws u" "sameFlags (gu_security s) u"
    using signDeposit_run [OF assms] by blast
  have sign': "onSecurity (securitySignDepositData ?E (bk_depositRoot bk) (sm_nonce sm) (bk_blockNumber bk) (bk_blockHash bk)
      (sm_stakingModuleId sm) ?c) s = (?signed, s\<lparr>gu_security := u\<rparr>, [])"
    by (rule zoom_eq) (rule sign(1))
  show ?thesis
  proof (cases ?signed)
    case (Inl e)
    with sign sign' changed show ?thesis by (simp add: handleCorrectKeys_def Let_def andThen_apply depositActs_def)
  next
    case (Inr sig)
    let ?s = "s\<lparr>gu_security := u\<rparr>" and ?m = "Message_Deposit (depositMessageOf sm bk sig)"
    obtain r out where msg: "sendDepositMessage (ge_messages G) (depositMessageOf sm bk sig) ?s = (r, ?s, out)"
      "acts out = publishedFor (ge_messages G) ?m" "isl r \<longrightarrow> publishedFor (ge_messages G) ?m = []"
      using sendMessageFromGuardian_run [of "ge_messages G" ?m ?s] unfolding sendDepositMessage_def by blast
    with sign sign' changed Inr show ?thesis
      by (cases r) (simp_all add: handleCorrectKeys_def Let_def andThen_apply depositActs_def)
  qed
qed

section \<open>One message for one state\<close>

lemma isSame_iff:
  "isSameContractsStates (Some a) (Some b) \<longleftrightarrow>
   cs_depositRoot a = cs_depositRoot b \<and> cs_lastChangedBlockHash a = cs_lastChangedBlockHash b \<and>
   cs_blockNumber a div 10 = cs_blockNumber b div 10"
  "isSameContractsStates (Some a) None = False"
  by (auto simp: isSameContractsStates_def GUARDIAN_DEPOSIT_RESIGNING_BLOCKS_def)

lemma isSame_trans:
  "isSameContractsStates (Some a) (Some b) \<Longrightarrow> isSameContractsStates (Some b) c \<Longrightarrow> isSameContractsStates (Some a) c"
  by (cases c) (auto simp: isSame_iff)

lemma handleCorrectKeys_same:
  "isSameContractsStates (Some (currentContractState sm bk)) (gu_lastContractsState s (sm_stakingModuleId sm)) \<Longrightarrow>
   handleCorrectKeys G sm bk s = (Inr (), s, [])"
  by (simp add: handleCorrectKeys_def Let_def)

lemma published_one:
  "publishedFor M msg \<noteq> [] \<Longrightarrow>
   \<exists>topic. publishedFor M msg = [Publish topic msg (me_app M)] \<and> getMessageTopic M = Inr topic \<and>
     mr_guardianIndex (required_fields msg) \<noteq> -1"
  by (auto simp: publishedFor_def split: if_split_asm sum.split_asm)

text \<open>
  C9: A deposit message is signed and sent once for each state of the contracts: a call that returns has
  either sent the one message with the signature of the context, or had nothing to send, and after it
  every call for the same module with the same deposit root and the same last changed block does
  nothing until the next window of ten blocks; a call that fails sends nothing and records nothing,
  so that the next one tries again.
\<close>

theorem deposit_message_once:
  assumes "guardInv G ws s"
  shows "\<exists>r t out. handleCorrectKeys G sm bk s = (r, t, out) \<and> guardInv G ws t \<and>
    (acts out \<noteq> [] \<longrightarrow>
      (\<exists>sig topic. depositSigned (ge_security G) ws (bk_depositRoot bk) (sm_nonce sm) (bk_blockNumber bk) (bk_blockHash bk)
           (sm_stakingModuleId sm) (bk_guardianContext bk) = Inr sig \<and>
         acts out = [Publish topic (Message_Deposit (depositMessageOf sm bk sig)) (me_app (ge_messages G))])) \<and>
    (isl r \<longrightarrow> acts out = [] \<and> gu_lastContractsState t = gu_lastContractsState s) \<and>
    (r = Inr () \<longrightarrow>
      (\<forall>sm' bk'. sm_stakingModuleId sm' = sm_stakingModuleId sm \<and> bk_depositRoot bk' = bk_depositRoot bk \<and>
         sm_lastChangedBlockHash sm' = sm_lastChangedBlockHash sm \<and> bk_blockNumber bk' div 10 = bk_blockNumber bk div 10 \<longrightarrow>
         handleCorrectKeys G sm' bk' t = (Inr (), t, [])))"
proof -
  let ?lastState = "gu_lastContractsState s (sm_stakingModuleId sm)" and ?cur = "currentContractState sm bk"
  obtain r t out where run: "handleCorrectKeys G sm bk s = (r, t, out)" "guardInv G ws t"
    "acts out = depositActs G ws sm bk ?lastState"
    "gu_lastContractsState t = (if r = Inr () \<and> \<not> isSameContractsStates (Some ?cur) ?lastState
       then (gu_lastContractsState s)(sm_stakingModuleId sm \<mapsto> ?cur) else gu_lastContractsState s)"
    "isl r \<longrightarrow> acts out = []"
    using handleCorrectKeys_run [OF assms, of sm bk] by blast
  have "\<exists>sig topic. depositSigned (ge_security G) ws (bk_depositRoot bk) (sm_nonce sm) (bk_blockNumber bk) (bk_blockHash bk)
           (sm_stakingModuleId sm) (bk_guardianContext bk) = Inr sig \<and>
         acts out = [Publish topic (Message_Deposit (depositMessageOf sm bk sig)) (me_app (ge_messages G))]"
    if "acts out \<noteq> []"
    using that unfolding run(3) by (auto simp: depositActs_def dest!: published_one split: if_split_asm sum.split_asm)
  moreover have "handleCorrectKeys G sm' bk' t = (Inr (), t, [])"
    if r: "r = Inr ()" and same: "sm_stakingModuleId sm' = sm_stakingModuleId sm" "bk_depositRoot bk' = bk_depositRoot bk"
      "sm_lastChangedBlockHash sm' = sm_lastChangedBlockHash sm" "bk_blockNumber bk' div 10 = bk_blockNumber bk div 10" for sm' bk'
  proof -
    have cur: "isSameContractsStates (Some (currentContractState sm' bk')) (Some ?cur)"
      using same(2-) by (simp add: isSame_iff currentContractState_def)
    have "isSameContractsStates (Some ?cur) (gu_lastContractsState t (sm_stakingModuleId sm'))"
      using r same(1) run(4) by (auto simp: isSame_iff)
    from handleCorrectKeys_same [OF isSame_trans [OF cur this]] show ?thesis .
  qed
  moreover have "isl r \<longrightarrow> gu_lastContractsState t = gu_lastContractsState s" using run(4) by auto
  ultimately show ?thesis using run(1,2,5) by blast
qed

text \<open>
  C39: A pause is a transaction and a message, both with one signature: \<open>handlePause\<close> signs, starts the
  transaction unless an earlier one is on its way, and publishes the message whether or not the
  transaction could be sent; without a signature it sends nothing. It leaves alone what the guard
  remembers of deposit messages.
\<close>

theorem pause_acts:
  assumes "guardInv G ws s"
  shows "\<exists>r t out. handlePause G bk s = (r, t, out) \<and> guardInv G ws t \<and> gu_lastContractsState t = gu_lastContractsState s \<and>
    acts out =
      (case pauseSigned (ge_security G) ws (bk_blockNumber bk) (bk_blockHash bk) (bk_guardianContext bk) of
         Inl e \<Rightarrow> []
       | Inr sig \<Rightarrow>
           (if sy_pausing (gu_security s) then []
            else sentActs (pauseSent (ge_security G) ws (bk_blockNumber bk) sig (bk_guardianContext bk))) @
           publishedFor (ge_messages G) (Message_Pause (pauseMessageOf bk sig)))"
  using handlePause_run [OF assms, of bk] unfolding pauseActs_def by blast

section \<open>An instance\<close>

definition demoGuard :: "(serialized_deposit \<times> bool) list guard_env" where
  "demoGuard = \<lparr>ge_security = demoSecurity 5, ge_messages = demoMessages, ge_validation = demoValidation\<rparr>"

definition demoGuardState :: "(serialized_deposit \<times> bool) list guard_state" where
  "demoGuardState = \<lparr>gu_security = demoSecurityState, gu_validation = [], gu_lastContractsState = Map.empty\<rparr>"

definition demoGuardBlock :: block_data where
  "demoGuardBlock =
     \<lparr>bk_blockNumber = 7, bk_blockHash = ''0x'' @ replicate 64 CHR ''b'', bk_depositRoot = ''0x'' @ replicate 64 CHR ''f'',
      bk_depositedEvents = \<lparr>events = [], startBlock = 0, endBlock = 7\<rparr>, bk_guardianContext = demoContext5,
      bk_guardianAddress = gc_guardianAddress demoContext5, bk_guardianIndex = 2, bk_securityVersion = 5,
      bk_alreadyPausedDeposits = False, bk_hasFrontRunning = True, bk_hasWrongWCType = False,
      bk_walletBalanceCritical = False\<rparr>"

definition demoGuardModule :: module_data where
  "demoGuardModule =
     \<lparr>sm_blockHash = ''0xb'', sm_vettedUnusedKeys = [], sm_nonce = 4, sm_stakingModuleId = 1, sm_stakingModuleAddress = ''0xm'',
      sm_lastChangedBlockHash = ''0xc'', sm_duplicatedKeys = [], sm_invalidKeys = [], sm_crossTypeKeys = [],
      sm_frontRunKeys = [], sm_unresolvedDuplicatedKeys = [], sm_withdrawalCredentials = ''0x01'',
      sm_isModuleDepositsPaused = False\<rparr>"

lemma demo_guardInv: "guardInv demoGuard demoWallets demoGuardState"
  using demo_walletInv by (simp add: demoGuard_def demoGuardState_def)

theorem deposit_message_once_witness:
  "\<exists>r t out. handleCorrectKeys demoGuard demoGuardModule demoGuardBlock demoGuardState = (r, t, out) \<and>
     (r = Inr () \<longrightarrow> handleCorrectKeys demoGuard demoGuardModule demoGuardBlock t = (Inr (), t, []))"
  using deposit_message_once [OF demo_guardInv, of demoGuardModule demoGuardBlock] by blast

theorem pause_acts_witness:
  "\<exists>r t out. handlePause demoGuard demoGuardBlock demoGuardState = (r, t, out) \<and> gu_lastContractsState t = Map.empty"
  using pause_acts [OF demo_guardInv, of demoGuardBlock] by (fastforce simp: demoGuardState_def)

end
