(* ===== verification/Unvetting.thy ===== *)
theory Unvetting
  imports Security Messages
begin

text \<open>
  Unvetting of keys (\<open>guardian/unvetting\<close>): the new number of vetted keys of the operators with a
  flagged key, packed for the contract, a signature, a transaction when the wallet can pay for it,
  and a message. \<open>bytes.ts\<close> is over the padding functions of \<open>ethers\<close>.
\<close>

record unvet_data =
  uv_operatorIds :: string
  uv_vettedKeysByOperator :: string

record unvetting_env =
  un_security :: security_env
  un_messages :: messages_env
  un_hex :: hex_lib

section \<open>bytes.ts\<close>

definition padHex :: "hex_lib \<Rightarrow> nat \<Rightarrow> nat \<Rightarrow> js_error + string" where
  "padHex H decimal byteCount = bindR (hexlify H (int decimal)) (\<lambda>h. hexZeroPad H h byteCount)"

definition padAndJoinHex :: "hex_lib \<Rightarrow> nat list \<Rightarrow> nat \<Rightarrow> js_error + string" where
  "padAndJoinHex H numbers byteCount =
     bindR (traverse (\<lambda>num. bindR (padHex H num byteCount) (\<lambda>h. Inr (drop 2 h))) numbers)
       (\<lambda>paddedHexArray. Inr (''0x'' @ concat paddedHexArray))"

definition packVettedSigningKeysCounts :: "hex_lib \<Rightarrow> nat list \<Rightarrow> js_error + string" where
  "packVettedSigningKeysCounts H vettedSigningKeysCounts = padAndJoinHex H vettedSigningKeysCounts 16"

definition packNodeOperatorIds :: "hex_lib \<Rightarrow> nat list \<Rightarrow> js_error + string" where
  "packNodeOperatorIds H nodeOperatorIds = padAndJoinHex H nodeOperatorIds 8"

section \<open>unvetting.service.ts\<close>

definition collectInvalidKeys :: "module_data \<Rightarrow> registry_key list" where
  "collectInvalidKeys stakingModuleData =
     sm_invalidKeys stakingModuleData @ sm_duplicatedKeys stakingModuleData @ sm_frontRunKeys stakingModuleData @
     sm_crossTypeKeys stakingModuleData"

definition vettedAmountStep :: "registry_key \<Rightarrow> (nat \<times> nat) list \<Rightarrow> (nat \<times> nat) list" where
  "vettedAmountStep key acc =
     (case map_of acc (lk_operatorIndex key) of
        None \<Rightarrow> AList.update (lk_operatorIndex key) (lk_index key) acc
      | Some vettedAmount \<Rightarrow>
          (if lk_index key < vettedAmount then AList.update (lk_operatorIndex key) (lk_index key) acc else acc))"

definition findNewVettedAmount :: "registry_key list \<Rightarrow> (nat \<times> nat) list" where
  "findNewVettedAmount keysForUnvetting = fold vettedAmountStep keysForUnvetting []"

definition getFirstChunk :: "hex_lib \<Rightarrow> (nat \<times> nat) list \<Rightarrow> nat \<Rightarrow> js_error + unvet_data" where
  "getFirstChunk H operatorNewVettedAmount maxOperatorsPerUnvetting =
     (let chunk = take maxOperatorsPerUnvetting operatorNewVettedAmount in
      bindR (packNodeOperatorIds H (map fst chunk)) (\<lambda>operatorIds.
      bindR (packVettedSigningKeysCounts H (map snd chunk)) (\<lambda>vettedKeysByOperator.
        Inr \<lparr>uv_operatorIds = operatorIds, uv_vettedKeysByOperator = vettedKeysByOperator\<rparr>)))"

definition calculateNewStakingLimit :: "hex_lib \<Rightarrow> registry_key list \<Rightarrow> nat \<Rightarrow> js_error + unvet_data" where
  "calculateNewStakingLimit H keysForUnvetting maxOperatorsPerUnvetting =
     getFirstChunk H (findNewVettedAmount keysForUnvetting) maxOperatorsPerUnvetting"

definition unvetMessageOf :: "module_data \<Rightarrow> block_data \<Rightarrow> unvet_data \<Rightarrow> signature \<Rightarrow> message_unvet" where
  "unvetMessageOf sm bk chunk sig =
     \<lparr>mr_guardianAddress = bk_guardianAddress bk, mr_guardianIndex = bk_guardianIndex bk,
      mr_dsmVersion = Some (gc_dsmVersion (bk_guardianContext bk)), mu_nonce = sm_nonce sm,
      mu_blockNumber = bk_blockNumber bk, mu_blockHash = bk_blockHash bk, mu_stakingModuleId = sm_stakingModuleId sm,
      mu_signature = sig, mu_operatorIds = uv_operatorIds chunk, mu_vettedKeysByOperator = uv_vettedKeysByOperator chunk\<rparr>"

definition unvetParamsOf :: "module_data \<Rightarrow> block_data \<Rightarrow> unvet_data \<Rightarrow> unvet_params" where
  "unvetParamsOf sm bk chunk =
     \<lparr>up_nonce = sm_nonce sm, up_blockNumber = bk_blockNumber bk, up_blockHash = bk_blockHash bk,
      up_stakingModuleId = sm_stakingModuleId sm, up_operatorIds = uv_operatorIds chunk,
      up_vettedKeysByOperator = uv_vettedKeysByOperator chunk\<rparr>"

definition processUnvetting :: "unvetting_env \<Rightarrow> module_data \<Rightarrow> block_data \<Rightarrow> unvet_data \<Rightarrow> unit security" where
  "processUnvetting U stakingModuleData blockData chunk =
     andThen (securitySignUnvetData (un_security U) (sm_nonce stakingModuleData) (bk_blockNumber blockData)
                (bk_blockHash blockData) (sm_stakingModuleId stakingModuleData) (uv_operatorIds chunk)
                (uv_vettedKeysByOperator chunk) (bk_guardianContext blockData)) (\<lambda>sig.
     andThen (if \<not> bk_walletBalanceCritical blockData
              then andThen (unvetSigningKeys (un_security U) (unvetParamsOf stakingModuleData blockData chunk) sig
                     (bk_guardianContext blockData)) (\<lambda>_. ret ())
              else ret ()) (\<lambda>_.
       sendUnvetMessage (un_messages U) (unvetMessageOf stakingModuleData blockData chunk sig)))"

definition handleUnvetting :: "unvetting_env \<Rightarrow> module_data \<Rightarrow> block_data \<Rightarrow> unit security" where
  "handleUnvetting U stakingModuleData blockData =
     (let invalidKeys = collectInvalidKeys stakingModuleData in
      if length invalidKeys = 0 then ret ()
      else
     andThen (getMaxOperatorsPerUnvetting (un_security U) (bk_blockHash blockData)) (\<lambda>maxOperatorsPerUnvetting.
     andThen (liftR (calculateNewStakingLimit (un_hex U) invalidKeys maxOperatorsPerUnvetting)) (\<lambda>firstChunk.
       processUnvetting U stakingModuleData blockData firstChunk)))"

section \<open>Packing\<close>

text \<open>The reader of the packed numbers, as the contract reads them: big-endian, of one width.\<close>

definition hex_digit_value :: "char \<Rightarrow> nat" where
  "hex_digit_value c = (if of_char c < (58::nat) then of_char c - 48 else of_char c - 87)"

definition hex_value :: "string \<Rightarrow> nat" where
  "hex_value s = foldl (\<lambda>v c. 16 * v + hex_digit_value c) 0 s"

fun read_fields :: "nat \<Rightarrow> nat \<Rightarrow> string \<Rightarrow> nat list" where
  "read_fields 0 w s = []"
| "read_fields (Suc n) w s = hex_value (take w s) # read_fields n w (drop w s)"

definition unpackHex :: "nat \<Rightarrow> string \<Rightarrow> nat list" where
  "unpackHex byteCount s = read_fields ((length s - 2) div (2 * byteCount)) (2 * byteCount) (drop 2 s)"

lemma hex_value_fixed: "hex_value (fixed_hex w n) = n mod 16 ^ w"
proof (induction w arbitrary: n)
  case (Suc w)
  have "hex_digit_value (hex_digit (n mod 16)) = n mod 16"
    by (simp add: hex_digit_value_def of_char_hex_digit)
  with Suc show ?case by (simp add: hex_value_def mod_mult2_eq)
qed (simp add: hex_value_def)

lemma read_fields_fixed:
  "\<forall>n\<in>set ns. n < 16 ^ w \<Longrightarrow> read_fields (length ns) w (concat (map (fixed_hex w) ns)) = ns"
  by (induction ns) (simp_all add: hex_value_fixed)

lemma length_concat_fixed: "length (concat (map (fixed_hex w) ns)) = length ns * w"
  by (induction ns) simp_all

lemma padHex_ok:
  "hex_laws H \<Longrightarrow> 0 < b \<Longrightarrow> int n \<le> MAX_SAFE_INTEGER \<Longrightarrow> n < 256 ^ b \<Longrightarrow>
   padHex H n b = Inr (''0x'' @ fixed_hex (2 * b) n)"
  unfolding hex_laws_def padHex_def by (metis nat_int of_nat_0_le_iff of_nat_less_iff of_nat_numeral of_nat_power)

lemma padAndJoinHex_ok:
  assumes "hex_laws H" "0 < b" "\<forall>n\<in>set ns. int n \<le> MAX_SAFE_INTEGER \<and> n < 256 ^ b"
  shows "padAndJoinHex H ns b = Inr (''0x'' @ concat (map (fixed_hex (2 * b)) ns))"
proof -
  have "traverse (\<lambda>num. bindR (padHex H num b) (\<lambda>h. Inr (drop 2 h))) ns = Inr (map (fixed_hex (2 * b)) ns)"
    using assms by (intro traverse_total) (simp add: padHex_ok)
  then show ?thesis by (simp add: padAndJoinHex_def)
qed

lemma unpack_pad:
  assumes "hex_laws H" "0 < b" "\<forall>n\<in>set ns. int n \<le> MAX_SAFE_INTEGER \<and> n < 256 ^ b"
  shows "\<exists>s. padAndJoinHex H ns b = Inr s \<and> length s = 2 + 2 * b * length ns \<and> unpackHex b s = ns"
proof -
  have "\<forall>n\<in>set ns. n < 16 ^ (2 * b)" using assms(3) by (simp add: power_mult)
  with assms show ?thesis
    by (simp add: padAndJoinHex_ok unpackHex_def length_concat_fixed read_fields_fixed)
qed

lemma pad_fails:
  assumes "hex_laws H" "n \<in> set ns" "int n > MAX_SAFE_INTEGER"
  shows "\<exists>e. padAndJoinHex H ns b = Inl e"
proof (cases "padAndJoinHex H ns b")
  case (Inr s)
  then obtain xs where "list_all2 (\<lambda>num h. bindR (padHex H num b) (\<lambda>h. Inr (drop 2 h)) = Inr h) ns xs"
    by (auto simp: padAndJoinHex_def bindR_Inr_iff traverse_Inr_iff)
  from list_all2_left [OF this assms(2)] obtain h where "padHex H n b = Inr h" by (auto simp: bindR_Inr_iff)
  moreover obtain e where "hexlify H (int n) = Inl e" using assms(1,3) unfolding hex_laws_def by blast
  ultimately show ?thesis by (simp add: padHex_def)
qed simp

section \<open>The new limits\<close>

definition flaggedIndexes :: "registry_key list \<Rightarrow> nat \<Rightarrow> nat set" where
  "flaggedIndexes keys operator = lk_index ` {k \<in> set keys. lk_operatorIndex k = operator}"

lemma finite_flagged [simp]: "finite (flaggedIndexes keys operator)"
  by (simp add: flaggedIndexes_def)

lemma flagged_snoc:
  "flaggedIndexes (keys @ [k]) operator =
   (if lk_operatorIndex k = operator then insert (lk_index k) (flaggedIndexes keys operator) else flaggedIndexes keys operator)"
  by (auto simp: flaggedIndexes_def)

lemma distinct_vettedAmountStep: "distinct (map fst acc) \<Longrightarrow> distinct (map fst (vettedAmountStep key acc))"
  by (auto simp: vettedAmountStep_def distinct_update split: option.split)

lemma findNewVettedAmount_eq:
  "distinct (map fst (findNewVettedAmount keys)) \<and>
   (\<forall>operator. map_of (findNewVettedAmount keys) operator =
      (if flaggedIndexes keys operator = {} then None else Some (Min (flaggedIndexes keys operator))))"
proof (induction keys rule: rev_induct)
  case Nil
  show ?case by (simp add: findNewVettedAmount_def flaggedIndexes_def)
next
  case (snoc k keys)
  have step: "findNewVettedAmount (keys @ [k]) = vettedAmountStep k (findNewVettedAmount keys)"
    by (simp add: findNewVettedAmount_def)
  have "map_of (vettedAmountStep k (findNewVettedAmount keys)) operator =
    (if flaggedIndexes (keys @ [k]) operator = {} then None else Some (Min (flaggedIndexes (keys @ [k]) operator)))"
    for operator
    using snoc.IH
    by (cases "flaggedIndexes keys (lk_operatorIndex k) = {}")
       (auto simp: vettedAmountStep_def update_map_of flagged_snoc min_def simp del: Min_gr_iff Min_ge_iff)
  with snoc.IH distinct_vettedAmountStep show ?case by (simp add: step)
qed

lemma vetted_entry:
  "(operator, amount) \<in> set (findNewVettedAmount keys) \<longleftrightarrow>
   flaggedIndexes keys operator \<noteq> {} \<and> amount = Min (flaggedIndexes keys operator)"
proof -
  have "(operator, amount) \<in> set (findNewVettedAmount keys) \<longleftrightarrow> map_of (findNewVettedAmount keys) operator = Some amount"
    by (rule map_of_eq_Some_iff [symmetric]) (use findNewVettedAmount_eq [of keys] in blast)
  moreover have "map_of (findNewVettedAmount keys) operator =
      (if flaggedIndexes keys operator = {} then None else Some (Min (flaggedIndexes keys operator)))"
    using findNewVettedAmount_eq [of keys] by blast
  ultimately show ?thesis by auto
qed

lemma vetted_amount_index:
  assumes "(operator, amount) \<in> set (findNewVettedAmount keys)"
  shows "\<exists>k\<in>set keys. lk_operatorIndex k = operator \<and> lk_index k = amount"
proof -
  from assms have "amount \<in> flaggedIndexes keys operator"
    using Min_in [OF finite_flagged, of keys operator] by (simp add: vetted_entry)
  then show ?thesis by (auto simp: flaggedIndexes_def)
qed

definition packable :: "registry_key list \<Rightarrow> bool" where
  "packable keys \<longleftrightarrow> (\<forall>k\<in>set keys. int (lk_operatorIndex k) \<le> MAX_SAFE_INTEGER \<and> int (lk_index k) \<le> MAX_SAFE_INTEGER)"

lemma safe_width: "int n \<le> MAX_SAFE_INTEGER \<Longrightarrow> n < 256 ^ 8" "int n \<le> MAX_SAFE_INTEGER \<Longrightarrow> n < 256 ^ 16"
  by (simp_all add: MAX_SAFE_INTEGER_def)

lemma calculateNewStakingLimit_ok:
  assumes "hex_laws H" "packable keys"
  obtains d where "calculateNewStakingLimit H keys m = Inr d"
    "length (uv_operatorIds d) = 2 + 16 * length (take m (findNewVettedAmount keys))"
    "length (uv_vettedKeysByOperator d) = 2 + 32 * length (take m (findNewVettedAmount keys))"
    "unpackHex 8 (uv_operatorIds d) = map fst (take m (findNewVettedAmount keys))"
    "unpackHex 16 (uv_vettedKeysByOperator d) = map snd (take m (findNewVettedAmount keys))"
proof -
  let ?c = "take m (findNewVettedAmount keys)"
  have safe: "int (fst p) \<le> MAX_SAFE_INTEGER \<and> int (snd p) \<le> MAX_SAFE_INTEGER" if "p \<in> set ?c" for p
    using vetted_amount_index [of "fst p" "snd p" keys] in_set_takeD [OF that] assms(2) by (fastforce simp: packable_def)
  have "\<forall>n\<in>set (map fst ?c). int n \<le> MAX_SAFE_INTEGER \<and> n < 256 ^ 8" using safe safe_width(1) by simp
  from unpack_pad [OF assms(1) _ this] obtain a where a:
    "padAndJoinHex H (map fst ?c) 8 = Inr a" "length a = 2 + 2 * 8 * length ?c" "unpackHex 8 a = map fst ?c" by auto
  have "\<forall>n\<in>set (map snd ?c). int n \<le> MAX_SAFE_INTEGER \<and> n < 256 ^ 16" using safe safe_width(2) by simp
  from unpack_pad [OF assms(1) _ this] obtain b where b:
    "padAndJoinHex H (map snd ?c) 16 = Inr b" "length b = 2 + 2 * 16 * length ?c" "unpackHex 16 b = map snd ?c" by auto
  show ?thesis
    by (rule that [of "\<lparr>uv_operatorIds = a, uv_vettedKeysByOperator = b\<rparr>"])
       (use a b in \<open>simp_all add: calculateNewStakingLimit_def getFirstChunk_def packNodeOperatorIds_def
          packVettedSigningKeysCounts_def Let_def\<close>)
qed


section \<open>What unvetting sends\<close>

text \<open>
  The chunk and its signature, when both can be made; then a transaction, unless the balance is
  critical or one for the module is on its way, and a message.
\<close>

definition signedChunk :: "unvetting_env \<Rightarrow> wallet list \<Rightarrow> module_data \<Rightarrow> block_data \<Rightarrow> js_error + unvet_data \<times> signature" where
  "signedChunk U ws sm bk =
     bindR (sv_dsmContract (un_security U)) (\<lambda>_.
     bindR (bindR (sv_getMaxOperatorsPerUnvetting (un_security U) (bk_blockHash bk)) toNumber) (\<lambda>m.
     bindR (calculateNewStakingLimit (un_hex U) (collectInvalidKeys sm) m) (\<lambda>d.
     bindR (unvetSigned (un_security U) ws (sm_nonce sm) (bk_blockNumber bk) (bk_blockHash bk) (sm_stakingModuleId sm)
       (uv_operatorIds d) (uv_vettedKeysByOperator d) (bk_guardianContext bk)) (\<lambda>sig. Inr (d, sig)))))"

definition unvetBusy :: "nat \<Rightarrow> security_state \<Rightarrow> bool" where
  "unvetBusy moduleId s \<longleftrightarrow> sy_unvetting s (truthyId (Some moduleId)) \<or> sy_unvetting s None"

definition unvetTxActs :: "unvetting_env \<Rightarrow> wallet list \<Rightarrow> module_data \<Rightarrow> block_data \<Rightarrow> bool \<Rightarrow> unvet_data \<Rightarrow> signature \<Rightarrow> effect list" where
  "unvetTxActs U ws sm bk busy d sig =
     (if bk_walletBalanceCritical bk \<or> busy then []
      else sentActs (unvetSent (un_security U) ws (unvetParamsOf sm bk d) sig (bk_guardianContext bk)))"

definition unvettingActs :: "unvetting_env \<Rightarrow> wallet list \<Rightarrow> module_data \<Rightarrow> block_data \<Rightarrow> bool \<Rightarrow> effect list" where
  "unvettingActs U ws sm bk busy =
     (if collectInvalidKeys sm = [] then []
      else case signedChunk U ws sm bk of
        Inl e \<Rightarrow> []
      | Inr (d, sig) \<Rightarrow> unvetTxActs U ws sm bk busy d sig @ publishedFor (un_messages U) (Message_Unvet (unvetMessageOf sm bk d sig)))"

lemma processUnvetting_run:
  assumes "walletInv (un_security U) ws s"
  shows "\<exists>r t out. processUnvetting U sm bk d s = (r, t, out) \<and> walletInv (un_security U) ws t \<and>
    sy_pausing t = sy_pausing s \<and>
    acts out = (case unvetSigned (un_security U) ws (sm_nonce sm) (bk_blockNumber bk) (bk_blockHash bk) (sm_stakingModuleId sm)
       (uv_operatorIds d) (uv_vettedKeysByOperator d) (bk_guardianContext bk) of
      Inl e \<Rightarrow> []
    | Inr sig \<Rightarrow> unvetTxActs U ws sm bk (unvetBusy (sm_stakingModuleId sm) s) d sig @
        publishedFor (un_messages U) (Message_Unvet (unvetMessageOf sm bk d sig)))"
proof -
  let ?E = "un_security U" and ?c = "bk_guardianContext bk" and ?i = "sm_stakingModuleId sm"
  obtain t0 where sign: "securitySignUnvetData ?E (sm_nonce sm) (bk_blockNumber bk) (bk_blockHash bk) ?i
      (uv_operatorIds d) (uv_vettedKeysByOperator d) ?c s =
      (unvetSigned ?E ws (sm_nonce sm) (bk_blockNumber bk) (bk_blockHash bk) ?i (uv_operatorIds d)
        (uv_vettedKeysByOperator d) ?c, t0, [])" "walletInv ?E ws t0" "sameFlags s t0"
    using signUnvet_run [OF assms] by blast
  show ?thesis
  proof (cases "unvetSigned ?E ws (sm_nonce sm) (bk_blockNumber bk) (bk_blockHash bk) ?i (uv_operatorIds d)
        (uv_vettedKeysByOperator d) ?c")
    case (Inl e)
    with sign show ?thesis by (simp add: processUnvetting_def andThen_apply sameFlags_def)
  next
    case (Inr sig)
    let ?p = "unvetParamsOf sm bk d"
    have "\<exists>r t out. (if \<not> bk_walletBalanceCritical bk then andThen (unvetSigningKeys ?E ?p sig ?c) (\<lambda>_. ret ()) else ret ()) t0 =
        (Inr r, t, out) \<and> walletInv ?E ws t \<and> sy_pausing t = sy_pausing t0 \<and>
        acts out = unvetTxActs U ws sm bk (unvetBusy ?i s) d sig"
    proof (cases "bk_walletBalanceCritical bk")
      case True
      with sign(2) show ?thesis by (simp add: unvetTxActs_def)
    next
      case False
      obtain r t out where "unvetSigningKeys ?E ?p sig ?c t0 = (Inr r, t, out)" "walletInv ?E ws t"
        "sy_pausing t = sy_pausing t0"
        "acts out = (if sy_unvetting t0 (truthyId (Some (up_stakingModuleId ?p))) \<or> sy_unvetting t0 None then []
           else sentActs (unvetSent ?E ws ?p sig ?c))"
        by (rule unvetSigningKeys_run [OF sign(2), of ?p sig ?c])
      with False sign(3) show ?thesis
        by (simp add: andThen_apply unvetTxActs_def unvetBusy_def sameFlags_def unvetParamsOf_def)
    qed
    then obtain r t out where tx: "(if \<not> bk_walletBalanceCritical bk then andThen (unvetSigningKeys ?E ?p sig ?c) (\<lambda>_. ret ()) else ret ()) t0 =
        (Inr r, t, out)" "walletInv ?E ws t" "sy_pausing t = sy_pausing t0" "acts out = unvetTxActs U ws sm bk (unvetBusy ?i s) d sig"
      by blast
    obtain r' out' where msg: "sendUnvetMessage (un_messages U) (unvetMessageOf sm bk d sig) t = (r', t, out')"
      "acts out' = publishedFor (un_messages U) (Message_Unvet (unvetMessageOf sm bk d sig))"
      using sendMessageFromGuardian_run [of "un_messages U" "Message_Unvet (unvetMessageOf sm bk d sig)" t]
      unfolding sendUnvetMessage_def by blast
    have "processUnvetting U sm bk d s = (r', t, [] @ out @ out')"
      unfolding processUnvetting_def
      by (rule andThen_run, rule sign(1) [unfolded Inr], rule andThen_run, rule tx(1), rule msg(1))
    with tx(2-) msg(2) sign(3) Inr show ?thesis by (simp add: sameFlags_def)
  qed
qed

lemma handleUnvetting_run:
  assumes "walletInv (un_security U) ws s"
  shows "\<exists>r t out. handleUnvetting U sm bk s = (r, t, out) \<and> walletInv (un_security U) ws t \<and> sy_pausing t = sy_pausing s \<and>
    acts out = unvettingActs U ws sm bk (unvetBusy (sm_stakingModuleId sm) s)"
proof (cases "collectInvalidKeys sm = []")
  case True
  with assms show ?thesis by (simp add: handleUnvetting_def unvettingActs_def)
next
  case False
  let ?max = "bindR (sv_dsmContract (un_security U)) (\<lambda>_. bindR (sv_getMaxOperatorsPerUnvetting (un_security U) (bk_blockHash bk)) toNumber)"
  obtain t0 where max: "getMaxOperatorsPerUnvetting (un_security U) (bk_blockHash bk) s = (?max, t0, [])"
    "walletInv (un_security U) ws t0" "sameFlags s t0"
    using getMaxOperators_run [OF assms] by blast
  have busy: "unvetBusy (sm_stakingModuleId sm) t0 = unvetBusy (sm_stakingModuleId sm) s"
    using max(3) by (simp add: unvetBusy_def sameFlags_def)
  show ?thesis
  proof (cases "bindR ?max (calculateNewStakingLimit (un_hex U) (collectInvalidKeys sm))")
    case (Inl e)
    then have "signedChunk U ws sm bk = Inl e"
      by (cases "sv_dsmContract (un_security U)") (auto simp: signedChunk_def bindR_def split: sum.splits)
    with max Inl False show ?thesis
      by (cases ?max) (simp_all add: handleUnvetting_def unvettingActs_def andThen_apply sameFlags_def)
  next
    case (Inr d)
    then obtain m where m: "?max = Inr m" "calculateNewStakingLimit (un_hex U) (collectInvalidKeys sm) m = Inr d"
      by (auto simp: bindR_Inr_iff)
    then have chunk: "signedChunk U ws sm bk =
        bindR (unvetSigned (un_security U) ws (sm_nonce sm) (bk_blockNumber bk) (bk_blockHash bk) (sm_stakingModuleId sm)
          (uv_operatorIds d) (uv_vettedKeysByOperator d) (bk_guardianContext bk)) (\<lambda>sig. Inr (d, sig))"
      by (auto simp: signedChunk_def bindR_Inr_iff)
    from processUnvetting_run [OF max(2), of sm bk d] False m max chunk busy show ?thesis
      by (auto simp: handleUnvetting_def andThen_apply unvettingActs_def sameFlags_def bindR_def split: sum.splits)
  qed
qed


section \<open>An instance\<close>

definition demoUnvetting :: unvetting_env where
  "demoUnvetting = \<lparr>un_security = demoSecurity 5, un_messages = demoMessages, un_hex = ref_hex\<rparr>"

definition demoFlagged :: "nat \<Rightarrow> nat \<Rightarrow> registry_key" where
  "demoFlagged operator index =
     \<lparr>lk_key = ''0xk'', lk_depositSignature = ''0xs'', lk_operatorIndex = operator, lk_used = False, lk_index = index,
      lk_moduleAddress = ''0xm'', lk_vetted = True\<rparr>"

definition demoFlaggedModule :: module_data where
  "demoFlaggedModule =
     \<lparr>sm_blockHash = ''0xb'', sm_vettedUnusedKeys = [], sm_nonce = 4, sm_stakingModuleId = 1, sm_stakingModuleAddress = ''0xm'',
      sm_lastChangedBlockHash = ''0xc'', sm_duplicatedKeys = [demoFlagged 7 3], sm_invalidKeys = [demoFlagged 7 5, demoFlagged 2 9],
      sm_crossTypeKeys = [], sm_frontRunKeys = [demoFlagged 3 1], sm_unresolvedDuplicatedKeys = [],
      sm_withdrawalCredentials = ''0x01'', sm_isModuleDepositsPaused = False\<rparr>"

definition demoUnvetBlock :: "bool \<Rightarrow> block_data" where
  "demoUnvetBlock critical =
     \<lparr>bk_blockNumber = 7, bk_blockHash = ''0x'' @ replicate 64 CHR ''b'', bk_depositRoot = ''0xr'',
      bk_depositedEvents = \<lparr>events = [], startBlock = 0, endBlock = 7\<rparr>, bk_guardianContext = demoContext5,
      bk_guardianAddress = gc_guardianAddress demoContext5, bk_guardianIndex = 2, bk_securityVersion = 5,
      bk_alreadyPausedDeposits = False, bk_hasFrontRunning = False, bk_hasWrongWCType = False,
      bk_walletBalanceCritical = critical\<rparr>"


lemma no_transaction_published: "e \<in> set (publishedFor M msg) \<Longrightarrow> \<not> is_transaction e"
  by (auto simp: publishedFor_def split: if_split_asm sum.split_asm)


end
