(* ===== verification/Contracts.thy ===== *)
theory Contracts
  imports Signing_Keys_Registry Guardian_Types "HOL-Library.Sublist"
begin

text \<open>
  Where the contracts are: \<open>contracts/repository/repository.service.ts\<close> with its locator, and the
  calls of \<open>contracts/staking-router/staking-router.service.ts\<close>. A contract is its address; the
  calls of the generated contract classes are parameters.
\<close>

record block_ref =
  br_hash :: string
  br_number :: nat

record repository_env =
  re_getNetwork :: "js_error + nat"
  re_LOCATOR_DEVNET_ADDRESS :: string
  re_lido :: "string \<Rightarrow> string \<Rightarrow> js_error + string"
  re_depositSecurityModule :: "string \<Rightarrow> string \<Rightarrow> js_error + string"
  re_stakingRouter :: "string \<Rightarrow> string \<Rightarrow> js_error + string"
  re_DEPOSIT_CONTRACT :: "string \<Rightarrow> string \<Rightarrow> js_error + string"
  re_getBlock :: "js_error + block_ref"

record repository_state =
  rp_tempContractsCache :: "string \<rightharpoonup> string"
  rp_permanentContractsCache :: "string \<rightharpoonup> string"
  rp_cachedLidoLocatorContract :: "string option"

type_synonym 'a repository = "(repository_state, unit, 'a) comp"

section \<open>The locator\<close>

definition LIDO_LOCATOR_BY_NETWORK :: "nat \<rightharpoonup> string" where
  "LIDO_LOCATOR_BY_NETWORK = map_of
     [(Mainnet, ''0xC1d0b3DE6792Bf6b4b37EccdcC24e45978Cfd2Eb''),
      (Goerli, ''0x1eDf09b5023DC86737b59dE68a8130De878984f5''),
      (Holesky, ''0x28FAB2059C713A7F9D8c86Db49f9bb0e96Af1ef8''),
      (Hoodi, ''0xe2EF9536DAAAEBFf5b1c130957AB3E80056b06D8'')]"

definition getLocatorAddress :: "repository_env \<Rightarrow> js_error + string" where
  "getLocatorAddress R =
     bindR (re_getNetwork R) (\<lambda>chainId.
       if re_LOCATOR_DEVNET_ADDRESS R \<noteq> '''' then Inr (re_LOCATOR_DEVNET_ADDRESS R)
       else case LIDO_LOCATOR_BY_NETWORK chainId of
         None \<Rightarrow> Inl (Error (''Chain '' @ dec_string chainId @ '' is not supported''))
       | Some address \<Rightarrow> Inr address)"

definition getLidoLocatorAbiContract :: "repository_env \<Rightarrow> string repository" where
  "getLidoLocatorAbiContract R =
     andThen getS (\<lambda>s.
       case rp_cachedLidoLocatorContract s of
         Some c \<Rightarrow> ret c
       | None \<Rightarrow> andThen (liftR (getLocatorAddress R)) (\<lambda>locatorAddress.
           andThen (modifyS (\<lambda>s. s\<lparr>rp_cachedLidoLocatorContract := Some locatorAddress\<rparr>)) (\<lambda>_. ret locatorAddress)))"

definition getDSMAddress :: "repository_env \<Rightarrow> string \<Rightarrow> string repository" where
  "getDSMAddress R blockTag =
     andThen (getLidoLocatorAbiContract R) (\<lambda>lidoLocator. liftR (re_depositSecurityModule R lidoLocator blockTag))"

definition getLidoAddress :: "repository_env \<Rightarrow> string \<Rightarrow> string repository" where
  "getLidoAddress R blockTag =
     andThen (getLidoLocatorAbiContract R) (\<lambda>lidoLocator. liftR (re_lido R lidoLocator blockTag))"

definition getStakingRouterAddress :: "repository_env \<Rightarrow> string \<Rightarrow> string repository" where
  "getStakingRouterAddress R blockTag =
     andThen (getLidoLocatorAbiContract R) (\<lambda>lidoLocator. liftR (re_stakingRouter R lidoLocator blockTag))"

section \<open>The caches\<close>

definition LIDO_ABI :: string where "LIDO_ABI = ''contract:LidoAbi''"
definition DSM_ABI :: string where "DSM_ABI = ''contract:SecurityAbi''"
definition DEPOSIT_ABI :: string where "DEPOSIT_ABI = ''contract:DepositAbi''"
definition STAKING_ROUTER_ABI :: string where "STAKING_ROUTER_ABI = ''contract:StakingRouterAbi''"

lemmas abi_keys = LIDO_ABI_def DSM_ABI_def DEPOSIT_ABI_def STAKING_ROUTER_ABI_def

definition getFromCache :: "string \<Rightarrow> repository_state \<Rightarrow> js_error + string" where
  "getFromCache abiKey s =
     (case rp_tempContractsCache s abiKey of
        Some contract \<Rightarrow> Inr contract
      | None \<Rightarrow> Inl (Error (''Not found ABI for key: '' @ abiKey)))"

definition getCachedLidoContract :: "repository_state \<Rightarrow> js_error + string" where
  "getCachedLidoContract = getFromCache LIDO_ABI"

definition getCachedDSMContract :: "repository_state \<Rightarrow> js_error + string" where
  "getCachedDSMContract = getFromCache DSM_ABI"

definition getCachedDepositContract :: "repository_state \<Rightarrow> string option" where
  "getCachedDepositContract s = rp_permanentContractsCache s DEPOSIT_ABI"

definition getCachedStakingRouterContract :: "repository_state \<Rightarrow> js_error + string" where
  "getCachedStakingRouterContract = getFromCache STAKING_ROUTER_ABI"

definition setContractCache :: "string \<Rightarrow> string \<Rightarrow> unit repository" where
  "setContractCache contractKey impl =
     modifyS (\<lambda>s. s\<lparr>rp_tempContractsCache := (rp_tempContractsCache s)(contractKey \<mapsto> impl)\<rparr>)"

definition setPermanentContractCache :: "string \<Rightarrow> string \<Rightarrow> unit repository" where
  "setPermanentContractCache contractKey impl =
     modifyS (\<lambda>s. s\<lparr>rp_permanentContractsCache := (rp_permanentContractsCache s)(contractKey \<mapsto> impl)\<rparr>)"

definition getDepositAddress :: "repository_env \<Rightarrow> string \<Rightarrow> string repository" where
  "getDepositAddress R blockTag =
     andThen getS (\<lambda>s. andThen (liftR (getCachedDSMContract s)) (\<lambda>contract. liftR (re_DEPOSIT_CONTRACT R contract blockTag)))"

definition initCachedLidoContract :: "repository_env \<Rightarrow> string \<Rightarrow> unit repository" where
  "initCachedLidoContract R blockTag = andThen (getLidoAddress R blockTag) (setContractCache LIDO_ABI)"

definition initCachedDSMContract :: "repository_env \<Rightarrow> string \<Rightarrow> unit repository" where
  "initCachedDSMContract R blockTag = andThen (getDSMAddress R blockTag) (setContractCache DSM_ABI)"

definition initCachedDepositContract :: "repository_env \<Rightarrow> string \<Rightarrow> unit repository" where
  "initCachedDepositContract R blockTag =
     andThen getS (\<lambda>s.
       if getCachedDepositContract s \<noteq> None then ret ()
       else andThen (getDepositAddress R blockTag) (setPermanentContractCache DEPOSIT_ABI))"

definition initCachedStakingRouterContract :: "repository_env \<Rightarrow> string \<Rightarrow> unit repository" where
  "initCachedStakingRouterContract R blockTag =
     andThen (getStakingRouterAddress R blockTag) (setContractCache STAKING_ROUTER_ABI)"

definition initCachedContracts :: "repository_env \<Rightarrow> string \<Rightarrow> unit repository" where
  "initCachedContracts R blockTag =
     andThen (initCachedLidoContract R blockTag) (\<lambda>_.
     andThen (initCachedDSMContract R blockTag) (\<lambda>_.
     andThen (initCachedDepositContract R blockTag) (\<lambda>_.
       initCachedStakingRouterContract R blockTag)))"

text \<open>
  \<open>initOrWaitCachedContracts\<close> tries again until it succeeds; \<open>At n\<close> is what the world answers at the
  attempt \<open>n\<close>. An attempt that never succeeds is \<open>None\<close>.
\<close>

partial_function (option) initOrWaitCachedContracts ::
  "(nat \<Rightarrow> repository_env) \<Rightarrow> nat \<Rightarrow> repository_state \<Rightarrow> ((js_error + block_ref) \<times> repository_state) option" where
  "initOrWaitCachedContracts At n s =
     (case re_getBlock (At n) of
        Inl e \<Rightarrow> Some (Inl e, s)
      | Inr block \<Rightarrow>
          (case initCachedContracts (At n) (br_hash block) s of
             (Inr u, t, out) \<Rightarrow> Some (Inr block, t)
           | (Inl e, t, out) \<Rightarrow> initOrWaitCachedContracts At (Suc n) t))"

section \<open>The staking router\<close>

record sr_contract_module =
  rm_id :: nat
  rm_stakingModuleAddress :: string
  rm_withdrawalCredentialsType :: nat

text \<open>An exception of a contract call, as \<open>isNoAllocationMathUnderflow\<close> reads it.\<close>

record call_error =
  ce_code :: string
  ce_reason :: string
  ce_message :: string

record router_env =
  ro_getStakingModules :: "string \<Rightarrow> string \<Rightarrow> js_error + sr_contract_module list"
  ro_getContractVersion :: "string \<Rightarrow> string \<Rightarrow> js_error + int"
  ro_getStakingModuleIsActive :: "string \<Rightarrow> nat \<Rightarrow> string \<Rightarrow> js_error + bool"
  ro_getStakingModuleMaxDepositsCount :: "string \<Rightarrow> nat \<Rightarrow> nat \<Rightarrow> string \<Rightarrow> call_error + int"
  ro_getDepositableEther :: "string \<Rightarrow> string \<Rightarrow> js_error + nat"
  ro_getWithdrawalCredentials :: "string \<Rightarrow> string \<Rightarrow> js_error + string"
  ro_queryFilter :: "string \<Rightarrow> nat \<Rightarrow> nat \<Rightarrow> js_error + raw_key_event list"

definition getContractVersion :: "router_env \<Rightarrow> string \<Rightarrow> repository_state \<Rightarrow> js_error + nat" where
  "getContractVersion Q blockTag s =
     bindR (getCachedStakingRouterContract s) (\<lambda>c. bindR (ro_getContractVersion Q c blockTag) toNumber)"

definition getStakingModules :: "router_env \<Rightarrow> string \<Rightarrow> repository_state \<Rightarrow> js_error + sr_contract_module list" where
  "getStakingModules Q blockTag s =
     bindR (getCachedStakingRouterContract s) (\<lambda>stakingRouter.
     bindR (ro_getStakingModules Q stakingRouter blockTag) (\<lambda>stakingModules.
     bindR (getContractVersion Q blockTag s) (\<lambda>version.
       if version < 4 then Inr (map (\<lambda>m. m\<lparr>rm_withdrawalCredentialsType := 1\<rparr>) stakingModules)
       else Inr stakingModules)))"

definition getStakingModulesAddresses :: "router_env \<Rightarrow> string \<Rightarrow> repository_state \<Rightarrow> js_error + string list" where
  "getStakingModulesAddresses Q blockHash s =
     bindR (getStakingModules Q blockHash s) (\<lambda>stakingModules. Inr (map rm_stakingModuleAddress stakingModules))"

definition getSigningKeyAddedEvents :: "router_env \<Rightarrow> nat \<Rightarrow> nat \<Rightarrow> string \<Rightarrow> js_error + raw_key_event list" where
  "getSigningKeyAddedEvents Q start end' stakingModuleAddress = ro_queryFilter Q stakingModuleAddress start end'"

definition isModuleDepositsPaused :: "router_env \<Rightarrow> nat \<Rightarrow> string \<Rightarrow> repository_state \<Rightarrow> js_error + bool" where
  "isModuleDepositsPaused Q stakingModuleId blockTag s =
     bindR (getCachedStakingRouterContract s) (\<lambda>c.
     bindR (ro_getStakingModuleIsActive Q c stakingModuleId blockTag) (\<lambda>isActive. Inr (\<not> isActive)))"

definition isNoAllocationMathUnderflow :: "call_error \<Rightarrow> bool" where
  "isNoAllocationMathUnderflow callError \<longleftrightarrow>
     ce_code callError = ''CALL_EXCEPTION'' \<and>
     (ce_reason callError = ''MATH_SUB_UNDERFLOW'' \<or> sublist ''MATH_SUB_UNDERFLOW'' (ce_message callError))"

definition getStakingModuleMaxDepositsCount ::
  "router_env \<Rightarrow> nat \<Rightarrow> nat \<Rightarrow> string \<Rightarrow> repository_state \<Rightarrow> js_error + nat" where
  "getStakingModuleMaxDepositsCount Q stakingModuleId maxDepositsValue blockTag s =
     bindR (getCachedStakingRouterContract s) (\<lambda>c.
       case ro_getStakingModuleMaxDepositsCount Q c stakingModuleId maxDepositsValue blockTag of
         Inr result \<Rightarrow> toNumber result
       | Inl e \<Rightarrow> (if isNoAllocationMathUnderflow e then Inr 0 else Inl (External (ce_code e))))"

definition getDepositableEther :: "router_env \<Rightarrow> string \<Rightarrow> repository_state \<Rightarrow> js_error + nat" where
  "getDepositableEther Q blockTag s =
     bindR (getCachedLidoContract s) (\<lambda>c. ro_getDepositableEther Q c blockTag)"

definition getWithdrawalCredentials :: "router_env \<Rightarrow> string \<Rightarrow> repository_state \<Rightarrow> js_error + string" where
  "getWithdrawalCredentials Q blockTag s =
     bindR (getCachedStakingRouterContract s) (\<lambda>c. ro_getWithdrawalCredentials Q c blockTag)"

section \<open>What the caches hold\<close>

definition locatorOf :: "repository_env \<Rightarrow> repository_state \<Rightarrow> js_error + string" where
  "locatorOf R s = (case rp_cachedLidoLocatorContract s of Some c \<Rightarrow> Inr c | None \<Rightarrow> getLocatorAddress R)"

definition withLocator :: "repository_env \<Rightarrow> repository_state \<Rightarrow> repository_state" where
  "withLocator R s = (case locatorOf R s of Inr c \<Rightarrow> s\<lparr>rp_cachedLidoLocatorContract := Some c\<rparr> | Inl e \<Rightarrow> s)"

lemma getLidoLocator_eq: "getLidoLocatorAbiContract R s = (locatorOf R s, withLocator R s, [])"
  by (cases s) (auto simp: getLidoLocatorAbiContract_def locatorOf_def withLocator_def andThen_apply split: option.split sum.split)

lemma withLocator_fields [simp]:
  "rp_tempContractsCache (withLocator R s) = rp_tempContractsCache s"
  "rp_permanentContractsCache (withLocator R s) = rp_permanentContractsCache s"
  by (simp_all add: withLocator_def split: sum.split)

lemma withLocator_locator: "locatorOf R s = Inr c \<Longrightarrow> rp_cachedLidoLocatorContract (withLocator R s) = Some c"
  by (simp add: withLocator_def)

text \<open>The three contracts found through the locator are found in the same way.\<close>

lemma initCached_ok:
  "andThen (andThen (getLidoLocatorAbiContract R) (\<lambda>c. liftR (get c))) (setContractCache k) s = (Inr u, t, out) \<longleftrightarrow>
   (\<exists>c a. locatorOf R s = Inr c \<and> get c = Inr a \<and> out = [] \<and>
      t = s\<lparr>rp_cachedLidoLocatorContract := Some c, rp_tempContractsCache := (rp_tempContractsCache s)(k \<mapsto> a)\<rparr>)"
  by (cases "locatorOf R s")
     (auto simp: andThen_apply getLidoLocator_eq withLocator_def setContractCache_def split: sum.split)

lemmas initCached_defs = initCachedLidoContract_def getLidoAddress_def initCachedDSMContract_def getDSMAddress_def
  initCachedStakingRouterContract_def getStakingRouterAddress_def

lemma initCachedDeposit_ok:
  "initCachedDepositContract R blockTag s = (Inr u, t, out) \<longleftrightarrow>
   out = [] \<and>
   ((getCachedDepositContract s \<noteq> None \<and> t = s) \<or>
    (\<exists>dsm a. getCachedDepositContract s = None \<and> getCachedDSMContract s = Inr dsm \<and> re_DEPOSIT_CONTRACT R dsm blockTag = Inr a \<and>
       t = s\<lparr>rp_permanentContractsCache := (rp_permanentContractsCache s)(DEPOSIT_ABI \<mapsto> a)\<rparr>))"
  by (cases "getCachedDSMContract s")
     (auto simp: initCachedDepositContract_def getDepositAddress_def andThen_apply setPermanentContractCache_def split: sum.split)

lemma contracts_cached:
  assumes "initCachedContracts R blockTag s = (Inr u, t, out)"
  obtains locator lido dsm router where
    "locatorOf R s = Inr locator" "rp_cachedLidoLocatorContract t = Some locator"
    "re_lido R locator blockTag = Inr lido" "getCachedLidoContract t = Inr lido"
    "re_depositSecurityModule R locator blockTag = Inr dsm" "getCachedDSMContract t = Inr dsm"
    "re_stakingRouter R locator blockTag = Inr router" "getCachedStakingRouterContract t = Inr router"
    "\<And>d. getCachedDepositContract s = Some d \<Longrightarrow> getCachedDepositContract t = Some d"
    "getCachedDepositContract s = None \<Longrightarrow> \<exists>d. re_DEPOSIT_CONTRACT R dsm blockTag = Inr d \<and> getCachedDepositContract t = Some d"
    "out = []"
proof -
  from assms obtain s1 s2 s3 o1 o2 o3 o4 where steps: "initCachedLidoContract R blockTag s = (Inr (), s1, o1)"
    "initCachedDSMContract R blockTag s1 = (Inr (), s2, o2)" "initCachedDepositContract R blockTag s2 = (Inr (), s3, o3)"
    "initCachedStakingRouterContract R blockTag s3 = (Inr (), t, o4)" "out = o1 @ o2 @ o3 @ o4"
    unfolding initCachedContracts_def by (auto simp: andThen_ok)
  have quiet: "out = []"
    using steps unfolding initCached_defs initCached_ok by (auto simp: initCachedDeposit_ok)
  from steps(1) obtain c lido where 1: "locatorOf R s = Inr c" "re_lido R c blockTag = Inr lido"
    "s1 = s\<lparr>rp_cachedLidoLocatorContract := Some c, rp_tempContractsCache := (rp_tempContractsCache s)(LIDO_ABI \<mapsto> lido)\<rparr>"
    unfolding initCached_defs initCached_ok by blast
  then have l1: "locatorOf R s1 = Inr c" by (simp add: locatorOf_def)
  from steps(2) l1 obtain dsm where 2: "re_depositSecurityModule R c blockTag = Inr dsm"
    "s2 = s1\<lparr>rp_cachedLidoLocatorContract := Some c, rp_tempContractsCache := (rp_tempContractsCache s1)(DSM_ABI \<mapsto> dsm)\<rparr>"
    unfolding initCached_defs initCached_ok by auto
  from steps(3) have 3: "rp_tempContractsCache s3 = rp_tempContractsCache s2"
    "rp_cachedLidoLocatorContract s3 = rp_cachedLidoLocatorContract s2"
    by (auto simp: initCachedDeposit_ok)
  with 2 have l3: "locatorOf R s3 = Inr c" by (simp add: locatorOf_def)
  from steps(4) l3 obtain router where 4: "re_stakingRouter R c blockTag = Inr router"
    "t = s3\<lparr>rp_cachedLidoLocatorContract := Some c, rp_tempContractsCache := (rp_tempContractsCache s3)(STAKING_ROUTER_ABI \<mapsto> router)\<rparr>"
    unfolding initCached_defs initCached_ok by auto
  note caches = getCachedLidoContract_def getCachedDSMContract_def getCachedStakingRouterContract_def getFromCache_def
    getCachedDepositContract_def abi_keys
  show ?thesis
  proof (rule that [of c lido dsm router])
    show "getCachedLidoContract t = Inr lido" "getCachedDSMContract t = Inr dsm" "getCachedStakingRouterContract t = Inr router"
      using 1(3) 2(2) 3(1) 4(2) by (simp_all add: caches)
    have dsm2: "getCachedDSMContract s2 = Inr dsm" using 2(2) by (simp add: caches)
    have dep: "getCachedDepositContract t = getCachedDepositContract s3" "getCachedDepositContract s2 = getCachedDepositContract s"
      using 1(3) 2(2) 4(2) by (simp_all add: getCachedDepositContract_def)
    show "getCachedDepositContract t = Some d" if "getCachedDepositContract s = Some d" for d
      using that steps(3) dep by (auto simp: initCachedDeposit_ok)
    show "\<exists>d. re_DEPOSIT_CONTRACT R dsm blockTag = Inr d \<and> getCachedDepositContract t = Some d"
      if "getCachedDepositContract s = None"
      using that steps(3) dep dsm2 by (auto simp: initCachedDeposit_ok getCachedDepositContract_def)
  qed (use 1 2 4 quiet in simp_all)
qed

text \<open>
  After the contracts are initialised for a block, every contract is the one the chain names at that
  block: the Lido contract, the security module and the staking router are the locator's at the
  block hash, whatever was cached before, while the deposit contract is read once, from the security
  module of that block, and never again.
\<close>

theorem contracts_current:
  assumes "initCachedContracts R blockTag s = (Inr u, t, out)"
  shows "\<exists>locator dsm. locatorOf R s = Inr locator \<and>
    re_lido R locator blockTag = getCachedLidoContract t \<and>
    re_depositSecurityModule R locator blockTag = Inr dsm \<and> getCachedDSMContract t = Inr dsm \<and>
    re_stakingRouter R locator blockTag = getCachedStakingRouterContract t \<and>
    (case getCachedDepositContract s of
       Some d \<Rightarrow> getCachedDepositContract t = Some d
     | None \<Rightarrow> \<exists>d. re_DEPOSIT_CONTRACT R dsm blockTag = Inr d \<and> getCachedDepositContract t = Some d)"
  by (rule contracts_cached [OF assms]) (auto split: option.split)

text \<open>An attempt at which every call is answered.\<close>

definition healthy :: "repository_env \<Rightarrow> string \<Rightarrow> bool" where
  "healthy R blockTag \<longleftrightarrow>
     (\<exists>c. getLocatorAddress R = Inr c) \<and> (\<forall>c. \<exists>a. re_lido R c blockTag = Inr a) \<and>
     (\<forall>c. \<exists>a. re_depositSecurityModule R c blockTag = Inr a) \<and> (\<forall>c. \<exists>a. re_DEPOSIT_CONTRACT R c blockTag = Inr a) \<and>
     (\<forall>c. \<exists>a. re_stakingRouter R c blockTag = Inr a)"

lemma healthy_init:
  assumes "healthy R blockTag"
  shows "\<exists>t. initCachedContracts R blockTag s = (Inr (), t, [])"
proof -
  have loc: "\<exists>c. locatorOf R u = Inr c" for u
    using assms by (auto simp: healthy_def locatorOf_def split: option.split)
  have step: "\<exists>t. andThen (andThen (getLidoLocatorAbiContract R) (\<lambda>c. liftR (get c))) (setContractCache k) u = (Inr (), t, []) \<and>
      (\<exists>a. rp_tempContractsCache t k = Some a)"
    if "\<forall>c. \<exists>a. get c = Inr a" for get k u
    using loc [of u] that unfolding initCached_ok by fastforce
  obtain s1 where 1: "initCachedLidoContract R blockTag s = (Inr (), s1, [])"
    using step [of "\<lambda>c. re_lido R c blockTag" LIDO_ABI s] assms unfolding initCached_defs healthy_def by blast
  obtain s2 where 2: "initCachedDSMContract R blockTag s1 = (Inr (), s2, [])" "\<exists>a. rp_tempContractsCache s2 DSM_ABI = Some a"
    using step [of "\<lambda>c. re_depositSecurityModule R c blockTag" DSM_ABI s1] assms unfolding initCached_defs healthy_def by blast
  then have "\<exists>dsm. getCachedDSMContract s2 = Inr dsm" by (auto simp: getCachedDSMContract_def getFromCache_def)
  then obtain s3 where 3: "initCachedDepositContract R blockTag s2 = (Inr (), s3, [])"
    using assms unfolding initCachedDeposit_ok healthy_def by (cases "getCachedDepositContract s2 = None") blast+
  obtain s4 where 4: "initCachedStakingRouterContract R blockTag s3 = (Inr (), s4, [])"
    using step [of "\<lambda>c. re_stakingRouter R c blockTag" STAKING_ROUTER_ABI s3] assms unfolding initCached_defs healthy_def by blast
  show ?thesis using 1 2 3 4 by (simp add: initCachedContracts_def andThen_step)
qed

lemma initOrWait_returns:
  assumes "\<forall>j\<le>n + d. \<exists>b. re_getBlock (At j) = Inr b"
    and "re_getBlock (At (n + d)) = Inr b'" "healthy (At (n + d)) (br_hash b')"
  shows "\<exists>m b t u. initOrWaitCachedContracts At n s = Some (Inr b, t) \<and> n \<le> m \<and> m \<le> n + d \<and> re_getBlock (At m) = Inr b \<and>
    initCachedContracts (At m) (br_hash b) u = (Inr (), t, [])"
  using assms
proof (induction d arbitrary: n s)
  case 0
  from healthy_init [OF 0(3), of s] obtain t where "initCachedContracts (At n) (br_hash b') s = (Inr (), t, [])" by auto
  with 0(2) show ?case
    by (subst initOrWaitCachedContracts.simps) (auto intro!: exI [of _ n] exI [of _ b'])
next
  case (Suc d)
  from Suc.prems(1) obtain b where b: "re_getBlock (At n) = Inr b" by (meson le_add1)
  obtain r t out where run: "initCachedContracts (At n) (br_hash b) s = (r, t, out)" by (metis prod_cases3)
  show ?case
  proof (cases r)
    case (Inr u)
    with run have ok: "initCachedContracts (At n) (br_hash b) s = (Inr (), t, out)" by simp
    then have "out = []" by (rule contracts_cached)
    with ok b show ?thesis
      by (subst initOrWaitCachedContracts.simps) (auto intro!: exI [of _ n] exI [of _ b])
  next
    case (Inl e)
    have "\<exists>m b t' u. initOrWaitCachedContracts At (Suc n) t = Some (Inr b, t') \<and> Suc n \<le> m \<and> m \<le> Suc n + d \<and>
        re_getBlock (At m) = Inr b \<and> initCachedContracts (At m) (br_hash b) u = (Inr (), t', [])"
      using Suc.prems by (intro Suc.IH) simp_all
    with b run Inl show ?thesis
      by (subst initOrWaitCachedContracts.simps) (simp, metis Suc_leD)
  qed
qed

text \<open>
  C38: Start-up does not hang: when at some attempt the node answers every call and at no attempt up to it
  the request for the latest block fails, \<open>initOrWaitCachedContracts\<close> returns, at that attempt or
  an earlier one, with the block it read last and the contracts of that block.
\<close>

theorem init_or_wait_returns:
  assumes "\<forall>j\<le>k. \<exists>b. re_getBlock (At j) = Inr b"
    and "re_getBlock (At k) = Inr b'" "healthy (At k) (br_hash b')"
  shows "\<exists>m\<le>k. \<exists>b t locator. initOrWaitCachedContracts At 0 s = Some (Inr b, t) \<and> re_getBlock (At m) = Inr b \<and>
    rp_cachedLidoLocatorContract t = Some locator \<and>
    getCachedDSMContract t = re_depositSecurityModule (At m) locator (br_hash b) \<and>
    getCachedStakingRouterContract t = re_stakingRouter (At m) locator (br_hash b) \<and> getCachedDepositContract t \<noteq> None"
proof -
  obtain m b t u where m: "initOrWaitCachedContracts At 0 s = Some (Inr b, t)" "m \<le> k" "re_getBlock (At m) = Inr b"
    "initCachedContracts (At m) (br_hash b) u = (Inr (), t, [])"
    using initOrWait_returns [of 0 k At b' s] assms by auto
  from m(4) show ?thesis
  proof (rule contracts_cached)
    fix locator dsm
    assume "rp_cachedLidoLocatorContract t = Some locator"
      "re_depositSecurityModule (At m) locator (br_hash b) = Inr dsm" "getCachedDSMContract t = Inr dsm"
    moreover assume "\<And>d. getCachedDepositContract u = Some d \<Longrightarrow> getCachedDepositContract t = Some d"
      "getCachedDepositContract u = None \<Longrightarrow> \<exists>d. re_DEPOSIT_CONTRACT (At m) dsm (br_hash b) = Inr d \<and> getCachedDepositContract t = Some d"
    then have "getCachedDepositContract t \<noteq> None" by (cases "getCachedDepositContract u") auto
    moreover fix router
    assume "re_stakingRouter (At m) locator (br_hash b) = Inr router" "getCachedStakingRouterContract t = Inr router"
    ultimately show ?thesis using m(1-3) by auto
  qed
qed

section \<open>An instance\<close>

text \<open>A node that answers from the third attempt on.\<close>

definition demoContracts :: "bool \<Rightarrow> repository_env" where
  "demoContracts up =
     \<lparr>re_getNetwork = Inr Holesky, re_LOCATOR_DEVNET_ADDRESS = '''', re_lido = (\<lambda>c tag. Inr ''0xlido''),
      re_depositSecurityModule = (\<lambda>c tag. if up then Inr (''0xd'' @ tag) else Inl (External ''SERVER_ERROR'')),
      re_stakingRouter = (\<lambda>c tag. Inr ''0xrouter''), re_DEPOSIT_CONTRACT = (\<lambda>c tag. Inr ''0xdeposit''),
      re_getBlock = Inr \<lparr>br_hash = ''b7'', br_number = 7\<rparr>\<rparr>"

definition demoRepositoryState :: repository_state where
  "demoRepositoryState =
     \<lparr>rp_tempContractsCache = Map.empty, rp_permanentContractsCache = Map.empty, rp_cachedLidoLocatorContract = None\<rparr>"

lemma demo_healthy: "healthy (demoContracts True) tag"
  by (simp add: healthy_def demoContracts_def getLocatorAddress_def LIDO_LOCATOR_BY_NETWORK_def chain_defs)

theorem contracts_current_witness:
  "\<exists>t. initCachedContracts (demoContracts True) ''b7'' demoRepositoryState = (Inr (), t, []) \<and> getCachedDSMContract t = Inr ''0xdb7''"
proof -
  obtain t where run: "initCachedContracts (demoContracts True) ''b7'' demoRepositoryState = (Inr (), t, [])"
    using healthy_init [OF demo_healthy] by blast
  with contracts_current [OF run] show ?thesis by (auto simp: demoContracts_def)
qed

theorem init_or_wait_returns_witness:
  "\<exists>b t. initOrWaitCachedContracts (\<lambda>n. demoContracts (2 \<le> n)) 0 demoRepositoryState = Some (Inr b, t) \<and> br_number b = 7"
proof -
  have "\<forall>j\<le>(2::nat). \<exists>b. re_getBlock (demoContracts (2 \<le> j)) = Inr b"
    "re_getBlock (demoContracts (2 \<le> (2::nat))) = Inr \<lparr>br_hash = ''b7'', br_number = 7\<rparr>"
    by (simp_all add: demoContracts_def)
  moreover have "healthy (demoContracts (2 \<le> (2::nat))) (br_hash \<lparr>br_hash = ''b7'', br_number = 7\<rparr>)"
    by (simp add: demo_healthy)
  ultimately have "\<exists>m\<le>(2::nat). \<exists>b t locator. initOrWaitCachedContracts (\<lambda>n. demoContracts (2 \<le> n)) 0 demoRepositoryState = Some (Inr b, t) \<and>
      re_getBlock (demoContracts (2 \<le> m)) = Inr b \<and> rp_cachedLidoLocatorContract t = Some locator \<and>
      getCachedDSMContract t = re_depositSecurityModule (demoContracts (2 \<le> m)) locator (br_hash b) \<and>
      getCachedStakingRouterContract t = re_stakingRouter (demoContracts (2 \<le> m)) locator (br_hash b) \<and>
      getCachedDepositContract t \<noteq> None"
    by (rule init_or_wait_returns [where At = "\<lambda>n. demoContracts (2 \<le> n)"])
  moreover have "re_getBlock (demoContracts up) = Inr \<lparr>br_hash = ''b7'', br_number = 7\<rparr>" for up
    by (simp add: demoContracts_def)
  ultimately show ?thesis by fastforce
qed

end
