(* ===== verification/Keys_Api.thy ===== *)
theory Keys_Api
  imports Guardian_Types
begin

text \<open>
  The client of the Keys API (\<open>keys-api/keys-api.service.ts\<close>). The fetch service is a parameter: what
  it answers to a request for a URL, with an exception when the request fails or times out. The
  only state is the cached list of keys.
\<close>

section \<open>The responses\<close>

record el_block_snapshot =
  el_blockNumber :: nat
  el_blockHash :: string
  el_timestamp :: nat
  el_lastChangedBlockHash :: string

record sr_module =
  sr_nonce :: nat
  sr_type :: string
  sr_id :: nat
  sr_stakingModuleAddress :: string
  sr_moduleFee :: nat
  sr_treasuryFee :: nat
  sr_targetShare :: nat
  sr_status :: nat
  sr_name :: string
  sr_lastDepositAt :: nat
  sr_lastDepositBlock :: nat
  sr_exitedValidatorsCount :: nat
  sr_active :: bool
  sr_lastChangedBlockHash :: string
  sr_withdrawalCredentialsType :: nat

record key_list_response =
  kl_data :: "registry_key list"
  kl_elBlockSnapshot :: el_block_snapshot

record module_list_response =
  ml_data :: "sr_module list"
  ml_elBlockSnapshot :: el_block_snapshot

record module_keys_response =
  mk_keys :: "registry_key list"
  mk_module :: sr_module
  mk_elBlockSnapshot :: el_block_snapshot

record registry_operator =
  ro_index :: nat
  ro_active :: bool
  ro_name :: string
  ro_rewardAddress :: string
  ro_stakingLimit :: nat
  ro_stoppedValidators :: nat
  ro_totalSigningKeys :: nat
  ro_usedSigningKeys :: nat
  ro_moduleAddress :: string

record operators_response =
  ol_data :: "(registry_operator list \<times> sr_module) list"
  ol_elBlockSnapshot :: el_block_snapshot

record kapi_status =
  st_appVersion :: string
  st_chainId :: nat

text \<open>A response is one of the types the service reads it as.\<close>

datatype kapi_response =
    KeyList key_list_response
  | ModuleList module_list_response
  | ModuleKeys module_keys_response
  | Operators operators_response
  | Status kapi_status

section \<open>The service\<close>

record kapi_env =
  ka_KEYS_API_URL :: string
  ka_KEYS_API_HOST :: string
  ka_KEYS_API_PORT :: nat
  ka_fetchJson :: "string \<Rightarrow> string list option \<Rightarrow> js_error + kapi_response"

definition getBaseUrl :: "kapi_env \<Rightarrow> string" where
  "getBaseUrl K =
     (if ka_KEYS_API_URL K \<noteq> '''' then ka_KEYS_API_URL K
      else ka_KEYS_API_HOST K @ '':'' @ dec_string (ka_KEYS_API_PORT K))"

text \<open>The body of a request is the list of public keys, for the one request that has a body.\<close>

definition kapiFetch :: "kapi_env \<Rightarrow> (kapi_response \<Rightarrow> 'r option) \<Rightarrow> string \<Rightarrow> string list option \<Rightarrow> js_error + 'r" where
  "kapiFetch K read url body =
     bindR (ka_fetchJson K (getBaseUrl K @ url) body) (\<lambda>res.
       case read res of Some r \<Rightarrow> Inr r | None \<Rightarrow> Inl TypeError)"

definition getKeysByPubkeys :: "kapi_env \<Rightarrow> string list \<Rightarrow> js_error + key_list_response" where
  "getKeysByPubkeys K pubkeys =
     kapiFetch K (\<lambda>r. case r of KeyList x \<Rightarrow> Some x | _ \<Rightarrow> None) ''/v1/keys/find'' (Some pubkeys)"

definition getOperatorListWithModule :: "kapi_env \<Rightarrow> js_error + operators_response" where
  "getOperatorListWithModule K =
     kapiFetch K (\<lambda>r. case r of Operators x \<Rightarrow> Some x | _ \<Rightarrow> None) ''/v1/operators'' None"

definition getKeysApiStatus :: "kapi_env \<Rightarrow> js_error + kapi_status" where
  "getKeysApiStatus K = kapiFetch K (\<lambda>r. case r of Status x \<Rightarrow> Some x | _ \<Rightarrow> None) ''/v1/status'' None"

definition getModules :: "kapi_env \<Rightarrow> js_error + module_list_response" where
  "getModules K = kapiFetch K (\<lambda>r. case r of ModuleList x \<Rightarrow> Some x | _ \<Rightarrow> None) ''/v1/modules'' None"

definition kapiModuleKeys :: "kapi_env \<Rightarrow> nat \<Rightarrow> nat \<Rightarrow> js_error + module_keys_response" where
  "kapiModuleKeys K moduleId opId =
     kapiFetch K (\<lambda>r. case r of ModuleKeys x \<Rightarrow> Some x | _ \<Rightarrow> None)
       (''/v1/modules/'' @ dec_string moduleId @ ''/keys?operatorIndex='' @ dec_string opId) None"

definition verifyMetaDataConsistency :: "string \<Rightarrow> string \<Rightarrow> js_error + unit" where
  "verifyMetaDataConsistency firstRequestHash secondRequestHash =
     (if firstRequestHash \<noteq> secondRequestHash then Inl InconsistentLastChangedBlockHash else Inr ())"

definition fetchKeys :: "kapi_env \<Rightarrow> js_error + key_list_response" where
  "fetchKeys K = kapiFetch K (\<lambda>r. case r of KeyList x \<Rightarrow> Some x | _ \<Rightarrow> None) ''/v1/keys'' None"

definition updateCachedKeys ::
  "kapi_env \<Rightarrow> el_block_snapshot \<Rightarrow> (key_list_response option, effect, key_list_response) comp" where
  "updateCachedKeys K elBlockSnapshot =
     andThen (modifyS (\<lambda>_. None)) (\<lambda>_.
     andThen (liftR (fetchKeys K)) (\<lambda>result.
     andThen (liftR (verifyMetaDataConsistency (el_lastChangedBlockHash elBlockSnapshot)
                (el_lastChangedBlockHash (kl_elBlockSnapshot result)))) (\<lambda>_.
     andThen (modifyS (\<lambda>_. Some result)) (\<lambda>_. ret result))))"

definition getKeys :: "kapi_env \<Rightarrow> el_block_snapshot \<Rightarrow> (key_list_response option, effect, key_list_response) comp" where
  "getKeys K elBlockSnapshot =
     andThen getS (\<lambda>cachedKeys.
       case cachedKeys of
         None \<Rightarrow> updateCachedKeys K elBlockSnapshot
       | Some cached \<Rightarrow>
           (if el_lastChangedBlockHash (kl_elBlockSnapshot cached) \<noteq> el_lastChangedBlockHash elBlockSnapshot
            then updateCachedKeys K elBlockSnapshot
            else ret cached))"

section \<open>The cache of keys\<close>

lemma updateCachedKeys_run:
  "updateCachedKeys K snap s =
    (case fetchKeys K of
       Inl e \<Rightarrow> (Inl e, None, [])
     | Inr r \<Rightarrow> (if el_lastChangedBlockHash (kl_elBlockSnapshot r) = el_lastChangedBlockHash snap then (Inr r, Some r, [])
                else (Inl InconsistentLastChangedBlockHash, None, [])))"
  by (auto simp: updateCachedKeys_def verifyMetaDataConsistency_def split: sum.split)

lemma getKeys_run:
  "getKeys K snap s =
    (if \<exists>c. s = Some c \<and> el_lastChangedBlockHash (kl_elBlockSnapshot c) = el_lastChangedBlockHash snap then (Inr (the s), s, [])
     else updateCachedKeys K snap s)"
  by (auto simp: getKeys_def split: option.split)

lemma getKeys_ok:
  "getKeys K snap s = (Inr r, t, out) \<Longrightarrow>
   t = Some r \<and> out = [] \<and> el_lastChangedBlockHash (kl_elBlockSnapshot r) = el_lastChangedBlockHash snap \<and>
   (s = Some r \<or> fetchKeys K = Inr r)"
  by (auto simp: getKeys_run updateCachedKeys_run split: if_split_asm sum.split_asm)

text \<open>
  C31: The keys belong to the block snapshot they were asked for: \<open>getKeys\<close> returns a list only if the
  hash of its last change is the one of the snapshot, taken from the cache exactly when the cached
  list has that hash and fetched otherwise, and caches what it returns. When the list that was
  fetched is of another change it throws, and after any exception nothing is cached, so that an
  old list is never served again.
\<close>

theorem keys_of_snapshot:
  "(\<forall>r t out. getKeys K snap s = (Inr r, t, out) \<longrightarrow>
      t = Some r \<and> el_lastChangedBlockHash (kl_elBlockSnapshot r) = el_lastChangedBlockHash snap \<and>
      (if \<exists>c. s = Some c \<and> el_lastChangedBlockHash (kl_elBlockSnapshot c) = el_lastChangedBlockHash snap
       then s = Some r else fetchKeys K = Inr r)) \<and>
   (\<forall>e t out. getKeys K snap s = (Inl e, t, out) \<longrightarrow>
      t = None \<and> (fetchKeys K = Inl e \<or>
        (e = InconsistentLastChangedBlockHash \<and>
         (\<exists>r. fetchKeys K = Inr r \<and> el_lastChangedBlockHash (kl_elBlockSnapshot r) \<noteq> el_lastChangedBlockHash snap))))"
  by (auto simp: getKeys_run updateCachedKeys_run split: if_split_asm sum.split_asm)

section \<open>An instance\<close>

definition demoSnapshot :: "string \<Rightarrow> el_block_snapshot" where
  "demoSnapshot hash =
     \<lparr>el_blockNumber = 7, el_blockHash = ''0x'' @ replicate 64 CHR ''b'', el_timestamp = 70, el_lastChangedBlockHash = hash\<rparr>"

definition demoKapi :: "registry_key list \<Rightarrow> sr_module list \<Rightarrow> kapi_env" where
  "demoKapi keys modules =
     \<lparr>ka_KEYS_API_URL = ''http://keys:3001'', ka_KEYS_API_HOST = '''', ka_KEYS_API_PORT = 3001,
      ka_fetchJson = (\<lambda>url body.
        if url = ''http://keys:3001/v1/keys'' then Inr (KeyList \<lparr>kl_data = keys, kl_elBlockSnapshot = demoSnapshot ''0xc''\<rparr>)
        else if url = ''http://keys:3001/v1/modules'' then Inr (ModuleList \<lparr>ml_data = modules, ml_elBlockSnapshot = demoSnapshot ''0xc''\<rparr>)
        else if url = ''http://keys:3001/v1/status'' then Inr (Status \<lparr>st_appVersion = ''4.1.0'', st_chainId = 17000\<rparr>)
        else Inl (External ''FETCH''))\<rparr>"

lemma demo_getKeys:
  "fst (getKeys (demoKapi [] []) (demoSnapshot ''0xc'') None) = Inr \<lparr>kl_data = [], kl_elBlockSnapshot = demoSnapshot ''0xc''\<rparr>"
  "fst (getKeys (demoKapi [] []) (demoSnapshot ''0xd'') None) = Inl InconsistentLastChangedBlockHash"
  by (simp_all add: getKeys_def updateCachedKeys_def fetchKeys_def kapiFetch_def getBaseUrl_def demoKapi_def
      dec_string.simps demoSnapshot_def verifyMetaDataConsistency_def)

theorem keys_of_snapshot_witness:
  "\<exists>t out. getKeys (demoKapi [] []) (demoSnapshot ''0xd'') None = (Inl InconsistentLastChangedBlockHash, t, out) \<and> t = None"
  using keys_of_snapshot [of "demoKapi [] []" "demoSnapshot ''0xd''" None] demo_getKeys(2) by (metis prod.exhaust_sel)

end
