(* ===== verification/Daemon.thy ===== *)
theory Daemon
  imports Staking_Module_Guard Unvetting Contracts Keys_Api Keys_Duplication Deposits_Registry
begin

text \<open>
  The services of the daemon put together: the states of all of them in one record, since each is
  one object that the others are given, and the two collectors
  (\<open>guardian/block-data-collector\<close>, \<open>staking-module-data-collector\<close>) that read through them.
\<close>

record state_meta =
  me_blockHash :: string
  me_blockNumber :: nat

record ('db, 'kdb, 'c) daemon =
  dm_contracts :: repository_state
  dm_deposits :: "'db registry_state"
  dm_keys :: "'kdb key_store"
  dm_kapi :: "key_list_response option"
  dm_guard :: "'c guard_state"
  dm_lastProcessedStateMeta :: "state_meta option"
  dm_lastPingBlock :: "nat option"
  dm_lastGuardianExecutionContext :: "guardian_context option"
  dm_handlingBlock :: bool
  dm_handlingKeys :: bool

record ('db, 'kdb, 'c) daemon_env =
  de_repository :: repository_env
  de_router :: router_env
  de_deposits :: "'db registry_env"
  de_keys :: "'kdb key_registry_env"
  de_kapi :: kapi_env
  de_wallet :: wallet_env
  de_securityAt :: "string \<Rightarrow> security_env"
  de_messages :: messages_env
  de_validation :: "'c validation_env"
  de_hex :: hex_lib
  de_CHAIN_ID :: nat
  de_finalized :: "js_error + nat \<times> string"
  de_getNetwork :: "js_error + nat"
  de_compareVersions :: "string \<Rightarrow> string \<Rightarrow> bool"

type_synonym ('db, 'kdb, 'c, 'a) service = "(('db, 'kdb, 'c) daemon, effect, 'a) comp"

abbreviation onContracts :: "'a repository \<Rightarrow> ('db, 'kdb, 'c, 'a) service" where
  "onContracts m \<equiv> zoom dm_contracts (\<lambda>t s. s\<lparr>dm_contracts := t\<rparr>) (quiet m)"

abbreviation onDeposits :: "('db registry_state, unit, 'a) comp \<Rightarrow> ('db, 'kdb, 'c, 'a) service" where
  "onDeposits m \<equiv> zoom dm_deposits (\<lambda>t s. s\<lparr>dm_deposits := t\<rparr>) (quiet m)"

abbreviation onKeys :: "('kdb key_store, unit, 'a) comp \<Rightarrow> ('db, 'kdb, 'c, 'a) service" where
  "onKeys m \<equiv> zoom dm_keys (\<lambda>t s. s\<lparr>dm_keys := t\<rparr>) (quiet m)"

abbreviation onKapi :: "(key_list_response option, effect, 'a) comp \<Rightarrow> ('db, 'kdb, 'c, 'a) service" where
  "onKapi \<equiv> zoom dm_kapi (\<lambda>t s. s\<lparr>dm_kapi := t\<rparr>)"

abbreviation onGuard :: "('c, 'a) guard \<Rightarrow> ('db, 'kdb, 'c, 'a) service" where
  "onGuard \<equiv> zoom dm_guard (\<lambda>t s. s\<lparr>dm_guard := t\<rparr>)"

text \<open>
  The security service works on the contract that the repository has cached and with the wallet
  service; the guard and the unvetting service work with it. The registry of keys reads the events of a
  module through the staking router service.
\<close>

definition securityOf :: "('db, 'kdb, 'c) daemon_env \<Rightarrow> repository_state \<Rightarrow> security_env" where
  "securityOf D r =
     (de_securityAt D (case getCachedDSMContract r of Inr a \<Rightarrow> a | Inl e \<Rightarrow> ''''))
       \<lparr>sv_wallet := de_wallet D, sv_dsmContract := getCachedDSMContract r\<rparr>"

definition guardOf :: "('db, 'kdb, 'c) daemon_env \<Rightarrow> repository_state \<Rightarrow> 'c guard_env" where
  "guardOf D r = \<lparr>ge_security = securityOf D r, ge_messages = de_messages D, ge_validation = de_validation D\<rparr>"

definition unvettingOf :: "('db, 'kdb, 'c) daemon_env \<Rightarrow> repository_state \<Rightarrow> unvetting_env" where
  "unvettingOf D r = \<lparr>un_security = securityOf D r, un_messages = de_messages D, un_hex = de_hex D\<rparr>"

definition keysOf :: "('db, 'kdb, 'c) daemon_env \<Rightarrow> 'kdb key_registry_env" where
  "keysOf D = (de_keys D)\<lparr>kr_fetcher :=
     (kr_fetcher (de_keys D))\<lparr>kf_getSigningKeyAddedEvents := getSigningKeyAddedEvents (de_router D)\<rparr>\<rparr>"

definition withContracts :: "(repository_state \<Rightarrow> ('db, 'kdb, 'c, 'a) service) \<Rightarrow> ('db, 'kdb, 'c, 'a) service" where
  "withContracts f = andThen getS (\<lambda>s. f (dm_contracts s))"

section \<open>The data of a block\<close>

definition blockDataBody ::
  "('db, 'kdb, 'c) daemon_env \<Rightarrow> nat \<Rightarrow> string \<Rightarrow> (string \<times> string) list \<Rightarrow> registry_key list \<Rightarrow>
   ('db, 'kdb, 'c, block_data) service" where
  "blockDataBody D blockNumber blockHash moduleWCMap lidoKeys =
     withContracts (\<lambda>r. let E = securityOf D r in
     andThen (liftR (getDepositRoot (rg_checker (de_deposits D)) blockHash)) (\<lambda>depositRoot.
     andThen (onDeposits (getAllDepositedEvents (de_deposits D) blockNumber blockHash)) (\<lambda>depositedEvents.
     andThen (onGuard (onSecurity (getGuardianExecutionContext E blockHash))) (\<lambda>guardianContext.
     andThen (onGuard (onSecurity (onWallet (isBalanceCritical (sv_wallet E))))) (\<lambda>walletBalanceCritical.
     andThen (checkHistoricalFrontRun (de_CHAIN_ID D) depositedEvents lidoKeys moduleWCMap) (\<lambda>hasFrontRunning.
     andThen (checkWrongWCType (de_CHAIN_ID D) depositedEvents lidoKeys moduleWCMap) (\<lambda>hasWrongWCType.
     andThen (liftR (isDepositsPaused E blockHash)) (\<lambda>alreadyPausedDeposits.
       ret \<lparr>bk_blockNumber = blockNumber, bk_blockHash = blockHash, bk_depositRoot = depositRoot,
            bk_depositedEvents = depositedEvents, bk_guardianContext = guardianContext,
            bk_guardianAddress = gc_guardianAddress guardianContext, bk_guardianIndex = gc_guardianIndex guardianContext,
            bk_securityVersion = gc_dsmVersion guardianContext, bk_alreadyPausedDeposits = alreadyPausedDeposits,
            bk_hasFrontRunning = hasFrontRunning, bk_hasWrongWCType = hasWrongWCType,
            bk_walletBalanceCritical = walletBalanceCritical\<rparr>))))))))"

definition getCurrentBlockData ::
  "('db, 'kdb, 'c) daemon_env \<Rightarrow> nat \<Rightarrow> string \<Rightarrow> (string \<times> string) list \<Rightarrow> registry_key list \<Rightarrow>
   ('db, 'kdb, 'c, block_data) service" where
  "getCurrentBlockData D blockNumber blockHash moduleWCMap lidoKeys =
     catchE (blockDataBody D blockNumber blockHash moduleWCMap lidoKeys)
       (\<lambda>error. andThen (emit [CounterInc BlockDataErrors]) (\<lambda>_. raise error))"

section \<open>The data of the modules\<close>

definition getModuleKeys :: "string \<Rightarrow> registry_key list \<Rightarrow> registry_key list" where
  "getModuleKeys stakingModuleAddress keys = filter (\<lambda>key. lk_moduleAddress key = stakingModuleAddress) keys"

definition getModuleVettedUnusedKeys :: "string \<Rightarrow> registry_key list \<Rightarrow> registry_key list" where
  "getModuleVettedUnusedKeys stakingModuleAddress lidoKeys =
     filter (\<lambda>key. \<not> lk_used key \<and> lk_vetted key \<and> lk_moduleAddress key = stakingModuleAddress) lidoKeys"

definition collectModule ::
  "('db, 'kdb, 'c) daemon_env \<Rightarrow> el_block_snapshot \<Rightarrow> registry_key list \<Rightarrow> (string \<times> string) list \<Rightarrow> sr_module \<Rightarrow>
   ('db, 'kdb, 'c, module_data) service" where
  "collectModule D meta lidoKeys moduleWCMap stakingModule =
     withContracts (\<lambda>r.
     andThen (liftR (isModuleDepositsPaused (de_router D) (sr_id stakingModule) (el_blockHash meta) r)) (\<lambda>paused.
       ret \<lparr>sm_blockHash = el_blockHash meta,
            sm_vettedUnusedKeys = getModuleVettedUnusedKeys (sr_stakingModuleAddress stakingModule) lidoKeys,
            sm_nonce = sr_nonce stakingModule, sm_stakingModuleId = sr_id stakingModule,
            sm_stakingModuleAddress = sr_stakingModuleAddress stakingModule,
            sm_lastChangedBlockHash = el_lastChangedBlockHash meta, sm_duplicatedKeys = [], sm_invalidKeys = [],
            sm_crossTypeKeys = [], sm_frontRunKeys = [], sm_unresolvedDuplicatedKeys = [],
            sm_withdrawalCredentials =
              (case map_of moduleWCMap (sr_stakingModuleAddress stakingModule) of Some wc \<Rightarrow> wc | None \<Rightarrow> ''''),
            sm_isModuleDepositsPaused = paused\<rparr>))"

definition collectStakingModuleData ::
  "('db, 'kdb, 'c) daemon_env \<Rightarrow> sr_module list \<Rightarrow> el_block_snapshot \<Rightarrow> registry_key list \<Rightarrow> (string \<times> string) list \<Rightarrow>
   ('db, 'kdb, 'c, module_data list) service" where
  "collectStakingModuleData D stakingModules meta lidoKeys moduleWCMap =
     mapAll (collectModule D meta lidoKeys moduleWCMap) stakingModules"

definition collectModuleMetric ::
  "module_data \<Rightarrow> registry_key list \<Rightarrow> registry_key list \<Rightarrow> registry_key list \<Rightarrow> registry_key list \<Rightarrow> effect list" where
  "collectModuleMetric stakingModuleData unresolvedKeys vettedUnusedUnresolvedKeys duplicatedKeys vettedUnusedDuplicatedKeys =
     collectDuplicatedKeysMetrics (sm_stakingModuleId stakingModuleData) (length unresolvedKeys)
       (length vettedUnusedUnresolvedKeys) (length duplicatedKeys) (length vettedUnusedDuplicatedKeys) @
     collectInvalidKeysMetrics (sm_stakingModuleId stakingModuleData) (length (sm_invalidKeys stakingModuleData))"

text \<open>The history of a key, asked of the registry of signing keys as it is.\<close>

definition historyOf :: "('db, 'kdb, 'c) daemon_env \<Rightarrow> 'kdb key_store \<Rightarrow> key_history" where
  "historyOf D keys key blockNumber blockHash = fst (getUpdatedSigningKeyEvents (keysOf D) key blockNumber blockHash keys)"

definition checkModuleKeys ::
  "('db, 'kdb, 'c) daemon_env \<Rightarrow> string list \<Rightarrow> duplicates_result \<Rightarrow> block_data \<Rightarrow> module_data \<Rightarrow>
   ('db, 'kdb, 'c, module_data) service" where
  "checkModuleKeys D lidoWCSet found blockData stakingModuleData =
     withContracts (\<lambda>r.
     andThen (getFrontRunAttempts stakingModuleData blockData lidoWCSet) (\<lambda>attempts.
     andThen (onGuard (guardInvalidKeys (guardOf D r) stakingModuleData)) (\<lambda>invalidKeys.
       let address = sm_stakingModuleAddress stakingModuleData;
           allModuleDuplicatedKeys = getModuleKeys address (dr_duplicates found);
           allModuleUnresolved = getModuleKeys address (dr_unresolved found);
           checked = stakingModuleData\<lparr>sm_frontRunKeys := fa_frontRunKeys attempts, sm_crossTypeKeys := fa_crossTypeKeys attempts,
             sm_invalidKeys := invalidKeys, sm_duplicatedKeys := getModuleVettedUnusedKeys address (dr_duplicates found),
             sm_unresolvedDuplicatedKeys := getModuleVettedUnusedKeys address (dr_unresolved found)\<rparr>
       in andThen (emit (collectModuleMetric checked allModuleUnresolved (sm_unresolvedDuplicatedKeys checked)
            allModuleDuplicatedKeys (sm_duplicatedKeys checked))) (\<lambda>_. ret checked))))"

definition collectorCheckKeys ::
  "('db, 'kdb, 'c) daemon_env \<Rightarrow> module_data list \<Rightarrow> registry_key list \<Rightarrow> block_data \<Rightarrow>
   ('db, 'kdb, 'c, module_data list) service" where
  "collectorCheckKeys D stakingModulesData lidoKeys blockData =
     andThen getS (\<lambda>s.
     andThen (liftR (getDuplicatedKeys (historyOf D (dm_keys s)) lidoKeys blockData)) (\<lambda>found.
       mapAll (checkModuleKeys D (map sm_withdrawalCredentials stakingModulesData) found blockData) stakingModulesData))"

end
