(* ===== verification/Guardian.thy ===== *)
theory Guardian
  imports Daemon
begin

text \<open>
  The guardian (\<open>guardian/guardian.service.ts\<close>): its start and its cycle, which reads the modules and
  keys, collects the data of the block, pauses deposits or checks the keys, unvets and sends
  deposit messages. \<open>handleKeys\<close> is not waited for: the model runs it when it is started and clears
  its flag when it settles.
\<close>

definition MIN_KAPI_VERSION :: string where
  "MIN_KAPI_VERSION = ''4.0.0''"

definition GUARDIAN_PING_BLOCKS_PERIOD :: nat where
  "GUARDIAN_PING_BLOCKS_PERIOD = 300"

section \<open>Context and state\<close>

definition setGuardianExecutionContext :: "('db, 'kdb, 'c) daemon_env \<Rightarrow> guardian_context \<Rightarrow> ('db, 'kdb, 'c, unit) service" where
  "setGuardianExecutionContext D context =
     andThen (modifyS (\<lambda>s. s\<lparr>dm_lastGuardianExecutionContext := Some context\<rparr>)) (\<lambda>_.
     andThen (emit [GuardianInfoReset]) (\<lambda>_.
     andThen (onGuard (onSecurity (onWallet (walletAddresses (de_wallet D))))) (\<lambda>addresses.
       emit (map (\<lambda>walletAddress. GaugeSet (GuardianInfo context walletAddress
         (toLowerCase walletAddress = toLowerCase (gc_delegateAddress context))) 1) addresses))))"

definition isNeedToProcessNewState :: "state_meta \<Rightarrow> state_meta option \<Rightarrow> bool" where
  "isNeedToProcessNewState newMeta lastProcessed =
     (case lastProcessed of
        None \<Rightarrow> True
      | Some lastMeta \<Rightarrow>
          (if me_blockNumber lastMeta > me_blockNumber newMeta then False
           else me_blockHash lastMeta \<noteq> me_blockHash newMeta))"

definition setLastProcessedStateMeta :: "state_meta \<Rightarrow> ('db, 'kdb, 'c, unit) service" where
  "setLastProcessedStateMeta newMeta = modifyS (\<lambda>s. s\<lparr>dm_lastProcessedStateMeta := Some newMeta\<rparr>)"

section \<open>Collecting\<close>

text \<open>\<open>Object.fromEntries\<close>: of two modules with one address the last one counts.\<close>

definition fetchModuleWithdrawalCredentials ::
  "('db, 'kdb, 'c) daemon_env \<Rightarrow> sr_module list \<Rightarrow> string \<Rightarrow> ('db, 'kdb, 'c, (string \<times> string) list) service" where
  "fetchModuleWithdrawalCredentials D stakingModules blockHash =
     withContracts (\<lambda>r.
     andThen (liftR (getWithdrawalCredentials (de_router D) blockHash r)) (\<lambda>baseWC.
     andThen (liftR (traverse (\<lambda>m. bindR (buildModuleWc (de_hex D) (sr_withdrawalCredentialsType m) baseWC)
                 (\<lambda>wc. Inr (sr_stakingModuleAddress m, wc))) stakingModules)) (\<lambda>entries.
       ret (fold (\<lambda>(address, wc). AList.update address wc) entries []))))"

definition collectData ::
  "('db, 'kdb, 'c) daemon_env \<Rightarrow> sr_module list \<Rightarrow> el_block_snapshot \<Rightarrow> registry_key list \<Rightarrow>
   ('db, 'kdb, 'c, block_data \<times> module_data list) service" where
  "collectData D stakingModules meta lidoKeys =
     andThen (fetchModuleWithdrawalCredentials D stakingModules (el_blockHash meta)) (\<lambda>moduleWCMap.
     andThen (getCurrentBlockData D (el_blockNumber meta) (el_blockHash meta) moduleWCMap lidoKeys) (\<lambda>blockData.
     andThen (collectStakingModuleData D stakingModules meta lidoKeys moduleWCMap) (\<lambda>stakingModulesData.
       ret (blockData, stakingModulesData))))"

section \<open>Keys\<close>

definition guardianCheckKeys ::
  "('db, 'kdb, 'c) daemon_env \<Rightarrow> module_data list \<Rightarrow> block_data \<Rightarrow> registry_key list \<Rightarrow>
   ('db, 'kdb, 'c, module_data list) service" where
  "guardianCheckKeys D stakingModulesData blockData lidoKeys =
     andThen (onKeys (handleNewBlockKeys (keysOf D) (de_finalized D) (map sm_stakingModuleAddress stakingModulesData))) (\<lambda>_.
       collectorCheckKeys D stakingModulesData lidoKeys blockData)"

definition hasInvalidKeys :: "module_data \<Rightarrow> bool" where
  "hasInvalidKeys moduleData \<longleftrightarrow>
     length (sm_invalidKeys moduleData @ sm_duplicatedKeys moduleData @ sm_frontRunKeys moduleData @
       sm_crossTypeKeys moduleData) > 0"

definition findFirstInvalidModule :: "module_data list \<Rightarrow> module_data option" where
  "findFirstInvalidModule stakingModulesData = find hasInvalidKeys stakingModulesData"

definition guardianHandleUnvetting ::
  "('db, 'kdb, 'c) daemon_env \<Rightarrow> module_data list \<Rightarrow> block_data \<Rightarrow> ('db, 'kdb, 'c, unit) service" where
  "guardianHandleUnvetting D stakingModulesData blockData =
     (case findFirstInvalidModule stakingModulesData of
        None \<Rightarrow> ret ()
      | Some firstInvalidModule \<Rightarrow>
          withContracts (\<lambda>r. onGuard (onSecurity (handleUnvetting (unvettingOf D r) firstInvalidModule blockData))))"

definition ignoreDeposits :: "module_data \<Rightarrow> bool \<Rightarrow> bool \<Rightarrow> bool \<Rightarrow> bool" where
  "ignoreDeposits stakingModuleData hasFrontRunning hasWrongWCType alreadyPausedDeposits \<longleftrightarrow>
     (let keysForUnvetting = sm_invalidKeys stakingModuleData @ sm_frontRunKeys stakingModuleData @
        sm_duplicatedKeys stakingModuleData @ sm_crossTypeKeys stakingModuleData
      in length keysForUnvetting > 0 \<or> length (sm_unresolvedDuplicatedKeys stakingModuleData) > 0 \<or>
         alreadyPausedDeposits \<or> hasFrontRunning \<or> hasWrongWCType \<or> sm_isModuleDepositsPaused stakingModuleData)"

definition handleModuleDeposit ::
  "('db, 'kdb, 'c) daemon_env \<Rightarrow> block_data \<Rightarrow> module_data \<Rightarrow> ('db, 'kdb, 'c, unit) service" where
  "handleModuleDeposit D blockData stakingModuleData =
     andThen (emit (collectMetrics stakingModuleData blockData)) (\<lambda>_.
       if ignoreDeposits stakingModuleData (bk_hasFrontRunning blockData) (bk_hasWrongWCType blockData)
            (bk_alreadyPausedDeposits blockData)
       then ret ()
       else withContracts (\<lambda>r. onGuard (handleCorrectKeys (guardOf D r) stakingModuleData blockData)))"

definition handleDeposit ::
  "('db, 'kdb, 'c) daemon_env \<Rightarrow> module_data list \<Rightarrow> block_data \<Rightarrow> ('db, 'kdb, 'c, unit list) service" where
  "handleDeposit D stakingModulesData blockData = mapAll (handleModuleDeposit D blockData) stakingModulesData"

text \<open>The ping is not waited for and its exceptions are caught.\<close>

definition pingIfDue :: "('db, 'kdb, 'c) daemon_env \<Rightarrow> module_data list \<Rightarrow> block_data \<Rightarrow> ('db, 'kdb, 'c, unit) service" where
  "pingIfDue D stakingModulesData blockData =
     andThen getS (\<lambda>s.
       if (case dm_lastPingBlock s of
             None \<Rightarrow> True
           | Some lastPingBlock \<Rightarrow> lastPingBlock = 0 \<or> lastPingBlock + GUARDIAN_PING_BLOCKS_PERIOD \<le> bk_blockNumber blockData)
       then andThen (modifyS (\<lambda>s. s\<lparr>dm_lastPingBlock := Some (bk_blockNumber blockData)\<rparr>)) (\<lambda>_.
              catchE (pingMessageBroker (de_messages D) (map sm_stakingModuleId stakingModulesData) blockData) (\<lambda>error. ret ()))
       else ret ())"

definition handleKeysBody ::
  "('db, 'kdb, 'c) daemon_env \<Rightarrow> module_data list \<Rightarrow> block_data \<Rightarrow> registry_key list \<Rightarrow> ('db, 'kdb, 'c, unit) service" where
  "handleKeysBody D stakingModulesData blockData lidoKeys =
     andThen (guardianCheckKeys D stakingModulesData blockData lidoKeys) (\<lambda>checkedModules.
     andThen (guardianHandleUnvetting D checkedModules blockData) (\<lambda>_.
     andThen (handleDeposit D checkedModules blockData) (\<lambda>_.
     andThen (pingIfDue D checkedModules blockData) (\<lambda>_.
       setLastProcessedStateMeta \<lparr>me_blockHash = bk_blockHash blockData, me_blockNumber = bk_blockNumber blockData\<rparr>))))"

definition handleKeys ::
  "('db, 'kdb, 'c) daemon_env \<Rightarrow> module_data list \<Rightarrow> block_data \<Rightarrow> registry_key list \<Rightarrow> ('db, 'kdb, 'c, unit option) service" where
  "handleKeys D stakingModulesData blockData lidoKeys =
     oneAtTimeStart dm_handlingKeys (\<lambda>b s. s\<lparr>dm_handlingKeys := b\<rparr>) (handleKeysBody D stakingModulesData blockData lidoKeys)"

definition settleKeys :: "('db, 'kdb, 'c) daemon \<Rightarrow> ('db, 'kdb, 'c) daemon" where
  "settleKeys s = s\<lparr>dm_handlingKeys := False\<rparr>"

section \<open>The cycle\<close>

definition guardianCycle :: "('db, 'kdb, 'c) daemon_env \<Rightarrow> ('db, 'kdb, 'c, unit) service" where
  "guardianCycle D =
     andThen (liftR (getModules (de_kapi D))) (\<lambda>response.
     let stakingModules = ml_data response; firstRequestMeta = ml_elBlockSnapshot response;
         blockHash = el_blockHash firstRequestMeta; blockNumber = el_blockNumber firstRequestMeta in
     andThen getS (\<lambda>s.
       if \<not> isNeedToProcessNewState \<lparr>me_blockHash = blockHash, me_blockNumber = blockNumber\<rparr> (dm_lastProcessedStateMeta s)
       then ret ()
       else
     andThen (onKapi (getKeys (de_kapi D) firstRequestMeta)) (\<lambda>keysResponse.
     andThen (onContracts (initCachedContracts (de_repository D) blockHash)) (\<lambda>_.
     andThen (onDeposits (handleNewBlockDeposits (de_deposits D) (de_finalized D))) (\<lambda>_.
     andThen (collectData D stakingModules firstRequestMeta (kl_data keysResponse)) (\<lambda>(blockData, stakingModulesData).
     andThen (setGuardianExecutionContext D (bk_guardianContext blockData)) (\<lambda>_.
       if \<not> bk_alreadyPausedDeposits blockData \<and> (bk_hasFrontRunning blockData \<or> bk_hasWrongWCType blockData)
       then withContracts (\<lambda>r. onGuard (handlePause (guardOf D r) blockData))
       else andThen (handleKeys D stakingModulesData blockData (kl_data keysResponse)) (\<lambda>_. ret ()))))))))"

text \<open>Every exception of a cycle is caught; \<open>process.exit\<close> is none.\<close>

definition handleNewBlock :: "('db, 'kdb, 'c) daemon_env \<Rightarrow> ('db, 'kdb, 'c, unit option) service" where
  "handleNewBlock D =
     oneAtTime dm_handlingBlock (\<lambda>b s. s\<lparr>dm_handlingBlock := b\<rparr>)
       (catchE (guardianCycle D) (\<lambda>error. if error = ProcessExit then raise ProcessExit else ret ()))"

section \<open>The start\<close>

definition startBody :: "('db, 'kdb, 'c) daemon_env \<Rightarrow> block_ref \<Rightarrow> ('db, 'kdb, 'c, unit) service" where
  "startBody D block =
     withContracts (\<lambda>r.
     andThen (liftR (getStakingModulesAddresses (de_router D) (br_hash block) r)) (\<lambda>stakingRouterModuleAddresses.
     andThen (onDeposits (initializeRegistry (de_deposits D) (de_finalized D))) (\<lambda>_.
     andThen (onGuard (onSecurity (initializeSecurity (securityOf D r) (br_hash block)))) (\<lambda>guardianContext.
     andThen (onKeys (initializeKeys (keysOf D) (de_finalized D) stakingRouterModuleAddresses)) (\<lambda>_.
     andThen (setGuardianExecutionContext D guardianContext) (\<lambda>_.
     andThen (liftR (de_getNetwork D)) (\<lambda>chainId.
     andThen (liftR (getKeysApiStatus (de_kapi D))) (\<lambda>keysApiStatus.
       if chainId \<noteq> st_chainId keysApiStatus
       then raise (Error ''The ChainId in KeysAPI must match the ChainId in EL Node'')
       else if \<not> de_compareVersions D (st_appVersion keysApiStatus) MIN_KAPI_VERSION
       then raise (Error (''The KAPI version must be greater than or equal to '' @ MIN_KAPI_VERSION))
       else ret ()))))))))"

text \<open>
  The start: the contracts are initialised by attempts, every exception ends the process. Without
  a block the attempts go on for ever.
\<close>

definition onModuleInit ::
  "(nat \<Rightarrow> repository_env) \<Rightarrow> ('db, 'kdb, 'c) daemon_env \<Rightarrow> ('db, 'kdb, 'c) daemon \<Rightarrow>
   ((js_error + unit) \<times> ('db, 'kdb, 'c) daemon \<times> effect list) option" where
  "onModuleInit At D s =
     (case initOrWaitCachedContracts At 0 (dm_contracts s) of
        None \<Rightarrow> None
      | Some (r, contracts) \<Rightarrow>
          Some (catchE (andThen (liftR r) (startBody D)) (\<lambda>error. raise ProcessExit) (s\<lparr>dm_contracts := contracts\<rparr>)))"

end
