(* ===== verification/Guardian_Cycle.thy ===== *)
theory Guardian_Cycle
  imports Guardian
begin

text \<open>
  What a cycle of the guardian keeps and what it may publish: the invariant of the daemon over every
  step, the facts behind a deposit message and behind a pause.
\<close>

section \<open>The invariant of the daemon\<close>

text \<open>
  The wallets are those of the configured keys and the active one is among them; what the cache of
  validated keys holds is true.
\<close>

definition daemon_inv ::
  "('db, 'kdb, 'c) daemon_env \<Rightarrow> wallet list \<Rightarrow> (serialized_deposit \<Rightarrow> bool) \<Rightarrow> ('db, 'kdb, 'c) daemon \<Rightarrow> bool" where
  "daemon_inv D ws valid s \<longleftrightarrow>
     wallet_inv (de_wallet D) ws (sy_wallet (gu_security (dm_guard s))) \<and>
     cache_inv (de_validation D) valid (gu_validation (dm_guard s))"

definition libraries_ok :: "('db, 'kdb, 'c) daemon_env \<Rightarrow> (serialized_deposit \<Rightarrow> bool) \<Rightarrow> bool" where
  "libraries_ok D valid \<longleftrightarrow> lru_laws (kv_lru (de_validation D)) \<and> validator_laws (de_validation D) valid"

lemma securityOf_wallet [simp]: "sv_wallet (securityOf D r) = de_wallet D"
  by (simp add: securityOf_def)

lemma guardOf_fields [simp]:
  "ge_security (guardOf D r) = securityOf D r" "ge_messages (guardOf D r) = de_messages D"
  "ge_validation (guardOf D r) = de_validation D"
  by (simp_all add: guardOf_def)

lemma unvettingOf_fields [simp]:
  "un_security (unvettingOf D r) = securityOf D r" "un_messages (unvettingOf D r) = de_messages D"
  "un_hex (unvettingOf D r) = de_hex D"
  by (simp_all add: unvettingOf_def)

subsection \<open>Wallets and the execution context\<close>

lemma keeps_getWallets: "keeps (wallet_inv E ws) (getWallets E) A"
  by (rule tripleI) (auto simp: getWallets_eq)

lemmas wallet_ops = getWallet_def walletAddress_def walletAddresses_def selectLegacyWallet_def selectDelegateWallet_def
  getAccountBalance_def isBalanceCritical_def monitorBody_def monitorGuardianBalance_def

lemma keeps_selectLegacy: "keeps (wallet_inv E ws) (selectLegacyWallet E) A"
proof (rule tripleI)
  fix s r t out assume inv: "wallet_inv E ws s" and run: "selectLegacyWallet E s = (r, t, out)"
  have "hd ws \<in> set ws" using wallet_inv_nonempty [OF inv] by simp
  with inv run show "(\<forall>x. r = Inr x \<longrightarrow> wallet_inv E ws t) \<and> (\<forall>e. r = Inl e \<longrightarrow> wallet_inv E ws t) \<and> (\<forall>a\<in>set out. A a)"
    by (auto simp: selectLegacyWallet_eq wallet_inv_activated)
qed

lemma keeps_selectDelegate: "keeps (wallet_inv E ws) (selectDelegateWallet E a) A"
  by (rule tripleI)
     (auto simp: selectDelegateWallet_eq wallet_inv_activated dest: find_SomeD split: sum.split_asm option.split_asm)

lemma keeps_wallets:
  "keeps (wallet_inv E ws) (getWallet E) A" "keeps (wallet_inv E ws) (walletAddress E) A"
  "keeps (wallet_inv E ws) (walletAddresses E) A" "keeps (wallet_inv E ws) (getAccountBalance E a) A"
  "keeps (wallet_inv E ws) (isBalanceCritical E) A"
  unfolding wallet_ops by (intro keep_rules keeps_getWallets)+

lemma keeps_monitor:
  "(\<And>g n. A (GaugeSet g n)) \<Longrightarrow> keeps (wallet_inv E ws) (monitorGuardianBalance E) A"
  unfolding monitorGuardianBalance_def monitorBody_def
  by (intro keep_rules keeps_wallets) (auto simp: wallet_inv_def)

abbreviation "secInv E ws \<equiv> (\<lambda>s. wallet_inv (sv_wallet E) ws (sy_wallet s))"

lemma keeps_onWallet: "keeps (wallet_inv (sv_wallet E) ws) m A \<Longrightarrow> keeps (secInv E ws) (onWallet m) A"
  by (erule keeps_zoom) simp_all

lemma keeps_context: "keeps (secInv E ws) (getGuardianExecutionContext E blockTag) A"
  unfolding getGuardianExecutionContext_def dsmVersionAt_def getContractWithSigner_def legacyContext_def edfContext_def Let_def
  by (intro keep_rules keeps_onWallet keeps_wallets keeps_selectLegacy keeps_selectDelegate)

lemma keeps_initializeSecurity:
  "(\<And>g n. A (GaugeSet g n)) \<Longrightarrow> keeps (secInv E ws) (initializeSecurity E blockTag) A"
  unfolding initializeSecurity_def logEdfReadiness_def
  by (intro keep_rules keeps_onWallet keeps_wallets keeps_context keeps_monitor)

subsection \<open>The calls of the daemon\<close>

text \<open>The invariant with the fields of the daemon that a call leaves alone.\<close>

definition dinv ::
  "('db, 'kdb, 'c) daemon_env \<Rightarrow> wallet list \<Rightarrow> (serialized_deposit \<Rightarrow> bool) \<Rightarrow> repository_state \<Rightarrow> state_meta option \<Rightarrow>
   ('db, 'kdb, 'c) daemon \<Rightarrow> bool" where
  "dinv D ws valid r l s \<longleftrightarrow>
     daemon_inv D ws valid s \<and> dm_contracts s = r \<and> dm_lastProcessedStateMeta s = l"

definition metric_only :: "effect \<Rightarrow> bool" where
  "metric_only e \<longleftrightarrow> \<not> is_transaction e \<and> \<not> is_publication e"

lemma metric_only_simps [simp]:
  "metric_only (GaugeSet g n)" "metric_only GuardianInfoReset" "metric_only (CounterInc c)"
  "\<not> metric_only (SendTransaction tx)" "\<not> metric_only (Publish topic msg app)"
  by (simp_all add: metric_only_def)

lemma outputs_split: "a \<in> set out \<Longrightarrow> metric_only a \<or> a \<in> set (acts out)"
  by (auto simp: metric_only_def acts_def)

lemma acts_Nil_iff: "acts out = [] \<longleftrightarrow> (\<forall>a\<in>set out. metric_only a)"
  by (auto simp: acts_def filter_empty_conv metric_only_def)

lemma keeps_any: "keeps (\<lambda>_. True) m (\<lambda>_. True)"
  by (rule tripleI) simp

lemma keeps_onDeposits: "keeps (dinv D ws valid r l) (onDeposits m) A"
  by (rule keeps_zoom [OF keeps_quiet [OF keeps_any]]) (simp_all add: dinv_def daemon_inv_def)

lemma keeps_onKeys: "keeps (dinv D ws valid r l) (onKeys m) A"
  by (rule keeps_zoom [OF keeps_quiet [OF keeps_any]]) (simp_all add: dinv_def daemon_inv_def)

lemma keeps_onGuard:
  "keeps (\<lambda>g. wallet_inv (de_wallet D) ws (sy_wallet (gu_security g)) \<and> cache_inv (de_validation D) valid (gu_validation g)) m A \<Longrightarrow>
   keeps (dinv D ws valid r l) (onGuard m) A"
  by (erule keeps_zoom) (simp_all add: dinv_def daemon_inv_def)

lemma keeps_onSecurity:
  "keeps (secInv E ws) m A \<Longrightarrow> sv_wallet E = de_wallet D \<Longrightarrow>
   keeps (dinv D ws valid r l) (onGuard (onSecurity m)) A"
  by (rule keeps_onGuard, erule keeps_zoom) simp_all

lemma triple_withContracts:
  assumes "\<And>s. P s \<Longrightarrow> dm_contracts s = r" and "triple P (f r) Q E A"
  shows "triple P (withContracts f) Q E A"
  unfolding withContracts_def
proof (rule triple_getS)
  fix s assume s: "P s"
  show "triple (\<lambda>t. t = s) (f (dm_contracts s)) Q E A"
    unfolding assms(1) [OF s] by (rule triple_weaken [OF assms(2)]) (use s in simp_all)
qed

lemma keeps_withContracts:
  "keeps (dinv D ws valid r l) (f r) A \<Longrightarrow> keeps (dinv D ws valid r l) (withContracts f) A"
  by (rule triple_withContracts [where r = r]) (simp_all add: dinv_def)

lemma keeps_guardInvalid:
  assumes "libraries_ok D valid"
  shows "keeps (dinv D ws valid r l) (onGuard (guardInvalidKeys (guardOf D u) sm)) A"
proof (rule keeps_onGuard, unfold guardInvalidKeys_def, rule keeps_zoom [where J = "cache_inv (de_validation D) valid"])
  show "keeps (cache_inv (de_validation D) valid)
     (validateInvalidKeys (ge_validation (guardOf D u)) (sm_vettedUnusedKeys sm) (sm_withdrawalCredentials sm)) A"
  proof (rule tripleI)
    fix c r t out
    assume "cache_inv (de_validation D) valid c"
      "validateInvalidKeys (ge_validation (guardOf D u)) (sm_vettedUnusedKeys sm) (sm_withdrawalCredentials sm) c = (r, t, out)"
    with assms validateInvalidKeys_run(1,2) [of "de_validation D" valid c "sm_vettedUnusedKeys sm" "sm_withdrawalCredentials sm"]
    show "(\<forall>x. r = Inr x \<longrightarrow> cache_inv (de_validation D) valid t) \<and> (\<forall>e. r = Inl e \<longrightarrow> cache_inv (de_validation D) valid t) \<and>
      (\<forall>a\<in>set out. A a)" by (simp add: libraries_ok_def)
  qed
qed simp_all

lemma keeps_acts:
  assumes "\<And>s. I s \<Longrightarrow> \<exists>r t out. m s = (r, t, out) \<and> I t \<and> (\<forall>a\<in>set (acts out). A a)" and "\<And>a. metric_only a \<Longrightarrow> A a"
  shows "keeps I m A"
proof (rule tripleI)
  fix s r t out assume "I s" "m s = (r, t, out)"
  with assms(1) [of s] have "I t" "\<forall>a\<in>set (acts out). A a" by auto
  with assms(2) show "(\<forall>x. r = Inr x \<longrightarrow> I t) \<and> (\<forall>e. r = Inl e \<longrightarrow> I t) \<and> (\<forall>a\<in>set out. A a)"
    using outputs_split by blast
qed

section \<open>What was read of the block\<close>

text \<open>
  The data of a block: all of it read at its hash, by the daemon of which \<open>r\<close> are the contracts and \<open>d\<close>
  the registry of deposits.
\<close>

definition block_facts ::
  "('db, 'kdb, 'c) daemon_env \<Rightarrow> wallet list \<Rightarrow> repository_state \<Rightarrow> 'db registry_state \<Rightarrow> nat \<Rightarrow> string \<Rightarrow>
   (string \<times> string) list \<Rightarrow> registry_key list \<Rightarrow> block_data \<Rightarrow> bool" where
  "block_facts D ws r d blockNumber blockHash wcs lidoKeys bk \<longleftrightarrow>
     bk_blockNumber bk = blockNumber \<and> bk_blockHash bk = blockHash \<and>
     ck_getDepositRoot (rg_checker (de_deposits D)) blockHash = Inr (bk_depositRoot bk) \<and>
     (\<exists>d' out. getAllDepositedEvents (de_deposits D) blockNumber blockHash d = (Inr (bk_depositedEvents bk), d', out)) \<and>
     listed_at (securityOf D r) blockHash (bk_guardianContext bk) \<and>
     (\<exists>w. chosen (securityOf D r) ws (bk_guardianContext bk) = Inr w) \<and>
     bk_guardianAddress bk = gc_guardianAddress (bk_guardianContext bk) \<and>
     bk_guardianIndex bk = gc_guardianIndex (bk_guardianContext bk) \<and>
     isDepositsPaused (securityOf D r) blockHash = Inr (bk_alreadyPausedDeposits bk) \<and>
     (\<exists>(s :: ('db, 'kdb, 'c) daemon) t out. checkHistoricalFrontRun (de_CHAIN_ID D) (bk_depositedEvents bk) lidoKeys wcs s =
        (Inr (bk_hasFrontRunning bk), t, out)) \<and>
     (\<exists>(s :: ('db, 'kdb, 'c) daemon) t out. checkWrongWCType (de_CHAIN_ID D) (bk_depositedEvents bk) lidoKeys wcs s =
        (Inr (bk_hasWrongWCType bk), t, out))"

lemma dinv_I: "dinv D ws valid r l s \<Longrightarrow> wallet_inv (de_wallet D) ws (sy_wallet (gu_security (dm_guard s)))"
  by (simp add: dinv_def daemon_inv_def)

lemma onDeposits_fact:
  "triple (\<lambda>s. dinv D ws valid r l s \<and> dm_deposits s = d) (onDeposits m)
     (\<lambda>x s. dinv D ws valid r l s \<and> (\<exists>d' out. m d = (Inr x, d', out) \<and> dm_deposits s = d')) (dinv D ws valid r l) A"
proof (rule triple_zoom, rule triple_quiet, rule tripleI)
  fix s t x u out
  assume "dinv D ws valid r l s \<and> dm_deposits s = d" "t = dm_deposits s" "m t = (x, u, out)"
  then show "(\<forall>y. x = Inr y \<longrightarrow> dinv D ws valid r l (s\<lparr>dm_deposits := u\<rparr>) \<and>
        (\<exists>d' o'. m d = (Inr y, d', o') \<and> dm_deposits (s\<lparr>dm_deposits := u\<rparr>) = d')) \<and>
      (\<forall>e. x = Inl e \<longrightarrow> dinv D ws valid r l (s\<lparr>dm_deposits := u\<rparr>)) \<and> (\<forall>a\<in>set out. True)"
    by (auto simp: dinv_def daemon_inv_def)
qed

lemma onSecurity_fact:
  assumes "keeps (secInv E ws) m A" and "sv_wallet E = de_wallet D"
    and "\<And>s x t out. secInv E ws s \<Longrightarrow> m s = (Inr x, t, out) \<Longrightarrow> F x"
  shows "triple (dinv D ws valid r l) (onGuard (onSecurity m)) (\<lambda>x s. dinv D ws valid r l s \<and> F x) (dinv D ws valid r l) A"
proof (rule tripleI)
  fix s y t out assume inv: "dinv D ws valid r l s" and run: "onGuard (onSecurity m) s = (y, t, out)"
  obtain y' u out' where m: "m (gu_security (dm_guard s)) = (y', u, out')" by (metis prod_cases3)
  with run have "y = y'" by (simp add: zoom_def)
  with m assms(3) [of "gu_security (dm_guard s)"] inv assms(2) have "\<forall>x. y = Inr x \<longrightarrow> F x" by (auto simp: dinv_def daemon_inv_def)
  with tripleD [OF keeps_onSecurity [OF assms(1,2)] inv run]
  show "(\<forall>x. y = Inr x \<longrightarrow> dinv D ws valid r l t \<and> F x) \<and> (\<forall>e. y = Inl e \<longrightarrow> dinv D ws valid r l t) \<and> (\<forall>a\<in>set out. A a)"
    by blast
qed

lemma check_fact:
  assumes "\<And>s. \<exists>x out. m s = (x, s, out) \<and> acts out = []" and "\<And>a. metric_only a \<Longrightarrow> A a"
  shows "triple I m (\<lambda>x s. I s \<and> (\<exists>u v out. m u = (Inr x, v, out))) I A"
proof (rule tripleI)
  fix s y t out assume "I s" "m s = (y, t, out)"
  with assms(1) [of s] assms(2) show "(\<forall>x. y = Inr x \<longrightarrow> I t \<and> (\<exists>u v out. m u = (Inr x, v, out))) \<and>
      (\<forall>e. y = Inl e \<longrightarrow> I t) \<and> (\<forall>a\<in>set out. A a)"
    by (auto simp: acts_Nil_iff)
qed

lemma historical_quiet:
  "\<exists>x out. checkHistoricalFrontRun c g ks wcs s = (x, s, out) \<and> acts out = []"
  "\<exists>x out. checkWrongWCType c g ks wcs s = (x, s, out) \<and> acts out = []"
  by (cases "getUsedKeyExpectedWCs ks wcs";
      simp add: checkHistoricalFrontRun_def checkWrongWCType_def collectHistoricalFrontRunMetrics_def
        collectWrongWCTypeMetrics_def Let_def)+

lemma context_fact:
  "triple (dinv D ws valid r l) (onGuard (onSecurity (getGuardianExecutionContext (securityOf D r) h)))
     (\<lambda>c s. dinv D ws valid r l s \<and> listed_at (securityOf D r) h c \<and> (\<exists>w. chosen (securityOf D r) ws c = Inr w))
     (dinv D ws valid r l) A"
  by (rule onSecurity_fact [OF keeps_context]) (auto dest: context_ok simp del: securityOf_wallet, simp)

lemma balance_fact:
  "keeps (dinv D ws valid r l) (onGuard (onSecurity (onWallet (isBalanceCritical (sv_wallet (securityOf D r)))))) A"
  by (rule keeps_onSecurity [where E = "securityOf D r", OF keeps_onWallet [OF keeps_wallets(5)]]) simp

lemma deposits_fact:
  "triple (\<lambda>s. dinv D ws valid r l s \<and> dm_deposits s = d) (onDeposits m)
     (\<lambda>x s. dinv D ws valid r l s \<and> (\<exists>d' out. m d = (Inr x, d', out))) (dinv D ws valid r l) A"
  by (rule triple_weaken [OF onDeposits_fact]) auto

lemma blockDataBody_facts:
  assumes A: "\<And>a. metric_only a \<Longrightarrow> A a"
  shows "triple (\<lambda>s. dinv D ws valid r l s \<and> dm_deposits s = d) (blockDataBody D n h wcs ks)
    (\<lambda>bk s. dinv D ws valid r l s \<and> block_facts D ws r d n h wcs ks bk) (dinv D ws valid r l) A"
  unfolding blockDataBody_def Let_def
  apply (rule triple_withContracts [where r = r], simp add: dinv_def)
  apply (rule triple_liftR_then)
   apply (rule triple_fact [OF deposits_fact])
   apply (rule triple_fact [OF context_fact])
   apply (rule triple_andThen [OF balance_fact])
   apply (rule triple_fact [OF check_fact [OF historical_quiet(1) A]], assumption)
   apply (rule triple_fact [OF check_fact [OF historical_quiet(2) A]], assumption)
   apply (rule triple_liftR_then)
    apply (rule triple_ret)
    apply (auto simp: block_facts_def getDepositRoot_def)
  done

lemma getCurrentBlockData_facts:
  assumes A: "\<And>a. metric_only a \<Longrightarrow> A a"
  shows "triple (\<lambda>s. dinv D ws valid r l s \<and> dm_deposits s = d) (getCurrentBlockData D n h wcs ks)
    (\<lambda>bk s. dinv D ws valid r l s \<and> block_facts D ws r d n h wcs ks bk) (dinv D ws valid r l) A"
  unfolding getCurrentBlockData_def
  by (rule triple_catchE [OF blockDataBody_facts [OF A]], assumption)
     (intro triple_andThen triple_emit triple_raise; simp add: A)

section \<open>What was read of the modules\<close>

definition module_facts ::
  "('db, 'kdb, 'c) daemon_env \<Rightarrow> repository_state \<Rightarrow> el_block_snapshot \<Rightarrow> registry_key list \<Rightarrow> (string \<times> string) list \<Rightarrow>
   sr_module \<Rightarrow> module_data \<Rightarrow> bool" where
  "module_facts D r meta lidoKeys wcs x sm \<longleftrightarrow>
     sm_stakingModuleId sm = sr_id x \<and> sm_nonce sm = sr_nonce x \<and> sm_stakingModuleAddress sm = sr_stakingModuleAddress x \<and>
     sm_lastChangedBlockHash sm = el_lastChangedBlockHash meta \<and>
     sm_vettedUnusedKeys sm = getModuleVettedUnusedKeys (sr_stakingModuleAddress x) lidoKeys \<and>
     map_of wcs (sr_stakingModuleAddress x) = Some (sm_withdrawalCredentials sm) \<and>
     isModuleDepositsPaused (de_router D) (sr_id x) (el_blockHash meta) r = Inr (sm_isModuleDepositsPaused sm)"

text \<open>The credentials of the modules: the ones of the router with the type of the module.\<close>

definition wcs_facts ::
  "('db, 'kdb, 'c) daemon_env \<Rightarrow> repository_state \<Rightarrow> string \<Rightarrow> sr_module list \<Rightarrow> (string \<times> string) list \<Rightarrow> bool" where
  "wcs_facts D r blockHash stakingModules wcs \<longleftrightarrow>
     fst ` set wcs = sr_stakingModuleAddress ` set stakingModules \<and>
     (\<exists>baseWC. getWithdrawalCredentials (de_router D) blockHash r = Inr baseWC \<and>
        (\<forall>(address, wc) \<in> set wcs. \<exists>x \<in> set stakingModules. sr_stakingModuleAddress x = address \<and>
           buildModuleWc (de_hex D) (sr_withdrawalCredentialsType x) baseWC = Inr wc))"

lemma set_update_sub: "p \<in> set (AList.update k v al) \<Longrightarrow> p = (k, v) \<or> p \<in> set al"
  by (induction al) (auto split: if_split_asm)

lemma fold_update_sub:
  "p \<in> set (fold (\<lambda>(a, w). AList.update a w) es al) \<Longrightarrow> p \<in> set es \<or> p \<in> set al"
proof (induction es arbitrary: al)
  case (Cons e es)
  then show ?case by (cases e) (auto dest: set_update_sub)
qed simp

lemma fold_update_keys:
  "fst ` set (fold (\<lambda>(a, w). AList.update a w) es al) = fst ` set es \<union> fst ` set al"
proof (induction es arbitrary: al)
  case (Cons e es)
  then show ?case by (cases e) (simp add: update_keys)
qed simp

lemma wcs_entries:
  assumes "traverse (\<lambda>m. bindR (build m) (\<lambda>wc. Inr (address m, wc))) ms = Inr entries"
  shows "fst ` set (fold (\<lambda>(a, w). AList.update a w) entries []) = address ` set ms"
    and "(a, wc) \<in> set (fold (\<lambda>(a, w). AList.update a w) entries []) \<Longrightarrow> \<exists>x \<in> set ms. address x = a \<and> build x = Inr wc"
proof -
  have all2: "list_all2 (\<lambda>x e. fst e = address x \<and> build x = Inr (snd e)) ms entries"
    using assms unfolding traverse_Inr_iff by (rule list_all2_mono) (auto simp: bindR_Inr_iff)
  then have "fst ` set entries = address ` set ms"
    by (induction rule: list_all2_induct) auto
  then show "fst ` set (fold (\<lambda>(a, w). AList.update a w) entries []) = address ` set ms"
    by (simp add: fold_update_keys)
  show "\<exists>x \<in> set ms. address x = a \<and> build x = Inr wc" if "(a, wc) \<in> set (fold (\<lambda>(a, w). AList.update a w) entries [])"
    using fold_update_sub [OF that] list_all2_right [OF all2] by fastforce
qed

lemma wcs_fact:
  "triple (\<lambda>s. dinv D ws valid r l s \<and> dm_deposits s = d) (fetchModuleWithdrawalCredentials D ms h)
     (\<lambda>wcs s. (dinv D ws valid r l s \<and> dm_deposits s = d) \<and> wcs_facts D r h ms wcs) (dinv D ws valid r l) A"
  unfolding fetchModuleWithdrawalCredentials_def
  apply (rule triple_withContracts [where r = r], simp add: dinv_def)
  apply (rule triple_liftR_then)
   apply (rule triple_liftR_then)
    apply (rule triple_ret)
    apply (auto simp: wcs_facts_def wcs_entries dest: wcs_entries(2))
  done

lemma module_fact:
  assumes "sr_stakingModuleAddress x \<in> fst ` set wcs"
  shows "triple (dinv D ws valid r l) (collectModule D meta ks wcs x)
     (\<lambda>sm s. dinv D ws valid r l s \<and> module_facts D r meta ks wcs x sm) (dinv D ws valid r l) A"
  unfolding collectModule_def
  apply (rule triple_withContracts [where r = r], simp add: dinv_def)
  apply (rule triple_liftR_then)
   apply (rule triple_ret)
   apply (use assms in \<open>auto simp: module_facts_def map_of_eq_None_iff split: option.split\<close>)
  done

lemma modules_fact:
  assumes "wcs_facts D r h ms wcs"
  shows "triple (dinv D ws valid r l) (collectStakingModuleData D ms meta ks wcs)
     (\<lambda>sms s. dinv D ws valid r l s \<and> list_all2 (module_facts D r meta ks wcs) ms sms) (dinv D ws valid r l) A"
  unfolding collectStakingModuleData_def
  by (rule triple_mapAll, rule module_fact) (use assms in \<open>simp add: wcs_facts_def\<close>)

section \<open>The check of the keys\<close>

text \<open>A valid deposit of the key with credentials other than its module's.\<close>

abbreviation foreignDeposit :: "block_data \<Rightarrow> string \<Rightarrow> (string \<Rightarrow> bool) \<Rightarrow> registry_key \<Rightarrow> bool" where
  "foreignDeposit bk wc P k \<equiv> \<exists>e\<in>set (events (bk_depositedEvents bk)). de_pubkey e = lk_key k \<and> de_valid e \<and>
     de_wc e \<noteq> wc \<and> P (de_wc e)"

text \<open>What the checks add to the data of a module; the rest of it stays.\<close>

definition checked_facts ::
  "('db, 'kdb, 'c) daemon_env \<Rightarrow> (serialized_deposit \<Rightarrow> bool) \<Rightarrow> string list \<Rightarrow> duplicates_result \<Rightarrow> block_data \<Rightarrow>
   module_data \<Rightarrow> module_data \<Rightarrow> bool" where
  "checked_facts D valid lidoWCs found bk sm sm' \<longleftrightarrow>
     (\<exists>(attempts :: front_run_attempts) invalid wc fork. sm' = sm
        \<lparr>sm_frontRunKeys := fa_frontRunKeys attempts, sm_crossTypeKeys := fa_crossTypeKeys attempts, sm_invalidKeys := invalid,
         sm_duplicatedKeys := getModuleVettedUnusedKeys (sm_stakingModuleAddress sm) (dr_duplicates found),
         sm_unresolvedDuplicatedKeys := getModuleVettedUnusedKeys (sm_stakingModuleAddress sm) (dr_unresolved found)\<rparr> \<and>
        fa_frontRunKeys attempts = filter (foreignDeposit bk (sm_withdrawalCredentials sm) (\<lambda>wc. wc \<notin> set lidoWCs)) (sm_vettedUnusedKeys sm) \<and>
        fa_crossTypeKeys attempts = filter (foreignDeposit bk (sm_withdrawalCredentials sm) (\<lambda>wc. wc \<in> set lidoWCs)) (sm_vettedUnusedKeys sm) \<and>
        kv_bufferFromHexString (de_validation D) (sm_withdrawalCredentials sm) = Inr wc \<and>
        forkVersion (de_validation D) = Inr fork \<and>
        mset invalid = mset (filter (\<lambda>k. \<not> valid (depositDataOf wc fork k)) (sm_vettedUnusedKeys sm)))"

lemma attempts_fact:
  assumes A: "\<And>a. metric_only a \<Longrightarrow> A a"
  shows "triple I (getFrontRunAttempts sm bk lidoWCs)
    (\<lambda>x s. I s \<and> fa_frontRunKeys x = filter (foreignDeposit bk (sm_withdrawalCredentials sm) (\<lambda>wc. wc \<notin> set lidoWCs)) (sm_vettedUnusedKeys sm) \<and>
        fa_crossTypeKeys x = filter (foreignDeposit bk (sm_withdrawalCredentials sm) (\<lambda>wc. wc \<in> set lidoWCs)) (sm_vettedUnusedKeys sm)) I A"
proof (rule tripleI)
  fix s r t out assume "I s" and run: "getFrontRunAttempts sm bk lidoWCs s = (r, t, out)"
  have "acts (snd (snd (getFrontRunAttempts sm bk lidoWCs s))) = []"
    by (simp add: getFrontRunAttempts_def Let_def split: prod.split)
  with run A have "\<forall>a\<in>set out. A a" by (simp add: acts_Nil_iff)
  with run getFrontRunAttempts_eq [of sm bk lidoWCs s] \<open>I s\<close>
  show "(\<forall>x. r = Inr x \<longrightarrow> I t \<and> fa_frontRunKeys x = filter (foreignDeposit bk (sm_withdrawalCredentials sm) (\<lambda>wc. wc \<notin> set lidoWCs)) (sm_vettedUnusedKeys sm) \<and>
        fa_crossTypeKeys x = filter (foreignDeposit bk (sm_withdrawalCredentials sm) (\<lambda>wc. wc \<in> set lidoWCs)) (sm_vettedUnusedKeys sm)) \<and>
      (\<forall>e. r = Inl e \<longrightarrow> I t) \<and> (\<forall>a\<in>set out. A a)" by simp
qed

lemma invalid_fact:
  assumes "libraries_ok D valid"
  shows "triple (dinv D ws valid r l) (onGuard (guardInvalidKeys (guardOf D u) sm))
    (\<lambda>invalid s. dinv D ws valid r l s \<and> (\<exists>wc fork. kv_bufferFromHexString (de_validation D) (sm_withdrawalCredentials sm) = Inr wc \<and>
        forkVersion (de_validation D) = Inr fork \<and>
        mset invalid = mset (filter (\<lambda>k. \<not> valid (depositDataOf wc fork k)) (sm_vettedUnusedKeys sm)))) (dinv D ws valid r l) A"
    (is "triple ?I ?m (\<lambda>x s. ?I s \<and> ?F x) ?I A")
proof (rule tripleI)
  fix s y t out assume inv: "?I s" and run: "?m s = (y, t, out)"
  obtain y' c' o' where v: "validateInvalidKeys (de_validation D) (sm_vettedUnusedKeys sm) (sm_withdrawalCredentials sm)
      (gu_validation (dm_guard s)) = (y', c', o')" by (metis prod_cases3)
  with run have y: "y = y'" by (simp add: guardInvalidKeys_def zoom_def)
  have laws: "lru_laws (kv_lru (de_validation D))" "validator_laws (de_validation D) valid"
    "cache_inv (de_validation D) valid (gu_validation (dm_guard s))"
    using assms inv by (simp_all add: libraries_ok_def dinv_def daemon_inv_def)
  have "?F x" if "y = Inr x" for x
    using validateInvalidKeys_run(3) [OF laws v [folded y, unfolded that]] .
  with tripleD [OF keeps_guardInvalid [OF assms] inv run]
  show "(\<forall>x. y = Inr x \<longrightarrow> ?I t \<and> ?F x) \<and> (\<forall>e. y = Inl e \<longrightarrow> ?I t) \<and> (\<forall>a\<in>set out. A a)" by blast
qed

lemma checkModule_fact:
  assumes "libraries_ok D valid" and A: "\<And>a. metric_only a \<Longrightarrow> A a"
  shows "triple (dinv D ws valid r l) (checkModuleKeys D lidoWCs found bk sm)
     (\<lambda>sm' s. dinv D ws valid r l s \<and> checked_facts D valid lidoWCs found bk sm sm') (dinv D ws valid r l) A"
  unfolding checkModuleKeys_def Let_def
  apply (rule triple_withContracts [where r = r], simp add: dinv_def)
  apply (rule triple_fact [OF attempts_fact [OF A]], assumption)
  apply (rule triple_fact [OF invalid_fact [OF assms(1)]])
  apply (rule triple_andThen [OF keeps_emit])
   apply (erule A [OF bspec [OF iffD1 [OF acts_Nil_iff]], rotated])
   apply (simp add: collectModuleMetric_def)
  apply (rule triple_ret)
  apply (unfold checked_facts_def, blast)
  done

definition keys_checked ::
  "('db, 'kdb, 'c) daemon_env \<Rightarrow> (serialized_deposit \<Rightarrow> bool) \<Rightarrow> registry_key list \<Rightarrow> block_data \<Rightarrow>
   module_data list \<Rightarrow> module_data list \<Rightarrow> bool" where
  "keys_checked D valid lidoKeys bk sms sms' \<longleftrightarrow>
     (\<exists>keys found. getDuplicatedKeys (historyOf D keys) lidoKeys bk = Inr found \<and>
        list_all2 (checked_facts D valid (map sm_withdrawalCredentials sms) found bk) sms sms')"

lemma checkKeys_fact:
  assumes "libraries_ok D valid" and A: "\<And>a. metric_only a \<Longrightarrow> A a"
  shows "triple (dinv D ws valid r l) (guardianCheckKeys D sms bk lidoKeys)
     (\<lambda>sms' s. dinv D ws valid r l s \<and> keys_checked D valid lidoKeys bk sms sms') (dinv D ws valid r l) A"
  unfolding guardianCheckKeys_def collectorCheckKeys_def
proof (rule triple_andThen [OF keeps_onKeys], rule triple_getS, rule triple_liftR_then)
  fix s found
  assume inv: "dinv D ws valid r l s" and found: "getDuplicatedKeys (historyOf D (dm_keys s)) lidoKeys bk = Inr found"
  have "triple (dinv D ws valid r l) (mapAll (checkModuleKeys D (map sm_withdrawalCredentials sms) found bk) sms)
     (\<lambda>sms' s. dinv D ws valid r l s \<and> list_all2 (checked_facts D valid (map sm_withdrawalCredentials sms) found bk) sms sms')
     (dinv D ws valid r l) A"
    by (rule triple_mapAll, rule checkModule_fact [OF assms(1) A])
  then show "triple (\<lambda>t. t = s) (mapAll (checkModuleKeys D (map sm_withdrawalCredentials sms) found bk) sms)
     (\<lambda>sms' s. dinv D ws valid r l s \<and> keys_checked D valid lidoKeys bk sms sms') (dinv D ws valid r l) A"
    by (rule triple_weaken) (use inv found in \<open>auto simp: keys_checked_def\<close>)
qed simp

section \<open>Deposits, unvetting and the ping\<close>

lemma deposit_keeps:
  assumes A: "\<And>a. metric_only a \<Longrightarrow> A a"
    and D: "\<And>sig topic. \<not> ignoreDeposits sm (bk_hasFrontRunning bk) (bk_hasWrongWCType bk) (bk_alreadyPausedDeposits bk) \<Longrightarrow>
      depositSigned (securityOf D r) ws (bk_depositRoot bk) (sm_nonce sm) (bk_blockNumber bk) (bk_blockHash bk)
        (sm_stakingModuleId sm) (bk_guardianContext bk) = Inr sig \<Longrightarrow>
      A (Publish topic (Message_Deposit (depositMessageOf sm bk sig)) (me_app (de_messages D)))"
  shows "keeps (dinv D ws valid r l) (handleModuleDeposit D bk sm) A"
  unfolding handleModuleDeposit_def
proof (rule keeps_andThen, rule keeps_emit)
  show "A a" if "a \<in> set (collectMetrics sm bk)" for a
    using that A acts_metrics(1) [of sm bk] unfolding acts_Nil_iff by blast
  let ?ignore = "ignoreDeposits sm (bk_hasFrontRunning bk) (bk_hasWrongWCType bk) (bk_alreadyPausedDeposits bk)"
  have "keeps (dinv D ws valid r l) (onGuard (handleCorrectKeys (guardOf D r) sm bk)) A" if "\<not> ?ignore"
  proof (rule keeps_onGuard, rule keeps_acts [OF _ A])
    fix g :: "'c guard_state"
    assume inv: "wallet_inv (de_wallet D) ws (sy_wallet (gu_security g)) \<and> cache_inv (de_validation D) valid (gu_validation g)"
    then have "guardInv (guardOf D r) ws g" by simp
    from handleCorrectKeys_run [OF this, of sm bk] obtain y h out where
      run: "handleCorrectKeys (guardOf D r) sm bk g = (y, h, out)" "guardInv (guardOf D r) ws h"
        "gu_validation h = gu_validation g"
        "acts out = depositActs (guardOf D r) ws sm bk (gu_lastContractsState g (sm_stakingModuleId sm))" by blast
    have "\<forall>a\<in>set (acts out). A a"
      using D [OF that] unfolding run(4)
      by (auto simp: depositActs_def publishedFor_def split: if_split_asm sum.split_asm)
    with run inv show "\<exists>y h out. handleCorrectKeys (guardOf D r) sm bk g = (y, h, out) \<and>
        (wallet_inv (de_wallet D) ws (sy_wallet (gu_security h)) \<and> cache_inv (de_validation D) valid (gu_validation h)) \<and>
        (\<forall>a\<in>set (acts out). A a)" by simp
  qed
  then show "keeps (dinv D ws valid r l) (if ?ignore then ret ()
      else withContracts (\<lambda>r. onGuard (handleCorrectKeys (guardOf D r) sm bk))) A"
    by (auto intro: keeps_withContracts keeps_simple)
qed

text \<open>Unvetting publishes no deposit message.\<close>

definition deposit_message :: "effect \<Rightarrow> bool" where
  "deposit_message e \<longleftrightarrow> (\<exists>topic m app. e = Publish topic (Message_Deposit m) app)"

definition pause_message :: "effect \<Rightarrow> bool" where
  "pause_message e \<longleftrightarrow> (\<exists>topic m app. e = Publish topic (Message_Pause m) app)"

lemma metric_no_message: "metric_only a \<Longrightarrow> \<not> deposit_message a" "metric_only a \<Longrightarrow> \<not> pause_message a"
  by (auto simp: deposit_message_def pause_message_def)

lemma sentActs_no_message: "a \<in> set (sentActs tx) \<Longrightarrow> \<not> deposit_message a" "a \<in> set (sentActs tx) \<Longrightarrow> \<not> pause_message a"
  by (cases tx; auto simp: deposit_message_def pause_message_def)+

lemma unvetting_keeps:
  assumes A: "\<And>a. \<not> deposit_message a \<Longrightarrow> \<not> pause_message a \<Longrightarrow> A a"
  shows "keeps (dinv D ws valid r l) (guardianHandleUnvetting D sms bk) A"
  unfolding guardianHandleUnvetting_def
proof (rule keeps_branches(2) [OF keeps_simple(1)], rule keeps_withContracts,
    rule keeps_onSecurity [where E = "securityOf D r"], rule keeps_acts)
  fix sm and s :: security_state assume "secInv (securityOf D r) ws s"
  then have "walletInv (un_security (unvettingOf D r)) ws s" by simp
  from handleUnvetting_run [OF this, of sm bk] obtain y t out where
    run: "handleUnvetting (unvettingOf D r) sm bk s = (y, t, out)" "walletInv (un_security (unvettingOf D r)) ws t"
      "acts out = unvettingActs (unvettingOf D r) ws sm bk (unvetBusy (sm_stakingModuleId sm) s)" by blast
  have "A a" if "a \<in> set (acts out)" for a
  proof (rule A)
    from that obtain d sig where "a \<in> set (unvetTxActs (unvettingOf D r) ws sm bk (unvetBusy (sm_stakingModuleId sm) s) d sig) \<or>
        a \<in> set (publishedFor (de_messages D) (Message_Unvet (unvetMessageOf sm bk d sig)))"
      unfolding run(3) by (auto simp: unvettingActs_def split: if_split_asm sum.split_asm)
    then show "\<not> deposit_message a" "\<not> pause_message a"
      by (auto simp: unvetTxActs_def publishedFor_def sentActs_no_message split: if_split_asm sum.split_asm)
         (auto simp: deposit_message_def pause_message_def)
  qed
  with run show "\<exists>y t out. handleUnvetting (unvettingOf D r) sm bk s = (y, t, out) \<and> secInv (securityOf D r) ws t \<and>
      (\<forall>a\<in>set (acts out). A a)" by simp
qed (simp_all add: A metric_no_message)

lemma ping_keeps:
  assumes A: "\<And>a. \<not> deposit_message a \<Longrightarrow> \<not> pause_message a \<Longrightarrow> A a"
  shows "keeps (dinv D ws valid r l) (pingIfDue D sms bk) A"
proof -
  have ping: "keeps (dinv D ws valid r l) (pingMessageBroker (de_messages D) ids bk) A" for ids
    unfolding pingMessageBroker_def
    by (rule tripleI)
       (auto simp: sendMessageFromGuardian_eq intro!: A simp: deposit_message_def pause_message_def
         split: if_split_asm sum.split_asm)
  show ?thesis
    unfolding pingIfDue_def
    by (intro keep_rules ping) (simp_all add: dinv_def daemon_inv_def)
qed

section \<open>A cycle\<close>

text \<open>The deposit messages of a run over the keys: a checked module, nothing to hold it back, a signature.\<close>

definition deposit_allowed ::
  "('db, 'kdb, 'c) daemon_env \<Rightarrow> wallet list \<Rightarrow> (serialized_deposit \<Rightarrow> bool) \<Rightarrow> repository_state \<Rightarrow> registry_key list \<Rightarrow>
   module_data list \<Rightarrow> block_data \<Rightarrow> message_deposit \<Rightarrow> bool" where
  "deposit_allowed D ws valid r lidoKeys sms bk m \<longleftrightarrow>
     (\<exists>sms' sm' sig. keys_checked D valid lidoKeys bk sms sms' \<and> sm' \<in> set sms' \<and>
        \<not> ignoreDeposits sm' (bk_hasFrontRunning bk) (bk_hasWrongWCType bk) (bk_alreadyPausedDeposits bk) \<and>
        depositSigned (securityOf D r) ws (bk_depositRoot bk) (sm_nonce sm') (bk_blockNumber bk) (bk_blockHash bk)
          (sm_stakingModuleId sm') (bk_guardianContext bk) = Inr sig \<and>
        m = depositMessageOf sm' bk sig)"

definition metaOf :: "block_data \<Rightarrow> state_meta" where
  "metaOf bk = \<lparr>me_blockHash = bk_blockHash bk, me_blockNumber = bk_blockNumber bk\<rparr>"

lemma handleKeys_triple:
  assumes lib: "libraries_ok D valid"
    and A: "\<And>a. \<not> deposit_message a \<Longrightarrow> \<not> pause_message a \<Longrightarrow> A a"
    and dep: "\<And>topic m. deposit_allowed D ws valid r ks sms bk m \<Longrightarrow> A (Publish topic (Message_Deposit m) (me_app (de_messages D)))"
  shows "triple (dinv D ws valid r l) (handleKeysBody D sms bk ks) (\<lambda>_. dinv D ws valid r (Some (metaOf bk))) (dinv D ws valid r l) A"
proof -
  have M: "A a" if "metric_only a" for a using A metric_no_message [OF that] by blast
  have deposits: "keeps (dinv D ws valid r l) (handleDeposit D sms' bk) A" if "keys_checked D valid ks bk sms sms'" for sms'
    unfolding handleDeposit_def
  proof (rule triple_weaken [OF triple_mapAll [where R = "\<lambda>_ _. True"]])
    fix sm' assume "sm' \<in> set sms'"
    with that have "keeps (dinv D ws valid r l) (handleModuleDeposit D bk sm') A"
      by (intro deposit_keeps [OF M] dep) (unfold deposit_allowed_def, blast+)
    then show "triple (dinv D ws valid r l) (handleModuleDeposit D bk sm') (\<lambda>_ s. dinv D ws valid r l s \<and> True) (dinv D ws valid r l) A"
      by simp
  qed simp_all
  show ?thesis
    unfolding handleKeysBody_def setLastProcessedStateMeta_def
    apply (rule triple_fact [OF checkKeys_fact [OF lib M]], assumption)
    apply (rule triple_andThen [OF unvetting_keeps [OF A]], assumption, assumption)
    apply (rule triple_andThen [OF deposits], assumption)
    apply (rule triple_andThen [OF ping_keeps [OF A]], assumption, assumption)
    apply (rule triple_modifyS)
    apply (simp add: dinv_def daemon_inv_def metaOf_def)
    done
qed

text \<open>What a cycle knows when it comes to the keys.\<close>

definition cycle_facts ::
  "('db, 'kdb, 'c) daemon_env \<Rightarrow> wallet list \<Rightarrow> ('db, 'kdb, 'c) daemon \<Rightarrow> repository_state \<Rightarrow> module_list_response \<Rightarrow>
   key_list_response \<Rightarrow> 'db registry_state \<Rightarrow> (string \<times> string) list \<Rightarrow> block_data \<Rightarrow> module_data list \<Rightarrow> bool" where
  "cycle_facts D ws s r response keys d wcs bk sms \<longleftrightarrow>
     (let meta = ml_elBlockSnapshot response in
        getModules (de_kapi D) = Inr response \<and>
        isNeedToProcessNewState \<lparr>me_blockHash = el_blockHash meta, me_blockNumber = el_blockNumber meta\<rparr> (dm_lastProcessedStateMeta s) \<and>
        el_lastChangedBlockHash (kl_elBlockSnapshot keys) = el_lastChangedBlockHash meta \<and>
        (dm_kapi s = Some keys \<or> fetchKeys (de_kapi D) = Inr keys) \<and>
        (\<exists>out. initCachedContracts (de_repository D) (el_blockHash meta) (dm_contracts s) = (Inr (), r, out)) \<and>
        (\<exists>out. handleNewBlockDeposits (de_deposits D) (de_finalized D) (dm_deposits s) = (Inr (), d, out)) \<and>
        wcs_facts D r (el_blockHash meta) (ml_data response) wcs \<and>
        block_facts D ws r d (el_blockNumber meta) (el_blockHash meta) wcs (kl_data keys) bk \<and>
        list_all2 (module_facts D r meta (kl_data keys) wcs) (ml_data response) sms)"

lemma collectData_fact:
  assumes A: "\<And>a. metric_only a \<Longrightarrow> A a"
  shows "triple (\<lambda>s. dinv D ws valid r l s \<and> dm_deposits s = d) (collectData D ms meta ks)
     (\<lambda>p s. dinv D ws valid r l s \<and> (\<exists>wcs. wcs_facts D r (el_blockHash meta) ms wcs \<and>
        block_facts D ws r d (el_blockNumber meta) (el_blockHash meta) wcs ks (fst p) \<and>
        list_all2 (module_facts D r meta ks wcs) ms (snd p))) (dinv D ws valid r l) A"
  unfolding collectData_def
  apply (rule triple_fact [OF wcs_fact])
  apply (rule triple_fact [OF getCurrentBlockData_facts [OF A]], assumption)
  apply (rule triple_fact [OF modules_fact], assumption)
  apply (rule triple_ret)
  apply auto
  done

text \<open>What a cycle may publish about deposits, for the state it starts from.\<close>

definition cycle_output ::
  "('db, 'kdb, 'c) daemon_env \<Rightarrow> wallet list \<Rightarrow> (serialized_deposit \<Rightarrow> bool) \<Rightarrow> ('db, 'kdb, 'c) daemon \<Rightarrow> effect \<Rightarrow> bool" where
  "cycle_output D ws valid s a \<longleftrightarrow>
     (\<forall>topic m app. a = Publish topic (Message_Deposit m) app \<longrightarrow>
        (\<exists>r response keys d wcs bk sms. cycle_facts D ws s r response keys d wcs bk sms \<and>
           deposit_allowed D ws valid r (kl_data keys) sms bk m)) \<and>
     (\<forall>topic m app. a = Publish topic (Message_Pause m) app \<longrightarrow>
        (\<exists>r response keys d wcs bk sms sig. cycle_facts D ws s r response keys d wcs bk sms \<and>
           \<not> bk_alreadyPausedDeposits bk \<and> (bk_hasFrontRunning bk \<or> bk_hasWrongWCType bk) \<and>
           pauseSigned (securityOf D r) ws (bk_blockNumber bk) (bk_blockHash bk) (bk_guardianContext bk) = Inr sig \<and>
           m = pauseMessageOf bk sig))"

lemma cycle_output_other: "\<not> deposit_message a \<Longrightarrow> \<not> pause_message a \<Longrightarrow> cycle_output D ws valid s a"
  by (auto simp: cycle_output_def deposit_message_def pause_message_def)

lemma cycle_output_metric: "metric_only a \<Longrightarrow> cycle_output D ws valid s a"
  by (simp add: cycle_output_other metric_no_message)

lemma cycle_output_deposit:
  assumes "cycle_output D ws valid s (Publish topic (Message_Deposit m) app)"
  obtains r response keys d wcs bk sms where "cycle_facts D ws s r response keys d wcs bk sms"
    "deposit_allowed D ws valid r (kl_data keys) sms bk m"
  using assms [unfolded cycle_output_def, THEN conjunct1, rule_format, OF refl] by (elim exE conjE)

lemma cycle_output_pause:
  assumes "cycle_output D ws valid s (Publish topic (Message_Pause m) app)"
  obtains r response keys d wcs bk sms sig where "cycle_facts D ws s r response keys d wcs bk sms"
    "\<not> bk_alreadyPausedDeposits bk" "bk_hasFrontRunning bk \<or> bk_hasWrongWCType bk"
    "pauseSigned (securityOf D r) ws (bk_blockNumber bk) (bk_blockHash bk) (bk_guardianContext bk) = Inr sig"
    "m = pauseMessageOf bk sig"
  using assms [unfolded cycle_output_def, THEN conjunct2, rule_format, OF refl] by (elim exE conjE)

lemma pause_keeps:
  assumes M: "\<And>a. metric_only a \<Longrightarrow> A a" and A: "\<And>a. \<not> deposit_message a \<Longrightarrow> \<not> pause_message a \<Longrightarrow> A a"
    and P: "\<And>topic sig. pauseSigned (securityOf D r) ws (bk_blockNumber bk) (bk_blockHash bk) (bk_guardianContext bk) = Inr sig \<Longrightarrow>
      A (Publish topic (Message_Pause (pauseMessageOf bk sig)) (me_app (de_messages D)))"
  shows "keeps (dinv D ws valid r l) (withContracts (\<lambda>r. onGuard (handlePause (guardOf D r) bk))) A"
proof (rule keeps_withContracts, rule keeps_onGuard, rule keeps_acts [OF _ M])
  fix g :: "'c guard_state"
  assume inv: "wallet_inv (de_wallet D) ws (sy_wallet (gu_security g)) \<and> cache_inv (de_validation D) valid (gu_validation g)"
  then have "guardInv (guardOf D r) ws g" by simp
  from handlePause_run [OF this, of bk] obtain y h out where
    run: "handlePause (guardOf D r) bk g = (y, h, out)" "guardInv (guardOf D r) ws h" "gu_validation h = gu_validation g"
      "acts out = pauseActs (guardOf D r) ws bk (sy_pausing (gu_security g))" by blast
  have "A a" if "a \<in> set (acts out)" for a
  proof -
    obtain sig where sig: "pauseSigned (securityOf D r) ws (bk_blockNumber bk) (bk_blockHash bk) (bk_guardianContext bk) = Inr sig"
    proof (cases "pauseSigned (securityOf D r) ws (bk_blockNumber bk) (bk_blockHash bk) (bk_guardianContext bk)")
      case (Inl e)
      with that \<open>a \<in> set (acts out)\<close> show thesis unfolding run(4) by (simp add: pauseActs_def)
    qed (use that in blast)
    with \<open>a \<in> set (acts out)\<close> have "a \<in> set (sentActs (pauseSent (securityOf D r) ws (bk_blockNumber bk) sig (bk_guardianContext bk))) \<or>
        a \<in> set (publishedFor (de_messages D) (Message_Pause (pauseMessageOf bk sig)))"
      unfolding run(4) by (auto simp: pauseActs_def split: if_split_asm)
    then show "A a"
    proof
      assume "a \<in> set (sentActs (pauseSent (securityOf D r) ws (bk_blockNumber bk) sig (bk_guardianContext bk)))"
      from sentActs_no_message [OF this] show "A a" by (rule A)
    next
      assume "a \<in> set (publishedFor (de_messages D) (Message_Pause (pauseMessageOf bk sig)))"
      with P [OF sig] show "A a" by (auto simp: publishedFor_def split: if_split_asm sum.split_asm)
    qed
  qed
  with run inv show "\<exists>y h out. handlePause (guardOf D r) bk g = (y, h, out) \<and>
      (wallet_inv (de_wallet D) ws (sy_wallet (gu_security h)) \<and> cache_inv (de_validation D) valid (gu_validation h)) \<and>
      (\<forall>a\<in>set (acts out). A a)" by simp
qed

text \<open>The state while a cycle reads: what the calls so far have not touched.\<close>

definition reading :: "('db, 'kdb, 'c) daemon_env \<Rightarrow> wallet list \<Rightarrow> (serialized_deposit \<Rightarrow> bool) \<Rightarrow> repository_state \<Rightarrow>
  'db registry_state \<Rightarrow> state_meta option \<Rightarrow> ('db, 'kdb, 'c) daemon \<Rightarrow> bool" where
  "reading D ws valid r d l s \<longleftrightarrow> dinv D ws valid r l s \<and> dm_deposits s = d"

definition before :: "('db, 'kdb, 'c) daemon_env \<Rightarrow> wallet list \<Rightarrow> (serialized_deposit \<Rightarrow> bool) \<Rightarrow> state_meta option \<Rightarrow>
  ('db, 'kdb, 'c) daemon \<Rightarrow> bool" where
  "before D ws valid l s \<longleftrightarrow> (\<exists>r. dinv D ws valid r l s)"

lemma reading_before: "reading D ws valid r d l s \<Longrightarrow> before D ws valid l s" "dinv D ws valid r l s \<Longrightarrow> before D ws valid l s"
  by (auto simp: reading_def before_def)

lemma kapi_fact:
  "triple (\<lambda>s. s = s0 \<and> reading D ws valid r d l s) (onKapi (getKeys (de_kapi D) meta))
    (\<lambda>keys s. reading D ws valid r d l s \<and> el_lastChangedBlockHash (kl_elBlockSnapshot keys) = el_lastChangedBlockHash meta \<and>
       (dm_kapi s0 = Some keys \<or> fetchKeys (de_kapi D) = Inr keys)) (before D ws valid l) A"
proof (rule triple_zoom, rule tripleI)
  fix s c x t out
  assume s: "s = s0 \<and> reading D ws valid r d l s" and c: "c = dm_kapi s" and run: "getKeys (de_kapi D) meta c = (x, t, out)"
  from s have "reading D ws valid r d l s" by blast
  then have keep: "reading D ws valid r d l (s\<lparr>dm_kapi := t\<rparr>)" by (simp add: reading_def dinv_def daemon_inv_def)
  have "out = []" using run by (auto simp: getKeys_run updateCachedKeys_run split: if_split_asm sum.split_asm)
  with keep getKeys_ok [of "de_kapi D" meta c] run s c
  show "(\<forall>keys. x = Inr keys \<longrightarrow> reading D ws valid r d l (s\<lparr>dm_kapi := t\<rparr>) \<and>
        el_lastChangedBlockHash (kl_elBlockSnapshot keys) = el_lastChangedBlockHash meta \<and>
        (dm_kapi s0 = Some keys \<or> fetchKeys (de_kapi D) = Inr keys)) \<and>
      (\<forall>e. x = Inl e \<longrightarrow> before D ws valid l (s\<lparr>dm_kapi := t\<rparr>)) \<and> (\<forall>a\<in>set out. A a)"
    by (auto intro: reading_before)
qed

lemma contracts_fact:
  "triple (reading D ws valid r0 d l) (onContracts m)
    (\<lambda>u s. \<exists>r. reading D ws valid r d l s \<and> (\<exists>out. m r0 = (Inr u, r, out))) (before D ws valid l) A"
proof (rule triple_zoom, rule triple_quiet, rule tripleI)
  fix s c x t out
  assume s: "reading D ws valid r0 d l s" and c: "c = dm_contracts s" and run: "m c = (x, t, out)"
  have "reading D ws valid t d l (s\<lparr>dm_contracts := t\<rparr>)" using s by (simp add: reading_def dinv_def daemon_inv_def)
  moreover have "c = r0" using s c by (simp add: reading_def dinv_def)
  ultimately show "(\<forall>u. x = Inr u \<longrightarrow> (\<exists>r. reading D ws valid r d l (s\<lparr>dm_contracts := t\<rparr>) \<and> (\<exists>out. m r0 = (Inr u, r, out)))) \<and>
      (\<forall>e. x = Inl e \<longrightarrow> before D ws valid l (s\<lparr>dm_contracts := t\<rparr>)) \<and> (\<forall>a\<in>set out. True)"
    using run by (auto intro: reading_before)
qed

lemma registry_fact:
  "triple (reading D ws valid r d l) (onDeposits m)
    (\<lambda>u s. \<exists>d'. reading D ws valid r d' l s \<and> (\<exists>out. m d = (Inr u, d', out))) (before D ws valid l) A"
  by (rule triple_weaken [OF onDeposits_fact [where r = r and l = l and d = d]]) (auto simp: reading_def before_def)

lemma keeps_setContext:
  assumes "\<And>a. metric_only a \<Longrightarrow> A a"
  shows "keeps (dinv D ws valid r l) (setGuardianExecutionContext D c) A"
  unfolding setGuardianExecutionContext_def
  by (intro keep_rules keeps_onSecurity [where E = "securityOf D r"] keeps_onWallet)
     (auto simp: dinv_def daemon_inv_def keeps_wallets intro!: assms)

definition after :: "('db, 'kdb, 'c) daemon_env \<Rightarrow> wallet list \<Rightarrow> (serialized_deposit \<Rightarrow> bool) \<Rightarrow> state_meta option \<Rightarrow>
  ('db, 'kdb, 'c) daemon \<Rightarrow> bool" where
  "after D ws valid l s \<longleftrightarrow> (\<exists>l'. before D ws valid l' s \<and>
     (l' = l \<or> (\<exists>meta. l' = Some meta \<and> isNeedToProcessNewState meta l)))"

lemma before_after: "before D ws valid l s \<Longrightarrow> after D ws valid l s"
  by (auto simp: after_def)

lemma startKeys_triple:
  assumes "libraries_ok D valid" and need: "isNeedToProcessNewState (metaOf bk) l"
    and "\<And>a. \<not> deposit_message a \<Longrightarrow> \<not> pause_message a \<Longrightarrow> A a"
    and "\<And>topic m. deposit_allowed D ws valid r ks sms bk m \<Longrightarrow> A (Publish topic (Message_Deposit m) (me_app (de_messages D)))"
  shows "triple (dinv D ws valid r l) (handleKeys D sms bk ks) (\<lambda>_. after D ws valid l) (before D ws valid l) A"
proof (rule tripleI)
  fix s y t out assume inv: "dinv D ws valid r l s" and run: "handleKeys D sms bk ks s = (y, t, out)"
  show "(\<forall>x. y = Inr x \<longrightarrow> after D ws valid l t) \<and> (\<forall>e. y = Inl e \<longrightarrow> before D ws valid l t) \<and> (\<forall>a\<in>set out. A a)"
  proof (cases "dm_handlingKeys s")
    case True
    with run inv show ?thesis by (auto simp: handleKeys_def oneAtTimeStart_busy intro: before_after reading_before)
  next
    case False
    let ?s = "s\<lparr>dm_handlingKeys := True\<rparr>"
    obtain y' t' o' where body: "handleKeysBody D sms bk ks ?s = (y', t', o')" by (metis prod_cases3)
    have res: "y = Inr (case y' of Inl e \<Rightarrow> None | Inr x \<Rightarrow> Some x)"
      "t = (if isl y' then t'\<lparr>dm_handlingKeys := False\<rparr> else t')" "out = o'"
      using run oneAtTimeStart_run [of dm_handlingKeys s "handleKeysBody D sms bk ks" "\<lambda>b s. s\<lparr>dm_handlingKeys := b\<rparr>", OF False body]
      by (simp_all add: handleKeys_def)
    have s: "dinv D ws valid r l ?s" using inv by (simp add: dinv_def daemon_inv_def)
    have "triple (dinv D ws valid r l) (handleKeysBody D sms bk ks) (\<lambda>_. dinv D ws valid r (Some (metaOf bk))) (dinv D ws valid r l) A"
      using assms(1,3,4) by (rule handleKeys_triple)
    note body_triple = tripleD [OF this s body, simplified]
    have "after D ws valid l t"
    proof (cases y')
      case (Inl e)
      with body_triple(2) have "dinv D ws valid r l t'" by blast
      then have "dinv D ws valid r l t" using Inl by (simp add: res dinv_def daemon_inv_def)
      then show ?thesis by (intro before_after) (rule reading_before)
    next
      case (Inr x)
      with body_triple(1) have "dinv D ws valid r (Some (metaOf bk)) t" by (simp add: res)
      with need show ?thesis by (auto simp: after_def before_def)
    qed
    moreover have "\<forall>a\<in>set out. A a" using body_triple(3) by (simp add: res)
    ultimately show ?thesis by (simp add: res)
  qed
qed

lemma cycle_tail:
  assumes lib: "libraries_ok D valid"
    and facts: "cycle_facts D ws s0 r response keys d wcs bk sms"
    and l: "dm_lastProcessedStateMeta s0 = l"
  shows "triple (dinv D ws valid r l)
    (andThen (setGuardianExecutionContext D (bk_guardianContext bk)) (\<lambda>_.
       if \<not> bk_alreadyPausedDeposits bk \<and> (bk_hasFrontRunning bk \<or> bk_hasWrongWCType bk)
       then withContracts (\<lambda>r. onGuard (handlePause (guardOf D r) bk))
       else andThen (handleKeys D sms bk (kl_data keys)) (\<lambda>_. ret ())))
    (\<lambda>_. after D ws valid l) (before D ws valid l) (cycle_output D ws valid s0)"
proof (rule triple_andThen [OF triple_error [OF keeps_setContext [OF cycle_output_metric]]], assumption, erule reading_before)
  have need: "isNeedToProcessNewState (metaOf bk) l"
    using facts l by (simp add: cycle_facts_def block_facts_def metaOf_def Let_def)
  show "triple (dinv D ws valid r l)
     (if \<not> bk_alreadyPausedDeposits bk \<and> (bk_hasFrontRunning bk \<or> bk_hasWrongWCType bk)
      then withContracts (\<lambda>r. onGuard (handlePause (guardOf D r) bk))
      else andThen (handleKeys D sms bk (kl_data keys)) (\<lambda>_. ret ()))
     (\<lambda>_. after D ws valid l) (before D ws valid l) (cycle_output D ws valid s0)"
  proof (rule triple_if)
    assume pause: "\<not> bk_alreadyPausedDeposits bk \<and> (bk_hasFrontRunning bk \<or> bk_hasWrongWCType bk)"
    have "keeps (dinv D ws valid r l) (withContracts (\<lambda>r. onGuard (handlePause (guardOf D r) bk))) (cycle_output D ws valid s0)"
      by (rule pause_keeps [OF cycle_output_metric cycle_output_other], assumption, assumption, assumption)
         (use facts pause in \<open>unfold cycle_output_def, blast\<close>)
    then show "triple (dinv D ws valid r l) (withContracts (\<lambda>r. onGuard (handlePause (guardOf D r) bk)))
       (\<lambda>_. after D ws valid l) (before D ws valid l) (cycle_output D ws valid s0)"
      by (rule triple_weaken) (auto intro: before_after reading_before)
  next
    have "triple (dinv D ws valid r l) (handleKeys D sms bk (kl_data keys)) (\<lambda>_. after D ws valid l) (before D ws valid l)
       (cycle_output D ws valid s0)"
      by (rule startKeys_triple [OF lib need cycle_output_other], assumption, assumption)
         (use facts in \<open>unfold cycle_output_def, blast\<close>)
    then show "triple (dinv D ws valid r l) (andThen (handleKeys D sms bk (kl_data keys)) (\<lambda>_. ret ()))
       (\<lambda>_. after D ws valid l) (before D ws valid l) (cycle_output D ws valid s0)"
      by (rule triple_andThen) (rule triple_ret)
  qed
qed

lemma cycle_triple:
  assumes lib: "libraries_ok D valid"
  shows "triple (\<lambda>s. s = s0 \<and> daemon_inv D ws valid s) (guardianCycle D)
    (\<lambda>_. after D ws valid (dm_lastProcessedStateMeta s0)) (before D ws valid (dm_lastProcessedStateMeta s0))
    (cycle_output D ws valid s0)"
proof (cases "daemon_inv D ws valid s0")
  case False
  then show ?thesis by (auto simp: triple_iff)
next
  case inv: True
  then have start: "reading D ws valid (dm_contracts s0) (dm_deposits s0) (dm_lastProcessedStateMeta s0) s0"
    by (simp add: reading_def dinv_def)
  note simps = Let_def case_prod_beta
  show ?thesis
    unfolding guardianCycle_def simps
    apply (rule triple_liftR_then)
     apply (rule triple_getS)
     apply (rule triple_if)
      apply (rule triple_ret)
      apply (use start in \<open>auto intro!: before_after intro: reading_before\<close>)[1]
     apply (rule triple_fact [OF triple_pre [OF kapi_fact
        [where r = "dm_contracts s0" and d = "dm_deposits s0" and l = "dm_lastProcessedStateMeta s0" and ?s0.0 = s0]]])
      apply (use start in simp)
     apply (rule triple_andThen [OF contracts_fact], rule triple_ex, rule triple_pure)
     apply (rule triple_andThen [OF registry_fact], rule triple_ex, rule triple_pure)
     apply (rule triple_fact [OF triple_error [OF triple_pre [OF collectData_fact [OF cycle_output_metric]]]], assumption)
       apply (simp add: reading_def)
      apply (use start in \<open>auto intro: reading_before\<close>)[1]
     apply (elim exE conjE, hypsubst)
     apply (rule cycle_tail [OF lib _ refl])
     apply (unfold cycle_facts_def Let_def, intro conjI; blast?)
    apply (use start in \<open>auto intro: reading_before\<close>)
    done
qed

section \<open>Deposit messages\<close>

text \<open>
  The keys of a module that the contract would deposit next are fit for it: each signature is valid for
  the credentials of the module, no valid deposit of the key was made with other credentials, and no
  two of them have one public key.
\<close>

definition fit_for_deposit ::
  "('db, 'kdb, 'c) daemon_env \<Rightarrow> (serialized_deposit \<Rightarrow> bool) \<Rightarrow> registry_key list \<Rightarrow> verified_event list \<Rightarrow> string \<Rightarrow> string \<Rightarrow> bool" where
  "fit_for_deposit D valid lidoKeys evs address moduleWC \<longleftrightarrow>
     (let ks = getModuleVettedUnusedKeys address lidoKeys in
        (\<exists>wc fork. kv_bufferFromHexString (de_validation D) moduleWC = Inr wc \<and> forkVersion (de_validation D) = Inr fork \<and>
           (\<forall>k\<in>set ks. valid (depositDataOf wc fork k))) \<and>
        (\<forall>k\<in>set ks. \<forall>e\<in>set evs. de_pubkey e = lk_key k \<and> de_valid e \<longrightarrow> de_wc e = moduleWC) \<and>
        (distinct_places lidoKeys \<longrightarrow> inj_on lk_key (set ks)))"

lemma not_ignored:
  assumes "\<not> ignoreDeposits sm' front wrong paused" and "checked_facts D valid lidoWCs found bk sm sm'"
  shows "sm_frontRunKeys sm' = [] \<and> sm_crossTypeKeys sm' = [] \<and> sm_invalidKeys sm' = [] \<and>
    getModuleVettedUnusedKeys (sm_stakingModuleAddress sm) (dr_duplicates found) = [] \<and>
    getModuleVettedUnusedKeys (sm_stakingModuleAddress sm) (dr_unresolved found) = [] \<and>
    \<not> paused \<and> \<not> front \<and> \<not> wrong \<and> \<not> sm_isModuleDepositsPaused sm \<and>
    sm_stakingModuleId sm' = sm_stakingModuleId sm \<and> sm_nonce sm' = sm_nonce sm"
  using assms by (auto simp: ignoreDeposits_def checked_facts_def)

lemma checked_fit:
  assumes "\<not> ignoreDeposits sm' front wrong paused" and "checked_facts D valid lidoWCs found bk sm sm'"
    and "getDuplicatedKeys ask lidoKeys bk = Inr found"
    and "sm_vettedUnusedKeys sm = getModuleVettedUnusedKeys (sm_stakingModuleAddress sm) lidoKeys"
  shows "fit_for_deposit D valid lidoKeys (events (bk_depositedEvents bk)) (sm_stakingModuleAddress sm) (sm_withdrawalCredentials sm)"
proof -
  let ?ks = "getModuleVettedUnusedKeys (sm_stakingModuleAddress sm) lidoKeys"
  note empty = not_ignored [OF assms(1,2)]
  from assms(2) obtain wc fork where bufs: "kv_bufferFromHexString (de_validation D) (sm_withdrawalCredentials sm) = Inr wc"
    "forkVersion (de_validation D) = Inr fork"
    and inv: "mset (sm_invalidKeys sm') = mset (filter (\<lambda>k. \<not> valid (depositDataOf wc fork k)) ?ks)"
    and front: "sm_frontRunKeys sm' = filter (foreignDeposit bk (sm_withdrawalCredentials sm) (\<lambda>wc. wc \<notin> set lidoWCs)) ?ks"
    and cross: "sm_crossTypeKeys sm' = filter (foreignDeposit bk (sm_withdrawalCredentials sm) (\<lambda>wc. wc \<in> set lidoWCs)) ?ks"
    unfolding checked_facts_def assms(4) by auto
  have "\<forall>k\<in>set ?ks. valid (depositDataOf wc fork k)"
    using inv empty by (simp add: filter_empty_conv)
  moreover have "de_wc e = sm_withdrawalCredentials sm"
    if "k \<in> set ?ks" "e \<in> set (events (bk_depositedEvents bk))" "de_pubkey e = lk_key k" "de_valid e" for k e
  proof (rule ccontr)
    assume "de_wc e \<noteq> sm_withdrawalCredentials sm"
    with that have "k \<in> set (sm_frontRunKeys sm') \<or> k \<in> set (sm_crossTypeKeys sm')"
      unfolding front cross by (cases "de_wc e \<in> set lidoWCs") auto
    with empty show False by simp
  qed
  moreover have "inj_on lk_key (set ?ks)" if "distinct_places lidoKeys"
  proof (rule inj_onI, rule ccontr)
    fix k1 k2 assume k: "k1 \<in> set ?ks" "k2 \<in> set ?ks" "lk_key k1 = lk_key k2" "k1 \<noteq> k2"
    have mine: "k \<in> set lidoKeys \<and> \<not> lk_used k \<and> lk_vetted k \<and> lk_moduleAddress k = sm_stakingModuleAddress sm"
      if "k \<in> set ?ks" for k using that by (simp add: getModuleVettedUnusedKeys_def)
    have "kept found k" if "k \<in> set ?ks" for k
      using mine [OF that] empty by (auto simp: kept_def getModuleVettedUnusedKeys_def filter_empty_conv)
    with duplicates_safe [OF \<open>distinct_places lidoKeys\<close> assms(3)] k mine [OF k(1)] mine [OF k(2)] show False by blast
  qed
  ultimately show ?thesis using bufs unfolding fit_for_deposit_def Let_def by blast
qed

lemma block_historical:
  assumes "block_facts D ws r d n h wcs ks bk" "\<not> bk_hasFrontRunning bk" "\<not> bk_hasWrongWCType bk"
    and inj: "inj_on (\<lambda>e. (de_blockNumber e, de_logIndex e)) (set (events (bk_depositedEvents bk)))"
  shows "\<forall>pk ew e. expectedWCOf ks wcs pk = Some ew \<longrightarrow>
      earliestOf (validDeposits pk (events (bk_depositedEvents bk))) e \<longrightarrow> hasAcceptableWC (de_CHAIN_ID D) e ew"
proof -
  from assms(1) have "\<exists>(s :: ('a, 'b, 'c) daemon) t out. checkHistoricalFrontRun (de_CHAIN_ID D) (bk_depositedEvents bk) ks wcs s =
      (Inr (bk_hasFrontRunning bk), t, out)" and
    "\<exists>(s :: ('a, 'b, 'c) daemon) t out. checkWrongWCType (de_CHAIN_ID D) (bk_depositedEvents bk) ks wcs s =
      (Inr (bk_hasWrongWCType bk), t, out)"
    unfolding block_facts_def by simp_all
  then show ?thesis using historical_ok [OF inj] assms(2,3) by (elim exE) simp
qed

lemma block_pausable:
  assumes "block_facts D ws r d n h wcs ks bk" "bk_hasFrontRunning bk \<or> bk_hasWrongWCType bk"
    and inj: "inj_on (\<lambda>e. (de_blockNumber e, de_logIndex e)) (set (events (bk_depositedEvents bk)))"
  shows "\<exists>pk ew e. expectedWCOf ks wcs pk = Some ew \<and>
      earliestOf (validDeposits pk (events (bk_depositedEvents bk))) e \<and> \<not> hasAcceptableWC (de_CHAIN_ID D) e ew"
proof -
  from assms(1) have "\<exists>(s :: ('a, 'b, 'c) daemon) t out. checkHistoricalFrontRun (de_CHAIN_ID D) (bk_depositedEvents bk) ks wcs s =
      (Inr (bk_hasFrontRunning bk), t, out)" and
    "\<exists>(s :: ('a, 'b, 'c) daemon) t out. checkWrongWCType (de_CHAIN_ID D) (bk_depositedEvents bk) ks wcs s =
      (Inr (bk_hasWrongWCType bk), t, out)"
    unfolding block_facts_def by simp_all
  then obtain s t out s' t' out' where c:
    "checkHistoricalFrontRun (de_CHAIN_ID D) (bk_depositedEvents bk) ks wcs (s :: ('a, 'b, 'c) daemon) = (Inr (bk_hasFrontRunning bk), t, out)"
    "checkWrongWCType (de_CHAIN_ID D) (bk_depositedEvents bk) ks wcs (s' :: ('a, 'b, 'c) daemon) = (Inr (bk_hasWrongWCType bk), t', out')"
    by (elim exE)
  from c(2) obtain u out2 where "checkWrongWCType (de_CHAIN_ID D) (bk_depositedEvents bk) ks wcs s = (Inr (bk_hasWrongWCType bk), u, out2)"
    by (cases "getUsedKeyExpectedWCs ks wcs") (auto simp: checkWrongWCType_def Let_def)
  from historical_iff [OF inj c(1) this] assms(2) show ?thesis by blast
qed

end
