(* ===== verification/Daemon_Demo.thy ===== *)
theory Daemon_Demo
  imports Guardian_Cycle
begin

text \<open>
  A daemon of one module on Holesky, for the witnesses of the properties of the cycle: a cycle at
  block 7 that publishes a deposit message, and one that finds a front-run and pauses.
\<close>

section \<open>The daemon\<close>

definition demoDaemonModule :: sr_module where
  "demoDaemonModule = \<lparr>sr_nonce = 4, sr_type = ''curated'', sr_id = 1, sr_stakingModuleAddress = ''0xm'', sr_moduleFee = 0,
     sr_treasuryFee = 0, sr_targetShare = 0, sr_status = 0, sr_name = ''curated'', sr_lastDepositAt = 0, sr_lastDepositBlock = 0,
     sr_exitedValidatorsCount = 0, sr_active = True, sr_lastChangedBlockHash = ''0xc'', sr_withdrawalCredentialsType = 1\<rparr>"

definition demoRouter :: router_env where
  "demoRouter = \<lparr>ro_getStakingModules = (\<lambda>c tag. Inr []), ro_getContractVersion = (\<lambda>c tag. Inr 1),
     ro_getStakingModuleIsActive = (\<lambda>c n tag. Inr True), ro_getStakingModuleMaxDepositsCount = (\<lambda>c n m tag. Inr 1),
     ro_getDepositableEther = (\<lambda>c tag. Inr 32), ro_getWithdrawalCredentials = (\<lambda>c tag. Inr (''0x01'' @ replicate 62 CHR ''7'')),
     ro_queryFilter = (\<lambda>a. query_logs (\<lambda>s e. None) (demoKeyLogs a))\<rparr>"

definition demoTree :: tree_lib where
  "demoTree = demoHash\<lparr>soliditySha256 := (\<lambda>node size tail. ''0x'' @ replicate 64 CHR ''f'')\<rparr>"

definition demoQuietRegistry :: "deposit_json ref_db registry_env" where
  "demoQuietRegistry = demoRegistry
     \<lparr>rg_checker := \<lparr>ck_tree_lib = demoTree, ck_getDepositRoot = (\<lambda>h. Inr (''0x'' @ replicate 64 CHR ''f''))\<rparr>,
      rg_fetcher := demoFetcher\<lparr>fe_queryFilter := (\<lambda>s e. Inr [])\<rparr>\<rparr>"

definition demoDaemonEnv :: "(deposit_json ref_db, key_json ref_db, (serialized_deposit \<times> bool) list) daemon_env" where
  "demoDaemonEnv = \<lparr>de_repository = (demoContracts True)\<lparr>re_depositSecurityModule := (\<lambda>c tag. Inr (demoAddress CHR ''d''))\<rparr>, de_router = demoRouter, de_deposits = demoQuietRegistry, de_keys = demoKeys,
     de_kapi = demoKapi [demoSignedKey 0 ''0xgood''] [demoDaemonModule], de_wallet = demoWalletEnv, de_securityAt = (\<lambda>a. demoSecurity 5), de_messages = demoMessages,
     de_validation = demoValidation, de_hex = ref_hex, de_CHAIN_ID = 17000, de_finalized = Inr (0, ''0xf''),
     de_getNetwork = Inr 17000, de_compareVersions = (\<lambda>a b. True)\<rparr>"

definition demoDaemon :: "(deposit_json ref_db, key_json ref_db, (serialized_deposit \<times> bool) list) daemon" where
  "demoDaemon = \<lparr>dm_contracts = demoRepositoryState, dm_deposits = demoRegistryState, dm_keys = demoKeyStore, dm_kapi = None,
     dm_guard = demoGuardState, dm_lastProcessedStateMeta = None, dm_lastPingBlock = None,
     dm_lastGuardianExecutionContext = None, dm_handlingBlock = False, dm_handlingKeys = False\<rparr>"


lemma quiet_deployment: "getDeploymentBlockByNetwork (rg_fetcher demoQuietRegistry) = Inr 0"
  by (simp add: demoQuietRegistry_def getDeploymentBlockByNetwork_def DEPLOYMENT_BLOCK_NETWORK_def chain_defs demoFetcher_def)

lemma quiet_root: "getRoot demoTree newDepositTree = Inr (''0x'' @ replicate 64 CHR ''f'')"
proof -
  have "merkle_root demoTree [] = ''0x'' @ replicate 64 CHR ''f''" by (simp add: merkle_root_def demoTree_def)
  with getRoot_merkle [OF tree_inv_new, of demoTree] show ?thesis by simp
qed

lemma quiet_update: "handleNewBlockDeposits demoQuietRegistry (Inr (0, h)) demoRegistryState = (Inr (), demoRegistryState, [])"
  unfolding handleNewBlockDeposits_def updateEventsCache_def
  by (simp add: andThen_apply getCachedEvents_eq [OF quiet_deployment] verifyCacheBlock_def validateCacheBlock_def updateLoop.simps
      finishUpdate_def zoom_apply verifyUpdatedEvents_def checkFinalizedRoot_def checkRoot_def)
     (simp add: demoQuietRegistry_def quiet_root)


lemma quiet_deposits: "getAllDepositedEvents demoQuietRegistry 7 h demoRegistryState =
  (Inr \<lparr>events = [], startBlock = 0, endBlock = 7\<rparr>, demoRegistryState\<lparr>rs_sanity := recordFreshEventsRootCheck True demoSanity\<rparr>, [])"
proof -
  have "fetchDepositEventsFallOver (rg_fetcher demoQuietRegistry) 1 7 = Inr \<lparr>events = [], startBlock = 1, endBlock = 7\<rparr>"
    by (simp add: fetchDepositEventsFallOver_def fetchEventsFallOver_def requestDepositEvents_eq demoQuietRegistry_def)
  then show ?thesis
  unfolding getAllDepositedEvents_def
  by (simp add: andThen_apply getCachedEvents_eq [OF quiet_deployment] verifyCacheBlock_def validateCacheBlock_def zoom_apply
    verifyFreshEvents_def checkFinalizedRoot_def checkRoot_def)
     (simp add: demoQuietRegistry_def quiet_root DEPOSIT_CACHE_DEFAULT_def)
qed
 
lemma quiet_keysOf: "keysOf demoDaemonEnv = demoKeys"
  by (simp add: keysOf_def demoDaemonEnv_def demoKeys_def getSigningKeyAddedEvents_def fun_eq_iff demoRouter_def)

lemma quiet_keys: "\<exists>t. handleNewBlockKeys demoKeys (Inr (0, h)) [''0xm''] demoKeyStore = (Inr (), t, [])"
proof -
  have L: "level_laws (kv_level (kr_store demoKeys))" by (simp add: demoKeys_def ref_level_laws)
  have wf: "keydb_wf (keyDB demoKeys demoKeyStore)" using demo_stored(1) by (simp add: keys_inv_def)
  have dflt: "kv_default (kr_store demoKeys) = SIGNING_KEYS_CACHE_DEFAULT" by (simp add: demoKeys_def)
  obtain es t2 where t2: "getCachedKeys demoKeys demoKeyStore = (Inr \<lparr>kc_headers = (storedHeaders demoKeys demoKeyStore)\<lparr>
      kh_startBlock := max (kh_startBlock (storedHeaders demoKeys demoKeyStore)) 0,
      kh_endBlock := max (kh_endBlock (storedHeaders demoKeys demoKeyStore)) 0\<rparr>, kc_data = es\<rparr>, t2, [])"
    using getCachedKeys_eq [OF L wf demo_keys_deployment dflt] by blast
  have "getHeader (kr_store demoKeys) demoKeyStore = (Inr (storedHeaders demoKeys demoKeyStore), demoKeyStore, [])"
    using getHeader_eq [OF L wf] by blast
  then show ?thesis
   by (simp add: handleNewBlockKeys_def updateKeysCache_def stakingModuleListWasUpdated_def andThen_assoc andThen_step demo_stored t2
     wasStakingModulesListUpdated_def  verifyKeyCacheBlock_def)
qed



lemma demo_context_run:
  "\<exists>t. getGuardianExecutionContext (demoSecurity 5) (''0x'' @ replicate 64 CHR ''b'') demoSecurityState = (Inr demoContext5, t, []) \<and>
     walletInv (demoSecurity 5) demoWallets t"
proof -
  have "fst (getGuardianExecutionContext (demoSecurity 5) (''0x'' @ replicate 64 CHR ''b'') demoSecurityState) = Inr demoContext5"
    by code_simp
  then obtain t out where run: "getGuardianExecutionContext (demoSecurity 5) (''0x'' @ replicate 64 CHR ''b'') demoSecurityState = (Inr demoContext5, t, out)"
    by (metis prod.exhaust_sel)
  from context_ok [OF demo_walletInv this] run show ?thesis by simp
qed

lemma demo_balance:
  assumes "wallet_inv demoWalletEnv demoWallets s"
  shows "\<exists>t. isBalanceCritical demoWalletEnv s = (Inr False, t, []) \<and> wallet_inv demoWalletEnv demoWallets t"
proof -
  obtain t where t: "getWallet demoWalletEnv s = (Inr (activeOf demoWallets s), t, [])" "wallet_inv demoWalletEnv demoWallets t"
    using getWallet_ok [OF assms] by blast
  have "we_getBalance demoWalletEnv a = Inr 100" "we_criticalBalance demoWalletEnv = 10" for a by (simp_all add: demoWalletEnv_def)
  with t show ?thesis
   by (simp add: isBalanceCritical_def getAccountBalance_def walletAddress_def andThen_step andThen_assoc)
qed

lemma demo_addresses:
  assumes "wallet_inv demoWalletEnv demoWallets s"
  shows "\<exists>xs t. walletAddresses demoWalletEnv s = (Inr xs, t, []) \<and> wallet_inv demoWalletEnv demoWallets t"
  using assms by (auto simp: walletAddresses_def andThen_step getWallets_eq)

lemma andThen_later:
  "m s = (Inr x, t, o1) \<Longrightarrow> P (f x t) \<Longrightarrow> (\<And>r t o2. P (r, t, o2) \<Longrightarrow> P (r, t, o1 @ o2)) \<Longrightarrow> P (andThen m f s)"
  by (cases "f x t") (simp add: andThen_apply)

lemma demo_keys_valid: "\<exists>t. validateInvalidKeys demoValidation [demoSignedKey 0 ''0xgood''] wc [] = (Inr [], t, [])"
  by (simp add: validateInvalidKeys_def demoValidation_def forkVersion_def GENESIS_FORK_VERSION_BY_CHAIN_ID_def chain_defs
      andThen_apply getCachedDepositData_def ref_lru_def serializeDepositData_def depositKeyOf_def registry_key.defs demoSignedKey_def updateCache_def filterInvalidKeys_def demoValid_def)

definition demoDaemonBlock :: block_data where
  "demoDaemonBlock =
     \<lparr>bk_blockNumber = 7, bk_blockHash = ''0x'' @ replicate 64 CHR ''b'', bk_depositRoot = ''0x'' @ replicate 64 CHR ''f'',
      bk_depositedEvents = \<lparr>events = [], startBlock = 0, endBlock = 7\<rparr>, bk_guardianContext = demoContext5,
      bk_guardianAddress = gc_guardianAddress demoContext5, bk_guardianIndex = 2, bk_securityVersion = 5,
      bk_alreadyPausedDeposits = False, bk_hasFrontRunning = False, bk_hasWrongWCType = False,
      bk_walletBalanceCritical = False\<rparr>"


lemma demo_deposit_signed: "\<exists>sig. depositSigned (demoSecurity 5) demoWallets (''0x'' @ replicate 64 CHR ''f'') 4 7
    (''0x'' @ replicate 64 CHR ''b'') 1 demoContext5 = Inr sig"
proof -
  have "isl (depositSigned (demoSecurity 5) demoWallets (''0x'' @ replicate 64 CHR ''f'') 4 7
    (''0x'' @ replicate 64 CHR ''b'') 1 demoContext5) = False" by code_simp
  then show ?thesis by (auto simp: isl_def) (metis sum.exhaust)
qed


definition emitsSome :: "('o \<Rightarrow> bool) \<Rightarrow> 'r \<times> 's \<times> 'o list \<Rightarrow> bool" where
  "emitsSome A p \<longleftrightarrow> (\<exists>a\<in>set (snd (snd p)). A a)"

abbreviation publishes :: "'r \<times> 's \<times> effect list \<Rightarrow> bool" where
  "publishes \<equiv> emitsSome deposit_message"

lemma emitsSome_later: "m s = (Inr x, t, out) \<Longrightarrow> emitsSome A (f x t) \<Longrightarrow> emitsSome A (andThen m f s)"
  by (auto simp: emitsSome_def andThen_apply split: prod.splits)

lemma emitsSome_now: "emitsSome A (m s) \<Longrightarrow> emitsSome A (andThen m f s)"
  by (auto simp: emitsSome_def andThen_apply split: prod.splits sum.splits)

text \<open>A cycle whose reads succeed emits what its last step emits.\<close>

lemma cycle_emits:
  assumes "getModules (de_kapi D) = Inr r" and "meta = ml_elBlockSnapshot r"
    and need: "isNeedToProcessNewState \<lparr>me_blockHash = el_blockHash meta, me_blockNumber = el_blockNumber meta\<rparr> (dm_lastProcessedStateMeta s)"
    and keys: "onKapi (getKeys (de_kapi D) meta) s = (Inr k, s1, o1)"
    and contracts: "onContracts (initCachedContracts (de_repository D) (el_blockHash meta)) s1 = (Inr (), s2, o2)"
    and deposits: "onDeposits (handleNewBlockDeposits (de_deposits D) (de_finalized D)) s2 = (Inr (), s3, o3)"
    and data: "collectData D (ml_data r) meta (kl_data k) s3 = (Inr (bk, sms), s4, o4)"
    and ctx: "setGuardianExecutionContext D (bk_guardianContext bk) s4 = (Inr (), s5, o5)"
    and pause: "\<not> bk_alreadyPausedDeposits bk \<and> (bk_hasFrontRunning bk \<or> bk_hasWrongWCType bk) \<Longrightarrow>
      emitsSome A (withContracts (\<lambda>r. onGuard (handlePause (guardOf D r) bk)) s5)"
    and work: "\<not> (\<not> bk_alreadyPausedDeposits bk \<and> (bk_hasFrontRunning bk \<or> bk_hasWrongWCType bk)) \<Longrightarrow>
      emitsSome A (handleKeys D sms bk (kl_data k) s5)"
  shows "emitsSome A (guardianCycle D s)"
proof -
  let ?act = "\<lambda>bk sms. if \<not> bk_alreadyPausedDeposits bk \<and> (bk_hasFrontRunning bk \<or> bk_hasWrongWCType bk)
       then withContracts (\<lambda>r. onGuard (handlePause (guardOf D r) bk))
       else andThen (handleKeys D sms bk (kl_data k)) (\<lambda>_. ret ())"
  have act: "emitsSome A (?act bk sms s5)"
  proof (cases "\<not> bk_alreadyPausedDeposits bk \<and> (bk_hasFrontRunning bk \<or> bk_hasWrongWCType bk)")
    case True
    from pause [OF True] show ?thesis by (simp only: if_P [OF True])
  next
    case False
    show ?thesis unfolding if_not_P [OF False] by (rule emitsSome_now, rule work, rule False)
  qed
  have rest: "emitsSome A (andThen (collectData D (ml_data r) meta (kl_data k)) (\<lambda>(bk, sms).
       andThen (setGuardianExecutionContext D (bk_guardianContext bk)) (\<lambda>_. ?act bk sms)) s3)"
    by (rule emitsSome_later, rule data, unfold prod.case, rule emitsSome_later, rule ctx, rule act)
  show ?thesis
    unfolding guardianCycle_def Let_def
    apply (rule emitsSome_later, simp add: assms(1))
    apply (fold assms(2), unfold andThen_getS, simp only: need not_True_eq_False if_False)
    apply (rule emitsSome_later, rule keys, rule emitsSome_later, rule contracts, rule emitsSome_later, rule deposits, rule rest)
    done
qed

lemma demo_contracts_run:
  "\<exists>r. initCachedContracts (de_repository demoDaemonEnv) h demoRepositoryState = (Inr (), r, []) \<and>
     getCachedDSMContract r = Inr (demoAddress CHR ''d'') \<and> getCachedStakingRouterContract r = Inr ''0xrouter''"
proof -
  have "healthy (de_repository demoDaemonEnv) h"
    by (simp add: healthy_def demoDaemonEnv_def demoContracts_def getLocatorAddress_def LIDO_LOCATOR_BY_NETWORK_def chain_defs)
  from healthy_init [OF this] obtain r where r: "initCachedContracts (de_repository demoDaemonEnv) h demoRepositoryState = (Inr (), r, [])"
    by blast
  moreover have "re_depositSecurityModule (de_repository demoDaemonEnv) l h = Inr (demoAddress CHR ''d'')"
    "re_stakingRouter (de_repository demoDaemonEnv) l h = Inr ''0xrouter''" for l
    by (simp_all add: demoDaemonEnv_def demoContracts_def)
  ultimately show ?thesis using contracts_cached [OF r] by (metis Inr_inject)
qed

lemma demo_env [simp]:
  "de_kapi demoDaemonEnv = demoKapi [demoSignedKey 0 ''0xgood''] [demoDaemonModule]" "de_router demoDaemonEnv = demoRouter"
  "de_deposits demoDaemonEnv = demoQuietRegistry" "de_wallet demoDaemonEnv = demoWalletEnv" "de_messages demoDaemonEnv = demoMessages"
  "de_validation demoDaemonEnv = demoValidation" "de_hex demoDaemonEnv = ref_hex" "de_CHAIN_ID demoDaemonEnv = 17000"
  "de_finalized demoDaemonEnv = Inr (0, ''0xf'')" "de_securityAt demoDaemonEnv a = demoSecurity 5"
  by (simp_all add: demoDaemonEnv_def)

lemma demo_securityOf: "getCachedDSMContract r = Inr (demoAddress CHR ''d'') \<Longrightarrow> securityOf demoDaemonEnv r = demoSecurity 5"
  by (simp add: securityOf_def demoSecurity_def)

lemma demo_modules: "getModules (de_kapi demoDaemonEnv) = Inr \<lparr>ml_data = [demoDaemonModule], ml_elBlockSnapshot = demoSnapshot ''0xc''\<rparr>"
  by (simp add: getModules_def kapiFetch_def demoKapi_def getBaseUrl_def)

lemma demo_get: "getKeys (de_kapi demoDaemonEnv) (demoSnapshot ''0xc'') None =
    (Inr \<lparr>kl_data = [demoSignedKey 0 ''0xgood''], kl_elBlockSnapshot = demoSnapshot ''0xc''\<rparr>,
     Some \<lparr>kl_data = [demoSignedKey 0 ''0xgood''], kl_elBlockSnapshot = demoSnapshot ''0xc''\<rparr>, [])"
  by (simp add: getKeys_run updateCachedKeys_run fetchKeys_def kapiFetch_def demoKapi_def getBaseUrl_def)

lemma demo_wcs: "getCachedStakingRouterContract r = Inr ''0xrouter'' \<Longrightarrow> 
   getWithdrawalCredentials demoRouter h r = Inr (''0x01'' @ replicate 62 CHR ''7'')"
   by (simp add: getWithdrawalCredentials_def demoRouter_def)

lemma demo_fetch_wcs: "getCachedStakingRouterContract (dm_contracts s) = Inr ''0xrouter'' \<Longrightarrow> 
  \<exists>wc. fetchModuleWithdrawalCredentials demoDaemonEnv [demoDaemonModule] h s = (Inr [(''0xm'', wc)], s, []) \<and> 4 < length wc"
  unfolding fetchModuleWithdrawalCredentials_def withContracts_def
  by (simp add: andThen_apply demo_wcs buildModuleWc_def bindR_def ref_hex_def demoDaemonModule_def byte_width.simps MAX_SAFE_INTEGER_def)



lemma demo_block:
  assumes s: "getCachedDSMContract (dm_contracts s) = Inr (demoAddress CHR ''d'')" "dm_deposits s = demoRegistryState"
     "gu_security (dm_guard s) = demoSecurityState"
  shows "\<exists>g out. getCurrentBlockData demoDaemonEnv 7 (''0x'' @ replicate 64 CHR ''b'') [(''0xm'', wc)] [demoSignedKey 0 ''0xgood''] s =
    (Inr demoDaemonBlock, s\<lparr>dm_deposits := demoRegistryState\<lparr>rs_sanity := recordFreshEventsRootCheck True demoSanity\<rparr>,
        dm_guard := (dm_guard s)\<lparr>gu_security := g\<rparr>\<rparr>, out) \<and> walletInv (demoSecurity 5) demoWallets g"
proof -
  let ?h = "''0x'' @ replicate 64 CHR ''b''" 
  note E = demo_securityOf [OF s(1)]
  obtain t where t: "getGuardianExecutionContext (demoSecurity 5) ?h demoSecurityState = (Inr demoContext5, t, [])"
     "wallet_inv demoWalletEnv demoWallets (sy_wallet t)"
    using demo_context_run by (auto simp: demoSecurity_def)
  obtain u where u: "isBalanceCritical demoWalletEnv (sy_wallet t) = (Inr False, u, [])" "wallet_inv demoWalletEnv demoWallets u"
    using demo_balance [OF t(2)] by blast
  have D: "getDepositRoot (rg_checker demoQuietRegistry) ?h = Inr (''0x'' @ replicate 64 CHR ''f'')"
    "isDepositsPaused (demoSecurity 5) ?h = Inr False" "sv_wallet (demoSecurity 5) = demoWalletEnv"
    by (simp_all add: getDepositRoot_def demoQuietRegistry_def isDepositsPaused_def demoSecurity_def)
  have wcs: "getUsedKeyExpectedWCs [demoSignedKey 0 ''0xgood''] [(''0xm'', wc)] = Inr []"
    by (simp add: getUsedKeyExpectedWCs_def demoSignedKey_def)
  obtain o1 where o1: "checkHistoricalFrontRun 17000 \<lparr>events = [], startBlock = 0, endBlock = 7\<rparr> [demoSignedKey 0 ''0xgood''] [(''0xm'', wc)] v = 
      (Inr False, v, o1)" for v :: "(deposit_json ref_db, key_json ref_db, (serialized_deposit \<times> bool) list) daemon"
    by (simp add: checkHistoricalFrontRun_def wcs selectKeys_def Let_def)
  obtain o2 where o2: "checkWrongWCType 17000 \<lparr>events = [], startBlock = 0, endBlock = 7\<rparr> [demoSignedKey 0 ''0xgood''] [(''0xm'', wc)] v = 
      (Inr False, v, o2)" for v :: "(deposit_json ref_db, key_json ref_db, (serialized_deposit \<times> bool) list) daemon"
    by (simp add: checkWrongWCType_def wcs selectKeys_def Let_def)
  show ?thesis
    unfolding getCurrentBlockData_def blockDataBody_def withContracts_def Let_def
    using t u D o1 o2
    by (simp add: andThen_apply zoom_apply quiet_def E s quiet_deposits catchE_def demoDaemonBlock_def demoContext5_def)
       (rule exI [of _ "t\<lparr>sy_wallet := u\<rparr>"], simp)
qed

lemma demo_no_duplicates: "getDuplicatedKeys ask [k] bk = Inr \<lparr>dr_duplicates = [], dr_unresolved = []\<rparr>"
  by (simp add: getDuplicatedKeys_def getDuplicateKeyGroups_def rangePromise_def DUPLICATES_BATCH_SIZE_def ceil_div_def rangePromise_loop.simps)

definition demoCollected :: "string \<Rightarrow> module_data" where
  "demoCollected wc = \<lparr>sm_blockHash = ''0x'' @ replicate 64 CHR ''b'', sm_vettedUnusedKeys = [demoSignedKey 0 ''0xgood''], sm_nonce = 4, sm_stakingModuleId = 1, sm_stakingModuleAddress = ''0xm'',
      sm_lastChangedBlockHash = ''0xc'', sm_duplicatedKeys = [], sm_invalidKeys = [], sm_crossTypeKeys = [],
      sm_frontRunKeys = [], sm_unresolvedDuplicatedKeys = [], sm_withdrawalCredentials = wc,
      sm_isModuleDepositsPaused = False\<rparr>"

lemma demo_collect:
  assumes "getCachedStakingRouterContract (dm_contracts s) = Inr ''0xrouter''"
  shows "collectStakingModuleData demoDaemonEnv [demoDaemonModule] (demoSnapshot ''0xc'') [demoSignedKey 0 ''0xgood''] [(''0xm'', wc)] s = (Inr [demoCollected wc], s, [])"
  using assms by (simp add: collectStakingModuleData_def mapAll.simps collectModule_def withContracts_def andThen_apply isModuleDepositsPaused_def
    demoRouter_def demoDaemonModule_def demoSnapshot_def getModuleVettedUnusedKeys_def demoSignedKey_def demoCollected_def)

lemma demo_collected_data:
  assumes "getCachedDSMContract (dm_contracts s) = Inr (demoAddress CHR ''d'')" "getCachedStakingRouterContract (dm_contracts s) = Inr ''0xrouter''" "dm_deposits s = demoRegistryState"
     "gu_security (dm_guard s) = demoSecurityState"
  shows "\<exists>wc g out. collectData demoDaemonEnv [demoDaemonModule] (demoSnapshot ''0xc'') [demoSignedKey 0 ''0xgood''] s =
    (Inr (demoDaemonBlock, [demoCollected wc]), s\<lparr>dm_deposits := demoRegistryState\<lparr>rs_sanity := recordFreshEventsRootCheck True demoSanity\<rparr>,
        dm_guard := (dm_guard s)\<lparr>gu_security := g\<rparr>\<rparr>, out) \<and> walletInv (demoSecurity 5) demoWallets g"
proof -
  obtain wc where wc: "fetchModuleWithdrawalCredentials demoDaemonEnv [demoDaemonModule] (''0x'' @ replicate 64 CHR ''b'') s = (Inr [(''0xm'', wc)], s, [])"
    using demo_fetch_wcs [OF assms(2)] by blast
  from demo_block [OF assms(1,3,4)] obtain g out where "getCurrentBlockData demoDaemonEnv 7 (''0x'' @ replicate 64 CHR ''b'') [(''0xm'', wc)] [demoSignedKey 0 ''0xgood''] s =
    (Inr demoDaemonBlock, s\<lparr>dm_deposits := demoRegistryState\<lparr>rs_sanity := recordFreshEventsRootCheck True demoSanity\<rparr>,
        dm_guard := (dm_guard s)\<lparr>gu_security := g\<rparr>\<rparr>, out)" "walletInv (demoSecurity 5) demoWallets g" by blast
  moreover have snap: "el_blockHash (demoSnapshot ''0xc'') = ''0x'' @ replicate 64 CHR ''b''" "el_blockNumber (demoSnapshot ''0xc'') = 7"
    by (simp_all add: demoSnapshot_def)
  ultimately show ?thesis
   unfolding collectData_def snap andThen_step [where m = "fetchModuleWithdrawalCredentials demoDaemonEnv [demoDaemonModule] (''0x'' @ replicate 64 CHR ''b'')", OF wc]
    by (auto simp: andThen_apply demo_collect assms)
qed

lemma demo_checked:
  assumes "dm_keys s = demoKeyStore" "gu_validation (dm_guard s) = []"
  shows "\<exists>k v out. guardianCheckKeys demoDaemonEnv [demoCollected wc] demoDaemonBlock [demoSignedKey 0 ''0xgood''] s =
    (Inr [demoCollected wc], s\<lparr>dm_keys := k, dm_guard := (dm_guard s)\<lparr>gu_validation := v\<rparr>\<rparr>, out)"
proof -
  obtain k where k: "handleNewBlockKeys demoKeys (Inr (0, ''0xf'')) [''0xm''] demoKeyStore = (Inr (), k, [])" using quiet_keys by blast
  obtain v where v: "validateInvalidKeys demoValidation [demoSignedKey 0 ''0xgood''] wc [] = (Inr [], v, [])" using demo_keys_valid by blast
  have m: "sm_vettedUnusedKeys (demoCollected wc) = [demoSignedKey 0 ''0xgood'']" "sm_withdrawalCredentials (demoCollected wc) = wc" 
     "sm_stakingModuleAddress (demoCollected wc) = ''0xm''" by (simp_all add: demoCollected_def)
  have same: "(demoCollected wc)\<lparr>sm_frontRunKeys := [], sm_crossTypeKeys := [], sm_invalidKeys := [], sm_duplicatedKeys := [], sm_unresolvedDuplicatedKeys := []\<rparr> =
     demoCollected wc" by (simp add: demoCollected_def)
  have ev: "events (bk_depositedEvents demoDaemonBlock) = []" by (simp add: demoDaemonBlock_def)
  have att: "\<exists>o1. getFrontRunAttempts (demoCollected wc) demoDaemonBlock lido t = (Inr \<lparr>fa_frontRunKeys = [], fa_crossTypeKeys = []\<rparr>, t, o1)"
    for lido and t :: "(deposit_json ref_db, key_json ref_db, (serialized_deposit \<times> bool) list) daemon"
    using getFrontRunAttempts_eq [of "demoCollected wc" demoDaemonBlock lido t] by (simp add: ev) blast
  obtain o1 where o1: "getFrontRunAttempts (demoCollected wc) demoDaemonBlock [wc] (s\<lparr>dm_keys := k\<rparr>) = (Inr \<lparr>fa_frontRunKeys = [], fa_crossTypeKeys = []\<rparr>, s\<lparr>dm_keys := k\<rparr>, o1)"
    using att by blast
  show ?thesis
    by (simp add: guardianCheckKeys_def collectorCheckKeys_def quiet_keysOf andThen_apply zoom_apply quiet_def m k assms demo_no_duplicates
      checkModuleKeys_def withContracts_def Let_def o1 same guardInvalidKeys_def v getModuleKeys_def getModuleVettedUnusedKeys_def)
      (rule exI [of _ k], rule exI [of _ v], simp)
qed

lemma demo_handleDeposit:
  assumes "getCachedDSMContract (dm_contracts s) = Inr (demoAddress CHR ''d'')" "walletInv (demoSecurity 5) demoWallets (gu_security (dm_guard s))"
    "gu_lastContractsState (dm_guard s) = Map.empty"
  shows "publishes (handleDeposit demoDaemonEnv [demoCollected wc] demoDaemonBlock s)"
proof -
  let ?G = "guardOf demoDaemonEnv (dm_contracts s)"
  note E = demo_securityOf [OF assms(1)]
  have inv: "guardInv ?G demoWallets (dm_guard s)" using assms(2) E by simp
  from handleCorrectKeys_run [OF this, of "demoCollected wc" demoDaemonBlock] obtain r g out where run:
    "handleCorrectKeys ?G (demoCollected wc) demoDaemonBlock (dm_guard s) = (r, g, out)"
    "acts out = depositActs ?G demoWallets (demoCollected wc) demoDaemonBlock None" using assms(3) by auto
  obtain sig where sig: "depositSigned (demoSecurity 5) demoWallets (''0x'' @ replicate 64 CHR ''f'') 4 7
    (''0x'' @ replicate 64 CHR ''b'') 1 demoContext5 = Inr sig" using demo_deposit_signed by blast
  have "\<exists>topic m app. Publish topic (Message_Deposit m) app \<in> set (acts out)"
    unfolding run(2) depositActs_def using sig
    by (simp add: isSameContractsStates_def demoDaemonBlock_def demoCollected_def E publishedFor_def depositMessageOf_def demoMessages_def message_required.defs getMessageTopic_def getMessageTopicPrefix_def MESSAGE_TOPIC_PREFIX_BY_NETWORK_def chain_defs)
  then have "\<exists>a\<in>set out. deposit_message a" by (auto simp: acts_def deposit_message_def)
  moreover have "\<not> ignoreDeposits (demoCollected wc) (bk_hasFrontRunning demoDaemonBlock) (bk_hasWrongWCType demoDaemonBlock)
     (bk_alreadyPausedDeposits demoDaemonBlock)" by (simp add: ignoreDeposits_def demoCollected_def demoDaemonBlock_def)
  ultimately show ?thesis
    using run(1) 
    by (simp add: handleDeposit_def mapAll.simps handleModuleDeposit_def andThen_apply withContracts_def zoom_apply emitsSome_def bex_Un split: prod.split sum.split)
qed

lemma demo_set_context:
  assumes "walletInv (demoSecurity 5) demoWallets (gu_security (dm_guard s))"
  shows "\<exists>g out. setGuardianExecutionContext demoDaemonEnv c s =
    (Inr (), s\<lparr>dm_lastGuardianExecutionContext := Some c, dm_guard := (dm_guard s)\<lparr>gu_security := g\<rparr>\<rparr>, out) \<and>
     walletInv (demoSecurity 5) demoWallets g"
proof -
  have "wallet_inv demoWalletEnv demoWallets (sy_wallet (gu_security (dm_guard s)))" using assms by (simp add: demoSecurity_def)
  from demo_addresses [OF this] obtain xs t where t: "walletAddresses demoWalletEnv (sy_wallet (gu_security (dm_guard s))) = (Inr xs, t, [])"
    "wallet_inv demoWalletEnv demoWallets t" by blast
  then have "walletInv (demoSecurity 5) demoWallets ((gu_security (dm_guard s))\<lparr>sy_wallet := t\<rparr>)" by (simp add: demoSecurity_def)
  with t show ?thesis
    by (simp add: setGuardianExecutionContext_def andThen_apply zoom_apply)
     (rule exI [of _ "(gu_security (dm_guard s))\<lparr>sy_wallet := t\<rparr>"], simp)
qed

lemma demo_cycle: "publishes (guardianCycle demoDaemonEnv demoDaemon)"
proof -
  let ?h = "''0x'' @ replicate 64 CHR ''b''" and ?k = "\<lparr>kl_data = [demoSignedKey 0 ''0xgood''], kl_elBlockSnapshot = demoSnapshot ''0xc''\<rparr>"
  have snap: "el_blockHash (demoSnapshot ''0xc'') = ?h" "el_blockNumber (demoSnapshot ''0xc'') = 7"
    by (simp_all add: demoSnapshot_def)
  obtain r where r: "initCachedContracts (de_repository demoDaemonEnv) ?h demoRepositoryState = (Inr (), r, [])"
     "getCachedDSMContract r = Inr (demoAddress CHR ''d'')" "getCachedStakingRouterContract r = Inr ''0xrouter''"
    using demo_contracts_run by blast
  let ?s = "demoDaemon\<lparr>dm_kapi := Some ?k, dm_contracts := r\<rparr>"
  have s: "getCachedDSMContract (dm_contracts ?s) = Inr (demoAddress CHR ''d'')" "getCachedStakingRouterContract (dm_contracts ?s) = Inr ''0xrouter''"
     "dm_deposits ?s = demoRegistryState" "gu_security (dm_guard ?s) = demoSecurityState"
    using r by (simp_all add: demoDaemon_def demoGuardState_def)
  let ?d = "demoRegistryState\<lparr>rs_sanity := recordFreshEventsRootCheck True demoSanity\<rparr>"
  obtain wc g o1 where data: "collectData demoDaemonEnv [demoDaemonModule] (demoSnapshot ''0xc'') [demoSignedKey 0 ''0xgood''] ?s =
    (Inr (demoDaemonBlock, [demoCollected wc]), ?s\<lparr>dm_deposits := ?d, dm_guard := (dm_guard ?s)\<lparr>gu_security := g\<rparr>\<rparr>, o1)" "walletInv (demoSecurity 5) demoWallets g"
    using demo_collected_data [OF s] by blast
  let ?s1 = "?s\<lparr>dm_deposits := ?d, dm_guard := (dm_guard ?s)\<lparr>gu_security := g\<rparr>\<rparr>"
  have "walletInv (demoSecurity 5) demoWallets (gu_security (dm_guard ?s1))" using data(2) by simp
  from demo_set_context [OF this, of demoContext5] obtain g2 o2 where
    ctx: "setGuardianExecutionContext demoDaemonEnv demoContext5 ?s1 =
      (Inr (), ?s1\<lparr>dm_lastGuardianExecutionContext := Some demoContext5, dm_guard := (dm_guard ?s1)\<lparr>gu_security := g2\<rparr>\<rparr>, o2)"
    "walletInv (demoSecurity 5) demoWallets g2" by blast
  let ?s2 = "?s1\<lparr>dm_lastGuardianExecutionContext := Some demoContext5, dm_guard := (dm_guard ?s1)\<lparr>gu_security := g2\<rparr>\<rparr>"
  let ?s3 = "?s2\<lparr>dm_handlingKeys := True\<rparr>"
  have "dm_keys ?s3 = demoKeyStore" "gu_validation (dm_guard ?s3) = []" by (simp_all add: demoDaemon_def demoGuardState_def)
  from demo_checked [OF this, of wc] obtain k v o3 where chk: "guardianCheckKeys demoDaemonEnv [demoCollected wc] demoDaemonBlock [demoSignedKey 0 ''0xgood''] ?s3 =
    (Inr [demoCollected wc], ?s3\<lparr>dm_keys := k, dm_guard := (dm_guard ?s3)\<lparr>gu_validation := v\<rparr>\<rparr>, o3)" by blast
  let ?s4 = "?s3\<lparr>dm_keys := k, dm_guard := (dm_guard ?s3)\<lparr>gu_validation := v\<rparr>\<rparr>"
  have "publishes (handleDeposit demoDaemonEnv [demoCollected wc] demoDaemonBlock ?s4)"
    by (rule demo_handleDeposit) (use r ctx(2) in \<open>simp_all add: demoDaemon_def demoGuardState_def\<close>)
  then have "publishes (handleKeysBody demoDaemonEnv [demoCollected wc] demoDaemonBlock [demoSignedKey 0 ''0xgood''] ?s3)"
    unfolding handleKeysBody_def
    by (intro emitsSome_later [where m = "guardianCheckKeys demoDaemonEnv [demoCollected wc] demoDaemonBlock [demoSignedKey 0 ''0xgood'']", OF chk]
         emitsSome_later [where m = "guardianHandleUnvetting demoDaemonEnv [demoCollected wc] demoDaemonBlock"] emitsSome_now)
     (simp_all add: guardianHandleUnvetting_def findFirstInvalidModule_def hasInvalidKeys_def demoCollected_def)
  moreover have "\<not> dm_handlingKeys ?s2" by (simp add: demoDaemon_def)
  ultimately have keys: "publishes (handleKeys demoDaemonEnv [demoCollected wc] demoDaemonBlock [demoSignedKey 0 ''0xgood''] ?s2)"
    unfolding handleKeys_def
    by (cases "handleKeysBody demoDaemonEnv [demoCollected wc] demoDaemonBlock [demoSignedKey 0 ''0xgood''] ?s3")
      (simp add: oneAtTimeStart_run emitsSome_def)
  let ?r = "\<lparr>ml_data = [demoDaemonModule], ml_elBlockSnapshot = demoSnapshot ''0xc''\<rparr>"
  have steps: "onKapi (getKeys (de_kapi demoDaemonEnv) (demoSnapshot ''0xc'')) demoDaemon = (Inr ?k, demoDaemon\<lparr>dm_kapi := Some ?k\<rparr>, [])"
    "onContracts (initCachedContracts (de_repository demoDaemonEnv) ?h) (demoDaemon\<lparr>dm_kapi := Some ?k\<rparr>) = (Inr (), ?s, [])"
    "onDeposits (handleNewBlockDeposits (de_deposits demoDaemonEnv) (de_finalized demoDaemonEnv)) ?s = (Inr (), ?s, [])"
    by (simp_all add: zoom_apply quiet_def demo_get [simplified] r(1) [simplified] quiet_update del: demo_env(1))
      (simp_all add: demoDaemon_def demo_get [simplified] r(1) [simplified] quiet_update)
  show ?thesis
    by (rule cycle_emits [OF demo_modules refl, unfolded module_list_response.select_convs snap, OF _ steps, unfolded key_list_response.select_convs, OF _ data(1)])
      (use ctx(1) keys in \<open>simp_all add: isNeedToProcessNewState_def demoDaemon_def demoDaemonBlock_def\<close>)
qed

section \<open>A daemon that is front-run\<close>

text \<open>The key is used, and its only deposit was made with other credentials.\<close>

definition demoUsed :: registry_key where
  "demoUsed = (demoSignedKey 0 ''0xgood'')\<lparr>lk_key := ''0xaa'', lk_used := True\<rparr>"

definition demoPauseRegistry :: "deposit_json ref_db registry_env" where
  "demoPauseRegistry = demoQuietRegistry\<lparr>rg_fetcher := demoFetcher\<lparr>fe_queryFilter := (\<lambda>s e. Inr [demoRaw 0])\<rparr>\<rparr>"

definition demoPauseEnv :: "(deposit_json ref_db, key_json ref_db, (serialized_deposit \<times> bool) list) daemon_env" where
  "demoPauseEnv = demoDaemonEnv\<lparr>de_deposits := demoPauseRegistry, de_kapi := demoKapi [demoUsed] [demoDaemonModule]\<rparr>"

lemma pause_deployment: "getDeploymentBlockByNetwork (rg_fetcher demoPauseRegistry) = Inr 0"
  by (simp add: demoPauseRegistry_def getDeploymentBlockByNetwork_def DEPLOYMENT_BLOCK_NETWORK_def chain_defs demoFetcher_def)

lemma pause_update: "handleNewBlockDeposits demoPauseRegistry (Inr (0, h)) demoRegistryState = (Inr (), demoRegistryState, [])"
  unfolding handleNewBlockDeposits_def updateEventsCache_def
  by (simp add: andThen_apply getCachedEvents_eq [OF pause_deployment] verifyCacheBlock_def validateCacheBlock_def updateLoop.simps
      finishUpdate_def zoom_apply verifyUpdatedEvents_def checkFinalizedRoot_def checkRoot_def)
     (simp add: demoPauseRegistry_def demoQuietRegistry_def quiet_root)

lemma pause_deposits:
  "\<exists>t. getAllDepositedEvents demoPauseRegistry 7 h demoRegistryState =
     (Inr \<lparr>events = [demoChainEvent 0], startBlock = 0, endBlock = 7\<rparr>, t, [])"
proof -
  have fetcher: "rg_fetcher demoPauseRegistry = demoFetcher\<lparr>fe_queryFilter := (\<lambda>s e. Inr [demoRaw 0])\<rparr>"
    "rg_checker demoPauseRegistry = rg_checker demoQuietRegistry" by (simp_all add: demoPauseRegistry_def)
  have "decodeEvent (demoFetcher\<lparr>fe_queryFilter := q\<rparr>) r = decodeEvent demoFetcher r" for q r
    by (simp add: decodeEvent_def verifyDeposit_def formatEvent_def)
  then have "fetchDepositEventsFallOver (rg_fetcher demoPauseRegistry) 1 7 = Inr \<lparr>events = [demoChainEvent 0], startBlock = 1, endBlock = 7\<rparr>"
    by (simp add: fetchDepositEventsFallOver_def fetchEventsFallOver_def requestDepositEvents_eq fetcher demoDecode)
  moreover have "checkLatestRoot (rg_checker demoQuietRegistry) newDepositTree h [demoChainEvent 0] = Inr (True, [demoChainEvent 0])"
  proof -
    have inv: "tree_inv (ck_tree_lib (rg_checker demoQuietRegistry)) newDepositTree []" by (rule tree_inv_new)
    have root: "merkle_root demoTree ls = ''0x'' @ replicate 64 CHR ''f''" for ls by (simp add: merkle_root_def demoTree_def)
    from putLatestEvents_ok [OF inv, of "[demoChainEvent 0]"]
    show ?thesis
      by (auto simp: checkLatestRoot_def checkRoot_def sortByCount_def demoChainEvent_fields)
         (auto simp: demoQuietRegistry_def root)
  qed
  ultimately show ?thesis
    unfolding getAllDepositedEvents_def
    by (simp add: andThen_apply getCachedEvents_eq [OF pause_deployment] verifyCacheBlock_def validateCacheBlock_def zoom_apply
      verifyFreshEvents_def Let_def findReorganization_def findReorganizedEvent_def fetcher DEPOSIT_CACHE_DEFAULT_def)
qed

lemma pause_env [simp]:
  "de_kapi demoPauseEnv = demoKapi [demoUsed] [demoDaemonModule]" "de_router demoPauseEnv = demoRouter"
  "de_deposits demoPauseEnv = demoPauseRegistry" "de_wallet demoPauseEnv = demoWalletEnv" "de_messages demoPauseEnv = demoMessages"
  "de_validation demoPauseEnv = demoValidation" "de_hex demoPauseEnv = ref_hex" "de_CHAIN_ID demoPauseEnv = 17000"
  "de_finalized demoPauseEnv = Inr (0, ''0xf'')" "de_securityAt demoPauseEnv a = demoSecurity 5"
  "de_repository demoPauseEnv = de_repository demoDaemonEnv"
  by (simp_all add: demoPauseEnv_def)

lemma pause_securityOf: "securityOf demoPauseEnv r = securityOf demoDaemonEnv r"
  by (simp add: securityOf_def)

lemma pause_fetch_wcs:
  "fetchModuleWithdrawalCredentials demoPauseEnv ms h s = fetchModuleWithdrawalCredentials demoDaemonEnv ms h s"
  by (simp add: fetchModuleWithdrawalCredentials_def)

definition demoPauseBlock :: block_data where
  "demoPauseBlock = demoDaemonBlock
     \<lparr>bk_depositedEvents := \<lparr>events = [demoChainEvent 0], startBlock = 0, endBlock = 7\<rparr>, bk_hasFrontRunning := True\<rparr>"

lemma pause_checks:
  assumes "4 < length wc"
  shows "\<exists>out. checkHistoricalFrontRun 17000 (bk_depositedEvents demoPauseBlock) [demoUsed] [(''0xm'', wc)] s = (Inr True, s, out)"
    "\<exists>out. checkWrongWCType 17000 (bk_depositedEvents demoPauseBlock) [demoUsed] [(''0xm'', wc)] s = (Inr False, s, out)"
proof -
  from assms have wc: "wc \<noteq> ''0x01''" "wc \<noteq> []" by auto
  then have used: "getUsedKeyExpectedWCs [demoUsed] [(''0xm'', wc)] = Inr [(''0xaa'', \<lparr>ew_moduleAddress = ''0xm'', ew_wc = wc\<rparr>)]"
    by (simp add: getUsedKeyExpectedWCs_def demoUsed_def demoSignedKey_def)
  have "de_pubkey (demoChainEvent 0) = ''0xaa''" "de_wc (demoChainEvent 0) = ''0x01''" "de_valid (demoChainEvent 0)"
   by (simp_all add: demoChainEvent_def decodeEvent_def formatEvent_def formDepositNode_def parseLittleEndian64_def
      demoFetcher_def demoNodeLib_def demoRaw_def verifyDeposit_def deposit_event.defs verified_event.defs)
  note simps = this used Let_def selectKeys_def getEarliestDeposits_def earliestDepositStep_def hasAcceptableWC_def demoPauseBlock_def
  show "\<exists>out. checkHistoricalFrontRun 17000 (bk_depositedEvents demoPauseBlock) [demoUsed] [(''0xm'', wc)] s = (Inr True, s, out)"
    "\<exists>out. checkWrongWCType 17000 (bk_depositedEvents demoPauseBlock) [demoUsed] [(''0xm'', wc)] s = (Inr False, s, out)"
    using wc by (simp_all add: checkHistoricalFrontRun_def checkWrongWCType_def simps getLegacyModuleWCs_def LEGACY_WITHDRAWAL_CREDENTIALS_def)
qed

lemma pause_signed: "\<exists>sig. pauseSigned (demoSecurity 5) demoWallets 7 (''0x'' @ replicate 64 CHR ''b'') demoContext5 = Inr sig"
proof -
  have "isl (pauseSigned (demoSecurity 5) demoWallets 7 (''0x'' @ replicate 64 CHR ''b'') demoContext5) = False" by code_simp
  then show ?thesis by (auto simp: isl_def) (metis sum.exhaust)
qed

lemma pause_block:
  assumes s: "getCachedDSMContract (dm_contracts s) = Inr (demoAddress CHR ''d'')" "dm_deposits s = demoRegistryState"
     "gu_security (dm_guard s) = demoSecurityState" and wc: "4 < length wc"
  shows "\<exists>d g out. getCurrentBlockData demoPauseEnv 7 (''0x'' @ replicate 64 CHR ''b'') [(''0xm'', wc)] [demoUsed] s =
    (Inr demoPauseBlock, s\<lparr>dm_deposits := d, dm_guard := (dm_guard s)\<lparr>gu_security := g\<rparr>\<rparr>, out) \<and>
    walletInv (demoSecurity 5) demoWallets g"
proof -
  let ?h = "''0x'' @ replicate 64 CHR ''b''"
  let ?g = "\<lparr>events = [demoChainEvent 0], startBlock = 0, endBlock = 7\<rparr>"
  note E = demo_securityOf [OF s(1)]
  obtain d where d: "getAllDepositedEvents demoPauseRegistry 7 ?h demoRegistryState = (Inr ?g, d, [])" using pause_deposits by blast
  obtain t where t: "getGuardianExecutionContext (demoSecurity 5) ?h demoSecurityState = (Inr demoContext5, t, [])"
     "wallet_inv demoWalletEnv demoWallets (sy_wallet t)"
    using demo_context_run by (auto simp: demoSecurity_def)
  obtain u where u: "isBalanceCritical demoWalletEnv (sy_wallet t) = (Inr False, u, [])" "wallet_inv demoWalletEnv demoWallets u"
    using demo_balance [OF t(2)] by blast
  have D: "getDepositRoot (rg_checker demoPauseRegistry) ?h = Inr (''0x'' @ replicate 64 CHR ''f'')"
    "isDepositsPaused (demoSecurity 5) ?h = Inr False" "sv_wallet (demoSecurity 5) = demoWalletEnv"
    by (simp_all add: getDepositRoot_def demoPauseRegistry_def demoQuietRegistry_def isDepositsPaused_def demoSecurity_def)
  let ?s = "s\<lparr>dm_deposits := d, dm_guard := (dm_guard s)\<lparr>gu_security := t\<lparr>sy_wallet := u\<rparr>\<rparr>\<rparr>"
  have "bk_depositedEvents demoPauseBlock = ?g" by (simp add: demoPauseBlock_def)
  with pause_checks [OF wc, of ?s] obtain o1 o2 where o1: "checkHistoricalFrontRun 17000 ?g [demoUsed] [(''0xm'', wc)] ?s = (Inr True, ?s, o1)"
    and o2: "checkWrongWCType 17000 ?g [demoUsed] [(''0xm'', wc)] ?s = (Inr False, ?s, o2)" by auto
  show ?thesis
    unfolding getCurrentBlockData_def blockDataBody_def withContracts_def Let_def
    using t u D o1 o2 d
    by (simp add: andThen_apply zoom_apply quiet_def E s pause_securityOf catchE_def demoPauseBlock_def demoDaemonBlock_def demoContext5_def)
       (rule exI [of _ d], rule exI [of _ "t\<lparr>sy_wallet := u\<rparr>"], simp)
qed

lemma pause_cycle: "emitsSome pause_message (guardianCycle demoPauseEnv demoDaemon)"
proof -
  let ?h = "''0x'' @ replicate 64 CHR ''b''" and ?k = "\<lparr>kl_data = [demoUsed], kl_elBlockSnapshot = demoSnapshot ''0xc''\<rparr>"
    and ?r = "\<lparr>ml_data = [demoDaemonModule], ml_elBlockSnapshot = demoSnapshot ''0xc''\<rparr>"
  have snap: "el_blockHash (demoSnapshot ''0xc'') = ?h" "el_blockNumber (demoSnapshot ''0xc'') = 7"
    by (simp_all add: demoSnapshot_def)
  obtain r where r: "initCachedContracts (de_repository demoDaemonEnv) ?h demoRepositoryState = (Inr (), r, [])"
     "getCachedDSMContract r = Inr (demoAddress CHR ''d'')" "getCachedStakingRouterContract r = Inr ''0xrouter''"
    using demo_contracts_run by blast
  let ?s = "demoDaemon\<lparr>dm_kapi := Some ?k, dm_contracts := r\<rparr>"
  have s: "getCachedDSMContract (dm_contracts ?s) = Inr (demoAddress CHR ''d'')" "dm_deposits ?s = demoRegistryState"
     "gu_security (dm_guard ?s) = demoSecurityState" "getCachedStakingRouterContract (dm_contracts ?s) = Inr ''0xrouter''"
    using r by (simp_all add: demoDaemon_def demoGuardState_def)
  obtain wc where wc: "fetchModuleWithdrawalCredentials demoPauseEnv [demoDaemonModule] ?h ?s = (Inr [(''0xm'', wc)], ?s, [])" "4 < length wc"
    unfolding pause_fetch_wcs using demo_fetch_wcs [OF s(4)] by blast
  obtain d g out where block: "getCurrentBlockData demoPauseEnv 7 ?h [(''0xm'', wc)] [demoUsed] ?s =
    (Inr demoPauseBlock, ?s\<lparr>dm_deposits := d, dm_guard := (dm_guard ?s)\<lparr>gu_security := g\<rparr>\<rparr>, out)" "walletInv (demoSecurity 5) demoWallets g"
    using pause_block [OF s(1-3) wc(2)] by blast
  let ?s1 = "?s\<lparr>dm_deposits := d, dm_guard := (dm_guard ?s)\<lparr>gu_security := g\<rparr>\<rparr>"
  have "\<exists>sms. collectStakingModuleData demoPauseEnv [demoDaemonModule] (demoSnapshot ''0xc'') [demoUsed] [(''0xm'', wc)] ?s1 = (Inr sms, ?s1, [])"
    using r(3) by (simp add: collectStakingModuleData_def collectModule_def withContracts_def andThen_apply isModuleDepositsPaused_def demoRouter_def)
  then obtain sms where sms: "collectStakingModuleData demoPauseEnv [demoDaemonModule] (demoSnapshot ''0xc'') [demoUsed] [(''0xm'', wc)] ?s1 = (Inr sms, ?s1, [])"
    by blast
  have data: "collectData demoPauseEnv [demoDaemonModule] (demoSnapshot ''0xc'') [demoUsed] ?s = (Inr (demoPauseBlock, sms), ?s1, out)"
    unfolding collectData_def snap andThen_step [where m = "fetchModuleWithdrawalCredentials demoPauseEnv [demoDaemonModule] ?h", OF wc(1)]
    using block(1) sms by (simp add: andThen_apply)
  have "walletInv (demoSecurity 5) demoWallets (gu_security (dm_guard ?s1))" using block(2) by simp
  from demo_set_context [OF this, of demoContext5] obtain g2 o2 where
    ctx: "setGuardianExecutionContext demoPauseEnv demoContext5 ?s1 =
      (Inr (), ?s1\<lparr>dm_lastGuardianExecutionContext := Some demoContext5, dm_guard := (dm_guard ?s1)\<lparr>gu_security := g2\<rparr>\<rparr>, o2)"
    "walletInv (demoSecurity 5) demoWallets g2" unfolding setGuardianExecutionContext_def pause_env demo_env by blast
  let ?s2 = "?s1\<lparr>dm_lastGuardianExecutionContext := Some demoContext5, dm_guard := (dm_guard ?s1)\<lparr>gu_security := g2\<rparr>\<rparr>"
  let ?G = "guardOf demoPauseEnv (dm_contracts ?s2)"
  have E: "ge_security ?G = demoSecurity 5" "ge_messages ?G = demoMessages"
    using demo_securityOf [OF s(1)] by (simp_all add: pause_securityOf)
  have "guardInv ?G demoWallets (dm_guard ?s2)" unfolding E using ctx(2) by simp
  from handlePause_run [OF this, of demoPauseBlock] obtain y h o3 where run: "handlePause ?G demoPauseBlock (dm_guard ?s2) = (y, h, o3)"
    "acts o3 = pauseActs ?G demoWallets demoPauseBlock (sy_pausing (gu_security (dm_guard ?s2)))" by blast
  obtain sig where sig: "pauseSigned (demoSecurity 5) demoWallets 7 ?h demoContext5 = Inr sig" using pause_signed by blast
  have "\<exists>topic m app. Publish topic (Message_Pause m) app \<in> set (acts o3)"
    unfolding run(2) pauseActs_def E using sig
    by (simp add: demoPauseBlock_def demoDaemonBlock_def publishedFor_def pauseMessageOf_def demoMessages_def message_required.defs
        getMessageTopic_def getMessageTopicPrefix_def MESSAGE_TOPIC_PREFIX_BY_NETWORK_def chain_defs) blast
  then have pause: "emitsSome pause_message (withContracts (\<lambda>r. onGuard (handlePause (guardOf demoPauseEnv r) demoPauseBlock)) ?s2)"
    using run(1) by (auto simp: emitsSome_def withContracts_def zoom_apply acts_def pause_message_def)
  have modules: "getModules (de_kapi demoPauseEnv) = Inr ?r"
    by (simp add: getModules_def kapiFetch_def demoKapi_def getBaseUrl_def)
  have steps: "onKapi (getKeys (de_kapi demoPauseEnv) (demoSnapshot ''0xc'')) demoDaemon = (Inr ?k, demoDaemon\<lparr>dm_kapi := Some ?k\<rparr>, [])"
    "onContracts (initCachedContracts (de_repository demoPauseEnv) ?h) (demoDaemon\<lparr>dm_kapi := Some ?k\<rparr>) = (Inr (), ?s, [])"
    "onDeposits (handleNewBlockDeposits (de_deposits demoPauseEnv) (de_finalized demoPauseEnv)) ?s = (Inr (), ?s, [])"
    using r(1) by (simp_all add: zoom_apply quiet_def pause_update demoDaemon_def getModules_def kapiFetch_def demoKapi_def
        getBaseUrl_def getKeys_run updateCachedKeys_run fetchKeys_def)
  show ?thesis
    by (rule cycle_emits [OF modules refl, unfolded module_list_response.select_convs snap, OF _ steps, unfolded key_list_response.select_convs, OF _ data])
      (use ctx(1) pause in \<open>simp_all add: isNeedToProcessNewState_def demoDaemon_def demoPauseBlock_def demoDaemonBlock_def\<close>)
qed

end
