(* ===== verification/Daemon_Runs.thy ===== *)
theory Daemon_Runs
  imports Daemon_Demo
begin

text \<open>
  The daemon as a whole: what stands behind every deposit message and every pause message of a
  cycle, and the runs of the daemon, cycle after cycle with the calls that settle in between.
\<close>

section \<open>Messages\<close>

text \<open>The module that a deposit message is about, in the list of the Keys API, as collected and as checked.\<close>

lemma deposit_module:
  assumes facts: "cycle_facts D ws s r response keys d wcs bk sms"
    and allowed: "deposit_allowed D ws valid r (kl_data keys) sms bk m"
  obtains x sm sm' sig ks found where
    "\<not> ignoreDeposits sm' (bk_hasFrontRunning bk) (bk_hasWrongWCType bk) (bk_alreadyPausedDeposits bk)"
    "depositSigned (securityOf D r) ws (bk_depositRoot bk) (sm_nonce sm') (bk_blockNumber bk) (bk_blockHash bk)
        (sm_stakingModuleId sm') (bk_guardianContext bk) = Inr sig" "m = depositMessageOf sm' bk sig"
    "getDuplicatedKeys (historyOf D ks) (kl_data keys) bk = Inr found"
    "checked_facts D valid (map sm_withdrawalCredentials sms) found bk sm sm'"
    "x \<in> set (ml_data response)" "module_facts D r (ml_elBlockSnapshot response) (kl_data keys) wcs x sm"
proof -
  from allowed obtain sms' sm' sig ks found where sm': "sm' \<in> set sms'"
    "\<not> ignoreDeposits sm' (bk_hasFrontRunning bk) (bk_hasWrongWCType bk) (bk_alreadyPausedDeposits bk)"
    and sig: "depositSigned (securityOf D r) ws (bk_depositRoot bk) (sm_nonce sm') (bk_blockNumber bk) (bk_blockHash bk)
        (sm_stakingModuleId sm') (bk_guardianContext bk) = Inr sig" "m = depositMessageOf sm' bk sig"
    and found: "getDuplicatedKeys (historyOf D ks) (kl_data keys) bk = Inr found"
    and all: "list_all2 (checked_facts D valid (map sm_withdrawalCredentials sms) found bk) sms sms'"
    unfolding deposit_allowed_def keys_checked_def by blast
  from list_all2_right [OF all sm'(1)] obtain sm where sm: "sm \<in> set sms"
    "checked_facts D valid (map sm_withdrawalCredentials sms) found bk sm sm'" by blast
  from facts have mods: "list_all2 (module_facts D r (ml_elBlockSnapshot response) (kl_data keys) wcs) (ml_data response) sms"
    unfolding cycle_facts_def Let_def by blast
  from list_all2_right [OF mods sm(1)] obtain x where x: "x \<in> set (ml_data response)"
    "module_facts D r (ml_elBlockSnapshot response) (kl_data keys) wcs x sm" by blast
  from that [OF sm'(2) sig found sm(2) x] show ?thesis .
qed

text \<open>What a cycle has read, and what its block data say when deposits are not paused.\<close>

lemma cycle_reading:
  assumes "cycle_facts D ws s r response keys d wcs bk sms"
  defines "meta \<equiv> ml_elBlockSnapshot response"
  shows "getModules (de_kapi D) = Inr response"
    "isNeedToProcessNewState \<lparr>me_blockHash = el_blockHash meta, me_blockNumber = el_blockNumber meta\<rparr> (dm_lastProcessedStateMeta s)"
    "\<exists>o1. handleNewBlockDeposits (de_deposits D) (de_finalized D) (dm_deposits s) = (Inr (), d, o1)"
    "dm_kapi s = Some keys \<or> fetchKeys (de_kapi D) = Inr keys"
    "el_lastChangedBlockHash (kl_elBlockSnapshot keys) = el_lastChangedBlockHash meta"
    "wcs_facts D r (el_blockHash meta) (ml_data response) wcs"
    "block_facts D ws r d (el_blockNumber meta) (el_blockHash meta) wcs (kl_data keys) bk"
  using assms by (simp_all add: cycle_facts_def Let_def)

lemma block_reading:
  assumes "block_facts D ws r d n h wcs ks bk"
  shows "\<not> bk_alreadyPausedDeposits bk \<Longrightarrow> isDepositsPaused (securityOf D r) h = Inr False"
    "ck_getDepositRoot (rg_checker (de_deposits D)) h = Inr (bk_depositRoot bk)"
    "\<exists>d' o2. getAllDepositedEvents (de_deposits D) n h d = (Inr (bk_depositedEvents bk), d', o2)"
    "listed_at (securityOf D r) h (bk_guardianContext bk)" "bk_blockNumber bk = n" "bk_blockHash bk = h"
    "bk_guardianAddress bk = gc_guardianAddress (bk_guardianContext bk)"
  using assms by (simp_all add: block_facts_def)

text \<open>
  C1: No deposit message without its reasons: when a cycle publishes a deposit message, then at the block of
  the message, which the Keys API had not been processed for yet: the module is one of the modules
  of the Keys API, active in the router, with this nonce; deposits are not paused in the security
  module; the deposit root is the contract's; the deposit history is the one the registry verified
  against that root, after its own update; of the keys of the snapshot, the used ones show
  no front-run and no wrong type, and every vetted unused key of the module has a valid
  signature, no valid deposit with other credentials, and a public key of its own; and the signature is
  that of the wallet of a guardian context that is listed at the block.
\<close>

theorem deposit_message_safe:
  assumes "libraries_ok D valid" and "daemon_inv D ws valid s" and "guardianCycle D s = (y, t, out)"
    and "Publish topic (Message_Deposit m) app \<in> set out"
  shows "\<exists>r response keys d wcs (bk :: block_data) x wc c.
    getModules (de_kapi D) = Inr response \<and> x \<in> set (ml_data response) \<and>
    isNeedToProcessNewState \<lparr>me_blockHash = md_blockHash m, me_blockNumber = md_blockNumber m\<rparr> (dm_lastProcessedStateMeta s) \<and>
    md_blockNumber m = el_blockNumber (ml_elBlockSnapshot response) \<and> md_blockHash m = el_blockHash (ml_elBlockSnapshot response) \<and>
    md_stakingModuleId m = sr_id x \<and> md_nonce m = sr_nonce x \<and>
    isModuleDepositsPaused (de_router D) (sr_id x) (md_blockHash m) r = Inr False \<and>
    isDepositsPaused (securityOf D r) (md_blockHash m) = Inr False \<and>
    ck_getDepositRoot (rg_checker (de_deposits D)) (md_blockHash m) = Inr (md_depositRoot m) \<and>
    (\<exists>o1. handleNewBlockDeposits (de_deposits D) (de_finalized D) (dm_deposits s) = (Inr (), d, o1)) \<and>
    (\<exists>d' o2. getAllDepositedEvents (de_deposits D) (md_blockNumber m) (md_blockHash m) d = (Inr (bk_depositedEvents bk), d', o2)) \<and>
    (dm_kapi s = Some keys \<or> fetchKeys (de_kapi D) = Inr keys) \<and>
    el_lastChangedBlockHash (kl_elBlockSnapshot keys) = el_lastChangedBlockHash (ml_elBlockSnapshot response) \<and>
    wcs_facts D r (md_blockHash m) (ml_data response) wcs \<and> map_of wcs (sr_stakingModuleAddress x) = Some wc \<and>
    (inj_on (\<lambda>e. (de_blockNumber e, de_logIndex e)) (set (events (bk_depositedEvents bk))) \<longrightarrow>
      (\<forall>pk ew e. expectedWCOf (kl_data keys) wcs pk = Some ew \<longrightarrow>
         earliestOf (validDeposits pk (events (bk_depositedEvents bk))) e \<longrightarrow> hasAcceptableWC (de_CHAIN_ID D) e ew)) \<and>
    fit_for_deposit D valid (kl_data keys) (events (bk_depositedEvents bk)) (sr_stakingModuleAddress x) wc \<and>
    listed_at (securityOf D r) (md_blockHash m) c \<and> mr_guardianAddress m = gc_guardianAddress c \<and>
    depositSigned (securityOf D r) ws (md_depositRoot m) (md_nonce m) (md_blockNumber m) (md_blockHash m)
      (md_stakingModuleId m) c = Inr (md_signature m)"
proof -
  have "cycle_output D ws valid s (Publish topic (Message_Deposit m) app)"
    using tripleD(3) [OF cycle_triple [OF assms(1)] _ assms(3,4)] assms(2) by simp
  then obtain r response keys d wcs bk sms where facts: "cycle_facts D ws s r response keys d wcs bk sms"
    and allowed: "deposit_allowed D ws valid r (kl_data keys) sms bk m" by (rule cycle_output_deposit)
  obtain x sm sm' sig ks found where sm': "\<not> ignoreDeposits sm' (bk_hasFrontRunning bk) (bk_hasWrongWCType bk) (bk_alreadyPausedDeposits bk)"
    and sig: "depositSigned (securityOf D r) ws (bk_depositRoot bk) (sm_nonce sm') (bk_blockNumber bk) (bk_blockHash bk)
        (sm_stakingModuleId sm') (bk_guardianContext bk) = Inr sig" "m = depositMessageOf sm' bk sig"
    and found: "getDuplicatedKeys (historyOf D ks) (kl_data keys) bk = Inr found"
    and sm: "checked_facts D valid (map sm_withdrawalCredentials sms) found bk sm sm'"
    and x: "x \<in> set (ml_data response)" "module_facts D r (ml_elBlockSnapshot response) (kl_data keys) wcs x sm"
    by (rule deposit_module [OF facts allowed])
  let ?meta = "ml_elBlockSnapshot response" and ?h = "el_blockHash (ml_elBlockSnapshot response)"
  note G = cycle_reading [OF facts] and no = not_ignored [OF sm' sm]
  note H = block_reading [OF G(7)]
  have clean: "\<not> bk_hasFrontRunning bk" "\<not> bk_hasWrongWCType bk" "\<not> bk_alreadyPausedDeposits bk" using no by simp_all
  have fit: "fit_for_deposit D valid (kl_data keys) (events (bk_depositedEvents bk)) (sr_stakingModuleAddress x) (sm_withdrawalCredentials sm)"
    using checked_fit [OF sm' sm found] x(2) by (simp add: module_facts_def)
  have hist: "\<forall>pk ew e. expectedWCOf (kl_data keys) wcs pk = Some ew \<longrightarrow>
      earliestOf (validDeposits pk (events (bk_depositedEvents bk))) e \<longrightarrow> hasAcceptableWC (de_CHAIN_ID D) e ew"
    if "inj_on (\<lambda>e. (de_blockNumber e, de_logIndex e)) (set (events (bk_depositedEvents bk)))"
    by (rule block_historical [OF G(7) clean(1,2) that])
  have msg: "md_blockNumber m = el_blockNumber ?meta" "md_blockHash m = ?h" "md_stakingModuleId m = sr_id x"
    "md_nonce m = sr_nonce x" "md_depositRoot m = bk_depositRoot bk" "md_signature m = sig"
    "mr_guardianAddress m = gc_guardianAddress (bk_guardianContext bk)"
    using H x(2) no by (simp_all add: sig(2) depositMessageOf_def module_facts_def)
  have X: "isModuleDepositsPaused (de_router D) (sr_id x) ?h r = Inr False"
    "map_of wcs (sr_stakingModuleAddress x) = Some (sm_withdrawalCredentials sm)"
    "depositSigned (securityOf D r) ws (bk_depositRoot bk) (sr_nonce x) (el_blockNumber ?meta) ?h (sr_id x) (bk_guardianContext bk) = Inr sig"
    using x(2) no sig(1) H by (simp_all add: module_facts_def)
  show ?thesis
    unfolding msg
    by (rule exI [of _ r], rule exI [of _ response], rule exI [of _ keys], rule exI [of _ d], rule exI [of _ wcs], rule exI [of _ bk],
        rule exI [of _ x], rule exI [of _ "sm_withdrawalCredentials sm"], rule exI [of _ "bk_guardianContext bk"], intro conjI)
      (fact G H(2-4) H(1) [OF clean(3)] X fit x(1) | rule refl | rule impI, rule hist, assumption)+
qed

text \<open>
  C2: No pause message without its reasons: when a cycle publishes a pause message, then at the block of the
  message, which had not been processed yet: deposits are not paused in the security
  module; in the deposit history that the registry verified there is a key which the Keys API
  lists as used and whose first valid deposit was made with credentials that its module does
  not accept; and the signature is that of the wallet of a guardian context that is listed at
  the block.
\<close>

theorem pause_message_reasons:
  assumes "libraries_ok D valid" and "daemon_inv D ws valid s" and "guardianCycle D s = (y, t, out)"
    and "Publish topic (Message_Pause m) app \<in> set out"
  shows "\<exists>r response keys d wcs (bk :: block_data) c.
    getModules (de_kapi D) = Inr response \<and>
    isNeedToProcessNewState \<lparr>me_blockHash = mp_blockHash m, me_blockNumber = mp_blockNumber m\<rparr> (dm_lastProcessedStateMeta s) \<and>
    mp_blockNumber m = el_blockNumber (ml_elBlockSnapshot response) \<and> mp_blockHash m = el_blockHash (ml_elBlockSnapshot response) \<and>
    isDepositsPaused (securityOf D r) (mp_blockHash m) = Inr False \<and>
    (\<exists>o1. handleNewBlockDeposits (de_deposits D) (de_finalized D) (dm_deposits s) = (Inr (), d, o1)) \<and>
    (\<exists>d' o2. getAllDepositedEvents (de_deposits D) (mp_blockNumber m) (mp_blockHash m) d = (Inr (bk_depositedEvents bk), d', o2)) \<and>
    (dm_kapi s = Some keys \<or> fetchKeys (de_kapi D) = Inr keys) \<and>
    wcs_facts D r (mp_blockHash m) (ml_data response) wcs \<and>
    (inj_on (\<lambda>e. (de_blockNumber e, de_logIndex e)) (set (events (bk_depositedEvents bk))) \<longrightarrow>
      (\<exists>pk ew e. expectedWCOf (kl_data keys) wcs pk = Some ew \<and>
         earliestOf (validDeposits pk (events (bk_depositedEvents bk))) e \<and> \<not> hasAcceptableWC (de_CHAIN_ID D) e ew)) \<and>
    listed_at (securityOf D r) (mp_blockHash m) c \<and> mr_guardianAddress m = gc_guardianAddress c \<and>
    pauseSigned (securityOf D r) ws (mp_blockNumber m) (mp_blockHash m) c = Inr (mp_signature m)"
proof -
  have "cycle_output D ws valid s (Publish topic (Message_Pause m) app)"
    using tripleD(3) [OF cycle_triple [OF assms(1)] _ assms(3,4)] assms(2) by simp
  then obtain r response keys d wcs bk sms sig where facts: "cycle_facts D ws s r response keys d wcs bk sms"
    and bk: "\<not> bk_alreadyPausedDeposits bk" "bk_hasFrontRunning bk \<or> bk_hasWrongWCType bk"
    and sig: "pauseSigned (securityOf D r) ws (bk_blockNumber bk) (bk_blockHash bk) (bk_guardianContext bk) = Inr sig"
      "m = pauseMessageOf bk sig" by (rule cycle_output_pause)
  let ?meta = "ml_elBlockSnapshot response" and ?h = "el_blockHash (ml_elBlockSnapshot response)"
  note G = cycle_reading [OF facts]
  note H = block_reading [OF G(7)]
  have msg: "mp_blockNumber m = el_blockNumber ?meta" "mp_blockHash m = ?h" "mp_signature m = sig"
    "mr_guardianAddress m = gc_guardianAddress (bk_guardianContext bk)"
    using H by (simp_all add: sig(2) pauseMessageOf_def)
  have hist: "\<exists>pk ew e. expectedWCOf (kl_data keys) wcs pk = Some ew \<and>
      earliestOf (validDeposits pk (events (bk_depositedEvents bk))) e \<and> \<not> hasAcceptableWC (de_CHAIN_ID D) e ew"
    if "inj_on (\<lambda>e. (de_blockNumber e, de_logIndex e)) (set (events (bk_depositedEvents bk)))"
    by (rule block_pausable [OF G(7) bk(2) that])
  have S: "pauseSigned (securityOf D r) ws (el_blockNumber ?meta) ?h (bk_guardianContext bk) = Inr sig"
    using sig(1) H by simp
  show ?thesis
    unfolding msg
    by (rule exI [of _ r], rule exI [of _ response], rule exI [of _ keys], rule exI [of _ d], rule exI [of _ wcs], rule exI [of _ bk],
        rule exI [of _ "bk_guardianContext bk"], intro conjI)
      (fact G H(2-4) H(1) [OF bk(1)] S | rule refl | rule impI, rule hist, assumption)+
qed

section \<open>Runs\<close>

text \<open>
  A run: cycles, each in a world of its own (what the nodes, the Keys API and the broker answer), and
  between them the settling of the calls that are not waited for.
\<close>

inductive daemon_reaches ::
  "('db, 'kdb, 'c) daemon_env set \<Rightarrow> ('db, 'kdb, 'c) daemon \<Rightarrow> ('db, 'kdb, 'c) daemon \<Rightarrow> bool" for worlds s where
  started: "daemon_reaches worlds s s"
| block_handled: "daemon_reaches worlds s t \<Longrightarrow> D \<in> worlds \<Longrightarrow> handleNewBlock D t = (y, u, out) \<Longrightarrow> daemon_reaches worlds s u"
| keys_settled: "daemon_reaches worlds s t \<Longrightarrow> daemon_reaches worlds s (settleKeys t)"
| pause_settled: "daemon_reaches worlds s t \<Longrightarrow>
    daemon_reaches worlds s (t\<lparr>dm_guard := (dm_guard t)\<lparr>gu_security := settlePause (gu_security (dm_guard t))\<rparr>\<rparr>)"
| unvet_settled: "daemon_reaches worlds s t \<Longrightarrow>
    daemon_reaches worlds s (t\<lparr>dm_guard := (dm_guard t)\<lparr>gu_security := settleUnvet n (gu_security (dm_guard t))\<rparr>\<rparr>)"

text \<open>The processed block never goes back.\<close>

fun processed_le :: "state_meta option \<Rightarrow> state_meta option \<Rightarrow> bool" where
  "processed_le None l = True"
| "processed_le (Some m) None = False"
| "processed_le (Some m) (Some m') = (me_blockNumber m \<le> me_blockNumber m')"

lemma processed_le_refl [simp]: "processed_le l l"
  by (cases l) simp_all

lemma processed_le_trans: "processed_le a b \<Longrightarrow> processed_le b c \<Longrightarrow> processed_le a c"
  by (cases a; cases b; cases c) auto

lemma processed_le_need: "isNeedToProcessNewState meta l \<Longrightarrow> processed_le l (Some meta)"
  by (cases l) (auto simp: isNeedToProcessNewState_def split: if_split_asm)

lemma settled_daemon_inv [simp]:
  "daemon_inv D ws valid (settleKeys t) = daemon_inv D ws valid t"
  "daemon_inv D ws valid (t\<lparr>dm_guard := (dm_guard t)\<lparr>gu_security := settlePause (gu_security (dm_guard t))\<rparr>\<rparr>) = daemon_inv D ws valid t"
  "daemon_inv D ws valid (t\<lparr>dm_guard := (dm_guard t)\<lparr>gu_security := settleUnvet n (gu_security (dm_guard t))\<rparr>\<rparr>) = daemon_inv D ws valid t"
  by (simp_all add: daemon_inv_def settleKeys_def settlePause_def settleUnvet_def)

lemma cycle_keeps:
  assumes "libraries_ok D valid" "daemon_inv D ws valid s" "guardianCycle D s = (y, t, out)"
  shows "daemon_inv D ws valid t \<and> processed_le (dm_lastProcessedStateMeta s) (dm_lastProcessedStateMeta t)"
proof -
  have "after D ws valid (dm_lastProcessedStateMeta s) t"
    using tripleD(1,2) [OF cycle_triple [OF assms(1)] _ assms(3)] assms(2) by (cases y) (auto intro: before_after)
  then obtain l where "before D ws valid l t" "processed_le (dm_lastProcessedStateMeta s) l"
    unfolding after_def by (auto dest: processed_le_need)
  then show ?thesis by (auto simp: before_def reading_def dinv_def)
qed

lemma handleNewBlock_run:
  "handleNewBlock D s =
    (if dm_handlingBlock s then (Inr None, s, [])
     else case guardianCycle D (s\<lparr>dm_handlingBlock := True\<rparr>) of (y, t, out) \<Rightarrow>
       (if y = Inl ProcessExit then Inl ProcessExit else Inr (Some ()), t\<lparr>dm_handlingBlock := False\<rparr>, out))"
proof (cases "dm_handlingBlock s")
  case False
  obtain y t out where c: "guardianCycle D (s\<lparr>dm_handlingBlock := True\<rparr>) = (y, t, out)" by (metis prod_cases3)
  then have "catchE (guardianCycle D) (\<lambda>error. if error = ProcessExit then raise ProcessExit else ret ()) (s\<lparr>dm_handlingBlock := True\<rparr>) =
      (if y = Inl ProcessExit then Inl ProcessExit else Inr (), t, out)"
    by (cases y) (simp_all add: catchE_def)
  note run = oneAtTime_run [where executing = dm_handlingBlock and setExecuting = "\<lambda>b s. s\<lparr>dm_handlingBlock := b\<rparr>" and
      m = "catchE (guardianCycle D) (\<lambda>error. if error = ProcessExit then raise ProcessExit else ret ())", OF False this]
  show ?thesis unfolding handleNewBlock_def run c using False by simp
qed (simp add: handleNewBlock_def oneAtTime_busy)

lemma handleNewBlock_keeps:
  assumes "libraries_ok D valid" "daemon_inv D ws valid s" "handleNewBlock D s = (y, t, out)"
  shows "daemon_inv D ws valid t \<and> processed_le (dm_lastProcessedStateMeta s) (dm_lastProcessedStateMeta t)"
proof (cases "dm_handlingBlock s")
  case True
  with assms(2,3) show ?thesis by (simp add: handleNewBlock_run)
next
  case False
  let ?s = "s\<lparr>dm_handlingBlock := True\<rparr>"
  obtain y' t' where c: "guardianCycle D ?s = (y', t', out)" "t = t'\<lparr>dm_handlingBlock := False\<rparr>"
    using assms(3) False by (auto simp: handleNewBlock_run split: prod.split_asm)
  have "daemon_inv D ws valid ?s" using assms(2) by (simp add: daemon_inv_def)
  from cycle_keeps [OF assms(1) this c(1)] show ?thesis by (simp add: c(2) daemon_inv_def)
qed



section \<open>Witnesses\<close>

lemma demo_libraries: "libraries_ok demoDaemonEnv demoValid" "libraries_ok demoPauseEnv demoValid"
  by (simp_all add: libraries_ok_def demo_validator_laws) (simp_all add: demoValidation_def ref_lru_laws)

lemma demo_daemon_inv: "daemon_inv demoDaemonEnv demoWallets demoValid demoDaemon" "daemon_inv demoPauseEnv demoWallets demoValid demoDaemon"
proof -
  have "cache_inv demoValidation demoValid []"
    using cache_inv_empty [of demoValidation demoValid] by (simp add: demoValidation_def ref_lru_laws) (simp add: ref_lru_def)
  moreover have "wallet_inv demoWalletEnv demoWallets (sy_wallet demoSecurityState)"
    using demo_walletInv [of 5] by (simp add: demoSecurity_def)
  ultimately show "daemon_inv demoDaemonEnv demoWallets demoValid demoDaemon" "daemon_inv demoPauseEnv demoWallets demoValid demoDaemon"
    by (simp_all add: daemon_inv_def demoDaemon_def demoGuardState_def)
qed

lemma demo_messages:
  "\<exists>y t out topic m app. guardianCycle demoDaemonEnv demoDaemon = (y, t, out) \<and> Publish topic (Message_Deposit m) app \<in> set out"
  "\<exists>y t out topic m app. guardianCycle demoPauseEnv demoDaemon = (y, t, out) \<and> Publish topic (Message_Pause m) app \<in> set out"
  using demo_cycle pause_cycle unfolding emitsSome_def deposit_message_def pause_message_def by (metis prod.exhaust_sel)+

theorem deposit_message_safe_witness:
  "\<exists>topic m app. Publish topic (Message_Deposit m) app \<in> set (snd (snd (guardianCycle demoDaemonEnv demoDaemon))) \<and>
     md_blockNumber m = 7 \<and> md_nonce m = 4 \<and> md_stakingModuleId m = 1"
proof -
  obtain y t out topic m app where run: "guardianCycle demoDaemonEnv demoDaemon = (y, t, out)"
    "Publish topic (Message_Deposit m) app \<in> set out"
    using demo_messages(1) by (elim exE conjE)
  note safe = deposit_message_safe [OF demo_libraries(1) demo_daemon_inv(1) run]
  have "md_blockNumber m = 7 \<and> md_nonce m = 4 \<and> md_stakingModuleId m = 1"
    using safe unfolding demo_modules by (elim exE conjE) (auto simp: demoSnapshot_def demoDaemonModule_def)
  with run show ?thesis by (metis snd_conv)
qed

theorem pause_message_reasons_witness:
  "\<exists>topic m app. Publish topic (Message_Pause m) app \<in> set (snd (snd (guardianCycle demoPauseEnv demoDaemon))) \<and>
     mp_blockNumber m = 7"
proof -
  obtain y t out topic m app where run: "guardianCycle demoPauseEnv demoDaemon = (y, t, out)"
    "Publish topic (Message_Pause m) app \<in> set out"
    using demo_messages(2) by (elim exE conjE)
  have modules: "getModules (de_kapi demoPauseEnv) = Inr \<lparr>ml_data = [demoDaemonModule], ml_elBlockSnapshot = demoSnapshot ''0xc''\<rparr>"
    by (simp add: getModules_def kapiFetch_def demoKapi_def getBaseUrl_def)
  have "mp_blockNumber m = 7"
    using pause_message_reasons [OF demo_libraries(2) demo_daemon_inv(2) run] unfolding modules
    by (elim exE conjE) (auto simp: demoSnapshot_def)
  with run show ?thesis by (metis snd_conv)
qed



end
