(* ===== verification/JS_Strings.thy ===== *)
theory JS_Strings
  imports JS_Prelude
begin

text \<open>
  The string functions of JavaScript that the transports, the metrics and the configuration use: \<open>trim\<close>, and
  \<open>split\<close> and \<open>join\<close> on one character.
\<close>

definition is_space :: "char \<Rightarrow> bool" where
  "is_space c \<longleftrightarrow> c \<in> {CHR '' '', CHR 0x09, CHR 0x0A, CHR 0x0B, CHR 0x0C, CHR 0x0D, CHR 0xA0}"

definition trimSpace :: "string \<Rightarrow> string" where
  "trimSpace s = rev (dropWhile is_space (rev (dropWhile is_space s)))"

text \<open>\<open>split\<close> of a string on one character.\<close>

fun splitOn :: "char \<Rightarrow> string \<Rightarrow> string list" where
  "splitOn c [] = [[]]"
| "splitOn c (x # xs) = (if x = c then [] # splitOn c xs else (case splitOn c xs of l # ls \<Rightarrow> (x # l) # ls | [] \<Rightarrow> [[x]]))"

fun joinWith :: "char \<Rightarrow> string list \<Rightarrow> string" where
  "joinWith c [] = []"
| "joinWith c [l] = l"
| "joinWith c (l # ls) = l @ [c] @ joinWith c ls"

lemma splitOn_nonempty: "splitOn c s \<noteq> []"
  by (cases s) (auto split: list.split)

lemma splitOn_append:
  "c \<notin> set l \<Longrightarrow> splitOn c (l @ c # s) = l # splitOn c s"
  by (induction l) (auto split: list.split)

lemma splitOn_none: "c \<notin> set l \<Longrightarrow> splitOn c l = [l]"
  by (induction l) auto

lemma hd_splitOn: "hd (splitOn c s) = takeWhile (\<lambda>x. x \<noteq> c) s"
proof (induction s)
  case (Cons x s)
  then show ?case by (cases "splitOn c s") (auto simp: splitOn_nonempty)
qed simp

lemma splitOn_join:
  "\<forall>l\<in>set ls. c \<notin> set l \<Longrightarrow> ls \<noteq> [] \<Longrightarrow> splitOn c (joinWith c ls @ c # s) = ls @ splitOn c s"
  by (induction ls rule: joinWith.induct) (auto simp: splitOn_append)

lemma joinWith_append:
  "ls \<noteq> [] \<Longrightarrow> joinWith c (ls @ [l]) = joinWith c ls @ c # l"
  by (induction ls rule: joinWith.induct) auto

end
