(* ===== verification/Bus_Serializer.thy ===== *)
theory Bus_Serializer
  imports Hex_Bytes Dsm_Strategy JS_Strings
begin

text \<open>
  The messages of the data bus (\<open>contracts/data-bus/data-bus.serializer.ts\<close>): the schemas of \<open>zod\<close>,
  the unwrapping of the results of \<open>ethers\<close> and the mapper of every event.
\<close>

section \<open>Values\<close>

text \<open>
  A value of \<open>ethers\<close>: a \<open>Result\<close> is an array with index keys and named keys, in the order in which
  \<open>for in\<close> visits them; after the unwrapping it is a plain object.
\<close>

datatype bus_value =
    VString string
  | VNumber int
  | VBigNumber int
  | VBool bool
  | VArray "(string \<times> bus_value) list"
  | VObject "(string \<times> bus_value) list"

text \<open>Whether \<open>Number(key)\<close> is a number: the grammar of numeric strings, the empty string included.\<close>

definition exponentPart :: "string \<Rightarrow> bool" where
  "exponentPart s \<longleftrightarrow>
     (case s of
        [] \<Rightarrow> True
      | c # t \<Rightarrow> (c = CHR ''e'' \<or> c = CHR ''E'') \<and>
          (let ds = (case t of [] \<Rightarrow> [] | d # u \<Rightarrow> if d = CHR ''+'' \<or> d = CHR ''-'' then u else t)
           in ds \<noteq> [] \<and> list_all is_digit ds))"

definition unsignedDecimal :: "string \<Rightarrow> bool" where
  "unsignedDecimal s \<longleftrightarrow>
     s = ''Infinity'' \<or>
     (let whole = takeWhile is_digit s; rest = dropWhile is_digit s in
      case rest of
        c # t \<Rightarrow>
          (if c = CHR ''.'' then (whole \<noteq> [] \<or> takeWhile is_digit t \<noteq> []) \<and> exponentPart (dropWhile is_digit t)
           else whole \<noteq> [] \<and> exponentPart rest)
      | [] \<Rightarrow> whole \<noteq> [])"

definition radixLiteral :: "string \<Rightarrow> bool" where
  "radixLiteral s \<longleftrightarrow>
     (case s of
        z # x # ds \<Rightarrow> z = CHR ''0'' \<and> ds \<noteq> [] \<and>
          ((x \<in> {CHR ''x'', CHR ''X''} \<and> list_all is_hex_char ds) \<or>
           (x \<in> {CHR ''o'', CHR ''O''} \<and> list_all (\<lambda>c. c \<in> set ''01234567'') ds) \<or>
           (x \<in> {CHR ''b'', CHR ''B''} \<and> list_all (\<lambda>c. c \<in> set ''01'') ds))
      | _ \<Rightarrow> False)"

definition isNaN_Number :: "string \<Rightarrow> bool" where
  "isNaN_Number key \<longleftrightarrow>
     (let t = trimSpace key in
      \<not> (t = '''' \<or> radixLiteral t \<or> unsignedDecimal t \<or>
         (case t of c # u \<Rightarrow> (c = CHR ''+'' \<or> c = CHR ''-'') \<and> unsignedDecimal u | [] \<Rightarrow> False)))"

text \<open>What \<open>for in\<close> visits; the keys of a string are its indices.\<close>

fun entriesOf :: "bus_value \<Rightarrow> (string \<times> bus_value) list" where
  "entriesOf (VArray es) = es"
| "entriesOf (VObject es) = es"
| "entriesOf (VString s) = map (\<lambda>i. (dec_string i, VString [s ! i])) [0..<length s]"
| "entriesOf (VBigNumber n) =
     [(''_hex'', VString ((if n < 0 then ''-0x'' else ''0x'') @ fixed_hex (2 * byte_width (nat \<bar>n\<bar>)) (nat \<bar>n\<bar>))),
      (''_isBigNumber'', VBool True)]"
| "entriesOf (VNumber n) = []"
| "entriesOf (VBool b) = []"

definition extractNamedProperties :: "bus_value option \<Rightarrow> bus_value" where
  "extractNamedProperties result =
     (case result of
        None \<Rightarrow> VObject []
      | Some v \<Rightarrow> VObject (filter (\<lambda>(key, _). isNaN_Number key) (entriesOf v)))"

definition getProp :: "string \<Rightarrow> bus_value \<Rightarrow> bus_value option" where
  "getProp key v = map_of (entriesOf v) key"

fun setProp :: "string \<Rightarrow> bus_value \<Rightarrow> bus_value \<Rightarrow> bus_value" where
  "setProp key w (VObject es) = VObject (AList.update key w es)"
| "setProp key w v = v"

text \<open>\<open>object.key = extractNamedProperties(object.key)\<close>\<close>

definition unwrapProp :: "string \<Rightarrow> bus_value \<Rightarrow> bus_value" where
  "unwrapProp key v = setProp key (extractNamedProperties (getProp key v)) v"

section \<open>Schemas\<close>

datatype schema = ZString | ZBigNumber | ZObject "(string \<times> schema) list"

datatype parsed = PString string | PNumber int | PObject "(string \<times> parsed) list"

text \<open>\<open>toNumber\<close> of a big number throws outside the safe integers.\<close>

definition bigToNumber :: "int \<Rightarrow> js_error + int" where
  "bigToNumber n = (if \<bar>n\<bar> \<le> MAX_SAFE_INTEGER then Inr n else Inl (External ''NUMERIC_FAULT''))"

text \<open>
  \<open>BigNumberSchema\<close> takes a big number, a string or a number; what is not a big number becomes a string.
\<close>

definition parseBigNumber :: "bus_value \<Rightarrow> js_error + parsed" where
  "parseBigNumber v =
     (case v of
        VBigNumber n \<Rightarrow> bindR (bigToNumber n) (\<lambda>m. Inr (PNumber m))
      | VString s \<Rightarrow> Inr (PString s)
      | VNumber n \<Rightarrow> Inr (PString (int_string n))
      | _ \<Rightarrow> Inl (External ''ZodError''))"

text \<open>\<open>parse\<close>: the keys of the schema are required, the others are dropped; an array is no object.\<close>

fun parseSchema :: "schema \<Rightarrow> bus_value \<Rightarrow> js_error + parsed"
  and parseFields :: "(string \<times> schema) list \<Rightarrow> (string \<times> bus_value) list \<Rightarrow> js_error + (string \<times> parsed) list" where
  "parseSchema ZString v = (case v of VString s \<Rightarrow> Inr (PString s) | _ \<Rightarrow> Inl (External ''ZodError''))"
| "parseSchema ZBigNumber v = parseBigNumber v"
| "parseSchema (ZObject shape) v =
     (case v of VObject es \<Rightarrow> bindR (parseFields shape es) (\<lambda>ps. Inr (PObject ps)) | _ \<Rightarrow> Inl (External ''ZodError''))"
| "parseFields [] es = Inr []"
| "parseFields ((key, sch) # shape) es =
     (case map_of es key of
        None \<Rightarrow> Inl (External ''ZodError'')
      | Some v \<Rightarrow> bindR (parseSchema sch v) (\<lambda>p. bindR (parseFields shape es) (\<lambda>ps. Inr ((key, p) # ps))))"

definition SignatureSchema :: schema where
  "SignatureSchema = ZObject [(''r'', ZString), (''vs'', ZString)]"

definition SignatureBlobSchema :: schema where
  "SignatureBlobSchema = ZString"

definition AppSchema :: schema where
  "AppSchema = ZObject [(''version'', ZString)]"

text \<open>\<open>extend\<close> replaces a field.\<close>

fun extendSchema :: "schema \<Rightarrow> string \<Rightarrow> schema \<Rightarrow> schema" where
  "extendSchema (ZObject shape) key sch = ZObject (AList.update key sch shape)"
| "extendSchema s key sch = s"

definition MessageDepositV1DataSchema :: schema where
  "MessageDepositV1DataSchema = ZObject
     [(''blockNumber'', ZBigNumber), (''blockHash'', ZString), (''depositRoot'', ZString), (''stakingModuleId'', ZBigNumber),
      (''nonce'', ZBigNumber), (''signature'', SignatureSchema), (''app'', AppSchema)]"

definition MessagePauseV3DataSchema :: schema where
  "MessagePauseV3DataSchema = ZObject
     [(''blockNumber'', ZBigNumber), (''blockHash'', ZString), (''signature'', SignatureSchema), (''app'', AppSchema)]"

definition MessagePingV1DataSchema :: schema where
  "MessagePingV1DataSchema = ZObject [(''blockNumber'', ZBigNumber), (''app'', AppSchema)]"

definition MessageUnvetV1DataSchema :: schema where
  "MessageUnvetV1DataSchema = ZObject
     [(''blockNumber'', ZBigNumber), (''blockHash'', ZString), (''stakingModuleId'', ZBigNumber), (''nonce'', ZBigNumber),
      (''operatorIds'', ZString), (''vettedKeysByOperator'', ZString), (''signature'', SignatureSchema), (''app'', AppSchema)]"

definition MessageDepositV2DataSchema :: schema where
  "MessageDepositV2DataSchema = extendSchema MessageDepositV1DataSchema ''signature'' SignatureBlobSchema"

definition MessagePauseV4DataSchema :: schema where
  "MessagePauseV4DataSchema = extendSchema MessagePauseV3DataSchema ''signature'' SignatureBlobSchema"

definition MessageUnvetV2DataSchema :: schema where
  "MessageUnvetV2DataSchema = extendSchema MessageUnvetV1DataSchema ''signature'' SignatureBlobSchema"

definition eventSchema :: "schema \<Rightarrow> schema" where
  "eventSchema dataSchema = ZObject [(''guardianAddress'', ZString), (''data'', dataSchema)]"

lemmas schema_defs = MessageDepositV1DataSchema_def MessagePauseV3DataSchema_def MessagePingV1DataSchema_def
  MessageUnvetV1DataSchema_def MessageDepositV2DataSchema_def MessagePauseV4DataSchema_def MessageUnvetV2DataSchema_def
  SignatureSchema_def SignatureBlobSchema_def AppSchema_def eventSchema_def

section \<open>Mappers\<close>

definition mapMessageDepositV1 :: "bus_value \<Rightarrow> js_error + parsed" where
  "mapMessageDepositV1 result =
     (let namedArgs = unwrapProp ''data'' (extractNamedProperties (Some result));
          withSignature = setProp ''data'' (unwrapProp ''signature'' (the (getProp ''data'' namedArgs))) namedArgs;
          withApp = setProp ''data'' (unwrapProp ''app'' (the (getProp ''data'' withSignature))) withSignature
      in parseSchema (eventSchema MessageDepositV1DataSchema) withApp)"

definition mapMessagePauseV3 :: "bus_value \<Rightarrow> js_error + parsed" where
  "mapMessagePauseV3 result =
     (let namedArgs = unwrapProp ''data'' (extractNamedProperties (Some result));
          withSignature = setProp ''data'' (unwrapProp ''signature'' (the (getProp ''data'' namedArgs))) namedArgs;
          withApp = setProp ''data'' (unwrapProp ''app'' (the (getProp ''data'' withSignature))) withSignature
      in parseSchema (eventSchema MessagePauseV3DataSchema) withApp)"

definition mapMessagePingV1 :: "bus_value \<Rightarrow> js_error + parsed" where
  "mapMessagePingV1 result =
     (let namedArgs = unwrapProp ''data'' (extractNamedProperties (Some result));
          withApp = setProp ''data'' (unwrapProp ''app'' (the (getProp ''data'' namedArgs))) namedArgs
      in parseSchema (eventSchema MessagePingV1DataSchema) withApp)"

definition mapMessageUnvetV1 :: "bus_value \<Rightarrow> js_error + parsed" where
  "mapMessageUnvetV1 result =
     (let namedArgs = unwrapProp ''data'' (extractNamedProperties (Some result));
          withSignature = setProp ''data'' (unwrapProp ''signature'' (the (getProp ''data'' namedArgs))) namedArgs;
          withApp = setProp ''data'' (unwrapProp ''app'' (the (getProp ''data'' withSignature))) withSignature
      in parseSchema (eventSchema MessageUnvetV1DataSchema) withApp)"

definition mapBlobSignatureEvent :: "schema \<Rightarrow> bus_value \<Rightarrow> js_error + parsed" where
  "mapBlobSignatureEvent sch result =
     (let namedArgs = unwrapProp ''data'' (extractNamedProperties (Some result));
          withApp = setProp ''data'' (unwrapProp ''app'' (the (getProp ''data'' namedArgs))) namedArgs
      in parseSchema sch withApp)"

definition eventMappers :: "string \<rightharpoonup> (bus_value \<Rightarrow> js_error + parsed)" where
  "eventMappers = map_of
     [(''MessageDepositV1'', mapMessageDepositV1), (''MessagePauseV3'', mapMessagePauseV3),
      (''MessagePingV1'', mapMessagePingV1), (''MessageUnvetV1'', mapMessageUnvetV1),
      (''MessageDepositV2'', mapBlobSignatureEvent (eventSchema MessageDepositV2DataSchema)),
      (''MessagePauseV4'', mapBlobSignatureEvent (eventSchema MessagePauseV4DataSchema)),
      (''MessageUnvetV2'', mapBlobSignatureEvent (eventSchema MessageUnvetV2DataSchema))]"

lemmas mapper_defs = mapMessageDepositV1_def mapMessagePauseV3_def mapMessagePingV1_def mapMessageUnvetV1_def
  mapBlobSignatureEvent_def

end
