(* ===== verification/Mutex.thy ===== *)
theory Mutex
  imports JS_Prelude
begin

text \<open>
  The mutex of the data bus (\<open>contracts/data-bus/utils/mutex.ts\<close>): a promise while it is locked and the
  function that resolves it. The callers of \<open>lock\<close> wait in a loop; the model has the steps
  between two points where the event loop may run another task.
\<close>

section \<open>The class\<close>

text \<open>A promise is its number; the resolver is the number of the promise it resolves.\<close>

record mutex =
  mx_currentPromise :: "nat option"
  mx_resolver :: "nat option"
  mx_created :: nat

definition newMutex :: mutex where
  "newMutex = \<lparr>mx_currentPromise = None, mx_resolver = None, mx_created = 0\<rparr>"

text \<open>One turn of \<open>lock\<close>: the promise to wait for, or the mutex locked.\<close>

definition lockTurn :: "mutex \<Rightarrow> nat + mutex" where
  "lockTurn m =
     (case mx_currentPromise m of
        Some promise \<Rightarrow> Inl promise
      | None \<Rightarrow> Inr (m\<lparr>mx_currentPromise := Some (mx_created m), mx_resolver := Some (mx_created m),
                       mx_created := Suc (mx_created m)\<rparr>))"

text \<open>\<open>unlock\<close>: the promise it resolves.\<close>

definition unlock :: "mutex \<Rightarrow> js_error + nat \<times> mutex" where
  "unlock m =
     (case mx_resolver m of
        None \<Rightarrow> Inl (Error ''Mutex is not locked'')
      | Some promise \<Rightarrow> Inr (promise, m\<lparr>mx_currentPromise := None, mx_resolver := None\<rparr>))"

section \<open>Its callers\<close>

text \<open>
  The callers: waiting for a promise, resumed by a resolved one and queued for their next turn, and
  holding the lock. A resolved promise resumes its callers in the order in which they waited.
\<close>

record callers =
  ca_mutex :: mutex
  ca_waiting :: "(nat \<times> nat) list"
  ca_resumed :: "nat list"
  ca_holders :: "nat list"

definition enter :: "nat \<Rightarrow> callers \<Rightarrow> callers" where
  "enter c u =
     (case lockTurn (ca_mutex u) of
        Inl promise \<Rightarrow> u\<lparr>ca_waiting := ca_waiting u @ [(c, promise)]\<rparr>
      | Inr m \<Rightarrow> u\<lparr>ca_mutex := m, ca_holders := c # ca_holders u\<rparr>)"

definition leave :: "nat \<Rightarrow> callers \<Rightarrow> js_error + callers" where
  "leave c u =
     bindR (unlock (ca_mutex u)) (\<lambda>(promise, m).
       Inr (u\<lparr>ca_mutex := m, ca_holders := remove1 c (ca_holders u),
             ca_waiting := filter (\<lambda>w. snd w \<noteq> promise) (ca_waiting u),
             ca_resumed := ca_resumed u @ map fst (filter (\<lambda>w. snd w = promise) (ca_waiting u))\<rparr>))"

text \<open>A new call may come at any time, before the resumed callers have their turn.\<close>

inductive mutex_step :: "callers \<Rightarrow> callers \<Rightarrow> bool" where
  calls: "mutex_step u (enter c u)"
| resumes: "ca_resumed u = c # cs \<Longrightarrow> mutex_step u (enter c (u\<lparr>ca_resumed := cs\<rparr>))"
| releases: "c \<in> set (ca_holders u) \<Longrightarrow> leave c u = Inr v \<Longrightarrow> mutex_step u v"

definition noCallers :: callers where
  "noCallers = \<lparr>ca_mutex = newMutex, ca_waiting = [], ca_resumed = [], ca_holders = []\<rparr>"

abbreviation mutex_reachable :: "callers \<Rightarrow> bool" where
  "mutex_reachable \<equiv> mutex_step\<^sup>*\<^sup>* noCallers"

section \<open>The invariant\<close>

definition mutex_inv :: "callers \<Rightarrow> bool" where
  "mutex_inv u \<longleftrightarrow>
     mx_resolver (ca_mutex u) = mx_currentPromise (ca_mutex u) \<and>
     (ca_holders u = [] \<longleftrightarrow> mx_currentPromise (ca_mutex u) = None) \<and>
     length (ca_holders u) \<le> 1 \<and>
     (\<forall>w\<in>set (ca_waiting u). mx_currentPromise (ca_mutex u) = Some (snd w))"

lemma enter_inv: "mutex_inv u \<Longrightarrow> mutex_inv (enter c u)"
  by (cases "mx_currentPromise (ca_mutex u)") (auto simp: mutex_inv_def enter_def lockTurn_def)

lemma resumed_irrelevant [simp]: "mutex_inv (u\<lparr>ca_resumed := cs\<rparr>) = mutex_inv u"
  by (simp add: mutex_inv_def)

lemma one_holder:
  assumes "mutex_inv u" "c \<in> set (ca_holders u)"
  shows "ca_holders u = [c]"
  using assms by (cases "ca_holders u") (auto simp: mutex_inv_def)

text \<open>The holder leaves: everyone who waited is resumed.\<close>

lemma leave_eq:
  assumes "mutex_inv u" "c \<in> set (ca_holders u)"
  shows "leave c u = Inr \<lparr>ca_mutex = (ca_mutex u)\<lparr>mx_currentPromise := None, mx_resolver := None\<rparr>, ca_waiting = [],
      ca_resumed = ca_resumed u @ map fst (ca_waiting u), ca_holders = []\<rparr>"
proof -
  have "mx_currentPromise (ca_mutex u) \<noteq> None" using assms one_holder [OF assms] by (auto simp: mutex_inv_def)
  then obtain p where p: "mx_currentPromise (ca_mutex u) = Some p" by blast
  with assms have "filter (\<lambda>w. snd w = p) (ca_waiting u) = ca_waiting u" "filter (\<lambda>w. snd w \<noteq> p) (ca_waiting u) = []"
    by (auto simp: mutex_inv_def filter_id_conv filter_empty_conv)
  with assms p one_holder [OF assms] show ?thesis by (simp add: leave_def unlock_def mutex_inv_def)
qed

lemma leave_inv: "mutex_inv u \<Longrightarrow> c \<in> set (ca_holders u) \<Longrightarrow> leave c u = Inr v \<Longrightarrow> mutex_inv v"
  by (simp add: leave_eq) (auto simp: mutex_inv_def)

lemma step_inv: "mutex_step u v \<Longrightarrow> mutex_inv u \<Longrightarrow> mutex_inv v"
  by (induction rule: mutex_step.induct) (simp_all add: enter_inv leave_inv)

lemma reachable_mutex_inv: "mutex_reachable u \<Longrightarrow> mutex_inv u"
  by (induction rule: rtranclp_induct)
     (simp_all add: step_inv, simp add: mutex_inv_def noCallers_def newMutex_def)

text \<open>
  The mutex excludes: whenever the callers of \<open>lock\<close> and \<open>unlock\<close> interleave, at most one of them
  holds the lock; the holder can always release it, \<open>unlock\<close> throws only when
  nobody holds it; and nobody waits while the lock is free, so no wake-up is lost.
\<close>

theorem mutex_exclusion:
  assumes "mutex_reachable u"
  shows "length (ca_holders u) \<le> 1 \<and> (ca_waiting u \<noteq> [] \<longrightarrow> ca_holders u \<noteq> []) \<and>
    (ca_holders u = [] \<longleftrightarrow> unlock (ca_mutex u) = Inl (Error ''Mutex is not locked'')) \<and>
    (\<forall>c\<in>set (ca_holders u). \<exists>v. leave c u = Inr v)"
proof -
  from reachable_mutex_inv [OF assms] have inv: "mutex_inv u" .
  then have "ca_waiting u \<noteq> [] \<longrightarrow> ca_holders u \<noteq> []" by (cases "ca_waiting u") (auto simp: mutex_inv_def)
  moreover have "ca_holders u = [] \<longleftrightarrow> unlock (ca_mutex u) = Inl (Error ''Mutex is not locked'')"
    using inv by (auto simp: mutex_inv_def unlock_def split: option.split)
  moreover have "\<forall>c\<in>set (ca_holders u). \<exists>v. leave c u = Inr v" using leave_eq [OF inv] by blast
  ultimately show ?thesis using inv by (simp add: mutex_inv_def)
qed

section \<open>The queue it implements\<close>

text \<open>
  The specification is a queue with the holder at its head. Without new calls in between, a turn (the
  holder leaves, then everyone it resumed has a turn) is a removal from the queue.
\<close>

definition queueOf :: "callers \<Rightarrow> nat list" where
  "queueOf u = ca_holders u @ ca_resumed u @ map fst (ca_waiting u)"

definition resumeAll :: "callers \<Rightarrow> callers" where
  "resumeAll u = fold enter (ca_resumed u) (u\<lparr>ca_resumed := []\<rparr>)"

definition handOver :: "callers \<Rightarrow> js_error + callers" where
  "handOver u =
     (case ca_holders u of
        [] \<Rightarrow> Inl (Error ''Mutex is not locked'')
      | c # _ \<Rightarrow> bindR (leave c u) (\<lambda>v. Inr (resumeAll v)))"

lemma enter_free:
  "mx_currentPromise (ca_mutex u) = None \<Longrightarrow>
   enter c u = u\<lparr>ca_mutex := \<lparr>mx_currentPromise = Some (mx_created (ca_mutex u)), mx_resolver = Some (mx_created (ca_mutex u)),
      mx_created = Suc (mx_created (ca_mutex u))\<rparr>, ca_holders := c # ca_holders u\<rparr>"
  by (simp add: enter_def lockTurn_def)

lemma enter_locked:
  "mx_currentPromise (ca_mutex u) = Some p \<Longrightarrow> enter c u = u\<lparr>ca_waiting := ca_waiting u @ [(c, p)]\<rparr>"
  by (simp add: enter_def lockTurn_def)

lemma fold_enter_locked:
  "mx_currentPromise (ca_mutex u) = Some p \<Longrightarrow>
   fold enter cs u = u\<lparr>ca_waiting := ca_waiting u @ map (\<lambda>c. (c, p)) cs\<rparr>"
  by (induction cs arbitrary: u) (simp_all add: enter_locked)

lemma fold_enter_reachable: "mutex_reachable (u\<lparr>ca_resumed := cs\<rparr>) \<Longrightarrow> mutex_reachable (fold enter cs (u\<lparr>ca_resumed := []\<rparr>))"
proof (induction cs arbitrary: u)
  case (Cons c cs)
  let ?u = "enter c (u\<lparr>ca_resumed := cs\<rparr>)"
  have "mutex_step (u\<lparr>ca_resumed := c # cs\<rparr>) ?u"
    using resumes [of "u\<lparr>ca_resumed := c # cs\<rparr>" c cs] by simp
  with Cons.prems have "mutex_reachable ?u" by (rule rtranclp.rtrancl_into_rtrancl)
  moreover have "enter c (u\<lparr>ca_resumed := ds\<rparr>) = (enter c u)\<lparr>ca_resumed := ds\<rparr>" for ds
    by (simp add: enter_def lockTurn_def split: option.split)
  ultimately show ?case using Cons.IH [of "enter c u"] by simp
qed simp

lemma fold_enter_queue:
  assumes "mutex_inv u" "ca_resumed u = []"
  shows "queueOf (fold enter cs u) = queueOf u @ cs \<and> ca_resumed (fold enter cs u) = []"
proof (cases cs)
  case (Cons c ds)
  show ?thesis
  proof (cases "mx_currentPromise (ca_mutex u)")
    case None
    with assms have "ca_holders u = []" "ca_waiting u = []" by (cases "ca_waiting u"; auto simp: mutex_inv_def)+
    with None assms(2) show ?thesis
      by (simp add: Cons enter_free fold_enter_locked [of _ "mx_created (ca_mutex u)"] queueOf_def comp_def)
  next
    case (Some p)
    with assms(2) show ?thesis by (simp add: fold_enter_locked queueOf_def comp_def)
  qed
qed (simp add: assms(2))

text \<open>
  C14: The mutex is a fair queue: when nobody is between a wake-up and its turn, a call of \<open>lock\<close> appends
  the caller to the queue and the release by the holder, with the turns of those it resumes,
  removes the head: the next one in the queue then holds the lock and the order of the
  others stays, although every one of them was resumed and waits anew.
\<close>

theorem mutex_refines_queue:
  assumes "mutex_reachable u" and "ca_resumed u = []"
  shows "queueOf (enter c u) = queueOf u @ [c] \<and>
    (queueOf u = [] \<longleftrightarrow> ca_holders u = []) \<and>
    (queueOf u \<noteq> [] \<longrightarrow> (\<exists>v. handOver u = Inr v \<and> mutex_reachable v \<and> ca_resumed v = [] \<and>
       queueOf v = tl (queueOf u) \<and> ca_holders v = take 1 (tl (queueOf u))))"
proof -
  from reachable_mutex_inv [OF assms(1)] have inv: "mutex_inv u" .
  have enter: "queueOf (enter c u) = queueOf u @ [c]" using fold_enter_queue [OF inv assms(2), of "[c]"] by simp
  have head: "queueOf u = [] \<longleftrightarrow> ca_holders u = []"
    using inv assms(2) by (cases "ca_waiting u") (auto simp: queueOf_def mutex_inv_def)
  have "\<exists>v. handOver u = Inr v \<and> mutex_reachable v \<and> ca_resumed v = [] \<and> queueOf v = tl (queueOf u) \<and>
      ca_holders v = take 1 (tl (queueOf u))" if "queueOf u \<noteq> []"
  proof -
    from that head obtain h where h: "h \<in> set (ca_holders u)" by (cases "ca_holders u") auto
    note holder = one_holder [OF inv h]
    let ?v = "\<lparr>ca_mutex = (ca_mutex u)\<lparr>mx_currentPromise := None, mx_resolver := None\<rparr>, ca_waiting = [],
      ca_resumed = map fst (ca_waiting u), ca_holders = []\<rparr>"
    have leave: "leave h u = Inr ?v" using leave_eq [OF inv h] assms(2) by simp
    then have reach: "mutex_reachable ?v"
      using assms(1) releases [OF h leave] by (rule_tac rtranclp.rtrancl_into_rtrancl)
    let ?w = "resumeAll ?v"
    have "mutex_reachable ?w" using fold_enter_reachable [of "ca_resumed ?v" ?v] reach by (simp add: resumeAll_def)
    moreover have q: "queueOf ?w = map fst (ca_waiting u) \<and> ca_resumed ?w = []"
    proof -
      have "queueOf (?v\<lparr>ca_resumed := []\<rparr>) = []" by (simp add: queueOf_def)
      with fold_enter_queue [of "?v\<lparr>ca_resumed := []\<rparr>" "map fst (ca_waiting u)"] show ?thesis
        by (simp add: resumeAll_def mutex_inv_def)
    qed
    moreover from calculation have "ca_holders ?w = take 1 (queueOf ?w)"
      using reachable_mutex_inv [of ?w] by (cases "ca_waiting ?w"; cases "ca_holders ?w") (auto simp: queueOf_def mutex_inv_def)
    moreover have "handOver u = Inr ?w" using holder leave by (simp add: handOver_def)
    moreover have "tl (queueOf u) = map fst (ca_waiting u)" using holder assms(2) by (simp add: queueOf_def)
    ultimately show ?thesis by simp
  qed
  with enter head show ?thesis by blast
qed

section \<open>An instance\<close>

text \<open>Three callers: one holds the lock, two wait.\<close>

definition demoCallers :: callers where
  "demoCallers = fold enter [1, 2, 3] noCallers"

lemma demo_callers_reachable: "mutex_reachable demoCallers" "ca_resumed demoCallers = []" "queueOf demoCallers = [1, 2, 3]"
proof -
  have "mutex_reachable (fold enter cs u)" if "mutex_reachable u" for cs u
    using that by (induction cs arbitrary: u) (auto intro: rtranclp.rtrancl_into_rtrancl calls)
  from this [of noCallers] show "mutex_reachable demoCallers" unfolding demoCallers_def by blast
  show "ca_resumed demoCallers = []" "queueOf demoCallers = [1, 2, 3]"
    by (simp_all add: demoCallers_def noCallers_def newMutex_def enter_def lockTurn_def queueOf_def)
qed

theorem mutex_exclusion_witness:
  "length (ca_holders demoCallers) \<le> 1 \<and> (\<exists>v. leave 1 demoCallers = Inr v)"
proof -
  have "1 \<in> set (ca_holders demoCallers)"
    by (simp add: demoCallers_def noCallers_def newMutex_def enter_def lockTurn_def)
  with mutex_exclusion [OF demo_callers_reachable(1)] show ?thesis by blast
qed

theorem mutex_refines_queue_witness:
  "\<exists>v. handOver demoCallers = Inr v \<and> queueOf v = [2, 3] \<and> ca_holders v = [2]"
  using mutex_refines_queue [OF demo_callers_reachable(1,2)] demo_callers_reachable(3) by auto

end
