(* ===== verification/Data_Bus.thy ===== *)
theory Data_Bus
  imports Bus_Serializer Mutex Wallet
begin

text \<open>
  The data bus (\<open>contracts/data-bus\<close>): the client of the contract, the sender with its mutex, and the
  messages read back. The ABI coder, the provider and the wallet are parameters.
\<close>

section \<open>Messages\<close>

text \<open>The objects that are encoded; the version is the one of the application as bytes32.\<close>

datatype bus_message =
    BusDeposit nat string string nat nat wire_signature string
  | BusPause nat string wire_signature string
  | BusUnvet nat string nat nat string string wire_signature string
  | BusPing nat string

definition signatureValue :: "wire_signature \<Rightarrow> bus_value" where
  "signatureValue sig = (case sig of Compact r vs \<Rightarrow> VObject [(''r'', VString r), (''vs'', VString vs)] | Blob b \<Rightarrow> VString b)"

definition appValue :: "string \<Rightarrow> bus_value" where
  "appValue version = VObject [(''version'', VString version)]"

fun valueOf :: "bus_message \<Rightarrow> bus_value" where
  "valueOf (BusDeposit blockNumber blockHash depositRoot stakingModuleId nonce sig version) = VObject
     [(''blockNumber'', VNumber (int blockNumber)), (''blockHash'', VString blockHash), (''depositRoot'', VString depositRoot),
      (''stakingModuleId'', VNumber (int stakingModuleId)), (''nonce'', VNumber (int nonce)),
      (''signature'', signatureValue sig), (''app'', appValue version)]"
| "valueOf (BusPause blockNumber blockHash sig version) = VObject
     [(''blockNumber'', VNumber (int blockNumber)), (''blockHash'', VString blockHash),
      (''signature'', signatureValue sig), (''app'', appValue version)]"
| "valueOf (BusUnvet blockNumber blockHash stakingModuleId nonce operatorIds vettedKeysByOperator sig version) = VObject
     [(''blockNumber'', VNumber (int blockNumber)), (''blockHash'', VString blockHash),
      (''stakingModuleId'', VNumber (int stakingModuleId)), (''nonce'', VNumber (int nonce)),
      (''operatorIds'', VString operatorIds), (''vettedKeysByOperator'', VString vettedKeysByOperator),
      (''signature'', signatureValue sig), (''app'', appValue version)]"
| "valueOf (BusPing blockNumber version) = VObject [(''blockNumber'', VNumber (int blockNumber)), (''app'', appValue version)]"

section \<open>The client\<close>

record bus_log =
  lg_topics :: "string list"
  lg_data :: string
  lg_transactionHash :: string

datatype bus_block = BlockNumber nat | BlockTag string

record bus_filter =
  bf_address :: string
  bf_topics :: "string list list"
  bf_fromBlock :: nat
  bf_toBlock :: bus_block

record bus_transaction =
  bt_from :: string
  bt_eventId :: string
  bt_data :: string
  bt_nonce :: nat

record bus_client =
  bc_dataBusAddress :: string
  bc_getEventTopic :: "string \<Rightarrow> string"
  bc_encode :: "string \<Rightarrow> bus_value \<Rightarrow> js_error + string"
  bc_decodeBytes :: "string \<Rightarrow> js_error + string"
  bc_parseLog :: "bus_log \<Rightarrow> js_error + (string \<times> bus_value) option"
  bc_getAddress :: "js_error + string"
  bc_getTransactionCount :: "string \<Rightarrow> string \<Rightarrow> js_error + nat"
  bc_sendMessage :: "bus_transaction \<Rightarrow> js_error + string"
  bc_waitForTransaction :: "string \<Rightarrow> js_error + unit"
  bc_getLogs :: "bus_filter \<Rightarrow> js_error + bus_log list"

text \<open>What leaves the daemon: transactions of the data bus and its metrics. A balance is its amount in wei.\<close>

datatype bus_gauge = BusAccountBalance nat string | BusNonceLatest string | BusNoncePending string | BusNonceGap string

datatype bus_effect = BusTransaction bus_transaction | BusGauge bus_gauge int

text \<open>The events of \<open>abi/data-bus.abi.json\<close>.\<close>

definition eventsFragments :: "string list" where
  "eventsFragments = [''MessageDepositV1'', ''MessagePauseV3'', ''MessagePingV1'', ''MessageUnvetV1'', ''MessageDepositV2'',
     ''MessagePauseV4'', ''MessageUnvetV2'']"

definition sendTransaction :: "bus_client \<Rightarrow> string \<Rightarrow> string \<Rightarrow> ('s, bus_effect, string) comp" where
  "sendTransaction C eventId dataBytes =
     andThen (liftR (bc_getAddress C)) (\<lambda>signerAddress.
     andThen (liftR (bc_getTransactionCount C signerAddress ''latest'')) (\<lambda>nonce.
       let tx = \<lparr>bt_from = signerAddress, bt_eventId = eventId, bt_data = dataBytes, bt_nonce = nonce\<rparr> in
     andThen (liftR (bc_sendMessage C tx)) (\<lambda>txHash.
     andThen (emit [BusTransaction tx]) (\<lambda>_.
     andThen (liftR (bc_waitForTransaction C txHash)) (\<lambda>_. ret txHash)))))"

definition clientSendMessage :: "bus_client \<Rightarrow> string \<Rightarrow> bus_message \<Rightarrow> ('s, bus_effect, string) comp" where
  "clientSendMessage C eventName message =
     (case find (\<lambda>ev. ev = eventName) eventsFragments of
        None \<Rightarrow> raise (Error (''Event with name '' @ [CHR 0x22] @ eventName @ [CHR 0x22] @ '' not found''))
      | Some event \<Rightarrow>
          andThen (liftR (bc_encode C event (valueOf message))) (\<lambda>dataBytes.
            sendTransaction C (bc_getEventTopic C event) dataBytes))"

definition addProperty :: "string \<Rightarrow> parsed \<Rightarrow> parsed \<Rightarrow> parsed" where
  "addProperty key v p = (case p of PObject ps \<Rightarrow> PObject (AList.update key v ps) | _ \<Rightarrow> p)"

definition readLog :: "bus_client \<Rightarrow> bus_log \<Rightarrow> js_error + parsed option" where
  "readLog C log =
     bindR (bc_decodeBytes C (lg_data log)) (\<lambda>decodedData.
     bindR (bc_parseLog C (log\<lparr>lg_data := decodedData\<rparr>)) (\<lambda>parsedLog.
       case parsedLog of
         None \<Rightarrow> Inr None
       | Some (name, args) \<Rightarrow>
           (case eventMappers name of
              None \<Rightarrow> Inr None
            | Some mapper \<Rightarrow>
                bindR (mapper args) (\<lambda>mappedData.
                  Inr (Some (addProperty ''name'' (PString name)
                    (addProperty ''txHash'' (PString (lg_transactionHash log)) mappedData)))))))"

definition getByTopics :: "bus_client \<Rightarrow> string list \<Rightarrow> nat \<Rightarrow> bus_block \<Rightarrow> js_error + parsed list" where
  "getByTopics C topics blockFrom blockTo =
     bindR (bc_getLogs C \<lparr>bf_address = bc_dataBusAddress C, bf_topics = [topics], bf_fromBlock = blockFrom, bf_toBlock = blockTo\<rparr>)
       (\<lambda>logs. bindR (traverse (readLog C) logs) (\<lambda>results. Inr (List.map_filter id results)))"

definition getEvents :: "bus_client \<Rightarrow> string \<Rightarrow> nat \<Rightarrow> bus_block \<Rightarrow> js_error + parsed list" where
  "getEvents C eventName blockFrom blockTo =
     (case find (\<lambda>ev. ev = eventName) eventsFragments of
        None \<Rightarrow> Inl (Error (''Event with name '' @ [CHR 0x22] @ eventName @ [CHR 0x22] @ '' not found''))
      | Some event \<Rightarrow> getByTopics C [bc_getEventTopic C event] blockFrom blockTo)"

definition getAllEvents :: "bus_client \<Rightarrow> nat \<Rightarrow> bus_block \<Rightarrow> js_error + parsed list" where
  "getAllEvents C blockFrom blockTo = getByTopics C (map (bc_getEventTopic C) eventsFragments) blockFrom blockTo"

section \<open>The sender\<close>

record bus_format =
  fm_crypto :: crypto_lib
  fm_formatBytes32String :: "string \<Rightarrow> js_error + string"

definition transformMessage :: "bus_format \<Rightarrow> message \<Rightarrow> message_app \<Rightarrow> js_error + bus_message" where
  "transformMessage F message appMeta =
     bindR (fm_formatBytes32String F (ap_version appMeta)) (\<lambda>version.
       let strategy = getDsmStrategy (fm_crypto F) (mr_dsmVersion (required_fields message)) in
       case message of
         Message_Deposit m \<Rightarrow> bindR (st_wireSignature strategy (md_signature m)) (\<lambda>sig.
           Inr (BusDeposit (md_blockNumber m) (md_blockHash m) (md_depositRoot m) (md_stakingModuleId m) (md_nonce m) sig version))
       | Message_Pause m \<Rightarrow> bindR (st_wireSignature strategy (mp_signature m)) (\<lambda>sig.
           Inr (BusPause (mp_blockNumber m) (mp_blockHash m) sig version))
       | Message_Unvet m \<Rightarrow> bindR (st_wireSignature strategy (mu_signature m)) (\<lambda>sig.
           Inr (BusUnvet (mu_blockNumber m) (mu_blockHash m) (mu_stakingModuleId m) (mu_nonce m) (mu_operatorIds m)
             (mu_vettedKeysByOperator m) sig version))
       | Message_Ping m \<Rightarrow> Inr (BusPing (mg_blockNumber m) version))"

definition getEventName :: "bus_format \<Rightarrow> message \<Rightarrow> string" where
  "getEventName F message =
     (let busEvents = st_busEvents (getDsmStrategy (fm_crypto F) (mr_dsmVersion (required_fields message))) in
      case message_type_of message of
        PING \<Rightarrow> ''MessagePingV1''
      | DEPOSIT \<Rightarrow> be_deposit busEvents
      | PAUSE \<Rightarrow> be_pause busEvents
      | UNVET \<Rightarrow> be_unvet busEvents)"

text \<open>What \<open>sendMessage\<close> does before it asks for the lock.\<close>

definition prepareMessage :: "bus_format \<Rightarrow> message \<Rightarrow> message_app \<Rightarrow> js_error + string \<times> bus_message" where
  "prepareMessage F message app =
     bindR (transformMessage F message app) (\<lambda>outputMessage. Inr (getEventName F message, outputMessage))"

text \<open>The section between \<open>lock\<close> and \<open>unlock\<close>, which \<open>finally\<close> runs after an exception too.\<close>

definition lockedSection :: "bus_client \<Rightarrow> string \<Rightarrow> bus_message \<Rightarrow> (mutex, bus_effect, string) comp" where
  "lockedSection C eventName outputMessage =
     finallyE (clientSendMessage C eventName outputMessage)
       (\<lambda>m. case unlock m of Inr (promise, m') \<Rightarrow> m' | Inl e \<Rightarrow> m)"

section \<open>Reading back what was sent\<close>

text \<open>What the ABI coder gives back for an object it encoded: an array with index and named keys, with big numbers.\<close>

fun abiDecoded :: "bus_value \<Rightarrow> bus_value" and abiDecodedEntries :: "(string \<times> bus_value) list \<Rightarrow> (string \<times> bus_value) list" where
  "abiDecoded (VNumber n) = VBigNumber n"
| "abiDecoded (VObject es) =
     VArray (map (\<lambda>(i, _, v). (dec_string i, v)) (List.enumerate 0 (abiDecodedEntries es)) @ abiDecodedEntries es)"
| "abiDecoded v = v"
| "abiDecodedEntries [] = []"
| "abiDecodedEntries ((key, v) # es) = (key, abiDecoded v) # abiDecodedEntries es"

definition signatureParsed :: "wire_signature \<Rightarrow> parsed" where
  "signatureParsed sig = (case sig of Compact r vs \<Rightarrow> PObject [(''r'', PString r), (''vs'', PString vs)] | Blob b \<Rightarrow> PString b)"

fun parsedOf :: "bus_message \<Rightarrow> parsed" where
  "parsedOf (BusDeposit blockNumber blockHash depositRoot stakingModuleId nonce sig version) = PObject
     [(''blockNumber'', PNumber (int blockNumber)), (''blockHash'', PString blockHash), (''depositRoot'', PString depositRoot),
      (''stakingModuleId'', PNumber (int stakingModuleId)), (''nonce'', PNumber (int nonce)),
      (''signature'', signatureParsed sig), (''app'', PObject [(''version'', PString version)])]"
| "parsedOf (BusPause blockNumber blockHash sig version) = PObject
     [(''blockNumber'', PNumber (int blockNumber)), (''blockHash'', PString blockHash),
      (''signature'', signatureParsed sig), (''app'', PObject [(''version'', PString version)])]"
| "parsedOf (BusUnvet blockNumber blockHash stakingModuleId nonce operatorIds vettedKeysByOperator sig version) = PObject
     [(''blockNumber'', PNumber (int blockNumber)), (''blockHash'', PString blockHash),
      (''stakingModuleId'', PNumber (int stakingModuleId)), (''nonce'', PNumber (int nonce)),
      (''operatorIds'', PString operatorIds), (''vettedKeysByOperator'', PString vettedKeysByOperator),
      (''signature'', signatureParsed sig), (''app'', PObject [(''version'', PString version)])]"
| "parsedOf (BusPing blockNumber version) =
     PObject [(''blockNumber'', PNumber (int blockNumber)), (''app'', PObject [(''version'', PString version)])]"

text \<open>The event that carries a message, by its type and the layout of its signature.\<close>

fun eventOf :: "bus_message \<Rightarrow> string" where
  "eventOf (BusDeposit _ _ _ _ _ (Compact _ _) _) = ''MessageDepositV1''"
| "eventOf (BusDeposit _ _ _ _ _ (Blob _) _) = ''MessageDepositV2''"
| "eventOf (BusPause _ _ (Compact _ _) _) = ''MessagePauseV3''"
| "eventOf (BusPause _ _ (Blob _) _) = ''MessagePauseV4''"
| "eventOf (BusUnvet _ _ _ _ _ _ (Compact _ _) _) = ''MessageUnvetV1''"
| "eventOf (BusUnvet _ _ _ _ _ _ (Blob _) _) = ''MessageUnvetV2''"
| "eventOf (BusPing _ _) = ''MessagePingV1''"

text \<open>All numbers of the message are safe integers.\<close>

fun safe_numbers :: "bus_message \<Rightarrow> bool" where
  "safe_numbers (BusDeposit n _ _ i k _ _) \<longleftrightarrow> int n \<le> MAX_SAFE_INTEGER \<and> int i \<le> MAX_SAFE_INTEGER \<and> int k \<le> MAX_SAFE_INTEGER"
| "safe_numbers (BusPause n _ _ _) \<longleftrightarrow> int n \<le> MAX_SAFE_INTEGER"
| "safe_numbers (BusUnvet n _ i k _ _ _ _) \<longleftrightarrow> int n \<le> MAX_SAFE_INTEGER \<and> int i \<le> MAX_SAFE_INTEGER \<and> int k \<le> MAX_SAFE_INTEGER"
| "safe_numbers (BusPing n _) \<longleftrightarrow> int n \<le> MAX_SAFE_INTEGER"

text \<open>The arguments of the event: the guardian and the message, by index and by name.\<close>

definition eventArgs :: "string \<Rightarrow> bus_message \<Rightarrow> bus_value" where
  "eventArgs guardian m =
     VArray [(''0'', VString guardian), (''1'', abiDecoded (valueOf m)), (''guardianAddress'', VString guardian),
             (''data'', abiDecoded (valueOf m))]"

lemma named_keys [simp]:
  "isNaN_Number ''blockNumber''" "isNaN_Number ''blockHash''" "isNaN_Number ''depositRoot''" "isNaN_Number ''stakingModuleId''"
  "isNaN_Number ''nonce''" "isNaN_Number ''signature''" "isNaN_Number ''app''" "isNaN_Number ''operatorIds''"
  "isNaN_Number ''vettedKeysByOperator''" "isNaN_Number ''r''" "isNaN_Number ''vs''" "isNaN_Number ''version''"
  "isNaN_Number ''guardianAddress''" "isNaN_Number ''data''" "\<not> isNaN_Number ''0''" "\<not> isNaN_Number ''1''"
  "\<not> isNaN_Number ''2''" "\<not> isNaN_Number ''3''" "\<not> isNaN_Number ''4''" "\<not> isNaN_Number ''5''" "\<not> isNaN_Number ''6''"
  "\<not> isNaN_Number ''7''"
  by code_simp+


lemma index_keys:
  "dec_string 0 = ''0''" "dec_string (Suc 0) = ''1''" "dec_string (Suc (Suc 0)) = ''2''" "dec_string (Suc (Suc (Suc 0))) = ''3''"
  "dec_string (Suc (Suc (Suc (Suc 0)))) = ''4''" "dec_string (Suc (Suc (Suc (Suc (Suc 0))))) = ''5''"
  "dec_string (Suc (Suc (Suc (Suc (Suc (Suc 0)))))) = ''6''" "dec_string (Suc (Suc (Suc (Suc (Suc (Suc (Suc 0))))))) = ''7''"
  by code_simp+

lemma mapped_message:
  assumes "safe_numbers m"
  shows "\<exists>mapper. eventMappers (eventOf m) = Some mapper \<and>
    mapper (eventArgs guardian m) = Inr (PObject [(''guardianAddress'', PString guardian), (''data'', parsedOf m)])"
  using assms
  by (cases m rule: eventOf.cases)
     (simp_all add: eventMappers_def eventArgs_def signatureValue_def appValue_def index_keys mapper_defs unwrapProp_def getProp_def
        extractNamedProperties_def schema_defs parseBigNumber_def bigToNumber_def signatureParsed_def)


lemma prepared_event: "prepareMessage F message app = Inr (ev, m) \<Longrightarrow> ev = eventOf m"
  by (cases message)
     (auto simp: prepareMessage_def transformMessage_def getEventName_def getDsmStrategy_def v4Strategy_def v5Strategy_def
        v5WireSignature_def bindR_Inr_iff Let_def split: if_split_asm prod.split_asm)

lemma event_known: "eventOf m \<in> set eventsFragments"
  by (cases m rule: eventOf.cases) (simp_all add: eventsFragments_def)

lemma find_eq: "x \<in> set xs \<Longrightarrow> find (\<lambda>y. y = x) xs = Some x"
  by (induction xs) auto

lemma clientSendMessage_ok:
  "clientSendMessage C (eventOf m) m s = (Inr h, t, out) \<longleftrightarrow>
   (\<exists>data from n. bc_encode C (eventOf m) (valueOf m) = Inr data \<and> bc_getAddress C = Inr from \<and>
      bc_getTransactionCount C from ''latest'' = Inr n \<and>
      bc_sendMessage C \<lparr>bt_from = from, bt_eventId = bc_getEventTopic C (eventOf m), bt_data = data, bt_nonce = n\<rparr> = Inr h \<and>
      bc_waitForTransaction C h = Inr () \<and> t = s \<and>
      out = [BusTransaction \<lparr>bt_from = from, bt_eventId = bc_getEventTopic C (eventOf m), bt_data = data, bt_nonce = n\<rparr>])"
  by (auto simp: clientSendMessage_def find_eq [OF event_known] sendTransaction_def andThen_apply Let_def split: sum.splits)

text \<open>
  The documented behaviour of the coder and the contract for a message: the log of the transaction
  holds the bytes and the hash, and the arguments that \<open>parseLog\<close> finds in the bytes are those of the message.
\<close>

definition codec_reads :: "bus_client \<Rightarrow> (bus_transaction \<Rightarrow> string \<Rightarrow> bus_log) \<Rightarrow> bus_message \<Rightarrow> bool" where
  "codec_reads C logOf m \<longleftrightarrow>
     (\<forall>tx h. bt_eventId tx = bc_getEventTopic C (eventOf m) \<and> bc_encode C (eventOf m) (valueOf m) = Inr (bt_data tx) \<longrightarrow>
        bc_decodeBytes C (lg_data (logOf tx h)) = Inr (bt_data tx) \<and> lg_transactionHash (logOf tx h) = h \<and>
        bc_parseLog C ((logOf tx h)\<lparr>lg_data := bt_data tx\<rparr>) = Inr (Some (eventOf m, eventArgs (bt_from tx) m)))"

text \<open>
  C15: What is published on the data bus is what its readers get: when a message of the guardian has been sent, one
  transaction was made with the nonce of the latest block, and reading the
  event back gives the fields of the message with the number of the block and the nonce as
  numbers, the signature in the layout of the DSM version, the sender, the transaction hash
  and the name of the event.
\<close>

theorem bus_message_roundtrip:
  assumes "prepareMessage F message app = Inr (ev, m)" and "safe_numbers m" and "codec_reads C logOf m"
    and "clientSendMessage C ev m s = (Inr h, t, [BusTransaction tx])"
    and "bc_getLogs C \<lparr>bf_address = bc_dataBusAddress C, bf_topics = [[bc_getEventTopic C ev]], bf_fromBlock = a, bf_toBlock = b\<rparr> =
      Inr [logOf tx h]"
  shows "getEvents C ev a b = Inr [PObject [(''guardianAddress'', PString (bt_from tx)), (''data'', parsedOf m),
      (''txHash'', PString h), (''name'', PString ev)]] \<and>
    bc_getTransactionCount C (bt_from tx) ''latest'' = Inr (bt_nonce tx)"
proof -
  note ev = prepared_event [OF assms(1)]
  from assms(4) have tx: "bt_eventId tx = bc_getEventTopic C ev" "bc_encode C ev (valueOf m) = Inr (bt_data tx)"
    "bc_getTransactionCount C (bt_from tx) ''latest'' = Inr (bt_nonce tx)"
    by (auto simp: ev clientSendMessage_ok)
  obtain mapper where mapper: "eventMappers ev = Some mapper"
    "mapper (eventArgs (bt_from tx) m) = Inr (PObject [(''guardianAddress'', PString (bt_from tx)), (''data'', parsedOf m)])"
    using mapped_message [OF assms(2)] unfolding ev by blast
  from assms(3) tx have "bc_decodeBytes C (lg_data (logOf tx h)) = Inr (bt_data tx)" "lg_transactionHash (logOf tx h) = h"
    "bc_parseLog C ((logOf tx h)\<lparr>lg_data := bt_data tx\<rparr>) = Inr (Some (ev, eventArgs (bt_from tx) m))"
    unfolding codec_reads_def ev by blast+
  with mapper have "readLog C (logOf tx h) =
      Inr (Some (PObject [(''guardianAddress'', PString (bt_from tx)), (''data'', parsedOf m), (''txHash'', PString h), (''name'', PString ev)]))"
    by (simp add: readLog_def addProperty_def)
  with assms(5) tx(3) show ?thesis
    unfolding ev by (simp add: getEvents_def find_eq [OF event_known] getByTopics_def List.map_filter_def)
qed


section \<open>Interleaved senders\<close>

text \<open>
  The calls of \<open>sendMessage\<close> for one wallet, which share a mutex, and the nonces: between \<open>lock\<close> and
  \<open>unlock\<close> a call reads the count of mined transactions, sends with it and waits. Any
  call may fail at any point of the section, which \<open>finally\<close> leaves. The log is the newest first.
\<close>

datatype bus_phase = Locked | Fetched nat | Sent nat

datatype bus_record = SentNonce nat | ConfirmedNonce nat

record senders =
  se_callers :: callers
  se_phase :: "nat \<Rightarrow> bus_phase"
  se_latest :: nat
  se_log :: "bus_record list"

definition inside :: "senders \<Rightarrow> nat \<Rightarrow> bool" where
  "inside s c \<longleftrightarrow> c \<in> set (ca_holders (se_callers s))"

definition known :: "callers \<Rightarrow> nat set" where
  "known u = set (ca_holders u) \<union> set (ca_resumed u) \<union> fst ` set (ca_waiting u)"

inductive sender_step :: "senders \<Rightarrow> senders \<Rightarrow> bool" where
  asks: "c \<notin> known (se_callers s) \<Longrightarrow>
    sender_step s (s\<lparr>se_callers := enter c (se_callers s), se_phase := (se_phase s)(c := Locked)\<rparr>)"
| turns: "ca_resumed (se_callers s) = c # cs \<Longrightarrow>
    sender_step s (s\<lparr>se_callers := enter c ((se_callers s)\<lparr>ca_resumed := cs\<rparr>), se_phase := (se_phase s)(c := Locked)\<rparr>)"
| fetches: "inside s c \<Longrightarrow> se_phase s c = Locked \<Longrightarrow>
    sender_step s (s\<lparr>se_phase := (se_phase s)(c := Fetched (se_latest s))\<rparr>)"
| sends: "inside s c \<Longrightarrow> se_phase s c = Fetched n \<Longrightarrow>
    sender_step s (s\<lparr>se_phase := (se_phase s)(c := Sent n), se_log := SentNonce n # se_log s\<rparr>)"
| mined: "sender_step s (s\<lparr>se_latest := Suc (se_latest s)\<rparr>)"
| confirmed: "inside s c \<Longrightarrow> se_phase s c = Sent n \<Longrightarrow> n < se_latest s \<Longrightarrow> leave c (se_callers s) = Inr v \<Longrightarrow>
    sender_step s (s\<lparr>se_callers := v, se_log := ConfirmedNonce n # se_log s\<rparr>)"
| failed: "inside s c \<Longrightarrow> leave c (se_callers s) = Inr v \<Longrightarrow> sender_step s (s\<lparr>se_callers := v\<rparr>)"

definition noSenders :: "nat \<Rightarrow> senders" where
  "noSenders latest = \<lparr>se_callers = noCallers, se_phase = (\<lambda>_. Locked), se_latest = latest, se_log = []\<rparr>"

text \<open>A later nonce is not below an earlier one, and above it if that one was confirmed.\<close>

fun nonce_order :: "bus_record \<Rightarrow> bus_record \<Rightarrow> bool" where
  "nonce_order (SentNonce m) (SentNonce n) = (n \<le> m)"
| "nonce_order (SentNonce m) (ConfirmedNonce n) = (n < m)"
| "nonce_order (ConfirmedNonce m) r = True"

definition sender_inv :: "senders \<Rightarrow> bool" where
  "sender_inv s \<longleftrightarrow>
     mutex_inv (se_callers s) \<and> sorted_wrt nonce_order (se_log s) \<and>
     (\<forall>r\<in>set (se_log s). nonce_order (SentNonce (se_latest s)) r) \<and>
     (\<forall>c n. inside s c \<and> se_phase s c = Fetched n \<longrightarrow>
        n \<le> se_latest s \<and> (\<forall>r\<in>set (se_log s). nonce_order (SentNonce n) r))"

lemma nonce_order_mono: "nonce_order (SentNonce m) r \<Longrightarrow> m \<le> k \<Longrightarrow> nonce_order (SentNonce k) r"
  by (cases r) auto

lemma enter_holders: "c \<in> set (ca_holders (enter d u)) \<Longrightarrow> c = d \<or> c \<in> set (ca_holders u)"
  by (auto simp: enter_def lockTurn_def split: option.split_asm)

lemma leave_holders: "mutex_inv u \<Longrightarrow> c \<in> set (ca_holders u) \<Longrightarrow> leave c u = Inr v \<Longrightarrow> ca_holders v = []"
  by (auto simp: leave_eq)

lemma sender_step_inv: "sender_step s t \<Longrightarrow> sender_inv s \<Longrightarrow> sender_inv t"
proof (induction rule: sender_step.induct)
  case (asks c s)
  then show ?case by (auto simp: sender_inv_def enter_inv inside_def dest: enter_holders)
next
  case (turns s c cs)
  then show ?case by (auto simp: sender_inv_def enter_inv inside_def dest: enter_holders)
next
  case (fetches s c)
  then show ?case by (auto simp: sender_inv_def inside_def)
next
  case (sends s c n)
  then have "ca_holders (se_callers s) = [c]" by (intro one_holder) (auto simp: sender_inv_def inside_def)
  with sends show ?case by (auto simp: sender_inv_def inside_def)
next
  case (mined s)
  then show ?case by (auto simp: sender_inv_def inside_def intro: nonce_order_mono le_SucI)
next
  case (confirmed s c n v)
  then have "ca_holders v = []" "mutex_inv v"
    by (auto simp: sender_inv_def inside_def intro: leave_holders leave_inv)
  with confirmed show ?case by (auto simp: sender_inv_def inside_def)
next
  case (failed s c v)
  then have "ca_holders v = []" "mutex_inv v"
    by (auto simp: sender_inv_def inside_def intro: leave_holders leave_inv)
  with failed show ?case by (auto simp: sender_inv_def inside_def)
qed

lemma senders_reachable_inv: "sender_step\<^sup>*\<^sup>* (noSenders latest) s \<Longrightarrow> sender_inv s"
proof (induction rule: rtranclp_induct)
  case base
  show ?case using reachable_mutex_inv [of noCallers] by (simp add: sender_inv_def noSenders_def inside_def)
qed (rule sender_step_inv)

text \<open>
  C13: However the calls of one wallet interleave, and whichever of them fail, they use the nonces in order: no
  transaction is sent with a nonce below that of an earlier one, and never again with the
  nonce of a transaction that was confirmed; at most one call is between its reading of the
  nonce and its end.
\<close>

theorem nonces_in_order:
  assumes "sender_step\<^sup>*\<^sup>* (noSenders latest) s"
  shows "sorted_wrt nonce_order (se_log s) \<and> length (ca_holders (se_callers s)) \<le> 1 \<and>
    (\<forall>c n. inside s c \<and> se_phase s c = Fetched n \<longrightarrow> (\<forall>r\<in>set (se_log s). nonce_order (SentNonce n) r))"
  using senders_reachable_inv [OF assms] by (auto simp: sender_inv_def mutex_inv_def)


section \<open>Instances\<close>

definition demoTransaction :: bus_transaction where
  "demoTransaction = \<lparr>bt_from = ''0xg'', bt_eventId = ''topic:MessagePingV1'', bt_data = ''0xdata'', bt_nonce = 4\<rparr>"

definition demoBusLog :: "bus_transaction \<Rightarrow> string \<Rightarrow> bus_log" where
  "demoBusLog tx h = \<lparr>lg_topics = [bt_eventId tx, bt_from tx], lg_data = ''0xbytes'' @ bt_data tx, lg_transactionHash = h\<rparr>"

text \<open>A client whose coder knows one ping.\<close>

definition demoClient :: bus_client where
  "demoClient =
     \<lparr>bc_dataBusAddress = ''0xbus'', bc_getEventTopic = (\<lambda>name. ''topic:'' @ name), bc_encode = (\<lambda>name v. Inr ''0xdata''),
      bc_decodeBytes = (\<lambda>text. Inr (drop 7 text)),
      bc_parseLog = (\<lambda>log. Inr (Some (''MessagePingV1'', eventArgs (lg_topics log ! 1) (BusPing 9 ''0xv'')))),
      bc_getAddress = Inr ''0xg'', bc_getTransactionCount = (\<lambda>a tag. Inr 4), bc_sendMessage = (\<lambda>tx. Inr ''0xh''),
      bc_waitForTransaction = (\<lambda>h. Inr ()), bc_getLogs = (\<lambda>f. Inr [demoBusLog demoTransaction ''0xh''])\<rparr>"

definition demoFormat :: bus_format where
  "demoFormat = \<lparr>fm_crypto = ref_crypto, fm_formatBytes32String = (\<lambda>s. Inr ''0xv'')\<rparr>"

definition demoPing :: message where
  "demoPing = Message_Ping
     \<lparr>mr_guardianAddress = ''0xg'', mr_guardianIndex = 1, mr_dsmVersion = None, mg_blockNumber = 9, mg_stakingModuleIds = [1]\<rparr>"

theorem bus_message_roundtrip_witness:
  "getEvents demoClient ''MessagePingV1'' 0 (BlockTag ''latest'') =
     Inr [PObject [(''guardianAddress'', PString ''0xg''),
       (''data'', PObject [(''blockNumber'', PNumber 9), (''app'', PObject [(''version'', PString ''0xv'')])]),
       (''txHash'', PString ''0xh''), (''name'', PString ''MessagePingV1'')]]"
proof -
  have p: "prepareMessage demoFormat demoPing \<lparr>ap_version = ''1.0'', ap_name = ''daemon''\<rparr> = Inr (''MessagePingV1'', BusPing 9 ''0xv'')"
    by (simp add: prepareMessage_def transformMessage_def demoFormat_def demoPing_def getEventName_def)
  have safe: "safe_numbers (BusPing 9 ''0xv'')" by (simp add: MAX_SAFE_INTEGER_def)
  have reads: "codec_reads demoClient demoBusLog (BusPing 9 ''0xv'')"
    by (simp add: codec_reads_def demoClient_def demoBusLog_def)
  have "clientSendMessage demoClient (eventOf (BusPing 9 ''0xv'')) (BusPing 9 ''0xv'') () = (Inr ''0xh'', (), [BusTransaction demoTransaction])"
    unfolding clientSendMessage_ok by (simp add: demoClient_def demoTransaction_def)
  then have run: "clientSendMessage demoClient ''MessagePingV1'' (BusPing 9 ''0xv'') () = (Inr ''0xh'', (), [BusTransaction demoTransaction])"
    by simp
  have logs: "bc_getLogs demoClient f = Inr [demoBusLog demoTransaction ''0xh'']" for f by (simp add: demoClient_def)
  from bus_message_roundtrip [OF p safe reads run logs] show ?thesis by (simp add: demoTransaction_def)
qed

text \<open>Two calls: the first sends nonce 7 and is confirmed, the second sends nonce 8.\<close>

lemma demo_senders:
  "\<exists>s. sender_step\<^sup>*\<^sup>* (noSenders 7) s \<and> se_log s = [SentNonce 8, ConfirmedNonce 7, SentNonce 7]"
proof -
  note step = rtranclp.rtrancl_into_rtrancl [where r = sender_step]
  note defs = noSenders_def noCallers_def newMutex_def enter_def lockTurn_def known_def inside_def leave_def unlock_def
  have "sender_step\<^sup>*\<^sup>* (noSenders 7) (noSenders 7)" by simp
  note s1 = step [OF this asks [of 1], simplified defs, simplified]
  note s2 = step [OF s1 fetches [of _ 1], simplified defs, simplified]
  note s3 = step [OF s2 sends [of _ 1 7], simplified defs, simplified]
  note s4 = step [OF s3 mined, simplified]
  note s5 = step [OF s4 confirmed [of _ 1 7], simplified defs, simplified, OF refl]
  note s6 = step [OF s5 asks [of 2], simplified defs, simplified]
  note s7 = step [OF s6 fetches [of _ 2], simplified defs, simplified]
  note s8 = step [OF s7 sends [of _ 2 8], simplified defs, simplified]
  show ?thesis by (rule exI, rule conjI, unfold defs, rule s8) simp
qed

theorem nonces_in_order_witness:
  "\<exists>s :: senders. se_log s = [SentNonce 8, ConfirmedNonce 7, SentNonce 7] \<and> sorted_wrt nonce_order (se_log s)"
proof -
  from demo_senders obtain s where "sender_step\<^sup>*\<^sup>* (noSenders 7) s" "se_log s = [SentNonce 8, ConfirmedNonce 7, SentNonce 7]" by blast
  with nonces_in_order [OF this(1)] show ?thesis by (intro exI [of _ s]) simp
qed

end
