(* ===== verification/Transports.thy ===== *)
theory Transports
  imports Data_Bus
begin

text \<open>
  The transports: the data bus service (\<open>contracts/data-bus/data-bus.service.ts\<close>) with the transport over it
  (\<open>transport/data-bus\<close>), and Kafka (\<open>transport/kafka\<close>). The providers, the coder and the Kafka library
  are parameters.
\<close>

section \<open>The data bus service\<close>

text \<open>
  The address is the one of the wallet that the wallet service has selected when a method asks for it. There is
  one sender, with its mutex, for every address that was used.
\<close>

record bus_env =
  be_client :: "string \<Rightarrow> bus_client"
  be_format :: bus_format
  be_getBalance :: "string \<Rightarrow> js_error + nat"
  be_getTransactionCount :: "string \<Rightarrow> string \<Rightarrow> js_error + nat"
  be_getNetwork :: "js_error + nat"
  be_minBalance :: nat

record bus_state =
  bu_address :: "js_error + string"
  bu_dsmMessageSenders :: "(string \<times> mutex) list"
  bu_monitoring :: bool
  bu_subscribed :: nat
  bu_isDataBusConnected :: bool

type_synonym 'a bus = "(bus_state, bus_effect, 'a) comp"

definition DATA_BUS_BALANCE_UPDATE_BLOCK_RATE :: nat where
  "DATA_BUS_BALANCE_UPDATE_BLOCK_RATE = 50"

definition busAddress :: "string bus" where
  "busAddress = andThen getS (\<lambda>s. liftR (bu_address s))"

definition dsmMessageSender :: "string bus" where
  "dsmMessageSender =
     andThen busAddress (\<lambda>address.
     andThen getS (\<lambda>s.
       case map_of (bu_dsmMessageSenders s) address of
         Some cachedSender \<Rightarrow> ret address
       | None \<Rightarrow> andThen (modifyS (\<lambda>s. s\<lparr>bu_dsmMessageSenders := AList.update address newMutex (bu_dsmMessageSenders s)\<rparr>))
                         (\<lambda>_. ret address)))"

text \<open>A call of the sender waits for a promise, or it goes through its section to the end.\<close>

datatype bus_published = Waits nat | Sent_With string

definition sendLocked :: "bus_env \<Rightarrow> string \<Rightarrow> string \<Rightarrow> bus_message \<Rightarrow> mutex \<Rightarrow> string bus" where
  "sendLocked E address eventName outputMessage m =
     zoom (\<lambda>s. m) (\<lambda>m' s. s\<lparr>bu_dsmMessageSenders := AList.update address m' (bu_dsmMessageSenders s)\<rparr>)
       (lockedSection (be_client E address) eventName outputMessage)"

definition senderSendMessage :: "bus_env \<Rightarrow> string \<Rightarrow> message \<Rightarrow> message_app \<Rightarrow> bus_published bus" where
  "senderSendMessage E address message app =
     andThen (liftR (prepareMessage (be_format E) message app)) (\<lambda>(eventName, outputMessage).
     andThen getS (\<lambda>s.
       case lockTurn (the (map_of (bu_dsmMessageSenders s) address)) of
         Inl promise \<Rightarrow> ret (Waits promise)
       | Inr m \<Rightarrow> andThen (sendLocked E address eventName outputMessage m) (\<lambda>txHash. ret (Sent_With txHash))))"

definition busPublish :: "bus_env \<Rightarrow> message \<Rightarrow> message_app \<Rightarrow> bus_published bus" where
  "busPublish E message app =
     catchE (andThen dsmMessageSender (\<lambda>address. senderSendMessage E address message app)) (\<lambda>error. raise error)"

definition busBalanceSufficient :: "bus_env \<Rightarrow> nat \<Rightarrow> bool" where
  "busBalanceSufficient E balanceWei \<longleftrightarrow> balanceWei \<ge> be_minBalance E"

definition busMonitorBody :: "bus_env \<Rightarrow> unit bus" where
  "busMonitorBody E =
     andThen busAddress (\<lambda>delegateAddress.
     andThen (liftR (be_getBalance E delegateAddress)) (\<lambda>balanceWei.
     andThen (liftR (be_getTransactionCount E delegateAddress ''latest'')) (\<lambda>latestNonce.
     andThen (liftR (be_getTransactionCount E delegateAddress ''pending'')) (\<lambda>pendingNonce.
     andThen (liftR (be_getNetwork E)) (\<lambda>chainId.
       emit [BusGauge (BusAccountBalance chainId delegateAddress) (int balanceWei),
             BusGauge (BusNonceLatest delegateAddress) (int latestNonce),
             BusGauge (BusNoncePending delegateAddress) (int pendingNonce),
             BusGauge (BusNonceGap delegateAddress) (int pendingNonce - int latestNonce)])))))"

definition monitorGuardianDataBusBalance :: "bus_env \<Rightarrow> unit option bus" where
  "monitorGuardianDataBusBalance E = oneAtTime bu_monitoring (\<lambda>b s. s\<lparr>bu_monitoring := b\<rparr>) (busMonitorBody E)"

definition onBusBlock :: "bus_env \<Rightarrow> nat \<Rightarrow> unit bus" where
  "onBusBlock E blockNumber =
     (if blockNumber mod DATA_BUS_BALANCE_UPDATE_BLOCK_RATE \<noteq> 0 then ret ()
      else catchE (andThen (monitorGuardianDataBusBalance E) (\<lambda>_. ret ())) (\<lambda>error. ret ()))"

text \<open>Every subscription adds a handler of new blocks.\<close>

definition subscribeToEVMChainUpdates :: "unit bus" where
  "subscribeToEVMChainUpdates = modifyS (\<lambda>s. s\<lparr>bu_subscribed := Suc (bu_subscribed s)\<rparr>)"

definition busInitialize :: "bus_env \<Rightarrow> unit bus" where
  "busInitialize E = andThen (monitorGuardianDataBusBalance E) (\<lambda>_. subscribeToEVMChainUpdates)"

section \<open>The transport of the data bus\<close>

definition busConnect :: "bus_env \<Rightarrow> unit bus" where
  "busConnect E =
     andThen getS (\<lambda>s.
       if bu_isDataBusConnected s then ret ()
       else andThen (busInitialize E) (\<lambda>_. modifyS (\<lambda>s. s\<lparr>bu_isDataBusConnected := True\<rparr>)))"

definition busTransportInitialize :: "bus_env \<Rightarrow> unit bus" where
  "busTransportInitialize E = catchE (busConnect E) (\<lambda>error. ret ())"

definition busTransportPublish :: "bus_env \<Rightarrow> string \<Rightarrow> message \<Rightarrow> message_app \<Rightarrow> bus_published bus" where
  "busTransportPublish E topic message app = andThen (busConnect E) (\<lambda>_. busPublish E message app)"

definition busTransportSubscribe :: "string \<Rightarrow> 'cb \<Rightarrow> unit bus" where
  "busTransportSubscribe topic cb = ret ()"

definition busTransportDisconnect :: "unit bus" where
  "busTransportDisconnect = ret ()"

section \<open>What publishing leaves behind\<close>

definition freeMutex :: "mutex \<Rightarrow> bool" where
  "freeMutex m \<longleftrightarrow> mx_currentPromise m = None \<and> mx_resolver m = None"

definition allFree :: "bus_state \<Rightarrow> bool" where
  "allFree s \<longleftrightarrow> (\<forall>m\<in>snd ` set (bu_dsmMessageSenders s). freeMutex m) \<and> distinct (map fst (bu_dsmMessageSenders s))"

text \<open>The transactions among the effects.\<close>

definition transactionsOf :: "bus_effect list \<Rightarrow> bus_transaction list" where
  "transactionsOf out = List.map_filter (\<lambda>e. case e of BusTransaction tx \<Rightarrow> Some tx | _ \<Rightarrow> None) out"

lemma transactionsOf_simps [simp]:
  "transactionsOf [] = []" "transactionsOf (BusTransaction tx # out) = tx # transactionsOf out"
  "transactionsOf (BusGauge g v # out) = transactionsOf out" "transactionsOf (a @ b) = transactionsOf a @ transactionsOf b"
  by (simp_all add: transactionsOf_def List.map_filter_def)

lemma update_values: "snd ` set (AList.update k v xs) \<subseteq> insert v (snd ` set xs)"
  by (induction xs) auto

lemma allFree_update:
  assumes "allFree s" and "freeMutex m"
  shows "allFree (s\<lparr>bu_dsmMessageSenders := AList.update a m (bu_dsmMessageSenders s)\<rparr>)"
proof -
  have "\<forall>m'\<in>snd ` set (AList.update a m (bu_dsmMessageSenders s)). freeMutex m'"
    using assms update_values [of a m "bu_dsmMessageSenders s"] unfolding allFree_def by blast
  moreover have "distinct (map fst (AList.update a m (bu_dsmMessageSenders s)))"
    using assms(1) by (simp add: allFree_def distinct_update)
  ultimately show ?thesis by (simp add: allFree_def)
qed

lemma freeMutex_new: "freeMutex newMutex"
  by (simp add: freeMutex_def newMutex_def)

lemma clientSendMessage_keeps:
  assumes "clientSendMessage C ev m s = (r, t, out)"
  shows "t = s \<and> (case r of
      Inr h \<Rightarrow> (\<exists>tx. out = [BusTransaction tx] \<and> bc_getAddress C = Inr (bt_from tx) \<and>
        bc_getTransactionCount C (bt_from tx) ''latest'' = Inr (bt_nonce tx) \<and> bc_sendMessage C tx = Inr h)
    | Inl e \<Rightarrow> length out \<le> 1 \<and> set out \<subseteq> range BusTransaction)"
  using assms
  by (auto simp: clientSendMessage_def sendTransaction_def andThen_apply Let_def split: option.splits sum.splits)

lemma lockedSection_frees:
  assumes "mx_resolver m \<noteq> None" and "lockedSection C ev msg m = (r, t, out)"
  shows "freeMutex t \<and> clientSendMessage C ev msg m = (r, m, out)"
proof -
  obtain r1 t1 o1 where run: "clientSendMessage C ev msg m = (r1, t1, o1)" by (metis prod_cases3)
  from clientSendMessage_keeps [OF this] have "t1 = m" by blast
  with assms run show ?thesis by (auto simp: lockedSection_def finallyE_def unlock_def freeMutex_def)
qed

lemma sender_found:
  assumes "dsmMessageSender s = (Inr a, t, out)" and "allFree s"
  shows "bu_address s = Inr a \<and> allFree t \<and> out = [] \<and> (\<exists>m. map_of (bu_dsmMessageSenders t) a = Some m \<and> freeMutex m)"
proof (cases "map_of (bu_dsmMessageSenders s) a")
  case None
  with assms have a: "bu_address s = Inr a" "out = []" "t = s\<lparr>bu_dsmMessageSenders := AList.update a newMutex (bu_dsmMessageSenders s)\<rparr>"
    by (auto simp: dsmMessageSender_def busAddress_def andThen_apply split: sum.splits option.splits)
  with allFree_update [OF assms(2) freeMutex_new] freeMutex_new show ?thesis by (auto simp: update_map_of)
next
  case (Some m)
  with assms have a: "bu_address s = Inr a" "out = []" "t = s"
    by (auto simp: dsmMessageSender_def busAddress_def andThen_apply split: sum.splits option.splits)
  from Some have "m \<in> snd ` set (bu_dsmMessageSenders s)" by (force dest: map_of_SomeD)
  with assms(2) a Some show ?thesis by (auto simp: allFree_def)
qed

lemma sender_error: "dsmMessageSender s = (Inl e, t, out) \<Longrightarrow> t = s \<and> out = []"
  by (auto simp: dsmMessageSender_def busAddress_def andThen_apply split: sum.splits option.splits)

lemma busPublish_frees:
  assumes "allFree s" and "busPublish E message app s = (r, t, out)"
  shows "allFree t \<and> length (transactionsOf out) \<le> 1 \<and>
    (\<forall>x. r = Inr x \<longrightarrow> (\<exists>address h tx. bu_address s = Inr address \<and> x = Sent_With h \<and> transactionsOf out = [tx] \<and>
       bc_sendMessage (be_client E address) tx = Inr h \<and>
       bc_getTransactionCount (be_client E address) (bt_from tx) ''latest'' = Inr (bt_nonce tx)))"
proof -
  obtain r1 s1 o1 where sender: "dsmMessageSender s = (r1, s1, o1)" by (metis prod_cases3)
  show ?thesis
  proof (cases r1)
    case (Inl e)
    with sender_error sender have "s1 = s" "o1 = []" by blast+
    with assms sender Inl show ?thesis by (auto simp: busPublish_def catchE_def andThen_apply)
  next
    case (Inr a)
    from sender_found [OF sender [unfolded Inr] assms(1)] obtain m where s1: "bu_address s = Inr a" "allFree s1" "o1 = []"
      "map_of (bu_dsmMessageSenders s1) a = Some m" "freeMutex m" by blast
    have rest: "senderSendMessage E a message app s1 = (r, t, out)"
      using assms(2) sender Inr s1(3) by (auto simp: busPublish_def catchE_def andThen_apply split: prod.splits sum.splits)
    show ?thesis
    proof (cases "prepareMessage (be_format E) message app")
      case (Inl e)
      with rest s1(2) show ?thesis by (auto simp: senderSendMessage_def)
    next
      case (Inr p)
      obtain ev msg where p: "p = (ev, msg)" by fastforce
      define m' where "m' = m\<lparr>mx_currentPromise := Some (mx_created m), mx_resolver := Some (mx_created m), mx_created := Suc (mx_created m)\<rparr>"
      obtain r2 t2 o2 where run: "lockedSection (be_client E a) ev msg m' = (r2, t2, o2)" by (metis prod_cases3)
      have lock: "lockTurn m = Inr m'" using s1(5) by (simp add: lockTurn_def freeMutex_def m'_def)
      from lockedSection_frees [OF _ run] have free: "freeMutex t2" "clientSendMessage (be_client E a) ev msg m' = (r2, m', o2)"
        by (simp_all add: m'_def)
      have res: "r = (case r2 of Inl e \<Rightarrow> Inl e | Inr h \<Rightarrow> Inr (Sent_With h))" "out = o2"
          "t = s1\<lparr>bu_dsmMessageSenders := AList.update a t2 (bu_dsmMessageSenders s1)\<rparr>"
        using rest run
        by (auto simp: senderSendMessage_def Inr p s1(4) lock sendLocked_def zoom_def andThen_apply split: sum.splits)
      have "allFree t" unfolding res(3) by (rule allFree_update [OF s1(2) free(1)])
      moreover have "length (transactionsOf o2) \<le> length o2"
        unfolding transactionsOf_def by (simp add: List.map_filter_def)
      ultimately show ?thesis using clientSendMessage_keeps [OF free(2)] s1(1) by (auto simp: res split: sum.splits)
    qed
  qed
qed

text \<open>
  C30: When no sender is locked, a call of \<open>publish\<close> runs to its end and leaves every sender unlocked,
  whichever step of it fails, with one sender for each address; it makes at most one
  transaction, and when it succeeds exactly one, from the selected wallet's sender and with the nonce of the latest block.
\<close>

theorem publish_unlocks:
  assumes "allFree s" and "busPublish E message app s = (r, t, out)"
  shows "allFree t \<and> length (transactionsOf out) \<le> 1 \<and>
    (\<forall>x. r = Inr x \<longrightarrow> (\<exists>address h tx. bu_address s = Inr address \<and> x = Sent_With h \<and> transactionsOf out = [tx] \<and>
       bc_sendMessage (be_client E address) tx = Inr h \<and>
       bc_getTransactionCount (be_client E address) (bt_from tx) ''latest'' = Inr (bt_nonce tx)))"
  using assms by (rule busPublish_frees)

definition demoBus :: bus_env where
  "demoBus = \<lparr>be_client = (\<lambda>_. demoClient), be_format = demoFormat, be_getBalance = (\<lambda>_. Inr 5), be_getTransactionCount = (\<lambda>_ _. Inr 4),
     be_getNetwork = Inr 100, be_minBalance = 1\<rparr>"

definition demoBusState :: bus_state where
  "demoBusState = \<lparr>bu_address = Inr ''0xg'', bu_dsmMessageSenders = [], bu_monitoring = False, bu_subscribed = 1, bu_isDataBusConnected = True\<rparr>"

theorem publish_unlocks_witness:
  "\<exists>t. busPublish demoBus demoPing \<lparr>ap_version = ''1.0'', ap_name = ''daemon''\<rparr> demoBusState = (Inr (Sent_With ''0xh''), t, [BusTransaction demoTransaction]) \<and>
    allFree t"
proof -
  have free: "allFree demoBusState" by (simp add: allFree_def demoBusState_def)
  have "clientSendMessage demoClient (eventOf (BusPing 9 ''0xv'')) (BusPing 9 ''0xv'') m = (Inr ''0xh'', m, [BusTransaction demoTransaction])" for m :: mutex
    unfolding clientSendMessage_ok by (simp add: demoClient_def demoTransaction_def)
  then obtain t where run: "busPublish demoBus demoPing \<lparr>ap_version = ''1.0'', ap_name = ''daemon''\<rparr> demoBusState =
      (Inr (Sent_With ''0xh''), t, [BusTransaction demoTransaction])"
    by (simp add: busPublish_def catchE_def dsmMessageSender_def busAddress_def demoBusState_def senderSendMessage_def demoBus_def
        prepareMessage_def transformMessage_def demoFormat_def demoPing_def getEventName_def lockTurn_def newMutex_def
        sendLocked_def zoom_def lockedSection_def finallyE_def unlock_def andThen_apply)
  from publish_unlocks [OF free this] run show ?thesis by blast
qed

section \<open>Kafka\<close>

text \<open>
  A consumer is in the table from its creation; the callback is there when \<open>run\<close> was reached. The library tells
  of the connection of the producer by events. A value that JavaScript takes as false is not delivered.
\<close>

record 'json kafka_env =
  ke_producerConnect :: "js_error + unit"
  ke_producerSend :: "string \<Rightarrow> string \<Rightarrow> js_error + unit"
  ke_producerDisconnect :: "js_error + unit"
  ke_consumerConnect :: "string \<Rightarrow> js_error + unit"
  ke_consumerSubscribe :: "string \<Rightarrow> js_error + unit"
  ke_consumerRun :: "string \<Rightarrow> js_error + unit"
  ke_consumerDisconnect :: "string \<Rightarrow> js_error + unit"
  ke_stringify :: "'json \<Rightarrow> string"
  ke_parse :: "string \<Rightarrow> js_error + 'json"
  ke_truthy :: "'json \<Rightarrow> bool"

record 'cb kafka_state =
  kt_producerConnected :: bool
  kt_consumers :: "(string \<times> 'cb option) list"

datatype ('cb, 'json) kafka_effect = KafkaSent string string | KafkaCall 'cb 'json

type_synonym ('cb, 'json, 'a) kafka = "('cb kafka_state, ('cb, 'json) kafka_effect, 'a) comp"

definition onProducer :: "bool \<Rightarrow> ('cb, 'json, unit) kafka" where
  "onProducer connected = modifyS (\<lambda>s. s\<lparr>kt_producerConnected := connected\<rparr>)"

definition kafkaModuleInit :: "'json kafka_env \<Rightarrow> ('cb, 'json, unit) kafka" where
  "kafkaModuleInit K = catchE (liftR (ke_producerConnect K)) (\<lambda>error. ret ())"

definition kafkaPublish :: "'json kafka_env \<Rightarrow> string \<Rightarrow> 'json \<Rightarrow> ('cb, 'json, unit) kafka" where
  "kafkaPublish K topic message =
     andThen getS (\<lambda>s.
     andThen (if kt_producerConnected s then ret () else liftR (ke_producerConnect K)) (\<lambda>_.
     andThen (liftR (ke_producerSend K topic (ke_stringify K message))) (\<lambda>_.
       emit [KafkaSent topic (ke_stringify K message)])))"

definition kafkaSubscribe :: "'json kafka_env \<Rightarrow> string \<Rightarrow> 'cb \<Rightarrow> ('cb, 'json, unit) kafka" where
  "kafkaSubscribe K topic cb =
     andThen getS (\<lambda>s.
       if map_of (kt_consumers s) topic \<noteq> None then ret ()
       else
         andThen (modifyS (\<lambda>s. s\<lparr>kt_consumers := AList.update topic None (kt_consumers s)\<rparr>)) (\<lambda>_.
         andThen (liftR (ke_consumerConnect K topic)) (\<lambda>_.
         andThen (liftR (ke_consumerSubscribe K topic)) (\<lambda>_.
         andThen (liftR (ke_consumerRun K topic)) (\<lambda>_.
           modifyS (\<lambda>s. s\<lparr>kt_consumers := AList.update topic (Some cb) (kt_consumers s)\<rparr>))))))"

definition safeJsonParse :: "'json kafka_env \<Rightarrow> string option \<Rightarrow> 'json option" where
  "safeJsonParse K str = (case ke_parse K (case str of Some s \<Rightarrow> s | None \<Rightarrow> '''') of Inr x \<Rightarrow> Some x | Inl e \<Rightarrow> None)"

definition eachMessage :: "'json kafka_env \<Rightarrow> string \<Rightarrow> string option \<Rightarrow> ('cb, 'json, unit) kafka" where
  "eachMessage K topic value =
     andThen getS (\<lambda>s.
       case map_of (kt_consumers s) topic of
         Some (Some cb) \<Rightarrow> (case safeJsonParse K value of
             Some data \<Rightarrow> (if ke_truthy K data then emit [KafkaCall cb data] else ret ())
           | None \<Rightarrow> ret ())
       | _ \<Rightarrow> ret ())"

definition kafkaDisconnect :: "'json kafka_env \<Rightarrow> ('cb, 'json, unit) kafka" where
  "kafkaDisconnect K =
     andThen (liftR (ke_producerDisconnect K)) (\<lambda>_.
     andThen getS (\<lambda>s.
     andThen (mapAll (\<lambda>consumerKey. liftR (ke_consumerDisconnect K consumerKey)) (map fst (kt_consumers s))) (\<lambda>_. ret ())))"

text \<open>A topic whose consumer could not connect stays without one: the next call returns, and no message is delivered.\<close>

lemma failed_consumer_stays:
  assumes "map_of (kt_consumers s) topic = None" and "ke_consumerConnect K topic = Inl e"
  shows "\<exists>t. kafkaSubscribe K topic cb s = (Inl e, t, []) \<and> kafkaSubscribe K' topic cb' t = (Inr (), t, []) \<and>
    eachMessage K' topic value t = (Inr (), t, [])"
  using assms by (simp add: kafkaSubscribe_def eachMessage_def update_map_of)

end
