(* ===== verification/Stomp.thy ===== *)
theory Stomp
  imports JS_Strings
begin

text \<open>
  STOMP over a web socket: the frames (\<open>transport/stomp/stomp.frame.ts\<close>) and the client
  (\<open>transport/stomp/stomp.client.ts\<close>).
\<close>

section \<open>Frames\<close>

definition LF :: char where "LF = CHR 0x0A"
definition NUL :: char where "NUL = CHR 0x00"

text \<open>The value of a header is \<open>undefined\<close> when its line has no colon.\<close>

record stomp_frame =
  sf_command :: string
  sf_headers :: "(string \<times> string option) list"
  sf_body :: string

definition stripLine :: "string \<Rightarrow> string" where
  "stripLine line = trimSpace line"

text \<open>The text of a header value in a template string.\<close>

definition headerText :: "string option \<Rightarrow> string" where
  "headerText value = (case value of Some v \<Rightarrow> v | None \<Rightarrow> ''undefined'')"

definition frameToString :: "stomp_frame \<Rightarrow> string" where
  "frameToString frame =
     (let others = filter (\<lambda>(key, _). key \<noteq> ''content-length'') (sf_headers frame);
          content_length_header = list_ex (\<lambda>(key, _). key = ''content-length'') (sf_headers frame);
          lines = [sf_command frame] @ map (\<lambda>(key, value). key @ '':'' @ headerText value) others @
            (if content_length_header then [] else [''content-length:'' @ dec_string (length (sf_body frame))]) @
            [LF # sf_body frame]
      in joinWith LF lines)"

definition marshall :: "string \<Rightarrow> (string \<times> string option) list \<Rightarrow> string \<Rightarrow> string" where
  "marshall command headers body =
     frameToString \<lparr>sf_command = command, sf_headers = headers, sf_body = body\<rparr> @ [NUL]"

text \<open>The loop over the header lines: past the last line \<open>split\<close> is called on \<open>undefined\<close>.\<close>

fun readHeaders :: "string list \<Rightarrow> (string \<times> string option) list \<Rightarrow> js_error + (string \<times> string option) list \<times> string list" where
  "readHeaders [] headers = Inl TypeError"
| "readHeaders (line # rest) headers =
     (if line = [] then Inr (headers, rest)
      else let parts = splitOn CHR '':'' line
           in readHeaders rest (AList.update (hd parts) (case tl parts of v # _ \<Rightarrow> Some v | [] \<Rightarrow> None) headers))"

definition unmarshallSingle :: "string \<Rightarrow> js_error + stomp_frame" where
  "unmarshallSingle data =
     (if data = [LF] then Inl (StompFrameException ''Empty frame'')
      else let lines = splitOn LF data; command = stripLine (hd lines) in
        bindR (readHeaders (tl lines) []) (\<lambda>(headers, rest).
          case rest of
            [] \<Rightarrow> Inl TypeError
          | line # _ \<Rightarrow> Inr \<lparr>sf_command = command, sf_headers = headers,
              sf_body = (if line = [NUL] then [] else butlast line)\<rparr>))"

subsection \<open>Lines\<close>

lemma readHeaders_lines:
  assumes "\<forall>(k, v)\<in>set hs. CHR '':'' \<notin> set k \<and> CHR '':'' \<notin> set v" and "distinct (map fst (acc @ map (\<lambda>(k, v). (k, Some v)) hs))"
  shows "readHeaders (map (\<lambda>(k, v). k @ '':'' @ v) hs @ [] # rest) acc = Inr (acc @ map (\<lambda>(k, v). (k, Some v)) hs, rest)"
  using assms
proof (induction hs arbitrary: acc)
  case (Cons h hs)
  obtain k v where h: "h = (k, v)" by fastforce
  from Cons.prems(1) have parts: "splitOn CHR '':'' (k @ CHR '':'' # v) = [k, v]"
    by (simp add: h splitOn_append splitOn_none)
  from Cons.prems(2) have "AList.update k (Some v) acc = acc @ [(k, Some v)]"
    by (induction acc) (auto simp: h)
  with Cons.IH [of "acc @ [(k, Some v)]"] Cons.prems show ?case by (simp add: h parts)
qed simp

text \<open>
  C40: A frame that was marshalled is read back: the command and the headers return, with the length of the body
  as another header, when no header holds a line feed or a colon, no two headers have one name and
  none of them is the length; the body returns up to its first line feed, whole when it has none, and otherwise
  cut before the last character in front of it.
\<close>

theorem stomp_frame_roundtrip:
  assumes "\<forall>(k, v)\<in>set hs. {LF, CHR '':''} \<inter> (set k \<union> set v) = {}" and "distinct (map fst hs)"
    and "''content-length'' \<notin> fst ` set hs" and "LF \<notin> set command" and "stripLine command = command"
  shows "unmarshallSingle (marshall command (map (\<lambda>(k, v). (k, Some v)) hs) body) =
    Inr \<lparr>sf_command = command,
         sf_headers = map (\<lambda>(k, v). (k, Some v)) hs @ [(''content-length'', Some (dec_string (length body)))],
         sf_body = (if LF \<in> set body then butlast (takeWhile (\<lambda>c. c \<noteq> LF) body) else body)\<rparr>"
proof -
  let ?hs = "hs @ [(''content-length'', dec_string (length body))]"
  let ?lines = "[command] @ map (\<lambda>(k, v). k @ '':'' @ v) ?hs"
  have filt: "filter (\<lambda>(key, _). key \<noteq> ''content-length'') (map (\<lambda>(k, v). (k, Some v)) hs) = map (\<lambda>(k, v). (k, Some v)) hs"
    using assms(3) by (auto simp: filter_id_conv image_iff)
  have noLength: "\<not> list_ex (\<lambda>(key, _). key = ''content-length'') (map (\<lambda>(k, v). (k, Some v)) hs)"
    using assms(3) by (auto simp: list_ex_iff image_iff)
  have shown: "map (\<lambda>(key, value). key @ '':'' @ headerText value) (map (\<lambda>(k, v). (k, Some v)) hs) =
      map (\<lambda>(k, v). k @ '':'' @ v) hs"
    by (auto simp: headerText_def)
  have "marshall command (map (\<lambda>(k, v). (k, Some v)) hs) body = joinWith LF (?lines @ [LF # body]) @ [NUL]"
    unfolding marshall_def frameToString_def Let_def stomp_frame.select_convs filt shown if_not_P [OF noLength] by simp
  then have lines: "marshall command (map (\<lambda>(k, v). (k, Some v)) hs) body = joinWith LF ?lines @ LF # LF # body @ [NUL]"
    using joinWith_append [of ?lines LF "LF # body"] by simp
  have digits: "LF \<notin> set (dec_string n)" "CHR '':'' \<notin> set (dec_string n)" for n
    using dec_string_digits [of LF n] dec_string_digits [of "CHR '':''" n] by (auto simp: LF_def is_digit_def)
  have clean: "\<forall>l\<in>set ?lines. LF \<notin> set l" using assms(1,4) digits(1) by (auto simp: LF_def)
  have split: "splitOn LF (joinWith LF ?lines @ LF # LF # body @ [NUL]) = ?lines @ [] # splitOn LF (body @ [NUL])"
    using splitOn_join [OF clean, of "LF # body @ [NUL]"] by simp
  have ok: "\<forall>(k, v)\<in>set ?hs. CHR '':'' \<notin> set k \<and> CHR '':'' \<notin> set v" using assms(1) digits(2) by auto
  have dist: "distinct (map fst ([] @ map (\<lambda>(k, v). (k, Some v)) ?hs))"
    using assms(2,3) by (simp add: comp_def case_prod_unfold image_iff)
  have headers: "readHeaders (map (\<lambda>(k, v). k @ '':'' @ v) ?hs @ [] # rest) [] = Inr (map (\<lambda>(k, v). (k, Some v)) ?hs, rest)" for rest
    using readHeaders_lines [OF ok dist] by simp
  have body: "hd (splitOn LF (body @ [NUL])) = (if LF \<in> set body then takeWhile (\<lambda>c. c \<noteq> LF) body else body @ [NUL])"
    unfolding hd_splitOn by (auto simp: takeWhile_append LF_def NUL_def intro: takeWhile_append1)
  have notEmpty: "joinWith LF ?lines @ LF # LF # body @ [NUL] \<noteq> [LF]" by simp
  obtain line more where line: "splitOn LF (body @ [NUL]) = line # more"
    using splitOn_nonempty by (cases "splitOn LF (body @ [NUL])") auto
  have "(if line = [NUL] then [] else butlast line) = (if LF \<in> set body then butlast (takeWhile (\<lambda>c. c \<noteq> LF) body) else body)"
    using body by (auto simp: line)
  with headers show ?thesis
    unfolding lines unmarshallSingle_def split if_not_P [OF notEmpty] Let_def
    by (simp add: line assms(5))
qed

theorem stomp_frame_roundtrip_witness:
  "unmarshallSingle (marshall ''SEND'' (map (\<lambda>(k, v). (k, Some v)) [(''destination'', ''/exchange'')]) ''{}'') =
    Inr \<lparr>sf_command = ''SEND'', sf_headers = [(''destination'', Some ''/exchange''), (''content-length'', Some ''2'')], sf_body = ''{}''\<rparr>"
proof -
  have "dec_string (Suc (Suc 0)) = ''2''" by code_simp
  then show ?thesis
    using stomp_frame_roundtrip [of "[(''destination'', ''/exchange'')]" "''SEND''" "''{}''"]
    by (simp add: LF_def stripLine_def trimSpace_def is_space_def)
qed

section \<open>The client\<close>

text \<open>
  Everything the client does happens inside a listener of the socket, a timer, a callback or a call of
  one of its methods, so its model is a step for each of these. The connection loop of
  \<open>connectWithRetry\<close> is suspended at one of three places; the promise of a loop has the continuations of
  those who wait for it. Nothing in the state says that there is one loop only.
\<close>

type_synonym header_list = "(string \<times> string) list"

record stomp_options =
  so_getWebSocket :: "nat \<Rightarrow> js_error option"
  so_login :: "string option"
  so_passcode :: "string option"
  so_maxWaitSocketSession :: nat
  so_webSocketConnectTimeout :: nat
  so_reconnectAttempts :: nat

datatype loop_phase =
    WaitingOpen nat nat
  | SendingConnect nat
  | Sleeping nat

datatype 'cb waiter =
    ThenReturn nat
  | ThenLog
  | ThenSend nat string header_list string
  | ThenSubscribe nat string 'cb header_list

record 'cb connection_loop =
  cl_id :: nat
  cl_phase :: loop_phase
  cl_waiters :: "'cb waiter list"

datatype connection_promise = NoPromise | PendingPromise nat | RejectedPromise js_error

record 'cb stomp_client =
  sc_ws :: "nat option"
  sc_opened :: bool
  sc_connected :: bool
  sc_connectionPromise :: connection_promise
  sc_counter :: nat
  sc_subscriptions :: "(string \<times> 'cb) list"
  sc_loops :: "'cb connection_loop list"
  sc_sockets :: nat
  sc_nextLoop :: nat

datatype 'cb stomp_effect =
    SocketCreated nat
  | SocketSend nat string
  | SocketClosed nat
  | ConnectCallback stomp_frame
  | ErrorCallback stomp_frame
  | Receive 'cb stomp_frame
  | Resolved nat
  | Rejected nat js_error

definition newStompClient :: "'cb stomp_client" where
  "newStompClient = \<lparr>sc_ws = None, sc_opened = False, sc_connected = False, sc_connectionPromise = NoPromise, sc_counter = 0,
     sc_subscriptions = [], sc_loops = [], sc_sockets = 0, sc_nextLoop = 0\<rparr>"

type_synonym ('cb, 'a) stomp = "('cb stomp_client, 'cb stomp_effect, 'a) comp"

definition createWebSocket :: "stomp_options \<Rightarrow> ('cb, unit) stomp" where
  "createWebSocket S = andThen getS (\<lambda>c.
     andThen (modifyS (\<lambda>c. c\<lparr>sc_sockets := Suc (sc_sockets c)\<rparr>)) (\<lambda>_.
       case so_getWebSocket S (sc_sockets c) of
         Some error \<Rightarrow> raise error
       | None \<Rightarrow> andThen (emit [SocketCreated (sc_sockets c)]) (\<lambda>_. modifyS (\<lambda>d. d\<lparr>sc_ws := Some (sc_sockets c)\<rparr>))))"

text \<open>Without a socket the promise of \<open>transmit\<close> rejects; otherwise it settles with the callback of the socket.\<close>

definition transmit :: "string \<Rightarrow> header_list \<Rightarrow> string \<Rightarrow> ('cb, unit) stomp" where
  "transmit command headers body = andThen getS (\<lambda>c.
     case sc_ws c of
       None \<Rightarrow> raise TypeError
     | Some ws \<Rightarrow> emit [SocketSend ws (marshall command (map (\<lambda>(k, v). (k, Some v)) headers) body)])"

definition cleanUp :: "('cb, unit) stomp" where
  "cleanUp = andThen (modifyS (\<lambda>c. c\<lparr>sc_connected := False, sc_opened := False\<rparr>)) (\<lambda>_. andThen getS (\<lambda>c.
     emit (case sc_ws c of None \<Rightarrow> [] | Some ws \<Rightarrow> [SocketClosed ws])))"

subsection \<open>The connection loop\<close>

definition connectHeaders :: "stomp_options \<Rightarrow> header_list" where
  "connectHeaders S =
     [(''host'', ''/''), (''accept-version'', ''1.0,1.1''),
      (''heart-beat'', dec_string (so_maxWaitSocketSession S) @ '','' @ dec_string (so_maxWaitSocketSession S))] @
     (case so_login S of None \<Rightarrow> [] | Some login \<Rightarrow> [(''login'', login)]) @
     (case so_passcode S of None \<Rightarrow> [] | Some passcode \<Rightarrow> [(''passcode'', passcode)])"

text \<open>The head of the loop in \<open>waitWsConnection\<close>, and what follows it.\<close>

definition waitOpened :: "stomp_options \<Rightarrow> nat \<Rightarrow> nat \<Rightarrow> ('cb, loop_phase) stomp" where
  "waitOpened S attempt totalPassed = andThen getS (\<lambda>c.
     if sc_opened c then andThen (transmit ''CONNECT'' (connectHeaders S) []) (\<lambda>_. ret (SendingConnect attempt))
     else ret (WaitingOpen attempt totalPassed))"

definition attemptFailed :: "stomp_options \<Rightarrow> nat \<Rightarrow> js_error \<Rightarrow> ('cb, loop_phase) stomp" where
  "attemptFailed S attempt error =
     (if so_reconnectAttempts S \<le> attempt
      then andThen (modifyS (\<lambda>c. c\<lparr>sc_connectionPromise := NoPromise\<rparr>)) (\<lambda>_. raise error)
      else andThen cleanUp (\<lambda>_. ret (Sleeping (Suc attempt))))"

definition connectWithRetry :: "stomp_options \<Rightarrow> nat \<Rightarrow> ('cb, loop_phase) stomp" where
  "connectWithRetry S attempt =
     catchE (andThen (createWebSocket S) (\<lambda>_. waitOpened S attempt 0)) (attemptFailed S attempt)"

definition sleepOver :: "stomp_options \<Rightarrow> loop_phase \<Rightarrow> ('cb, loop_phase) stomp" where
  "sleepOver S phase =
     (case phase of
        WaitingOpen attempt totalPassed \<Rightarrow>
          (if so_webSocketConnectTimeout S < totalPassed + 250 then attemptFailed S attempt TimeoutError
           else catchE (waitOpened S attempt (totalPassed + 250)) (attemptFailed S attempt))
      | Sleeping attempt \<Rightarrow> connectWithRetry S attempt
      | SendingConnect attempt \<Rightarrow> ret phase)"

subsection \<open>Sending and subscribing\<close>

definition sendNow :: "string \<Rightarrow> header_list \<Rightarrow> string \<Rightarrow> ('cb, unit) stomp" where
  "sendNow destination headers body = transmit ''SEND'' (AList.update ''destination'' destination headers) body"

definition subscribeNow :: "string \<Rightarrow> 'cb \<Rightarrow> header_list \<Rightarrow> ('cb, string) stomp" where
  "subscribeNow destination callback headers = andThen getS (\<lambda>c.
     let fresh = map_of headers ''id'' = None;
         headers = (if fresh then AList.update ''id'' (''sub-'' @ dec_string (sc_counter c)) headers else headers);
         subscriptionId = the (map_of headers ''id'');
         headers = AList.update ''destination'' destination headers in
     andThen (modifyS (\<lambda>c. c\<lparr>sc_counter := (if fresh then Suc (sc_counter c) else sc_counter c),
                             sc_subscriptions := AList.update subscriptionId callback (sc_subscriptions c)\<rparr>)) (\<lambda>_.
     andThen (transmit ''SUBSCRIBE'' headers []) (\<lambda>_. ret subscriptionId)))"

text \<open>The continuations run when the promise settles; what fails in one of them rejects the call it belongs to.\<close>

definition orReject :: "nat \<Rightarrow> ('cb, 'a) stomp \<Rightarrow> ('cb, unit) stomp" where
  "orReject call m = catchE (andThen m (\<lambda>_. ret ())) (\<lambda>error. emit [Rejected call error])"

fun resumeWaiter :: "'cb waiter \<Rightarrow> ('cb, unit) stomp" where
  "resumeWaiter (ThenReturn call) = emit [Resolved call]"
| "resumeWaiter ThenLog = ret ()"
| "resumeWaiter (ThenSend call destination headers body) = orReject call (sendNow destination headers body)"
| "resumeWaiter (ThenSubscribe call destination callback headers) = orReject call (subscribeNow destination callback headers)"

fun rejectWaiter :: "js_error \<Rightarrow> 'cb waiter \<Rightarrow> ('cb, unit) stomp" where
  "rejectWaiter error (ThenReturn call) = emit [Rejected call error]"
| "rejectWaiter error ThenLog = ret ()"
| "rejectWaiter error (ThenSend call destination headers body) = emit [Rejected call error]"
| "rejectWaiter error (ThenSubscribe call destination callback headers) = emit [Rejected call error]"

definition dropLoop :: "nat \<Rightarrow> 'cb stomp_client \<Rightarrow> 'cb stomp_client" where
  "dropLoop k c = c\<lparr>sc_loops := filter (\<lambda>l. cl_id l \<noteq> k) (sc_loops c)\<rparr>"

definition setPhase :: "nat \<Rightarrow> loop_phase \<Rightarrow> 'cb stomp_client \<Rightarrow> 'cb stomp_client" where
  "setPhase k phase c = c\<lparr>sc_loops := map (\<lambda>l. if cl_id l = k then l\<lparr>cl_phase := phase\<rparr> else l) (sc_loops c)\<rparr>"

definition addWaiter :: "nat \<Rightarrow> 'cb waiter \<Rightarrow> 'cb stomp_client \<Rightarrow> 'cb stomp_client" where
  "addWaiter k w c = c\<lparr>sc_loops := map (\<lambda>l. if cl_id l = k then l\<lparr>cl_waiters := cl_waiters l @ [w]\<rparr> else l) (sc_loops c)\<rparr>"

text \<open>A loop goes on from where it is suspended, to its next suspension or to the rejection of its promise.\<close>

definition advanceLoop :: "'cb connection_loop \<Rightarrow> ('cb, loop_phase) stomp \<Rightarrow> ('cb, unit) stomp" where
  "advanceLoop l m =
     catchE (andThen m (\<lambda>phase. modifyS (setPhase (cl_id l) phase))) (\<lambda>error.
       andThen (modifyS (dropLoop (cl_id l))) (\<lambda>_.
       andThen (mapM (rejectWaiter error) (cl_waiters l)) (\<lambda>_. ret ())))"

text \<open>
  \<open>connect\<close>: the promise of a first attempt that fails before it is suspended is stored after the failure
  has cleared it.
\<close>

definition connectStomp :: "stomp_options \<Rightarrow> 'cb waiter \<Rightarrow> ('cb, unit) stomp" where
  "connectStomp S w = andThen getS (\<lambda>c.
     case sc_connectionPromise c of
       PendingPromise k \<Rightarrow> modifyS (addWaiter k w)
     | RejectedPromise error \<Rightarrow> rejectWaiter error w
     | NoPromise \<Rightarrow>
         andThen (modifyS (\<lambda>c. c\<lparr>sc_nextLoop := Suc (sc_nextLoop c)\<rparr>)) (\<lambda>_.
         catchE (andThen (connectWithRetry S 1) (\<lambda>phase. modifyS (\<lambda>d. d\<lparr>sc_connectionPromise := PendingPromise (sc_nextLoop c),
                   sc_loops := sc_loops d @ [\<lparr>cl_id = sc_nextLoop c, cl_phase = phase, cl_waiters = [w]\<rparr>]\<rparr>)))
                (\<lambda>error. andThen (modifyS (\<lambda>d. d\<lparr>sc_connectionPromise := RejectedPromise error\<rparr>)) (\<lambda>_. rejectWaiter error w))))"

definition reconnectStomp :: "stomp_options \<Rightarrow> 'cb waiter \<Rightarrow> ('cb, unit) stomp" where
  "reconnectStomp S w = andThen getS (\<lambda>c.
     if sc_connectionPromise c \<noteq> NoPromise then connectStomp S w
     else andThen cleanUp (\<lambda>_. connectStomp S w))"

definition whenConnected :: "stomp_options \<Rightarrow> 'cb waiter \<Rightarrow> ('cb, unit) stomp" where
  "whenConnected S w = andThen getS (\<lambda>c.
     if \<not> sc_opened c \<or> \<not> sc_connected c then reconnectStomp S w else resumeWaiter w)"

definition acknowledged :: "string \<Rightarrow> string option \<Rightarrow> string option \<Rightarrow> header_list \<Rightarrow> ('cb, unit) stomp" where
  "acknowledged acknowledgedType messageId subscriptionId headers =
     transmit acknowledgedType
       (AList.update ''subscription'' (headerText subscriptionId) (AList.update ''message-id'' (headerText messageId) headers)) []"

definition unsubscribeStomp :: "string \<Rightarrow> ('cb, unit) stomp" where
  "unsubscribeStomp subscriptionId =
     andThen (modifyS (\<lambda>c. c\<lparr>sc_subscriptions := AList.delete subscriptionId (sc_subscriptions c)\<rparr>)) (\<lambda>_.
       transmit ''UNSUBSCRIBE'' [(''id'', subscriptionId)] [])"

subsection \<open>The handlers\<close>

definition onMessage :: "string \<Rightarrow> ('cb, unit) stomp" where
  "onMessage event =
     (case unmarshallSingle event of
        Inl (StompFrameException m) \<Rightarrow> ret ()
      | Inl e \<Rightarrow> raise e
      | Inr frame \<Rightarrow>
          (if sf_command frame = ''CONNECTED''
           then andThen (modifyS (\<lambda>c. c\<lparr>sc_connected := True\<rparr>)) (\<lambda>_. emit [ConnectCallback frame])
           else if sf_command frame = ''MESSAGE''
           then andThen getS (\<lambda>c.
             (case map_of (sc_subscriptions c) (headerText (case map_of (sf_headers frame) ''subscription'' of Some v \<Rightarrow> v | None \<Rightarrow> None)) of
                Some callback \<Rightarrow> emit [Receive callback frame]
              | None \<Rightarrow> ret ()))
           else if sf_command frame = ''ERROR'' then emit [ErrorCallback frame]
           else ret ()))"

definition onClose :: "stomp_options \<Rightarrow> nat \<Rightarrow> ('cb, unit) stomp" where
  "onClose S code = andThen getS (\<lambda>c.
     if sc_connectionPromise c \<noteq> NoPromise then ret ()
     else andThen cleanUp (\<lambda>_. if code = 1000 then ret () else reconnectStomp S ThenLog))"

definition onError :: "stomp_options \<Rightarrow> ('cb, unit) stomp" where
  "onError S = andThen getS (\<lambda>c. if sc_connectionPromise c \<noteq> NoPromise then ret () else reconnectStomp S ThenLog)"

text \<open>
  The events: what the socket reports, the timers and the callbacks of the connection loops, and the calls,
  each with a number. The last two are the two halves of \<open>disconnect\<close>.
\<close>

datatype 'cb stomp_event =
    WsOpen
  | WsMessage string
  | WsClose nat
  | WsError
  | SleepOver nat
  | ConnectSent nat "js_error option"
  | CallConnect nat
  | CallSend nat string header_list string
  | CallSubscribe nat string 'cb header_list
  | CallUnsubscribe nat string
  | CallAcknowledge nat string "string option" "string option" header_list
  | CallDisconnect nat header_list
  | DisconnectSent

definition withLoop :: "nat \<Rightarrow> ('cb connection_loop \<Rightarrow> ('cb, unit) stomp) \<Rightarrow> ('cb, unit) stomp" where
  "withLoop k f = andThen getS (\<lambda>c. case find (\<lambda>l. cl_id l = k) (sc_loops c) of None \<Rightarrow> ret () | Some l \<Rightarrow> f l)"

definition connectSent :: "stomp_options \<Rightarrow> 'cb connection_loop \<Rightarrow> js_error option \<Rightarrow> ('cb, unit) stomp" where
  "connectSent S l result =
     (case (cl_phase l, result) of
        (SendingConnect attempt, None) \<Rightarrow>
          andThen (modifyS (\<lambda>c. dropLoop (cl_id l) (c\<lparr>sc_connectionPromise := NoPromise\<rparr>))) (\<lambda>_.
          andThen (mapM resumeWaiter (cl_waiters l)) (\<lambda>_. ret ()))
      | (SendingConnect attempt, Some error) \<Rightarrow> advanceLoop l (attemptFailed S attempt error)
      | _ \<Rightarrow> ret ())"

fun stompStep :: "stomp_options \<Rightarrow> 'cb stomp_event \<Rightarrow> ('cb, unit) stomp" where
  "stompStep S WsOpen = modifyS (\<lambda>c. c\<lparr>sc_opened := True\<rparr>)"
| "stompStep S (WsMessage event) = onMessage event"
| "stompStep S (WsClose code) = onClose S code"
| "stompStep S WsError = onError S"
| "stompStep S (SleepOver k) = withLoop k (\<lambda>l. advanceLoop l (sleepOver S (cl_phase l)))"
| "stompStep S (ConnectSent k result) = withLoop k (\<lambda>l. connectSent S l result)"
| "stompStep S (CallConnect call) = connectStomp S (ThenReturn call)"
| "stompStep S (CallSend call destination headers body) = whenConnected S (ThenSend call destination headers body)"
| "stompStep S (CallSubscribe call destination callback headers) = whenConnected S (ThenSubscribe call destination callback headers)"
| "stompStep S (CallUnsubscribe call subscriptionId) = orReject call (unsubscribeStomp subscriptionId)"
| "stompStep S (CallAcknowledge call t messageId subscriptionId headers) = orReject call (acknowledged t messageId subscriptionId headers)"
| "stompStep S (CallDisconnect call headers) = orReject call (transmit ''DISCONNECT'' headers [])"
| "stompStep S DisconnectSent = cleanUp"

text \<open>The state and the effects after a sequence of events; an exception leaves the listener it happened in.\<close>

definition clientAfter :: "stomp_options \<Rightarrow> 'cb stomp_event \<Rightarrow> 'cb stomp_client \<Rightarrow> 'cb stomp_client" where
  "clientAfter S e c = fst (snd (stompStep S e c))"

definition stompRun :: "stomp_options \<Rightarrow> 'cb stomp_event list \<Rightarrow> 'cb stomp_client \<Rightarrow> 'cb stomp_client" where
  "stompRun S es c = fold (clientAfter S) es c"

text \<open>The transport of \<open>stomp.transport.ts\<close>: one exchange for each topic and type of message.\<close>

definition exchange :: "string \<Rightarrow> string \<Rightarrow> string" where
  "exchange topic messageType = ''/exchange/'' @ topic @ ''/'' @ messageType"

definition stompPublish :: "nat \<Rightarrow> string \<Rightarrow> string \<Rightarrow> string \<Rightarrow> 'cb stomp_event" where
  "stompPublish call topic json messageType = CallSend call (exchange topic messageType) [] json"

definition stompSubscribe :: "nat \<Rightarrow> string \<Rightarrow> string \<Rightarrow> 'cb \<Rightarrow> 'cb stomp_event" where
  "stompSubscribe call topic messageType cb = CallSubscribe call (exchange topic messageType) cb []"

subsection \<open>One loop at a time\<close>

abbreviation anyEffect :: "'o \<Rightarrow> bool" where
  "anyEffect \<equiv> \<lambda>_. True"

definition maxAttempts :: "stomp_options \<Rightarrow> nat" where
  "maxAttempts S = max 1 (so_reconnectAttempts S)"

text \<open>A phase the loop can be in, the sockets it may still create and the events it still needs, at most.\<close>

fun phaseOk :: "stomp_options \<Rightarrow> loop_phase \<Rightarrow> bool" where
  "phaseOk S (WaitingOpen a p) \<longleftrightarrow> 1 \<le> a \<and> a \<le> maxAttempts S \<and> 250 dvd p \<and> p \<le> so_webSocketConnectTimeout S"
| "phaseOk S (SendingConnect a) \<longleftrightarrow> 1 \<le> a \<and> a \<le> maxAttempts S"
| "phaseOk S (Sleeping a) \<longleftrightarrow> 1 < a \<and> a \<le> maxAttempts S"

fun socketsLeft :: "stomp_options \<Rightarrow> loop_phase \<Rightarrow> nat" where
  "socketsLeft S (WaitingOpen a p) = maxAttempts S - a"
| "socketsLeft S (SendingConnect a) = maxAttempts S - a"
| "socketsLeft S (Sleeping a) = Suc (maxAttempts S) - a"

definition attemptEvents :: "stomp_options \<Rightarrow> nat" where
  "attemptEvents S = so_webSocketConnectTimeout S div 250 + 3"

fun eventsLeft :: "stomp_options \<Rightarrow> loop_phase \<Rightarrow> nat" where
  "eventsLeft S (WaitingOpen a p) = (maxAttempts S - a) * attemptEvents S + (so_webSocketConnectTimeout S - p) div 250 + 2"
| "eventsLeft S (SendingConnect a) = (maxAttempts S - a) * attemptEvents S + 1"
| "eventsLeft S (Sleeping a) = (Suc (maxAttempts S) - a) * attemptEvents S"

definition control :: "'cb stomp_client \<Rightarrow> connection_promise \<times> 'cb connection_loop list \<times> nat" where
  "control c = (sc_connectionPromise c, sc_loops c, sc_nextLoop c)"

text \<open>What keeps the connection and the number of sockets.\<close>

definition still :: "connection_promise \<times> 'cb connection_loop list \<times> nat \<Rightarrow> nat \<Rightarrow> 'cb stomp_client \<Rightarrow> bool" where
  "still x n c \<longleftrightarrow> control c = x \<and> sc_sockets c = n"

lemma still_updates [simp]:
  "still x n (c\<lparr>sc_opened := b\<rparr>) = still x n c" "still x n (c\<lparr>sc_connected := b\<rparr>) = still x n c"
  "still x n (c\<lparr>sc_subscriptions := l\<rparr>) = still x n c" "still x n (c\<lparr>sc_counter := m\<rparr>) = still x n c"
  "still x n (c\<lparr>sc_ws := w\<rparr>) = still x n c"
  "still x n (c\<lparr>sc_connected := b, sc_opened := b'\<rparr>) = still x n c"
  "still x n (c\<lparr>sc_counter := m, sc_subscriptions := l\<rparr>) = still x n c"
  by (simp_all add: still_def control_def)

lemma still_transmit [keep_rules]: "keeps (still x n) (transmit t h b) anyEffect"
  unfolding transmit_def by (intro keep_rules) auto

lemma still_cleanUp [keep_rules]: "keeps (still x n) cleanUp anyEffect"
  unfolding cleanUp_def by (intro keep_rules) auto

lemma still_mapM [keep_rules]: "(\<And>w. keeps (still x n) (f w) anyEffect) \<Longrightarrow> keeps (still x n) (mapM f ws) anyEffect"
  by (induction ws) (auto intro!: keep_rules)

lemma still_orReject [keep_rules]: "keeps (still x n) m anyEffect \<Longrightarrow> keeps (still x n) (orReject call m) anyEffect"
  unfolding orReject_def by (intro keep_rules) auto

lemma still_subscribeNow [keep_rules]: "keeps (still x n) (subscribeNow d cb h) anyEffect"
  unfolding subscribeNow_def Let_def by (intro keep_rules) auto

lemma still_resumeWaiter [keep_rules]: "keeps (still x n) (resumeWaiter w) anyEffect"
  by (cases w) (auto simp: sendNow_def intro!: keep_rules)

lemma still_rejectWaiter [keep_rules]: "keeps (still x n) (rejectWaiter e w) anyEffect"
  by (cases w) (auto intro!: keep_rules)

lemma still_calls [keep_rules]:
  "keeps (still x n) (unsubscribeStomp i) anyEffect"
  "keeps (still x n) (acknowledged t m s h) anyEffect"
  unfolding unsubscribeStomp_def acknowledged_def by (intro keep_rules; simp)+

lemma still_onMessage [keep_rules]: "keeps (still x n) (onMessage event) anyEffect"
proof (cases "unmarshallSingle event")
  case (Inl e)
  then show ?thesis by (cases e) (auto simp: onMessage_def intro!: keep_rules)
next
  case (Inr frame)
  then show ?thesis by (auto simp: onMessage_def intro!: keep_rules)
qed

lemma transmit_run:
  "transmit t h b c = (case sc_ws c of None \<Rightarrow> (Inl TypeError, c, [])
     | Some ws \<Rightarrow> (Inr (), c, [SocketSend ws (marshall t (map (\<lambda>(k, v). (k, Some v)) h) b)]))"
  by (simp add: transmit_def split: option.split)

lemma cleanUp_run:
  "cleanUp c = (Inr (), c\<lparr>sc_connected := False, sc_opened := False\<rparr>,
     case sc_ws c of None \<Rightarrow> [] | Some ws \<Rightarrow> [SocketClosed ws])"
  by (simp add: cleanUp_def)

text \<open>An attempt, from the connection \<open>x\<close> and \<open>n\<close> sockets: it is suspended in a later phase, or it was the last.\<close>

abbreviation suspended :: "stomp_options \<Rightarrow> connection_promise \<times> 'cb connection_loop list \<times> nat \<Rightarrow> nat \<Rightarrow> nat \<Rightarrow>
    loop_phase \<Rightarrow> 'cb stomp_client \<Rightarrow> bool" where
  "suspended S x n w phase c \<equiv> control c = x \<and> phaseOk S phase \<and> sc_sockets c + socketsLeft S phase \<le> n \<and> eventsLeft S phase < w"

abbreviation givenUp :: "connection_promise \<times> 'cb connection_loop list \<times> nat \<Rightarrow> nat \<Rightarrow> 'cb stomp_client \<Rightarrow> bool" where
  "givenUp x n c \<equiv> control c = (NoPromise, snd x) \<and> sc_sockets c \<le> n"

lemma attemptFailed_triple:
  assumes "1 \<le> a" "a \<le> maxAttempts S"
  shows "triple (\<lambda>c. control c = x \<and> sc_sockets c + (maxAttempts S - a) \<le> n) (attemptFailed S a e)
    (suspended S x n (Suc ((maxAttempts S - a) * attemptEvents S))) (givenUp x n) anyEffect"
proof (cases "so_reconnectAttempts S \<le> a")
  case True
  then show ?thesis by (auto simp: attemptFailed_def control_def triple_iff)
next
  case False
  then have "a < maxAttempts S" by (simp add: maxAttempts_def)
  with assms False show ?thesis
    by (auto simp: attemptFailed_def andThen_apply cleanUp_run control_def triple_iff Suc_diff_Suc)
qed

lemma waitOpened_triple:
  assumes "1 \<le> a" "a \<le> maxAttempts S" "250 dvd p" "p \<le> so_webSocketConnectTimeout S"
  shows "triple (\<lambda>c. control c = x \<and> sc_sockets c + (maxAttempts S - a) \<le> n) (waitOpened S a p)
    (suspended S x n ((maxAttempts S - a) * attemptEvents S + (so_webSocketConnectTimeout S - p) div 250 + 3))
    (\<lambda>c. control c = x \<and> sc_sockets c + (maxAttempts S - a) \<le> n) anyEffect"
  unfolding waitOpened_def using assms
  by (auto simp: triple_iff andThen_apply transmit_run split: if_splits option.splits)

lemma connectWithRetry_triple:
  assumes a: "1 \<le> a" "a \<le> maxAttempts S"
  shows "triple (\<lambda>c. control c = x \<and> sc_sockets c + (Suc (maxAttempts S) - a) \<le> n) (connectWithRetry S a)
    (suspended S x n ((Suc (maxAttempts S) - a) * attemptEvents S)) (givenUp x n) anyEffect"
proof -
  let ?left = "\<lambda>c. control c = x \<and> sc_sockets c + (maxAttempts S - a) \<le> n"
  have step: "(Suc (maxAttempts S) - a) * attemptEvents S = (maxAttempts S - a) * attemptEvents S + attemptEvents S"
    using a(2) by (simp add: Suc_diff_le)
  have create: "triple (\<lambda>c. control c = x \<and> sc_sockets c + (Suc (maxAttempts S) - a) \<le> n) (createWebSocket S) (\<lambda>_. ?left) ?left anyEffect"
    unfolding createWebSocket_def using a(2) by (auto simp: triple_iff control_def split: option.splits)
  have wait: "triple ?left (waitOpened S a 0) (suspended S x n ((Suc (maxAttempts S) - a) * attemptEvents S)) ?left anyEffect"
    by (rule triple_weaken [OF waitOpened_triple [OF a]]) (auto simp: step, simp add: attemptEvents_def)
  have fail: "triple ?left (attemptFailed S a e) (suspended S x n ((Suc (maxAttempts S) - a) * attemptEvents S)) (givenUp x n) anyEffect" for e
    by (rule triple_weaken [OF attemptFailed_triple [OF a]]) (auto simp: step, simp add: attemptEvents_def)
  show ?thesis
    unfolding connectWithRetry_def by (rule triple_catchE [OF triple_andThen [OF create wait] fail])
qed

lemma sleepOver_triple:
  assumes ok: "phaseOk S ph" and "\<forall>a. ph \<noteq> SendingConnect a"
  shows "triple (\<lambda>c. control c = x \<and> sc_sockets c + socketsLeft S ph \<le> n) (sleepOver S ph)
    (suspended S x n (eventsLeft S ph)) (givenUp x n) anyEffect"
proof (cases ph)
  case (WaitingOpen a p)
  let ?left = "\<lambda>c. control c = x \<and> sc_sockets c + (maxAttempts S - a) \<le> n"
  from ok WaitingOpen have a: "1 \<le> a" "a \<le> maxAttempts S" and p: "250 dvd p" by simp_all
  have fail: "triple ?left (attemptFailed S a e) (suspended S x n (eventsLeft S ph)) (givenUp x n) anyEffect" for e
    by (rule triple_weaken [OF attemptFailed_triple [OF a]]) (auto simp: WaitingOpen)
  show ?thesis
  proof (cases "so_webSocketConnectTimeout S < p + 250")
    case True
    with fail show ?thesis by (simp add: sleepOver_def WaitingOpen)
  next
    case False
    then have *: "p + 250 \<le> so_webSocketConnectTimeout S" "250 dvd p + 250" using p by auto
    then have "(so_webSocketConnectTimeout S - p) div 250 = Suc ((so_webSocketConnectTimeout S - (p + 250)) div 250)" by simp
    then have eq: "eventsLeft S ph = (maxAttempts S - a) * attemptEvents S + (so_webSocketConnectTimeout S - (p + 250)) div 250 + 3"
      by (simp add: WaitingOpen)
    have "triple ?left (waitOpened S a (p + 250)) (suspended S x n (eventsLeft S ph)) ?left anyEffect"
      unfolding eq by (rule waitOpened_triple [OF a *(2,1)])
    from triple_catchE [OF this fail] False show ?thesis by (simp add: sleepOver_def WaitingOpen)
  qed
next
  case (Sleeping a)
  with ok have a: "1 \<le> a" "a \<le> maxAttempts S" by simp_all
  from connectWithRetry_triple [OF a] show ?thesis by (simp add: sleepOver_def Sleeping)
qed (use assms in simp)

text \<open>A loop that is suspended, with its promise; when its promise has settled there is none.\<close>

definition running :: "stomp_options \<Rightarrow> nat \<Rightarrow> nat \<Rightarrow> nat \<Rightarrow> 'cb stomp_client \<Rightarrow> bool" where
  "running S k n w c \<longleftrightarrow>
     (\<exists>ph ws m. control c = (PendingPromise k, [\<lparr>cl_id = k, cl_phase = ph, cl_waiters = ws\<rparr>], m) \<and> k < m \<and>
        phaseOk S ph \<and> sc_sockets c + socketsLeft S ph \<le> n \<and> eventsLeft S ph \<le> w)"

definition over :: "nat \<Rightarrow> nat \<Rightarrow> 'cb stomp_client \<Rightarrow> bool" where
  "over k n c \<longleftrightarrow> (\<exists>m. control c = (NoPromise, [], m) \<and> k < m \<and> sc_sockets c \<le> n)"

lemma keeps_control:
  assumes "\<And>x j. keeps (still x j) m anyEffect" and "\<And>c d. control c = control d \<Longrightarrow> sc_sockets c = sc_sockets d \<Longrightarrow> I c = I d"
  shows "keeps I m anyEffect"
proof (rule tripleI)
  fix s r t out assume s: "I s" and run: "m s = (r, t, out)"
  have "still (control s) (sc_sockets s) s" by (simp add: still_def)
  from tripleD [OF assms(1) this run] have "still (control s) (sc_sockets s) t" by (cases r) auto
  with assms(2) [of s t] s show "(\<forall>x. r = Inr x \<longrightarrow> I t) \<and> (\<forall>e. r = Inl e \<longrightarrow> I t) \<and> (\<forall>a\<in>set out. anyEffect a)"
    by (auto simp: still_def)
qed

lemma keeps_running: "(\<And>x j. keeps (still x j) m anyEffect) \<Longrightarrow> keeps (running S k n w) m anyEffect"
  by (rule keeps_control) (auto simp: running_def)

lemma keeps_over: "(\<And>x j. keeps (still x j) m anyEffect) \<Longrightarrow> keeps (over k n) m anyEffect"
  by (rule keeps_control) (auto simp: over_def)

lemma advanceLoop_triple:
  assumes l: "l = \<lparr>cl_id = k, cl_phase = ph, cl_waiters = ws\<rparr>" and k: "k < j"
    and m: "triple P m (suspended S (PendingPromise k, [l], j) n (Suc w)) (givenUp (PendingPromise k, [l], j) n) anyEffect"
  shows "triple P (advanceLoop l m) (\<lambda>_ c. running S k n w c \<or> over k n c) (\<lambda>c. running S k n w c \<or> over k n c) anyEffect"
  unfolding advanceLoop_def
proof (rule triple_catchE, rule triple_andThen [OF m])
  fix phase
  show "triple (suspended S (PendingPromise k, [l], j) n (Suc w) phase) (modifyS (setPhase (cl_id l) phase))
    (\<lambda>_ c. running S k n w c \<or> over k n c) (givenUp (PendingPromise k, [l], j) n) anyEffect"
    by (rule triple_modifyS) (auto simp: running_def setPhase_def control_def l k)
next
  fix error
  have drop: "triple (givenUp (PendingPromise k, [l], j) n) (modifyS (dropLoop (cl_id l))) (\<lambda>_. over k n) (over k n) anyEffect"
    by (rule triple_modifyS) (auto simp: over_def dropLoop_def control_def l k)
  have "keeps (over k n) (mapM (rejectWaiter error) (cl_waiters l)) anyEffect"
    by (intro keeps_over still_mapM still_rejectWaiter)
  then have "keeps (over k n) (andThen (mapM (rejectWaiter error) (cl_waiters l)) (\<lambda>_. ret ())) anyEffect"
    by (intro keep_rules)
  from triple_andThen [OF drop this]
  show "triple (givenUp (PendingPromise k, [l], j) n)
     (andThen (modifyS (dropLoop (cl_id l))) (\<lambda>_. andThen (mapM (rejectWaiter error) (cl_waiters l)) (\<lambda>_. ret ())))
     (\<lambda>_ c. running S k n w c \<or> over k n c) (\<lambda>c. running S k n w c \<or> over k n c) anyEffect"
    by (rule triple_weaken) auto
qed


text \<open>The events the loop waits for.\<close>

definition ownEvent :: "nat \<Rightarrow> 'cb stomp_event \<Rightarrow> 'cb stomp_client \<Rightarrow> bool" where
  "ownEvent k e c \<longleftrightarrow>
     (case find (\<lambda>l. cl_id l = k) (sc_loops c) of
        None \<Rightarrow> False
      | Some l \<Rightarrow> (case (cl_phase l, e) of
            (SendingConnect a, ConnectSent k' r) \<Rightarrow> k' = k
          | (SendingConnect a, _) \<Rightarrow> False
          | (_, SleepOver k') \<Rightarrow> k' = k
          | _ \<Rightarrow> False))"

lemma joins_running:
  "keeps (running S k n w) (connectStomp S v) anyEffect"
  "keeps (running S k n w) (reconnectStomp S v) anyEffect"
  "keeps (running S k n w) (whenConnected S v) anyEffect"
proof -
  have 1: "keeps (running S k n w) (connectStomp S v) anyEffect" for v
    by (rule tripleI) (auto simp: connectStomp_def running_def control_def addWaiter_def)
  have 2: "keeps (running S k n w) (reconnectStomp S v) anyEffect" for v
  proof (rule tripleI)
    fix s r t out assume s: "running S k n w s" and "reconnectStomp S v s = (r, t, out)"
    moreover from s have "sc_connectionPromise s \<noteq> NoPromise" by (auto simp: running_def control_def)
    ultimately have "connectStomp S v s = (r, t, out)" by (simp add: reconnectStomp_def)
    from tripleD [OF 1 s this] show "(\<forall>x. r = Inr x \<longrightarrow> running S k n w t) \<and> (\<forall>e. r = Inl e \<longrightarrow> running S k n w t) \<and> (\<forall>a\<in>set out. True)"
      by blast
  qed
  have "keeps (running S k n w) (resumeWaiter v) anyEffect" for v
    by (intro keeps_running still_resumeWaiter)
  with 2 have "keeps (running S k n w) (whenConnected S v) anyEffect"
    unfolding whenConnected_def by (intro keep_rules)
  with 1 2 show "keeps (running S k n w) (connectStomp S v) anyEffect"
    "keeps (running S k n w) (reconnectStomp S v) anyEffect" "keeps (running S k n w) (whenConnected S v) anyEffect" by blast+
qed

lemma connectSent_triple:
  assumes l: "l = \<lparr>cl_id = k, cl_phase = SendingConnect a, cl_waiters = ws\<rparr>" and k: "k < j"
    and ok: "phaseOk S (SendingConnect a)" and w: "eventsLeft S (SendingConnect a) \<le> Suc w"
  shows "triple (\<lambda>c. control c = (PendingPromise k, [l], j) \<and> sc_sockets c + socketsLeft S (SendingConnect a) \<le> n)
     (connectSent S l result) (\<lambda>_ c. running S k n w c \<or> over k n c) (\<lambda>c. running S k n w c \<or> over k n c) anyEffect"
proof (cases result)
  case None
  have settle: "triple (\<lambda>c. control c = (PendingPromise k, [l], j) \<and> sc_sockets c + socketsLeft S (SendingConnect a) \<le> n)
     (modifyS (\<lambda>c. dropLoop (cl_id l) (c\<lparr>sc_connectionPromise := NoPromise\<rparr>))) (\<lambda>_. over k n) (over k n) anyEffect"
    by (rule triple_modifyS) (auto simp: over_def dropLoop_def control_def l k)
  have "keeps (over k n) (mapM resumeWaiter (cl_waiters l)) anyEffect"
    by (intro keeps_over still_mapM still_resumeWaiter)
  then have "keeps (over k n) (andThen (mapM resumeWaiter (cl_waiters l)) (\<lambda>_. ret ())) anyEffect"
    by (intro keep_rules)
  from triple_andThen [OF settle this]
  have "triple (\<lambda>c. control c = (PendingPromise k, [l], j) \<and> sc_sockets c + socketsLeft S (SendingConnect a) \<le> n)
     (connectSent S l None) (\<lambda>_. over k n) (over k n) anyEffect"
    by (simp add: connectSent_def l)
  then show ?thesis unfolding None by (rule triple_weaken) auto
next
  case (Some e)
  from ok have a: "1 \<le> a" "a \<le> maxAttempts S" by simp_all
  have "triple (\<lambda>c. control c = (PendingPromise k, [l], j) \<and> sc_sockets c + socketsLeft S (SendingConnect a) \<le> n) (attemptFailed S a e)
      (suspended S (PendingPromise k, [l], j) n (Suc w)) (givenUp (PendingPromise k, [l], j) n) anyEffect"
    by (rule triple_weaken [OF attemptFailed_triple [OF a]]) (use w in auto)
  from advanceLoop_triple [OF l k this] show ?thesis by (simp add: connectSent_def Some l)
qed


lemma clientAfterI:
  assumes "triple P (stompStep S e) (\<lambda>_. Q) Q anyEffect" and "P c"
  shows "Q (clientAfter S e c)"
proof -
  obtain r t out where run: "stompStep S e c = (r, t, out)" by (metis prod_cases3)
  from tripleD [OF assms run] show ?thesis by (cases r) (auto simp: clientAfter_def run)
qed

lemma running_loop:
  assumes "running S k n w c"
  obtains ph ws j where "control c = (PendingPromise k, [\<lparr>cl_id = k, cl_phase = ph, cl_waiters = ws\<rparr>], j)" "k < j" "phaseOk S ph"
    "sc_sockets c + socketsLeft S ph \<le> n" "eventsLeft S ph \<le> w"
  using assms unfolding running_def by blast

lemma eventsLeft_pos: "phaseOk S ph \<Longrightarrow> 0 < eventsLeft S ph"
  by (cases ph) (auto simp: attemptEvents_def)

lemma own_step:
  assumes run: "running S k n w c" and own: "ownEvent k e c"
  shows "running S k n (w - 1) (clientAfter S e c) \<or> over k n (clientAfter S e c)"
proof -
  from run obtain ph ws j where c: "control c = (PendingPromise k, [\<lparr>cl_id = k, cl_phase = ph, cl_waiters = ws\<rparr>], j)" "k < j"
    and ok: "phaseOk S ph" "sc_sockets c + socketsLeft S ph \<le> n" "eventsLeft S ph \<le> w" by (rule running_loop)
  let ?l = "\<lparr>cl_id = k, cl_phase = ph, cl_waiters = ws\<rparr>"
  let ?P = "\<lambda>d. control d = (PendingPromise k, [?l], j) \<and> sc_sockets d + socketsLeft S ph \<le> n"
  have w: "Suc (w - 1) = w" "eventsLeft S ph \<le> Suc (w - 1)" using eventsLeft_pos [OF ok(1)] ok(3) by simp_all
  have loops: "sc_loops c = [?l]" using c(1) by (simp add: control_def)
  have found: "withLoop k f c = f ?l c" for f :: "'a connection_loop \<Rightarrow> ('a, unit) stomp" by (simp add: withLoop_def loops)
  have P: "?P c" using c ok(2) by simp
  consider (sent) a r where "ph = SendingConnect a" "e = ConnectSent k r" | (sleep) "\<forall>a. ph \<noteq> SendingConnect a" "e = SleepOver k"
    using own by (auto simp: ownEvent_def loops split: loop_phase.splits stomp_event.splits)
  then show ?thesis
  proof cases
    case sent
    have l: "?l = \<lparr>cl_id = k, cl_phase = SendingConnect a, cl_waiters = ws\<rparr>" by (simp add: sent)
    have P': "control c = (PendingPromise k, [?l], j) \<and> sc_sockets c + socketsLeft S (SendingConnect a) \<le> n"
      using P sent(1) by simp
    from tripleD [OF connectSent_triple [OF l c(2) ok(1) [unfolded sent(1)] w(2) [unfolded sent(1)]] P']
    show ?thesis
      by (cases "connectSent S ?l r c"; cases "fst (connectSent S ?l r c)") (auto simp: clientAfter_def found sent)
  next
    case sleep
    have "triple ?P (sleepOver S ph) (suspended S (PendingPromise k, [?l], j) n (Suc (w - 1))) (givenUp (PendingPromise k, [?l], j) n) anyEffect"
      by (rule triple_weaken [OF sleepOver_triple [OF ok(1) sleep(1)]]) (use w in auto)
    from tripleD [OF advanceLoop_triple [OF refl c(2) this] P]
    show ?thesis
      by (cases "advanceLoop ?l (sleepOver S ph) c"; cases "fst (advanceLoop ?l (sleepOver S ph) c)") (auto simp: clientAfter_def found sleep)
  qed
qed

lemma running_keeps:
  "keeps (running S k n w) (stompStep S e) anyEffect \<Longrightarrow> running S k n w c \<Longrightarrow> running S k n w (clientAfter S e c)"
  by (rule clientAfterI)

lemma other_step:
  assumes run: "running S k n w c" and other: "\<not> ownEvent k e c"
  shows "running S k n w (clientAfter S e c)"
proof -
  from run obtain ph ws j where c: "control c = (PendingPromise k, [\<lparr>cl_id = k, cl_phase = ph, cl_waiters = ws\<rparr>], j)" "k < j"
    and ok: "phaseOk S ph" by (rule running_loop)
  let ?l = "\<lparr>cl_id = k, cl_phase = ph, cl_waiters = ws\<rparr>"
  from c have pending: "sc_connectionPromise c = PendingPromise k" and loops: "sc_loops c = [?l]" by (simp_all add: control_def)
  have none: "clientAfter S e c = c \<Longrightarrow> ?thesis" using run by simp
  show ?thesis
  proof (cases e)
    case WsOpen
    then show ?thesis using run by (simp add: clientAfter_def running_def control_def)
  next
    case (WsClose code)
    then show ?thesis by (intro none) (simp add: clientAfter_def onClose_def pending)
  next
    case WsError
    then show ?thesis by (intro none) (simp add: clientAfter_def onError_def pending)
  next
    case (SleepOver k')
    with other consider "k' \<noteq> k" | a where "k' = k" "ph = SendingConnect a"
      by (cases ph) (auto simp: ownEvent_def loops)
    then show ?thesis
    proof cases
      case 2
      then have "clientAfter S e c = setPhase k (SendingConnect a) c"
        by (simp add: clientAfter_def SleepOver withLoop_def loops advanceLoop_def sleepOver_def catchE_def andThen_apply)
      also have "\<dots> = c" using loops by (simp add: setPhase_def 2)
      finally show ?thesis by (rule none)
    qed (intro none, simp add: clientAfter_def SleepOver withLoop_def loops)
  next
    case (ConnectSent k' r)
    with other consider "k' \<noteq> k" | "k' = k" "\<forall>a. ph \<noteq> SendingConnect a"
      by (cases ph) (auto simp: ownEvent_def loops)
    then show ?thesis
      by (intro none) (cases, auto simp: clientAfter_def ConnectSent withLoop_def loops connectSent_def split: loop_phase.split)
  qed (rule running_keeps [OF _ run], simp,
      (rule joins_running | intro keeps_running still_onMessage still_orReject still_calls still_transmit still_cleanUp; fail))+
qed

text \<open>No loop, and what follows: still none, or the one with the next number.\<close>

definition idle :: "nat \<Rightarrow> 'cb stomp_client \<Rightarrow> bool" where
  "idle m c \<longleftrightarrow> sc_loops c = [] \<and> (\<forall>k. sc_connectionPromise c \<noteq> PendingPromise k) \<and> m \<le> sc_nextLoop c"

abbreviation idleAt :: "nat \<Rightarrow> nat \<Rightarrow> 'cb stomp_client \<Rightarrow> bool" where
  "idleAt m n c \<equiv> idle 0 c \<and> sc_nextLoop c = m \<and> sc_sockets c = n"

definition started :: "stomp_options \<Rightarrow> nat \<Rightarrow> nat \<Rightarrow> 'cb stomp_client \<Rightarrow> bool" where
  "started S m n c \<longleftrightarrow> idle m c \<or> running S m (n + maxAttempts S) (maxAttempts S * attemptEvents S) c"

lemma keeps_idle: "(\<And>x j. keeps (still x j) m anyEffect) \<Longrightarrow> keeps (idle k) m anyEffect"
  by (rule keeps_control) (auto simp: idle_def control_def)

lemma keeps_idleAt: "(\<And>x j. keeps (still x j) m anyEffect) \<Longrightarrow> keeps (idleAt k n) m anyEffect"
  by (rule keeps_control) (auto simp: idle_def control_def)

lemma triple_getS_same: "(\<And>s0. triple P (f s0) Q E A) \<Longrightarrow> triple P (andThen getS f) Q E A"
  by (rule triple_getS) (auto intro: triple_pre)

lemma idle_started: "idleAt m n c \<Longrightarrow> started S m n c"
  by (simp add: started_def idle_def)

lemma calm_started:
  "(\<And>x j. keeps (still x j) a anyEffect) \<Longrightarrow> triple (idleAt m n) a (\<lambda>_. started S m n) (started S m n) anyEffect"
  by (rule triple_weaken [OF keeps_idleAt]) (auto intro: idle_started)

lemma connect_started: "triple (idleAt m n) (connectStomp S v) (\<lambda>_. started S m n) (started S m n) anyEffect"
  unfolding connectStomp_def
proof (rule triple_getS)
  fix c :: "'a stomp_client" assume c: "idleAt m n c"
  let ?start = "\<lambda>d. control d = (NoPromise, [], Suc m) \<and> sc_sockets d = n"
  let ?x = "(NoPromise, [], Suc m) :: connection_promise \<times> 'a connection_loop list \<times> nat"
  have one: "1 \<le> (1 :: nat)" "1 \<le> maxAttempts S" by (simp_all add: maxAttempts_def)
  show "triple (\<lambda>s. s = c) (case sc_connectionPromise c of
       PendingPromise k \<Rightarrow> modifyS (addWaiter k v)
     | RejectedPromise error \<Rightarrow> rejectWaiter error v
     | NoPromise \<Rightarrow>
         andThen (modifyS (\<lambda>c. c\<lparr>sc_nextLoop := Suc (sc_nextLoop c)\<rparr>)) (\<lambda>_.
         catchE (andThen (connectWithRetry S 1) (\<lambda>phase. modifyS (\<lambda>d. d\<lparr>sc_connectionPromise := PendingPromise (sc_nextLoop c),
                   sc_loops := sc_loops d @ [\<lparr>cl_id = sc_nextLoop c, cl_phase = phase, cl_waiters = [v]\<rparr>]\<rparr>)))
                (\<lambda>error. andThen (modifyS (\<lambda>d. d\<lparr>sc_connectionPromise := RejectedPromise error\<rparr>)) (\<lambda>_. rejectWaiter error v))))
     (\<lambda>_. started S m n) (started S m n) anyEffect" (is "triple _ ?body _ _ _")
  proof (cases "sc_connectionPromise c")
    case (PendingPromise k)
    then show ?thesis using c by (simp add: idle_def)
  next
    case (RejectedPromise e)
    have "triple (\<lambda>s. s = c) (rejectWaiter e v) (\<lambda>_. started S m n) (started S m n) anyEffect"
      by (rule triple_pre [OF calm_started [OF still_rejectWaiter]]) (use c in simp)
    then show ?thesis by (simp add: RejectedPromise)
  next
    case NoPromise
    have 1: "triple (\<lambda>s. s = c) (modifyS (\<lambda>c. c\<lparr>sc_nextLoop := Suc (sc_nextLoop c)\<rparr>)) (\<lambda>_. ?start) (started S m n) anyEffect"
      by (rule triple_modifyS) (use c NoPromise in \<open>auto simp: control_def idle_def\<close>)
    have 2: "triple ?start (connectWithRetry S 1) (suspended S ?x (n + maxAttempts S) (maxAttempts S * attemptEvents S))
        (givenUp ?x (n + maxAttempts S)) anyEffect"
      by (rule triple_weaken [OF connectWithRetry_triple [OF one, where x = ?x and n = "n + maxAttempts S"]]) auto
    have 3: "triple (suspended S ?x (n + maxAttempts S) (maxAttempts S * attemptEvents S) phase)
        (modifyS (\<lambda>d. d\<lparr>sc_connectionPromise := PendingPromise (sc_nextLoop c),
             sc_loops := sc_loops d @ [\<lparr>cl_id = sc_nextLoop c, cl_phase = phase, cl_waiters = [v]\<rparr>]\<rparr>))
        (\<lambda>_. started S m n) (givenUp ?x (n + maxAttempts S)) anyEffect" for phase
      by (rule triple_modifyS) (use c in \<open>auto simp: started_def running_def control_def\<close>)
    have 4: "triple (givenUp ?x (n + maxAttempts S)) (modifyS (\<lambda>d. d\<lparr>sc_connectionPromise := RejectedPromise e\<rparr>)) (\<lambda>_. idle m)
        (started S m n) anyEffect" for e
      by (rule triple_modifyS) (auto simp: idle_def control_def)
    have "keeps (idle m) (rejectWaiter e v) anyEffect" for e by (intro keeps_idle still_rejectWaiter)
    then have 5: "triple (idle m) (rejectWaiter e v) (\<lambda>_. started S m n) (started S m n) anyEffect" for e
      by (rule triple_weaken) (auto simp: started_def)
    show ?thesis unfolding NoPromise connection_promise.case
      by (rule triple_andThen [OF 1 triple_catchE [OF triple_andThen [OF 2 3] triple_andThen [OF 4 5]]])
  qed
qed

lemma reconnect_started: "triple (idleAt m n) (reconnectStomp S v) (\<lambda>_. started S m n) (started S m n) anyEffect"
  unfolding reconnectStomp_def
proof (rule triple_getS, rule triple_pre [OF triple_if])
  show "triple (idleAt m n) (connectStomp S v) (\<lambda>_. started S m n) (started S m n) anyEffect" by (rule connect_started)
  have "triple (idleAt m n) cleanUp (\<lambda>_. idleAt m n) (started S m n) anyEffect"
    by (rule triple_error [OF keeps_idleAt [OF still_cleanUp] idle_started])
  then show "triple (idleAt m n) (andThen cleanUp (\<lambda>_. connectStomp S v)) (\<lambda>_. started S m n) (started S m n) anyEffect"
    by (rule triple_andThen) (rule connect_started)
qed simp

lemma whenConnected_started: "triple (idleAt m n) (whenConnected S v) (\<lambda>_. started S m n) (started S m n) anyEffect"
  unfolding whenConnected_def
  by (rule triple_getS, rule triple_pre [OF triple_if], rule reconnect_started, rule calm_started, rule still_resumeWaiter) simp

lemma idle_step: "triple (idleAt m n) (stompStep S e) (\<lambda>_. started S m n) (started S m n) anyEffect"
proof (cases e)
  case WsOpen
  then show ?thesis by (auto intro!: triple_modifyS simp: started_def idle_def)
next
  case (WsClose code)
  have "triple (idleAt m n) cleanUp (\<lambda>_. idleAt m n) (started S m n) anyEffect"
    by (rule triple_error [OF keeps_idleAt [OF still_cleanUp] idle_started])
  moreover have "triple (idleAt m n) (if code = 1000 then ret () else reconnectStomp S ThenLog) (\<lambda>_. started S m n) (started S m n) anyEffect"
    by (intro triple_if reconnect_started) (auto intro: triple_ret idle_started)
  ultimately have "triple (idleAt m n) (andThen cleanUp (\<lambda>_. if code = 1000 then ret () else reconnectStomp S ThenLog))
      (\<lambda>_. started S m n) (started S m n) anyEffect" by (rule triple_andThen)
  then show ?thesis unfolding WsClose stompStep.simps onClose_def
    by (intro triple_getS_same triple_if) (auto intro: triple_ret idle_started)
next
  case WsError
  have "triple (idleAt m n) (reconnectStomp S ThenLog) (\<lambda>_. started S m n) (started S m n) anyEffect" by (rule reconnect_started)
  then show ?thesis unfolding WsError stompStep.simps onError_def
    by (intro triple_getS_same triple_if) (auto intro: triple_ret idle_started)
next
  case (SleepOver k)
  then show ?thesis by (auto simp: triple_iff withLoop_def idle_def started_def)
next
  case (ConnectSent k r)
  then show ?thesis by (auto simp: triple_iff withLoop_def idle_def started_def)
qed (auto intro!: connect_started whenConnected_started calm_started keep_rules)


section \<open>Runs\<close>

definition oneLoop :: "stomp_options \<Rightarrow> 'cb stomp_client \<Rightarrow> bool" where
  "oneLoop S c \<longleftrightarrow> idle 0 c \<or> (\<exists>k n w. running S k n w c)"

lemma idle_after: "idle 0 c \<Longrightarrow> started S (sc_nextLoop c) (sc_sockets c) (clientAfter S e c)"
  by (rule clientAfterI [OF idle_step]) simp

lemma started_oneLoop: "started S m n c \<Longrightarrow> oneLoop S c"
  by (auto simp: started_def oneLoop_def idle_def)

lemma over_idle: "over k n c \<Longrightarrow> idle (Suc k) c"
  by (auto simp: over_def idle_def control_def)

lemma idle_less: "idle k c \<Longrightarrow> j \<le> k \<Longrightarrow> idle j c"
  by (auto simp: idle_def)

lemma oneLoop_step: "oneLoop S c \<Longrightarrow> oneLoop S (clientAfter S e c)"
proof (cases "idle 0 c")
  case True
  from started_oneLoop [OF idle_after [OF this]] show ?thesis .
next
  case False
  assume "oneLoop S c"
  with False obtain k n w where run: "running S k n w c" by (auto simp: oneLoop_def)
  show ?thesis
    using own_step [OF run, of e] other_step [OF run, of e] idle_less [OF over_idle]
    by (cases "ownEvent k e c") (auto simp: oneLoop_def)
qed

lemma stompRun_simps [simp]:
  "stompRun S [] c = c" "stompRun S (e # es) c = stompRun S es (clientAfter S e c)"
  by (simp_all add: stompRun_def)

lemma oneLoop_run: "oneLoop S c \<Longrightarrow> oneLoop S (stompRun S es c)"
  by (induction es arbitrary: c) (simp_all add: oneLoop_step)

lemma oneLoop_new: "oneLoop S newStompClient"
  by (simp add: oneLoop_def idle_def newStompClient_def)

text \<open>
  C29: Whatever the socket reports and whatever is called, at most one connection loop is under way, and there is
  one exactly while the client keeps a pending promise.
\<close>

theorem one_connection_loop:
  "length (sc_loops (stompRun S es newStompClient)) \<le> 1 \<and>
   (sc_loops (stompRun S es newStompClient) \<noteq> [] \<longleftrightarrow>
    (\<exists>k. sc_connectionPromise (stompRun S es newStompClient) = PendingPromise k))"
  using oneLoop_run [OF oneLoop_new, of S es]
  by (auto simp: oneLoop_def idle_def running_def control_def)

text \<open>The events among those of a run that the loop \<open>k\<close> waits for.\<close>

fun ownEvents :: "stomp_options \<Rightarrow> nat \<Rightarrow> 'cb stomp_event list \<Rightarrow> 'cb stomp_client \<Rightarrow> nat" where
  "ownEvents S k [] c = 0"
| "ownEvents S k (e # es) c = (if ownEvent k e c then 1 else 0) + ownEvents S k es (clientAfter S e c)"

text \<open>A promise that has settled is not the pending one again.\<close>

lemma idle_number: "idle (Suc k) c \<or> (\<exists>j n w. k < j \<and> running S j n w c) \<Longrightarrow>
  idle (Suc k) (clientAfter S e c) \<or> (\<exists>j n w. k < j \<and> running S j n w (clientAfter S e c))"
proof (elim disjE exE conjE)
  assume c: "idle (Suc k) c"
  then have "k < sc_nextLoop c" by (auto simp: idle_def)
  then have "k < sc_nextLoop c" "Suc k \<le> sc_nextLoop c" by simp_all
  with idle_after [OF idle_less [OF c], of S e] show ?thesis
    unfolding started_def by (meson idle_less zero_le)
next
  fix j n w assume k: "k < j" and run: "running S j n w c"
  show ?thesis
    using own_step [OF run, of e] other_step [OF run, of e] k idle_less [OF over_idle, of j n _ "Suc k"]
    by (cases "ownEvent j e c") auto
qed

lemma settled_run: "idle (Suc k) c \<or> (\<exists>j n w. k < j \<and> running S j n w c) \<Longrightarrow>
  sc_connectionPromise (stompRun S es c) \<noteq> PendingPromise k"
proof (induction es arbitrary: c)
  case Nil
  then show ?case by (auto simp: idle_def running_def control_def)
next
  case (Cons e es)
  from Cons.IH [OF idle_number [OF Cons.prems]] show ?case by simp
qed

lemma running_run:
  "running S k n w c \<Longrightarrow> sc_connectionPromise (stompRun S es c) = PendingPromise k \<Longrightarrow>
   sc_sockets (stompRun S es c) \<le> n \<and> ownEvents S k es c < w"
proof (induction es arbitrary: c w)
  case Nil
  then obtain ph where "phaseOk S ph" "eventsLeft S ph \<le> w" "sc_sockets c + socketsLeft S ph \<le> n" by (auto simp: running_def)
  with eventsLeft_pos [of S ph] show ?case by simp
next
  case (Cons e es)
  show ?case
  proof (cases "ownEvent k e c")
    case True
    have "\<not> over k n (clientAfter S e c)"
      using settled_run [of k "clientAfter S e c" S es] over_idle [of k n "clientAfter S e c"] Cons.prems(2) by auto
    with own_step [OF Cons.prems(1) True] have "running S k n (w - 1) (clientAfter S e c)" by blast
    from Cons.IH [OF this] Cons.prems(2) True show ?thesis by auto
  next
    case False
    from Cons.IH [OF other_step [OF Cons.prems(1) False]] Cons.prems(2) False show ?thesis by simp
  qed
qed

text \<open>
  C28: A connection that an event starts creates at most as many sockets as there are attempts, one at least,
  and while its promise is pending fewer events have happened that it waits for (the end of a sleep,
  the answer to \<open>CONNECT\<close>) than the attempts times three more than the quarters of a second in the timeout.
\<close>

theorem stomp_connection_bounds:
  assumes "c = stompRun S history newStompClient" and "sc_connectionPromise c \<noteq> PendingPromise k"
    and "sc_connectionPromise (clientAfter S e c) = PendingPromise k"
    and "sc_connectionPromise (stompRun S (e # es) c) = PendingPromise k"
  shows "sc_sockets (stompRun S (e # es) c) \<le> sc_sockets c + max 1 (so_reconnectAttempts S) \<and>
    ownEvents S k es (clientAfter S e c) < max 1 (so_reconnectAttempts S) * (so_webSocketConnectTimeout S div 250 + 3)"
proof -
  have "oneLoop S c" unfolding assms(1) by (rule oneLoop_run [OF oneLoop_new])
  have "idle 0 c"
  proof (rule ccontr)
    assume "\<not> idle 0 c"
    with \<open>oneLoop S c\<close> obtain j n w where run: "running S j n w c" by (auto simp: oneLoop_def)
    then have "j \<noteq> k" using assms(2) by (auto simp: running_def control_def)
    with own_step [OF run, of e] other_step [OF run, of e] assms(3) show False
      by (auto simp: running_def over_def control_def)
  qed
  from idle_after [OF this, of S e] assms(3)
  have run: "running S k (sc_sockets c + maxAttempts S) (maxAttempts S * attemptEvents S) (clientAfter S e c)"
    by (auto simp: started_def idle_def running_def control_def)
  from running_run [OF run, of es] assms(4) show ?thesis
    by (simp add: maxAttempts_def attemptEvents_def)
qed

definition demoStomp :: stomp_options where
  "demoStomp = \<lparr>so_getWebSocket = (\<lambda>_. None), so_login = Some ''guest'', so_passcode = None, so_maxWaitSocketSession = 10000,
     so_webSocketConnectTimeout = 250, so_reconnectAttempts = 2\<rparr>"

text \<open>The socket of the first attempt does not open; the second attempt waits for its own.\<close>

theorem stomp_connection_bounds_witness:
  "sc_sockets (stompRun demoStomp [CallConnect 0, SleepOver 0, SleepOver 0, SleepOver 0]
       (newStompClient :: unit stomp_client)) \<le> 2 \<and>
   ownEvents demoStomp 0 [SleepOver 0, SleepOver 0, SleepOver 0]
     (clientAfter demoStomp (CallConnect 0) (newStompClient :: unit stomp_client)) < 8"
proof -
  let ?c = "newStompClient :: unit stomp_client"
  let ?es = "[SleepOver 0, SleepOver 0, SleepOver 0] :: unit stomp_event list"
  have 1: "?c = stompRun demoStomp [] newStompClient" by simp
  have 2: "sc_connectionPromise ?c \<noteq> PendingPromise 0" by (simp add: newStompClient_def)
  have 3: "sc_connectionPromise (clientAfter demoStomp (CallConnect 0) ?c) = PendingPromise 0" by code_simp
  have 4: "sc_connectionPromise (stompRun demoStomp (CallConnect 0 # ?es) ?c) = PendingPromise 0" by code_simp
  have "sc_sockets ?c = 0" "max 1 (so_reconnectAttempts demoStomp) = 2"
    "so_webSocketConnectTimeout demoStomp div 250 + 3 = 4" by (simp_all add: newStompClient_def demoStomp_def)
  with stomp_connection_bounds [OF 1 2 3 4] show ?thesis by simp
qed

text \<open>
  The client's promise of a connection whose only attempt cannot create its socket stays rejected: later
  calls fail although a socket could be created.
\<close>

lemma rejected_for_ever:
  "sc_connectionPromise c = RejectedPromise error \<Longrightarrow> stompStep S (CallConnect call) c = (Inr (), c, [Rejected call error])"
  by (simp add: connectStomp_def)

end
