(* ===== verification/Transport_Contract.thy ===== *)
theory Transport_Contract
  imports Stomp Transports
begin

text \<open>
  What the messages of the daemon rely on (\<open>transport/transport.interface.ts\<close>): \<open>publish\<close> hands a message over exactly once
  when it returns, at most once when it throws, and leaves the transport ready for the next one. The data bus, Kafka and a
  connected STOMP client keep this contract, and what follows for a list of messages is proved once.
\<close>

definition publishQuietly :: "('m \<Rightarrow> ('s, 'o, 'a) comp) \<Rightarrow> 'm \<Rightarrow> ('s, 'o, unit) comp" where
  "publishQuietly publish m = catchE (andThen (publish m) (\<lambda>_. ret ())) (\<lambda>_. ret ())"

lemma publishQuietly_apply: "publish m s = (r, t, out) \<Longrightarrow> publishQuietly publish m s = (Inr (), t, out)"
  by (cases r) (simp_all add: publishQuietly_def catchE_def andThen_apply)

locale transport =
  fixes publish :: "'m \<Rightarrow> ('s, 'o, 'a) comp"
    and ready :: "'s \<Rightarrow> bool"
    and deliveries :: "'o list \<Rightarrow> nat"
  assumes no_delivery: "deliveries [] = 0"
    and deliveries_append: "deliveries (out @ out') = deliveries out + deliveries out'"
    and publish_ready: "ready s \<Longrightarrow> publish m s = (r, t, out) \<Longrightarrow> ready t"
    and publish_once: "ready s \<Longrightarrow> publish m s = (Inr x, t, out) \<Longrightarrow> deliveries out = 1"
    and publish_most: "ready s \<Longrightarrow> publish m s = (r, t, out) \<Longrightarrow> deliveries out \<le> 1"
begin

text \<open>One message after the other: all are delivered, or the first failure ends the series.\<close>

lemma publish_all:
  "ready s \<Longrightarrow> mapM publish ms s = (r, t, out) \<Longrightarrow>
    ready t \<and> deliveries out \<le> length ms \<and> (\<forall>xs. r = Inr xs \<longrightarrow> deliveries out = length ms \<and> length xs = length ms)"
proof (induction ms arbitrary: s r t out)
  case Nil
  then show ?case by (auto simp: no_delivery)
next
  case (Cons m ms)
  obtain r1 s1 o1 where first: "publish m s = (r1, s1, o1)" by (metis prod_cases3)
  note one = publish_ready [OF Cons.prems(1) first] publish_most [OF Cons.prems(1) first]
  show ?case
  proof (cases r1)
    case (Inl e)
    with Cons.prems(2) first one show ?thesis by (auto simp: andThen_apply)
  next
    case (Inr x)
    obtain r2 s2 o2 where rest: "mapM publish ms s1 = (r2, s2, o2)" by (metis prod_cases3)
    from Cons.IH [OF one(1) rest] publish_once [OF Cons.prems(1) first [unfolded Inr]] Inr Cons.prems(2) first rest show ?thesis
      by (cases r2) (auto simp: andThen_apply deliveries_append)
  qed
qed

text \<open>Each failure caught, as the cycle does for its modules: the transport stays ready, and no message is delivered twice.\<close>

lemma publish_each:
  "ready s \<Longrightarrow> mapM (publishQuietly publish) ms s = (r, t, out) \<Longrightarrow>
    (\<exists>us. r = Inr us) \<and> ready t \<and> deliveries out \<le> length ms"
proof (induction ms arbitrary: s r t out)
  case Nil
  then show ?case by (auto simp: no_delivery)
next
  case (Cons m ms)
  obtain r1 s1 o1 where first: "publish m s = (r1, s1, o1)" by (metis prod_cases3)
  note one = publish_ready [OF Cons.prems(1) first] publish_most [OF Cons.prems(1) first]
  have step: "publishQuietly publish m s = (Inr (), s1, o1)" using first by (rule publishQuietly_apply)
  obtain r2 s2 o2 where rest: "mapM (publishQuietly publish) ms s1 = (r2, s2, o2)" by (metis prod_cases3)
  from Cons.IH [OF one(1) rest] obtain us where "r2 = Inr us" "ready s2" "deliveries o2 \<le> length ms" by blast
  with Cons.prems(2) step rest one(2) show ?case by (auto simp: andThen_apply deliveries_append)
qed

end

section \<open>The data bus\<close>

fun is_busGauge :: "bus_effect \<Rightarrow> bool" where
  "is_busGauge (BusGauge g n) = True"
| "is_busGauge (BusTransaction tx) = False"

lemma busConnect_keeps: "keeps allFree (busConnect E) is_busGauge"
  unfolding busConnect_def busInitialize_def monitorGuardianDataBusBalance_def oneAtTime_def busMonitorBody_def busAddress_def
    subscribeToEVMChainUpdates_def
  by (intro keep_rules) (auto simp: allFree_def intro!: keep_rules)

lemma gauges_no_transactions: "\<forall>e\<in>set out. is_busGauge e \<Longrightarrow> transactionsOf out = []"
proof (induction out)
  case (Cons e out)
  then show ?case by (cases e) auto
qed simp

lemma busTransport_once:
  assumes "allFree s" and "busTransportPublish E topic m app s = (r, t, out)"
  shows "allFree t \<and> length (transactionsOf out) \<le> 1 \<and> (\<forall>x. r = Inr x \<longrightarrow> length (transactionsOf out) = 1)"
proof -
  obtain r1 s1 o1 where con: "busConnect E s = (r1, s1, o1)" by (metis prod_cases3)
  note kept = tripleD [OF busConnect_keeps assms(1) con]
  have free: "allFree s1" using kept(1,2) by (cases r1) auto
  have none: "transactionsOf o1 = []" using kept(3) by (intro gauges_no_transactions) blast
  show ?thesis
  proof (cases r1)
    case (Inl e)
    with assms(2) con free none show ?thesis by (auto simp: busTransportPublish_def andThen_apply)
  next
    case (Inr u)
    obtain r2 s2 o2 where pub: "busPublish E m app s1 = (r2, s2, o2)" by (metis prod_cases3)
    from busPublish_frees [OF free pub] assms(2) con pub Inr none show ?thesis
      by (auto simp: busTransportPublish_def andThen_apply)
  qed
qed

lemma bus_contract:
  assumes "allFree s" and "(case p of (topic, m) \<Rightarrow> busTransportPublish E topic m app) s = (r, t, out)"
  shows "allFree t" "length (transactionsOf out) \<le> 1" "r = Inr x \<Longrightarrow> length (transactionsOf out) = 1"
  using busTransport_once [OF assms(1), of E "fst p" "snd p" app r t out] assms(2) by (auto split: prod.splits)

interpretation bus_transport: transport "\<lambda>(topic, m). busTransportPublish E topic m app" allFree "\<lambda>out. length (transactionsOf out)"
  by unfold_locales (simp, simp, erule (1) bus_contract, erule (1) bus_contract(3) [OF _ _ refl], erule (1) bus_contract)

section \<open>Kafka\<close>

lemma kafkaPublish_once:
  assumes "kafkaPublish K topic m s = (r, t, out)"
  shows "length out \<le> 1 \<and> (\<forall>x. r = Inr x \<longrightarrow> length out = 1)"
  using assms by (auto simp: kafkaPublish_def andThen_apply split: if_splits sum.splits)

lemma kafka_contract:
  assumes "(case p of (topic, m) \<Rightarrow> kafkaPublish K topic m) s = (r, t, out)"
  shows "length out \<le> 1" "r = Inr x \<Longrightarrow> length out = 1"
  using kafkaPublish_once [of K "fst p" "snd p" s r t out] assms by (auto split: prod.splits)

interpretation kafka_transport: transport "\<lambda>(topic, m). kafkaPublish K topic m" "\<lambda>_. True" length
  by unfold_locales (simp, simp, simp, erule kafka_contract(2) [OF _ refl], erule kafka_contract)

section \<open>STOMP\<close>

text \<open>A connected client sends at once; its call is settled when the socket reports the frame as sent.\<close>

definition stompReady :: "'cb stomp_client \<Rightarrow> bool" where
  "stompReady c \<longleftrightarrow> sc_opened c \<and> sc_connected c \<and> sc_ws c \<noteq> None"

definition framesSent :: "'cb stomp_effect list \<Rightarrow> nat" where
  "framesSent out = length (filter (\<lambda>e. case e of SocketSend ws f \<Rightarrow> True | _ \<Rightarrow> False) out)"

lemma stompPublish_once:
  assumes "stompReady c"
  shows "\<exists>ws f. stompStep S (stompPublish call topic json messageType) c = (Inr (), c, [SocketSend ws f])"
  using assms
  by (auto simp: stompReady_def stompPublish_def whenConnected_def orReject_def sendNow_def transmit_def andThen_apply catchE_def)

lemma stomp_contract:
  assumes "stompReady c"
    and "(case p of (call, topic, json, messageType) \<Rightarrow> stompStep S (stompPublish call topic json messageType)) c = (r, t, out)"
  shows "stompReady t" "framesSent out = 1"
proof -
  obtain call topic json messageType where p: "p = (call, topic, json, messageType)" by (metis prod_cases4)
  from stompPublish_once [OF assms(1), of S call topic json messageType] assms p
  show "stompReady t" "framesSent out = 1" by (auto simp: framesSent_def)
qed

interpretation stomp_transport: transport "\<lambda>(call, topic, json, messageType). stompStep S (stompPublish call topic json messageType)"
    stompReady framesSent
  by unfold_locales (simp add: framesSent_def, simp add: framesSent_def, erule (1) stomp_contract, erule (1) stomp_contract,
    drule (1) stomp_contract(2), simp)

section \<open>A series of messages\<close>

lemma bus_publishes_all:
  "allFree s \<Longrightarrow> mapM (\<lambda>(topic, m). busTransportPublish E topic m app) ms s = (Inr xs, t, out) \<Longrightarrow>
    length (transactionsOf out) = length ms \<and> allFree t"
  using bus_transport.publish_all by blast

lemma bus_publishes_each:
  "allFree s \<Longrightarrow>
    mapM (publishQuietly (\<lambda>(topic, m). busTransportPublish E topic m app)) ms s = (r, t, out) \<Longrightarrow>
    allFree t \<and> length (transactionsOf out) \<le> length ms"
  using bus_transport.publish_each by blast

end
