(* ===== verification/Rpc_Metrics.thy ===== *)
theory Rpc_Metrics
  imports JS_Strings
begin

text \<open>
  The metrics of the RPC providers (\<open>common/rpc-metrics\<close>): the events of a provider become counters and
  histograms, and the requests without an answer are kept until one comes or they are too old. The registry
  of metrics, the factories of the providers, \<open>URL\<close> and \<open>JSON.stringify\<close> are parameters.
\<close>

section \<open>Events and metrics\<close>

record rpc_config =
  rc_network :: string
  rc_chainId :: string
  rc_layer :: string

record rpc_request =
  rq_id :: string
  rq_method :: string

text \<open>The error of a response and its code, when there is one.\<close>

record rpc_response =
  rp_error :: "int option option"

datatype rpc_responses = OneResponse rpc_response | ManyResponses "rpc_response list"

datatype rpc_event =
    RequestBatched "rpc_request list"
  | ResponseBatched string "rpc_request list" "rpc_responses option"
  | ResponseBatchedError string "rpc_request list" "nat option"
  | OtherAction

record base_labels =
  bl_network :: string
  bl_layer :: string
  bl_chain_id :: string
  bl_provider :: string

text \<open>A duration is in milliseconds here, in seconds in the histogram.\<close>

datatype rpc_metric =
    HttpRpcRequestsTotal base_labels bool string string
  | HttpRpcBatchSize base_labels nat
  | HttpRpcResponseTime base_labels int
  | HttpRpcRequestPayloadBytes base_labels nat
  | HttpRpcResponsePayloadBytes base_labels nat
  | RpcRequestTotal base_labels string string string

record rpc_env =
  re_providers :: "rpc_config list"
  re_providerFactory :: "rpc_config \<Rightarrow> js_error + (nat \<times> bool) option"
  re_registry :: "rpc_metric \<Rightarrow> js_error option"
  re_parseUrl :: "string \<Rightarrow> js_error + string \<times> string"
  re_requestJson :: "rpc_request list \<Rightarrow> js_error + string"
  re_responseJson :: "rpc_responses \<Rightarrow> js_error + string"

record rpc_state =
  rm_pendingRequests :: "(string \<times> nat \<times> rpc_config) list"
  rm_providerContexts :: "(rpc_config \<times> nat option) list"

type_synonym 'a rpc_metrics = "(rpc_state, rpc_metric, 'a) comp"

definition PENDING_REQUESTS_CLEANUP_THRESHOLD :: nat where
  "PENDING_REQUESTS_CLEANUP_THRESHOLD = 1000"

definition PENDING_REQUESTS_MAX_AGE_MS :: nat where
  "PENDING_REQUESTS_MAX_AGE_MS = 5 * 60 * 1000"

text \<open>A call of the registry; it may throw.\<close>

definition record_metric :: "rpc_env \<Rightarrow> rpc_metric \<Rightarrow> unit rpc_metrics" where
  "record_metric E m = (case re_registry E m of Some e \<Rightarrow> raise e | None \<Rightarrow> emit [m])"

section \<open>Labels\<close>

definition extractHostname :: "rpc_env \<Rightarrow> string \<Rightarrow> js_error + string" where
  "extractHostname E domain =
     (if take 4 domain \<noteq> ''http'' then Inr domain
      else bindR (re_parseUrl E domain) (\<lambda>(hostname, port).
        Inr (if port \<noteq> '''' then hostname @ '':'' @ port else hostname)))"

definition digitsOnly :: "string \<Rightarrow> bool" where
  "digitsOnly s \<longleftrightarrow> s \<noteq> [] \<and> list_all is_digit s"

text \<open>The regular expression: four groups of digits between dots, and a port after a colon or none.\<close>

definition isIpAddress :: "string \<Rightarrow> bool" where
  "isIpAddress hostname \<longleftrightarrow>
     (case splitOn CHR ''.'' hostname of
        [a, b, c, d] \<Rightarrow> list_all digitsOnly [a, b, c] \<and>
          (case splitOn CHR '':'' d of
             [e] \<Rightarrow> digitsOnly e
           | [e, port] \<Rightarrow> digitsOnly e \<and> digitsOnly port
           | _ \<Rightarrow> False)
      | _ \<Rightarrow> False)"

definition extractSecondLevelDomain :: "string \<Rightarrow> string" where
  "extractSecondLevelDomain hostname =
     (let parts = splitOn CHR ''.'' hostname; n = length parts in
      if n \<ge> 2 then toLowerCase (parts ! (n - 2) @ ''.'' @ parts ! (n - 1)) else toLowerCase hostname)"

definition normalizeProvider :: "rpc_env \<Rightarrow> string \<Rightarrow> string" where
  "normalizeProvider E domain =
     (if domain = '''' then ''unknown''
      else case extractHostname E domain of
        Inl error \<Rightarrow> ''unknown''
      | Inr hostname \<Rightarrow> (if isIpAddress hostname then hostname else extractSecondLevelDomain hostname))"

definition getBaseLabels :: "rpc_env \<Rightarrow> string \<Rightarrow> rpc_config \<Rightarrow> base_labels" where
  "getBaseLabels E domain config =
     \<lparr>bl_network = rc_network config, bl_layer = rc_layer config, bl_chain_id = rc_chainId config,
      bl_provider = normalizeProvider E domain\<rparr>"

text \<open>The length of the bytes of the JSON text.\<close>

definition calculatePayloadSize :: "js_error + string \<Rightarrow> nat" where
  "calculatePayloadSize json = (case json of Inl error \<Rightarrow> 0 | Inr text \<Rightarrow> length text)"

section \<open>Pending requests\<close>

definition generateRequestKey :: "rpc_request list \<Rightarrow> rpc_config \<Rightarrow> string" where
  "generateRequestKey requests config =
     rc_network config @ '':'' @ rc_layer config @ '':'' @ joinWith CHR '','' (map rq_id requests)"

definition cleanupOldRequests :: "nat \<Rightarrow> unit rpc_metrics" where
  "cleanupOldRequests now = modifyS (\<lambda>s. s\<lparr>rm_pendingRequests :=
     filter (\<lambda>(key, startTime, config). \<not> int startTime < int now - int PENDING_REQUESTS_MAX_AGE_MS) (rm_pendingRequests s)\<rparr>)"

definition maybeCleanupOldRequests :: "nat \<Rightarrow> unit rpc_metrics" where
  "maybeCleanupOldRequests now = andThen getS (\<lambda>s.
     if length (rm_pendingRequests s) > PENDING_REQUESTS_CLEANUP_THRESHOLD then cleanupOldRequests now else ret ())"

text \<open>Each handler reads the clock twice, at most.\<close>

definition trackRequestStart :: "nat \<Rightarrow> nat \<Rightarrow> rpc_request list \<Rightarrow> rpc_config \<Rightarrow> unit rpc_metrics" where
  "trackRequestStart now now' requests config =
     andThen (modifyS (\<lambda>s. s\<lparr>rm_pendingRequests :=
       AList.update (generateRequestKey requests config) (now, config) (rm_pendingRequests s)\<rparr>)) (\<lambda>_.
     maybeCleanupOldRequests now')"

definition trackResponseTime :: "rpc_env \<Rightarrow> nat \<Rightarrow> nat \<Rightarrow> rpc_request list \<Rightarrow> base_labels \<Rightarrow> rpc_config \<Rightarrow> unit rpc_metrics" where
  "trackResponseTime E now now' requests baseLabels config =
     andThen getS (\<lambda>s.
       let requestKey = generateRequestKey requests config in
       andThen (case map_of (rm_pendingRequests s) requestKey of
           None \<Rightarrow> ret ()
         | Some (startTime, _) \<Rightarrow>
             andThen (record_metric E (HttpRpcResponseTime baseLabels (int now - int startTime))) (\<lambda>_.
             modifyS (\<lambda>s. s\<lparr>rm_pendingRequests := AList.delete requestKey (rm_pendingRequests s)\<rparr>))) (\<lambda>_.
       maybeCleanupOldRequests now'))"

section \<open>Responses\<close>

definition trackPayloadSizes :: "rpc_env \<Rightarrow> base_labels \<Rightarrow> rpc_request list \<Rightarrow> rpc_responses option \<Rightarrow> unit rpc_metrics" where
  "trackPayloadSizes E baseLabels request response =
     andThen (record_metric E (HttpRpcRequestPayloadBytes baseLabels (calculatePayloadSize (re_requestJson E request)))) (\<lambda>_.
       case response of
         None \<Rightarrow> ret ()
       | Some r \<Rightarrow> record_metric E (HttpRpcResponsePayloadBytes baseLabels (calculatePayloadSize (re_responseJson E r))))"

definition trackRpcCallFailures :: "rpc_env \<Rightarrow> rpc_request list \<Rightarrow> string \<Rightarrow> rpc_config \<Rightarrow> unit rpc_metrics" where
  "trackRpcCallFailures E requests provider config =
     andThen (mapM (\<lambda>request. record_metric E (RpcRequestTotal
       \<lparr>bl_network = rc_network config, bl_layer = rc_layer config, bl_chain_id = rc_chainId config, bl_provider = provider\<rparr>
       (rq_method request) ''fail'' '''')) requests) (\<lambda>_. ret ())"

text \<open>The response at an index is \<open>undefined\<close> past the end of the array.\<close>

definition responseAt :: "rpc_responses option \<Rightarrow> nat \<Rightarrow> rpc_response option" where
  "responseAt responses index =
     (case responses of
        None \<Rightarrow> None
      | Some (OneResponse r) \<Rightarrow> (if index = 0 then Some r else None)
      | Some (ManyResponses rs) \<Rightarrow> (if index < length rs then Some (rs ! index) else None))"

definition rpcErrorCode :: "rpc_response option \<Rightarrow> string" where
  "rpcErrorCode response =
     (case response of
        Some r \<Rightarrow> (case rp_error r of Some (Some code) \<Rightarrow> (if code = 0 then '''' else int_string code) | _ \<Rightarrow> '''')
      | None \<Rightarrow> '''')"

definition methodResult :: "rpc_response option \<Rightarrow> string" where
  "methodResult response =
     (case response of Some r \<Rightarrow> (if rp_error r \<noteq> None then ''fail'' else ''success'') | None \<Rightarrow> ''success'')"

definition trackRpcCallMetrics :: "rpc_env \<Rightarrow> rpc_request list \<Rightarrow> rpc_responses option \<Rightarrow> string \<Rightarrow> rpc_config \<Rightarrow> unit rpc_metrics" where
  "trackRpcCallMetrics E requests responses provider config =
     andThen (mapM (\<lambda>(index, request). record_metric E (RpcRequestTotal
       \<lparr>bl_network = rc_network config, bl_layer = rc_layer config, bl_chain_id = rc_chainId config, bl_provider = provider\<rparr>
       (rq_method request) (methodResult (responseAt responses index)) (rpcErrorCode (responseAt responses index))))
       (List.enumerate 0 requests)) (\<lambda>_. ret ())"

definition trackBatchedResponse ::
    "rpc_env \<Rightarrow> nat \<Rightarrow> nat \<Rightarrow> string \<Rightarrow> rpc_request list \<Rightarrow> rpc_responses option \<Rightarrow> rpc_config \<Rightarrow> unit rpc_metrics" where
  "trackBatchedResponse E now now' domain requests response config =
     (let baseLabels = getBaseLabels E domain config; batchSize = length requests in
      andThen (record_metric E (HttpRpcRequestsTotal baseLabels (batchSize > 1) ''2xx'' ''success'')) (\<lambda>_.
      andThen (trackResponseTime E now now' requests baseLabels config) (\<lambda>_.
      andThen (record_metric E (HttpRpcBatchSize baseLabels batchSize)) (\<lambda>_.
      andThen (trackPayloadSizes E baseLabels requests response) (\<lambda>_.
        trackRpcCallMetrics E requests response (bl_provider baseLabels) config)))))"

definition errorResponseCode :: "nat option \<Rightarrow> string" where
  "errorResponseCode status =
     (let errorStatusCode = (case status of Some n \<Rightarrow> (if n = 0 then ''5xx'' else dec_string n) | None \<Rightarrow> ''5xx'')
      in if take 1 errorStatusCode = ''4'' then ''4xx'' else ''5xx'')"

definition trackBatchedErrorResponse ::
    "rpc_env \<Rightarrow> nat \<Rightarrow> nat \<Rightarrow> string \<Rightarrow> rpc_request list \<Rightarrow> nat option \<Rightarrow> rpc_config \<Rightarrow> unit rpc_metrics" where
  "trackBatchedErrorResponse E now now' domain requests status config =
     (let baseLabels = getBaseLabels E domain config; batchSize = length requests in
      andThen (record_metric E (HttpRpcRequestsTotal baseLabels (batchSize > 1) (errorResponseCode status) ''fail'')) (\<lambda>_.
      andThen (trackResponseTime E now now' requests baseLabels config) (\<lambda>_.
      andThen (record_metric E (HttpRpcBatchSize baseLabels batchSize)) (\<lambda>_.
      andThen (record_metric E (HttpRpcRequestPayloadBytes baseLabels (calculatePayloadSize (re_requestJson E requests)))) (\<lambda>_.
        trackRpcCallFailures E requests (bl_provider baseLabels) config)))))"

definition handleRpcEvent :: "rpc_env \<Rightarrow> nat \<Rightarrow> nat \<Rightarrow> rpc_event \<Rightarrow> rpc_config \<Rightarrow> unit rpc_metrics" where
  "handleRpcEvent E now now' event config =
     catchE (case event of
         RequestBatched requests \<Rightarrow> trackRequestStart now now' requests config
       | ResponseBatched domain requests response \<Rightarrow> trackBatchedResponse E now now' domain requests response config
       | ResponseBatchedError domain requests status \<Rightarrow> trackBatchedErrorResponse E now now' domain requests status config
       | OtherAction \<Rightarrow> ret ())
       (\<lambda>error. ret ())"

section \<open>The module\<close>

text \<open>A provider is its number and whether it has an event emitter; without one the clean-up does nothing.\<close>

definition setupEventListeners :: "(nat \<times> bool) option \<Rightarrow> nat option" where
  "setupEventListeners provider = (case provider of Some (p, True) \<Rightarrow> Some p | _ \<Rightarrow> None)"

definition rpcModuleInit :: "rpc_env \<Rightarrow> unit rpc_metrics" where
  "rpcModuleInit E =
     andThen (mapM (\<lambda>config.
       catchE (andThen (liftR (re_providerFactory E config)) (\<lambda>provider.
         modifyS (\<lambda>s. s\<lparr>rm_providerContexts := rm_providerContexts s @ [(config, setupEventListeners provider)]\<rparr>)))
         (\<lambda>error. ret ())) (re_providers E)) (\<lambda>_. ret ())"

definition rpcModuleDestroy :: "unit rpc_metrics" where
  "rpcModuleDestroy = modifyS (\<lambda>s. s\<lparr>rm_providerContexts := [], rm_pendingRequests := []\<rparr>)"

text \<open>An event of a provider reaches the listeners that are set up on it.\<close>

definition rpcEmit :: "rpc_env \<Rightarrow> nat \<Rightarrow> nat \<Rightarrow> nat \<Rightarrow> rpc_event \<Rightarrow> unit rpc_metrics" where
  "rpcEmit E now now' provider event = andThen getS (\<lambda>s.
     andThen (mapM (\<lambda>(config, p). if p = Some provider then handleRpcEvent E now now' event config else ret ())
       (rm_providerContexts s)) (\<lambda>_. ret ()))"

section \<open>How many requests are kept\<close>

record rpc_arrival =
  ra_now :: nat
  ra_now' :: nat
  ra_event :: rpc_event
  ra_config :: rpc_config

definition rpcAfter :: "rpc_env \<Rightarrow> rpc_arrival \<Rightarrow> rpc_state \<Rightarrow> rpc_state" where
  "rpcAfter E a s = fst (snd (handleRpcEvent E (ra_now a) (ra_now' a) (ra_event a) (ra_config a) s))"

definition rpcRun :: "rpc_env \<Rightarrow> rpc_arrival list \<Rightarrow> rpc_state \<Rightarrow> rpc_state" where
  "rpcRun E as s = fold (rpcAfter E) as s"

definition isRequest :: "rpc_arrival \<Rightarrow> bool" where
  "isRequest a \<longleftrightarrow> (case ra_event a of RequestBatched requests \<Rightarrow> True | _ \<Rightarrow> False)"

definition startedRequests :: "(nat \<Rightarrow> bool) \<Rightarrow> rpc_arrival list \<Rightarrow> nat" where
  "startedRequests Q as = length (filter (\<lambda>a. isRequest a \<and> Q (ra_now a)) as)"

text \<open>The entries started at a time with \<open>Q\<close>.\<close>

definition entries :: "(nat \<Rightarrow> bool) \<Rightarrow> (string \<times> nat \<times> rpc_config) list \<Rightarrow> nat" where
  "entries Q ps = length (filter (\<lambda>(k, t, c). Q t) ps)"

lemma entries_simps [simp]:
  "entries Q [] = 0" "entries Q ((k, t, c) # ps) = (if Q t then 1 else 0) + entries Q ps"
  by (simp_all add: entries_def)

lemma entries_update: "entries Q (AList.update k (t, c) ps) \<le> entries Q ps + (if Q t then 1 else 0)"
  by (induction ps) auto

lemma entries_filter: "entries Q (filter P ps) \<le> entries Q ps"
  unfolding entries_def by (induction ps) auto

lemma entries_delete: "entries Q (AList.delete k ps) \<le> entries Q ps"
  by (simp add: AList.delete_eq entries_filter)

definition pendingUpTo :: "(nat \<Rightarrow> bool) \<Rightarrow> nat \<Rightarrow> rpc_state \<Rightarrow> bool" where
  "pendingUpTo Q n s \<longleftrightarrow> entries Q (rm_pendingRequests s) \<le> n"

lemma pendingUpTo_cleanup [keep_rules]: "keeps (pendingUpTo Q n) (maybeCleanupOldRequests now) (\<lambda>_. True)"
  unfolding maybeCleanupOldRequests_def cleanupOldRequests_def
  by (intro keep_rules) (auto simp: pendingUpTo_def intro: order_trans [OF entries_filter])

lemma pendingUpTo_metric [keep_rules]: "keeps (pendingUpTo Q n) (record_metric E m) (\<lambda>_. True)"
  unfolding record_metric_def by (intro keep_rules) simp

lemma pendingUpTo_mapM [keep_rules]:
  "(\<And>x. keeps (pendingUpTo Q n) (f x) (\<lambda>_. True)) \<Longrightarrow> keeps (pendingUpTo Q n) (mapM f xs) (\<lambda>_. True)"
  by (induction xs) (auto intro!: keep_rules)

lemma pendingUpTo_time [keep_rules]: "keeps (pendingUpTo Q n) (trackResponseTime E now now' rs b c) (\<lambda>_. True)"
  unfolding trackResponseTime_def Let_def
  by (intro keep_rules) (auto simp: pendingUpTo_def intro: order_trans [OF entries_delete])

lemma pendingUpTo_answers [keep_rules]:
  "keeps (pendingUpTo Q n) (trackBatchedResponse E now now' d rs r c) (\<lambda>_. True)"
  "keeps (pendingUpTo Q n) (trackBatchedErrorResponse E now now' d rs st c) (\<lambda>_. True)"
  unfolding trackBatchedResponse_def trackBatchedErrorResponse_def trackPayloadSizes_def trackRpcCallMetrics_def
    trackRpcCallFailures_def Let_def
  by (intro keep_rules; simp)+

lemma rpcAfter_entries:
  "entries Q (rm_pendingRequests (rpcAfter E a s)) \<le> entries Q (rm_pendingRequests s) + (if isRequest a \<and> Q (ra_now a) then 1 else 0)"
  (is "_ \<le> ?n")
proof -
  have run_ok: "triple (\<lambda>t. t = s) (handleRpcEvent E (ra_now a) (ra_now' a) (ra_event a) (ra_config a))
      (\<lambda>_. pendingUpTo Q ?n) (pendingUpTo Q ?n) (\<lambda>_. True)"
  proof (cases "ra_event a")
    case (RequestBatched rs)
    let ?k = "generateRequestKey rs (ra_config a)"
    have "triple (\<lambda>t. t = s) (modifyS (\<lambda>s. s\<lparr>rm_pendingRequests := AList.update ?k (ra_now a, ra_config a) (rm_pendingRequests s)\<rparr>))
        (\<lambda>_. pendingUpTo Q ?n) (pendingUpTo Q ?n) (\<lambda>_. True)"
      using entries_update [of Q ?k "ra_now a" "ra_config a"]
      by (intro triple_modifyS) (simp add: pendingUpTo_def isRequest_def RequestBatched)
    then have "triple (\<lambda>t. t = s) (trackRequestStart (ra_now a) (ra_now' a) rs (ra_config a)) (\<lambda>_. pendingUpTo Q ?n) (pendingUpTo Q ?n) (\<lambda>_. True)"
      unfolding trackRequestStart_def by (rule triple_andThen) (rule pendingUpTo_cleanup)
    then show ?thesis unfolding handleRpcEvent_def RequestBatched rpc_event.case
      by (rule triple_catchE) (rule keep_rules)
  qed (auto simp: handleRpcEvent_def isRequest_def pendingUpTo_def [symmetric] intro!: triple_pre [OF keeps_catchE] keep_rules,
       auto simp: pendingUpTo_def)
  obtain r t out where run: "handleRpcEvent E (ra_now a) (ra_now' a) (ra_event a) (ra_config a) s = (r, t, out)"
    by (metis prod_cases3)
  show ?thesis using tripleD(1,2) [OF run_ok refl run] by (cases r) (auto simp: rpcAfter_def run pendingUpTo_def)
qed

lemma rpcRun_entries: "entries Q (rm_pendingRequests (rpcRun E as s)) \<le> entries Q (rm_pendingRequests s) + startedRequests Q as"
proof (induction as arbitrary: s)
  case Nil
  then show ?case by (simp add: rpcRun_def)
next
  case (Cons a as)
  from Cons.IH [of "rpcAfter E a s"] rpcAfter_entries [of Q E a s] show ?case
    by (auto simp: rpcRun_def startedRequests_def split: if_split_asm)
qed

text \<open>
  C32: When a request has been recorded, the daemon keeps at most a thousand requests without an answer, or no more than
  were started in the five minutes before: whatever answers are lost, the table of pending requests does not grow
  for ever.
\<close>

theorem rpc_pending_bounded:
  assumes "isRequest a" and "rm_pendingRequests s = []"
  shows "length (rm_pendingRequests (rpcRun E (as @ [a]) s)) \<le>
    max 1000 (startedRequests (\<lambda>t. ra_now' a \<le> t + 300000) (as @ [a]))"
proof -
  let ?young = "\<lambda>t. ra_now' a \<le> t + 300000"
  let ?u = "rpcRun E as s" and ?t = "rpcRun E (as @ [a]) s"
  obtain rs where rs: "ra_event a = RequestBatched rs" using assms(1) by (auto simp: isRequest_def split: rpc_event.split_asm)
  let ?ps = "AList.update (generateRequestKey rs (ra_config a)) (ra_now a, ra_config a) (rm_pendingRequests ?u)"
  have last: "rm_pendingRequests ?t = (if length ?ps > 1000
      then filter (\<lambda>(key, startTime, config). \<not> int startTime < int (ra_now' a) - 300000) ?ps else ?ps)"
    by (simp add: rpcRun_def rpcAfter_def handleRpcEvent_def rs trackRequestStart_def maybeCleanupOldRequests_def catchE_def
        cleanupOldRequests_def PENDING_REQUESTS_CLEANUP_THRESHOLD_def PENDING_REQUESTS_MAX_AGE_MS_def)
  have entries: "entries ?young (rm_pendingRequests ?t) \<le> startedRequests ?young (as @ [a])"
    using rpcRun_entries [of ?young E "as @ [a]" s] by (simp add: assms(2))
  show ?thesis
  proof (cases "length ?ps > 1000")
    case True
    with last have "\<forall>x\<in>set (rm_pendingRequests ?t). case x of (k, t, c) \<Rightarrow> ?young t" by auto
    then have "filter (\<lambda>(k, t, c). ?young t) (rm_pendingRequests ?t) = rm_pendingRequests ?t" by (rule filter_True)
    with entries show ?thesis by (simp add: entries_def)
  qed (simp add: last)
qed

definition demoRpcConfig :: rpc_config where
  "demoRpcConfig = \<lparr>rc_network = ''ethereum'', rc_chainId = ''1'', rc_layer = ''el''\<rparr>"

definition demoRpcEnv :: rpc_env where
  "demoRpcEnv = \<lparr>re_providers = [demoRpcConfig], re_providerFactory = (\<lambda>_. Inr (Some (0, True))), re_registry = (\<lambda>_. None),
     re_parseUrl = (\<lambda>_. Inl TypeError), re_requestJson = (\<lambda>_. Inr ''[]''), re_responseJson = (\<lambda>_. Inr ''[]'')\<rparr>"

theorem rpc_pending_bounded_witness:
  "length (rm_pendingRequests (rpcRun demoRpcEnv
     [\<lparr>ra_now = 5, ra_now' = 5, ra_event = RequestBatched [\<lparr>rq_id = ''1'', rq_method = ''eth_call''\<rparr>], ra_config = demoRpcConfig\<rparr>]
     \<lparr>rm_pendingRequests = [], rm_providerContexts = []\<rparr>)) \<le> 1000"
  using rpc_pending_bounded [of "\<lparr>ra_now = 5, ra_now' = 5, ra_event = RequestBatched [\<lparr>rq_id = ''1'', rq_method = ''eth_call''\<rparr>],
      ra_config = demoRpcConfig\<rparr>" "\<lparr>rm_pendingRequests = [], rm_providerContexts = []\<rparr>" demoRpcEnv "[]"]
  by (simp add: isRequest_def startedRequests_def)

text \<open>A request is timed once: its answer removes it.\<close>

lemma answered_once:
  assumes "re_registry E = (\<lambda>m. None)" and "map_of (rm_pendingRequests s) (generateRequestKey rs c) = Some (start, c')"
  shows "\<exists>t. trackResponseTime E now now' rs b c s = (Inr (), t, [HttpRpcResponseTime b (int now - int start)]) \<and>
    map_of (rm_pendingRequests t) (generateRequestKey rs c) = None"
proof -
  let ?k = "generateRequestKey rs c" let ?ps = "AList.delete (generateRequestKey rs c) (rm_pendingRequests s)"
  have "map_of ?ps ?k = None" by (simp add: delete_conv')
  then have "map_of (filter P ?ps) ?k = None" for P by (auto simp: map_of_eq_None_iff)
  with assms show ?thesis
    by (simp add: trackResponseTime_def record_metric_def maybeCleanupOldRequests_def cleanupOldRequests_def andThen_apply delete_conv')
qed

end
