(* ===== verification/Configuration_Loading.thy ===== *)
theory Configuration_Loading
  imports JS_Strings
begin

text \<open>
  The configuration (\<open>common/config\<close>): the initial values, transformations and conditions of
  \<open>in-memory-configuration.ts\<close>, the secrets that \<open>config-loader.service.ts\<close> reads from files, and the factory of
  \<open>config.module.ts\<close>. The decorators are data here; what \<open>class-validator\<close>, \<open>class-transformer\<close>,
  \<open>ethers\<close> and the file system do with them are parameters.
\<close>

section \<open>The class\<close>

text \<open>Properties are read by name; a balance is its amount in wei, \<open>None\<close> is \<open>NaN\<close>.\<close>

datatype config_value =
    CUndefined
  | CString string
  | CNumber "int option"
  | CBool bool
  | CList "string list"
  | CWei nat

type_synonym configuration = "string \<Rightarrow> config_value"

fun falsy :: "config_value \<Rightarrow> bool" where
  "falsy CUndefined = True"
| "falsy (CString s) = (s = [])"
| "falsy (CNumber n) = (n = None \<or> n = Some 0)"
| "falsy (CBool b) = (\<not> b)"
| "falsy (CList xs) = False"
| "falsy (CWei n) = False"

definition ether :: nat where
  "ether = 10 ^ 18"

definition initialValue :: "string \<Rightarrow> config_value" where
  "initialValue name = (case map_of
     [(''NODE_ENV'', CString ''development''), (''PORT'', CNumber (Some 3000)), (''LOG_LEVEL'', CString ''info''),
      (''LOG_FORMAT'', CString ''json''), (''RPC_URL'', CString []), (''WALLET_PRIVATE_KEY'', CString []),
      (''WALLET_PRIVATE_KEY_FILE'', CString []), (''WALLET_PRIVATE_KEY_2'', CString []), (''WALLET_PRIVATE_KEY_2_FILE'', CString []),
      (''KAFKA_CLIENT_ID'', CString []), (''BROKER_TOPIC'', CString ''defender''), (''PUBSUB_SERVICE'', CString ''rabbitmq''),
      (''KAFKA_BROKER_ADDRESS_1'', CString []), (''KAFKA_BROKER_ADDRESS_2'', CString []), (''KAFKA_SSL'', CBool False),
      (''KAFKA_SASL_MECHANISM'', CString ''scram-sha-256''), (''KAFKA_USERNAME'', CString []), (''KAFKA_PASSWORD'', CString []),
      (''RABBITMQ_URL'', CString []), (''RABBITMQ_LOGIN'', CString []), (''RABBITMQ_PASSCODE'', CString []),
      (''RABBITMQ_PASSCODE_FILE'', CString []), (''REGISTRY_KEYS_QUERY_BATCH_SIZE'', CNumber (Some 200)),
      (''REGISTRY_KEYS_QUERY_CONCURRENCY'', CNumber (Some 5)), (''KEYS_API_PORT'', CNumber (Some 0)), (''KEYS_API_HOST'', CString []),
      (''KEYS_API_URL'', CString []), (''LOCATOR_DEVNET_ADDRESS'', CString []), (''DELEGATION_CONTRACT_ADDRESS'', CString []),
      (''WALLET_MIN_BALANCE'', CWei (ether div 2)), (''WALLET_CRITICAL_BALANCE'', CWei (ether div 5)),
      (''EVM_CHAIN_DATA_BUS_ADDRESS'', CString []), (''EVM_CHAIN_DATA_BUS_PROVIDER_URL'', CString []),
      (''EVM_CHAIN_DATA_BUS_WALLET_MIN_BALANCE'', CWei ether)] name of Some v \<Rightarrow> v | None \<Rightarrow> CUndefined)"

subsection \<open>Transformations\<close>

text \<open>\<open>parseInt(value, 10)\<close>: white space, a sign, and the digits up to the first other character.\<close>

definition parseInt10 :: "string \<Rightarrow> int option" where
  "parseInt10 value =
     (let s = dropWhile is_space value;
          negative = (case s of c # _ \<Rightarrow> c = CHR ''-'' | [] \<Rightarrow> False);
          t = (case s of c # u \<Rightarrow> (if c = CHR ''-'' \<or> c = CHR ''+'' then u else s) | [] \<Rightarrow> []);
          ds = takeWhile is_digit t
      in if ds = [] then None else Some (if negative then - int (digits_value ds) else int (digits_value ds)))"

definition dropSlash :: "string \<Rightarrow> string" where
  "dropSlash url = (if url \<noteq> [] \<and> last url = CHR ''/'' then butlast url else url)"

definition splitUrls :: "string \<Rightarrow> string list" where
  "splitUrls value = map (\<lambda>url. trimSpace (dropSlash url)) (splitOn CHR '','' value)"

definition transformToWei :: "(string \<Rightarrow> js_error + nat) \<Rightarrow> string \<Rightarrow> config_value" where
  "transformToWei parseEther value = (case parseEther value of Inr wei \<Rightarrow> CWei wei | Inl error \<Rightarrow> CNumber None)"

definition transformValue :: "(string \<Rightarrow> js_error + nat) \<Rightarrow> string \<Rightarrow> string \<Rightarrow> config_value" where
  "transformValue parseEther name value =
     (if name \<in> {''PORT'', ''CHAIN_ID'', ''REGISTRY_KEYS_QUERY_BATCH_SIZE'', ''REGISTRY_KEYS_QUERY_CONCURRENCY'', ''KEYS_API_PORT'',
        ''EVM_CHAIN_DATA_BUS_CHAIN_ID''} then CNumber (parseInt10 value)
      else if name \<in> {''PROVIDERS_URLS'', ''EVM_CHAIN_DATA_BUS_PROVIDERS_URLS''} then CList (splitUrls value)
      else if name = ''KAFKA_SSL'' then CBool (toLowerCase value = ''true'')
      else if name \<in> {''WALLET_MIN_BALANCE'', ''WALLET_CRITICAL_BALANCE'', ''EVM_CHAIN_DATA_BUS_WALLET_MIN_BALANCE''}
      then transformToWei parseEther value
      else CString value)"

subsection \<open>Constraints\<close>

datatype constraint =
    IsOptional
  | IsNotEmpty
  | IsString
  | IsNumber
  | Min int
  | IsIn "string list"
  | IsArray
  | ArrayMinSize nat
  | IsEthereumAddress
  | IsEthereumPrivateKey
  | IsInstanceBigNumber

definition constraints :: "(string \<times> constraint list) list" where
  "constraints =
     [(''NODE_ENV'', [IsNotEmpty, IsIn [''development'', ''production'', ''test'']]),
      (''PORT'', [IsNotEmpty, IsNumber, Min 1]),
      (''LOG_LEVEL'', [IsNotEmpty, IsIn [''error'', ''warning'', ''notice'', ''info'', ''debug'']]),
      (''LOG_FORMAT'', [IsString, IsIn [''simple'', ''json'']]),
      (''RPC_URL'', [IsNotEmpty, IsString]),
      (''PROVIDERS_URLS'', [IsOptional, IsArray, ArrayMinSize 1]),
      (''CHAIN_ID'', [IsNotEmpty, IsNumber]),
      (''WALLET_PRIVATE_KEY'', [IsString]),
      (''WALLET_PRIVATE_KEY_FILE'', [IsString]),
      (''WALLET_PRIVATE_KEY_2'', [IsEthereumPrivateKey]),
      (''WALLET_PRIVATE_KEY_2_FILE'', [IsString]),
      (''KAFKA_CLIENT_ID'', [IsString]),
      (''BROKER_TOPIC'', [IsString]),
      (''PUBSUB_SERVICE'', [IsString, IsIn [''kafka'', ''rabbitmq'', ''evm-chain'']]),
      (''KAFKA_BROKER_ADDRESS_1'', [IsNotEmpty, IsString]),
      (''KAFKA_BROKER_ADDRESS_2'', [IsString]),
      (''KAFKA_SSL'', [IsNotEmpty]),
      (''KAFKA_SASL_MECHANISM'', [IsNotEmpty, IsString, IsIn [''plain'', ''scram-sha-256'', ''scram-sha-512'']]),
      (''KAFKA_USERNAME'', [IsNotEmpty, IsString]),
      (''KAFKA_PASSWORD'', [IsNotEmpty, IsString]),
      (''RABBITMQ_URL'', [IsNotEmpty, IsString]),
      (''RABBITMQ_LOGIN'', [IsNotEmpty, IsString]),
      (''RABBITMQ_PASSCODE'', [IsNotEmpty, IsString]),
      (''RABBITMQ_PASSCODE_FILE'', [IsString, IsNotEmpty]),
      (''REGISTRY_KEYS_QUERY_BATCH_SIZE'', [IsOptional, IsNumber, Min 1]),
      (''REGISTRY_KEYS_QUERY_CONCURRENCY'', [IsOptional, IsNumber, Min 1]),
      (''KEYS_API_PORT'', [IsNotEmpty, IsNumber, Min 1]),
      (''KEYS_API_HOST'', [IsNotEmpty, IsString]),
      (''KEYS_API_URL'', [IsNotEmpty, IsString]),
      (''LOCATOR_DEVNET_ADDRESS'', [IsOptional, IsString]),
      (''DELEGATION_CONTRACT_ADDRESS'', [IsEthereumAddress]),
      (''WALLET_MIN_BALANCE'', [IsOptional, IsInstanceBigNumber]),
      (''WALLET_CRITICAL_BALANCE'', [IsOptional, IsInstanceBigNumber]),
      (''EVM_CHAIN_DATA_BUS_ADDRESS'', [IsNotEmpty, IsString]),
      (''EVM_CHAIN_DATA_BUS_PROVIDER_URL'', [IsNotEmpty, IsString]),
      (''EVM_CHAIN_DATA_BUS_PROVIDERS_URLS'', [IsOptional, IsArray, ArrayMinSize 1]),
      (''EVM_CHAIN_DATA_BUS_CHAIN_ID'', [IsNotEmpty, IsNumber]),
      (''EVM_CHAIN_DATA_BUS_WALLET_MIN_BALANCE'', [IsOptional, IsInstanceBigNumber])]"

text \<open>The functions given to \<open>ValidateIf\<close>; a property without one is always validated.\<close>

definition validateIf :: "string \<Rightarrow> configuration \<Rightarrow> bool" where
  "validateIf name conf \<longleftrightarrow>
     (if name = ''WALLET_PRIVATE_KEY_2'' then conf ''WALLET_PRIVATE_KEY_2'' \<noteq> CString []
      else if name = ''DELEGATION_CONTRACT_ADDRESS'' then conf ''DELEGATION_CONTRACT_ADDRESS'' \<noteq> CString []
      else if name \<in> {''KAFKA_BROKER_ADDRESS_1'', ''KAFKA_BROKER_ADDRESS_2'', ''KAFKA_SSL'', ''KAFKA_SASL_MECHANISM'', ''KAFKA_USERNAME'',
        ''KAFKA_PASSWORD''} then conf ''PUBSUB_SERVICE'' = CString ''kafka''
      else if name \<in> {''RABBITMQ_URL'', ''RABBITMQ_LOGIN''} then conf ''PUBSUB_SERVICE'' = CString ''rabbitmq''
      else if name = ''RABBITMQ_PASSCODE''
      then conf ''PUBSUB_SERVICE'' = CString ''rabbitmq'' \<and> falsy (conf ''RABBITMQ_PASSCODE_FILE'')
      else if name = ''RABBITMQ_PASSCODE_FILE''
      then conf ''PUBSUB_SERVICE'' = CString ''rabbitmq'' \<and> falsy (conf ''RABBITMQ_PASSCODE'')
      else if name \<in> {''KEYS_API_PORT'', ''KEYS_API_HOST''} then falsy (conf ''KEYS_API_URL'')
      else if name = ''KEYS_API_URL'' then falsy (conf ''KEYS_API_PORT'') \<and> falsy (conf ''KEYS_API_HOST'')
      else if name \<in> {''EVM_CHAIN_DATA_BUS_ADDRESS'', ''EVM_CHAIN_DATA_BUS_PROVIDER_URL'', ''EVM_CHAIN_DATA_BUS_PROVIDERS_URLS'',
        ''EVM_CHAIN_DATA_BUS_CHAIN_ID'', ''EVM_CHAIN_DATA_BUS_WALLET_MIN_BALANCE''} then conf ''PUBSUB_SERVICE'' = CString ''evm-chain''
      else True)"

section \<open>Loading\<close>

datatype file_error = ENOENT | EACCES | EMFILE | OtherCode string

datatype config_error = ValidationErrors "string list" | ConfigError js_error

record config_env =
  ce_plainToClass :: "(string \<Rightarrow> config_value) \<Rightarrow> (string \<Rightarrow> string \<Rightarrow> config_value) \<Rightarrow> (string \<times> string) list \<Rightarrow> configuration"
  ce_validate :: "(string \<times> constraint list) list \<Rightarrow> (string \<Rightarrow> configuration \<Rightarrow> bool) \<Rightarrow> configuration \<Rightarrow> string list"
  ce_readFile :: "config_value \<Rightarrow> file_error + string"
  ce_parseEther :: "string \<Rightarrow> js_error + nat"
  ce_processEnv :: "(string \<times> string) list"
  ce_newWallet :: "string \<Rightarrow> js_error + unit"

definition loadFile :: "config_env \<Rightarrow> config_value \<Rightarrow> string \<Rightarrow> config_error + string" where
  "loadFile E filePath envVarFile =
     (case ce_readFile E filePath of
        Inr content \<Rightarrow> Inr (filter (\<lambda>c. c \<noteq> CHR 0x0A \<and> c \<noteq> CHR 0x0D) content)
      | Inl ENOENT \<Rightarrow> Inl (ConfigError (Error (''Failed to load ENV variable from the '' @ envVarFile)))
      | Inl EACCES \<Rightarrow>
          Inl (ConfigError (Error (''Permission denied when trying to read the file specified by '' @ envVarFile)))
      | Inl EMFILE \<Rightarrow>
          Inl (ConfigError (Error (''Too many open files in the system when trying to read the file specified by '' @ envVarFile)))
      | Inl (OtherCode code) \<Rightarrow> Inl (ConfigError (External code)))"

definition loadEnvOrFile :: "config_env \<Rightarrow> configuration \<Rightarrow> string \<Rightarrow> config_error + config_value" where
  "loadEnvOrFile E config envName =
     (let envVarFile = envName @ ''_FILE''; filePath = config envVarFile in
      if \<not> falsy filePath then (case loadFile E filePath envVarFile of Inl e \<Rightarrow> Inl e | Inr s \<Rightarrow> Inr (CString s))
      else Inr (config envName))"

fun loadAll :: "config_env \<Rightarrow> string list \<Rightarrow> configuration \<Rightarrow> config_error + configuration" where
  "loadAll E [] config = Inr config"
| "loadAll E (name # names) config =
     (case loadEnvOrFile E config name of Inl e \<Rightarrow> Inl e | Inr v \<Rightarrow> loadAll E names (config(name := v)))"

definition secretNames :: "string list" where
  "secretNames = [''RABBITMQ_PASSCODE'', ''WALLET_PRIVATE_KEY'', ''WALLET_PRIVATE_KEY_2'']"

definition validateOrReject :: "config_env \<Rightarrow> configuration \<Rightarrow> config_error + configuration" where
  "validateOrReject E config =
     (case ce_validate E constraints validateIf config of [] \<Rightarrow> Inr config | errors \<Rightarrow> Inl (ValidationErrors errors))"

definition loadSecrets :: "config_env \<Rightarrow> configuration \<Rightarrow> config_error + configuration" where
  "loadSecrets E config = (case loadAll E secretNames config of Inl e \<Rightarrow> Inl e | Inr c \<Rightarrow> validateOrReject E c)"

text \<open>The factory: the errors of the validation are printed and end the process.\<close>

definition configFactory :: "config_env \<Rightarrow> js_error + configuration" where
  "configFactory E =
     (let prepConfig = ce_plainToClass E initialValue (transformValue (ce_parseEther E)) (ce_processEnv E) in
      if prepConfig ''NODE_ENV'' = CString ''test'' then Inr prepConfig
      else case (case validateOrReject E prepConfig of Inl e \<Rightarrow> Inl e | Inr c \<Rightarrow> loadSecrets E c) of
        Inr config \<Rightarrow> Inr config
      | Inl (ValidationErrors errors) \<Rightarrow> Inl ProcessExit
      | Inl (ConfigError error) \<Rightarrow> Inl error)"

section \<open>What a loaded configuration has\<close>

text \<open>
  The validator of this file, for \<open>new ethers.Wallet\<close> as a parameter that gives a wallet or throws; and
  the documented meaning of the other constraints, as the values they refuse.
\<close>

fun isEthereumPrivateKey :: "(string \<Rightarrow> js_error + unit) \<Rightarrow> config_value \<Rightarrow> bool" where
  "isEthereumPrivateKey newWallet (CString value) = (case newWallet value of Inr w \<Rightarrow> True | Inl error \<Rightarrow> False)"
| "isEthereumPrivateKey newWallet _ = False"

fun refuses :: "(string \<Rightarrow> js_error + unit) \<Rightarrow> constraint \<Rightarrow> config_value \<Rightarrow> bool" where
  "refuses W IsNotEmpty v = (v = CUndefined \<or> v = CString [])"
| "refuses W IsString v = (case v of CString s \<Rightarrow> False | _ \<Rightarrow> True)"
| "refuses W IsNumber v = (case v of CNumber (Some n) \<Rightarrow> False | _ \<Rightarrow> True)"
| "refuses W (Min m) v = (case v of CNumber (Some n) \<Rightarrow> n < m | _ \<Rightarrow> True)"
| "refuses W (IsIn l) v = list_all (\<lambda>s. v \<noteq> CString s) l"
| "refuses W IsEthereumPrivateKey v = (\<not> isEthereumPrivateKey W v)"
| "refuses W c v = False"

definition reports_refused :: "config_env \<Rightarrow> bool" where
  "reports_refused E \<longleftrightarrow>
     (\<forall>table condition conf k cs q. (k, cs) \<in> set table \<and> q \<in> set cs \<and> condition k conf \<and> refuses (ce_newWallet E) q (conf k) \<and>
        \<not> (IsOptional \<in> set cs \<and> conf k = CUndefined) \<longrightarrow> ce_validate E table condition conf \<noteq> [])"

lemma accepted:
  assumes "reports_refused E" and "validateOrReject E conf = Inr c" and "(k, cs) \<in> set constraints" and "IsOptional \<notin> set cs"
    and "validateIf k conf" and "q \<in> set cs"
  shows "c = conf \<and> \<not> refuses (ce_newWallet E) q (conf k)"
proof -
  from assms(2) have "ce_validate E constraints validateIf conf = []" "c = conf"
    by (auto simp: validateOrReject_def split: list.splits)
  with assms(1,3-6) show ?thesis unfolding reports_refused_def by blast
qed

definition nonempty :: "config_value \<Rightarrow> bool" where
  "nonempty v \<longleftrightarrow> (\<exists>s. s \<noteq> [] \<and> v = CString s)"

lemma accepted_string:
  assumes "reports_refused E" "validateOrReject E conf = Inr c" "(k, cs) \<in> set constraints" "{IsNotEmpty, IsString} \<subseteq> set cs"
    "IsOptional \<notin> set cs" "validateIf k conf"
  shows "nonempty (c k)"
  using accepted [OF assms(1-3,5,6), of IsNotEmpty] accepted [OF assms(1-3,5,6), of IsString] assms(4)
  by (cases "conf k") (auto simp: nonempty_def)

lemma loadAll_secrets:
  assumes "loadAll E names config = Inr c" and "distinct names" and "\<forall>n\<in>set names. \<forall>m\<in>set names. n @ ''_FILE'' \<noteq> m"
  shows "(\<forall>n\<in>set names. loadEnvOrFile E config n = Inr (c n)) \<and> (\<forall>k. k \<notin> set names \<longrightarrow> c k = config k)"
  using assms
proof (induction names arbitrary: config)
  case (Cons name names)
  from Cons.prems(1) obtain v where v: "loadEnvOrFile E config name = Inr v" "loadAll E names (config(name := v)) = Inr c"
    by (auto split: sum.splits)
  from Cons.IH [OF v(2)] Cons.prems(2,3) have IH: "\<forall>n\<in>set names. loadEnvOrFile E (config(name := v)) n = Inr (c n)"
    "\<forall>k. k \<notin> set names \<longrightarrow> c k = (config(name := v)) k" by (simp_all del: fun_upd_apply)
  have "loadEnvOrFile E (config(name := v)) n = loadEnvOrFile E config n" if "n \<in> set names" for n
  proof -
    have "n \<noteq> name" "n @ ''_FILE'' \<noteq> name" using Cons.prems(2,3) that by auto
    then show ?thesis by (simp add: loadEnvOrFile_def Let_def)
  qed
  with IH(1) have "\<forall>n\<in>set names. loadEnvOrFile E config n = Inr (c n)" by simp
  moreover have "c name = v" "\<forall>k. k \<notin> set (name # names) \<longrightarrow> c k = config k" using IH(2) Cons.prems(2) by auto
  ultimately show ?case using v(1) by simp
qed simp

lemma required_keys:
  "(''RPC_URL'', [IsNotEmpty, IsString]) \<in> set constraints"
  "(''KAFKA_BROKER_ADDRESS_1'', [IsNotEmpty, IsString]) \<in> set constraints"
  "(''KAFKA_USERNAME'', [IsNotEmpty, IsString]) \<in> set constraints"
  "(''KAFKA_PASSWORD'', [IsNotEmpty, IsString]) \<in> set constraints"
  "(''RABBITMQ_URL'', [IsNotEmpty, IsString]) \<in> set constraints"
  "(''RABBITMQ_LOGIN'', [IsNotEmpty, IsString]) \<in> set constraints"
  "(''EVM_CHAIN_DATA_BUS_ADDRESS'', [IsNotEmpty, IsString]) \<in> set constraints"
  "(''EVM_CHAIN_DATA_BUS_PROVIDER_URL'', [IsNotEmpty, IsString]) \<in> set constraints"
  "(''KEYS_API_HOST'', [IsNotEmpty, IsString]) \<in> set constraints"
  by code_simp+

lemma number_keys:
  "(''CHAIN_ID'', [IsNotEmpty, IsNumber]) \<in> set constraints" "(''KEYS_API_PORT'', [IsNotEmpty, IsNumber, Min 1]) \<in> set constraints"
  "(''PUBSUB_SERVICE'', [IsString, IsIn [''kafka'', ''rabbitmq'', ''evm-chain'']]) \<in> set constraints"
  "(''WALLET_PRIVATE_KEY_2'', [IsEthereumPrivateKey]) \<in> set constraints"
  by code_simp+

lemma conditions:
  "validateIf ''RPC_URL'' d" "validateIf ''CHAIN_ID'' d" "validateIf ''PUBSUB_SERVICE'' d"
  "validateIf ''KAFKA_BROKER_ADDRESS_1'' d = (d ''PUBSUB_SERVICE'' = CString ''kafka'')"
  "validateIf ''KAFKA_USERNAME'' d = (d ''PUBSUB_SERVICE'' = CString ''kafka'')"
  "validateIf ''KAFKA_PASSWORD'' d = (d ''PUBSUB_SERVICE'' = CString ''kafka'')"
  "validateIf ''RABBITMQ_URL'' d = (d ''PUBSUB_SERVICE'' = CString ''rabbitmq'')"
  "validateIf ''RABBITMQ_LOGIN'' d = (d ''PUBSUB_SERVICE'' = CString ''rabbitmq'')"
  "validateIf ''EVM_CHAIN_DATA_BUS_ADDRESS'' d = (d ''PUBSUB_SERVICE'' = CString ''evm-chain'')"
  "validateIf ''EVM_CHAIN_DATA_BUS_PROVIDER_URL'' d = (d ''PUBSUB_SERVICE'' = CString ''evm-chain'')"
  "validateIf ''KEYS_API_PORT'' d = falsy (d ''KEYS_API_URL'')"
  "validateIf ''KEYS_API_HOST'' d = falsy (d ''KEYS_API_URL'')"
  "validateIf ''WALLET_PRIVATE_KEY_2'' d = (d ''WALLET_PRIVATE_KEY_2'' \<noteq> CString [])"
  by (simp_all add: validateIf_def)

lemma one_of_three: "A \<or> B \<or> C \<Longrightarrow> (A \<Longrightarrow> P) \<Longrightarrow> (B \<Longrightarrow> Q) \<Longrightarrow> (C \<Longrightarrow> R) \<Longrightarrow> A \<and> P \<or> B \<and> Q \<or> C \<and> R"
  by blast

lemma secret_of_file:
  assumes "loadAll E secretNames prep = Inr d" and "name \<in> set secretNames" and "\<not> falsy (d (name @ ''_FILE''))"
  shows "\<exists>content. ce_readFile E (d (name @ ''_FILE'')) = Inr content \<and>
      d name = CString (filter (\<lambda>ch. ch \<noteq> CHR 0x0A \<and> ch \<noteq> CHR 0x0D) content)"
proof -
  have names: "distinct secretNames" "\<forall>n\<in>set secretNames. \<forall>m\<in>set secretNames. n @ ''_FILE'' \<noteq> m"
    "\<forall>n\<in>set secretNames. n @ ''_FILE'' \<notin> set secretNames" by (simp_all add: secretNames_def)
  from loadAll_secrets [OF assms(1) names(1,2)] names(3) assms(2)
  have "loadEnvOrFile E prep name = Inr (d name)" "d (name @ ''_FILE'') = prep (name @ ''_FILE'')" by auto
  with assms(3) show ?thesis by (auto simp: loadEnvOrFile_def loadFile_def Let_def split: sum.split_asm file_error.split_asm)
qed


text \<open>An accepted passcode may be empty: an empty file passes both validations.\<close>

lemma empty_passcode_allowed:
  assumes "conf ''RABBITMQ_PASSCODE_FILE'' = CString (x # xs)"
  shows "\<not> validateIf ''RABBITMQ_PASSCODE'' conf" and "\<not> refuses W IsNotEmpty (conf ''RABBITMQ_PASSCODE_FILE'')"
  using assms by (simp_all add: validateIf_def)

definition demoNewWallet :: "string \<Rightarrow> js_error + unit" where
  "demoNewWallet k = (if k = [] then Inl TypeError else Inr ())"

definition demoConfigEnv :: config_env where
  "demoConfigEnv = \<lparr>ce_plainToClass = (\<lambda>initial transform env name. case map_of env name of Some v \<Rightarrow> transform name v | None \<Rightarrow> initial name),
     ce_validate = (\<lambda>table condition conf. map fst (filter (\<lambda>(k, cs). condition k conf \<and>
        list_ex (\<lambda>q. refuses demoNewWallet q (conf k)) cs \<and> \<not> (IsOptional \<in> set cs \<and> conf k = CUndefined)) table)),
     ce_readFile = (\<lambda>path. Inr [CHR ''k'', CHR 0x0A]), ce_parseEther = (\<lambda>v. Inl TypeError),
     ce_processEnv = [(''RPC_URL'', ''http://el''), (''CHAIN_ID'', ''17000''), (''RABBITMQ_URL'', ''ws://mq''), (''RABBITMQ_LOGIN'', ''guest''),
       (''RABBITMQ_PASSCODE_FILE'', ''/run/passcode''), (''KEYS_API_URL'', ''http://keys'')], ce_newWallet = demoNewWallet\<rparr>"

lemma demo_reports: "reports_refused demoConfigEnv"
  unfolding reports_refused_def demoConfigEnv_def by (auto simp: filter_empty_conv list_ex_iff)

definition demoConfig :: configuration where
  "demoConfig = ce_plainToClass demoConfigEnv initialValue (transformValue (ce_parseEther demoConfigEnv)) (ce_processEnv demoConfigEnv)"

lemma demo_values:
  "demoConfig ''NODE_ENV'' = CString ''development''"
  "demoConfig ''PORT'' = CNumber (Some 3000)"
  "demoConfig ''LOG_LEVEL'' = CString ''info''"
  "demoConfig ''LOG_FORMAT'' = CString ''json''"
  "demoConfig ''RPC_URL'' = CString ''http://el''"
  "demoConfig ''PROVIDERS_URLS'' = CUndefined"
  "demoConfig ''CHAIN_ID'' = CNumber (Some 17000)"
  "demoConfig ''WALLET_PRIVATE_KEY'' = CString []"
  "demoConfig ''WALLET_PRIVATE_KEY_FILE'' = CString []"
  "demoConfig ''WALLET_PRIVATE_KEY_2'' = CString []"
  "demoConfig ''WALLET_PRIVATE_KEY_2_FILE'' = CString []"
  "demoConfig ''KAFKA_CLIENT_ID'' = CString []"
  "demoConfig ''BROKER_TOPIC'' = CString ''defender''"
  "demoConfig ''PUBSUB_SERVICE'' = CString ''rabbitmq''"
  "demoConfig ''KAFKA_BROKER_ADDRESS_1'' = CString []"
  "demoConfig ''KAFKA_BROKER_ADDRESS_2'' = CString []"
  "demoConfig ''KAFKA_SSL'' = CBool False"
  "demoConfig ''KAFKA_SASL_MECHANISM'' = CString ''scram-sha-256''"
  "demoConfig ''KAFKA_USERNAME'' = CString []"
  "demoConfig ''KAFKA_PASSWORD'' = CString []"
  "demoConfig ''RABBITMQ_URL'' = CString ''ws://mq''"
  "demoConfig ''RABBITMQ_LOGIN'' = CString ''guest''"
  "demoConfig ''RABBITMQ_PASSCODE'' = CString []"
  "demoConfig ''RABBITMQ_PASSCODE_FILE'' = CString ''/run/passcode''"
  "demoConfig ''REGISTRY_KEYS_QUERY_BATCH_SIZE'' = CNumber (Some 200)"
  "demoConfig ''REGISTRY_KEYS_QUERY_CONCURRENCY'' = CNumber (Some 5)"
  "demoConfig ''KEYS_API_PORT'' = CNumber (Some 0)"
  "demoConfig ''KEYS_API_HOST'' = CString []"
  "demoConfig ''KEYS_API_URL'' = CString ''http://keys''"
  "demoConfig ''LOCATOR_DEVNET_ADDRESS'' = CString []"
  "demoConfig ''DELEGATION_CONTRACT_ADDRESS'' = CString []"
  "demoConfig ''WALLET_MIN_BALANCE'' = CWei (ether div 2)"
  "demoConfig ''WALLET_CRITICAL_BALANCE'' = CWei (ether div 5)"
  "demoConfig ''EVM_CHAIN_DATA_BUS_ADDRESS'' = CString []"
  "demoConfig ''EVM_CHAIN_DATA_BUS_PROVIDER_URL'' = CString []"
  "demoConfig ''EVM_CHAIN_DATA_BUS_PROVIDERS_URLS'' = CUndefined"
  "demoConfig ''EVM_CHAIN_DATA_BUS_CHAIN_ID'' = CUndefined"
  "demoConfig ''EVM_CHAIN_DATA_BUS_WALLET_MIN_BALANCE'' = CWei ether"
  by (simp_all add: demoConfig_def demoConfigEnv_def initialValue_def transformValue_def parseInt10_def is_digit_def is_space_def)

lemma demo_valid:
  assumes "conf = demoConfig(''RABBITMQ_PASSCODE'' := CString p)"
  shows "validateOrReject demoConfigEnv conf = Inr conf"
proof -
  have vals: "conf ''RABBITMQ_PASSCODE'' = CString p" "k \<noteq> ''RABBITMQ_PASSCODE'' \<Longrightarrow> conf k = demoConfig k" for k
    using assms by simp_all
  have "\<forall>(k, cs)\<in>set constraints. \<not> (validateIf k conf \<and> list_ex (\<lambda>q. refuses demoNewWallet q (conf k)) cs \<and> \<not> (IsOptional \<in> set cs \<and> conf k = CUndefined))"
    by (simp add: constraints_def validateIf_def vals demo_values)
  then have "filter (\<lambda>(k, cs). validateIf k conf \<and> list_ex (\<lambda>q. refuses demoNewWallet q (conf k)) cs \<and> \<not> (IsOptional \<in> set cs \<and> conf k = CUndefined)) constraints = []"
    by (auto simp: filter_empty_conv)
  then show ?thesis by (simp add: validateOrReject_def demoConfigEnv_def)
qed


end
