(* ===== verification/Transport_Module.thy ===== *)
theory Transport_Module
  imports Transports Stomp Configuration_Loading
begin

text \<open>
  The choice of the transport (\<open>transport/transport.module.ts\<close>): the broker that the configuration names decides
  which of the three transports the messages go through, and with which options.
\<close>

record kafka_options =
  ko_clientId :: string
  ko_brokers :: "string list"
  ko_ssl :: bool
  ko_mechanism :: string
  ko_username :: string
  ko_password :: string

record rabbit_options =
  ra_url :: string
  ra_options :: stomp_options

datatype transport_choice = ViaKafka kafka_options | ViaRabbit rabbit_options | ViaDataBus

definition stringOf :: "config_value \<Rightarrow> string" where
  "stringOf v = (case v of CString s \<Rightarrow> s | _ \<Rightarrow> [])"

text \<open>The fixed options, and the timeout that the client takes when there is none.\<close>

definition STOMP_OPTIONS :: "(nat \<Rightarrow> js_error option) \<Rightarrow> string \<Rightarrow> string \<Rightarrow> stomp_options" where
  "STOMP_OPTIONS getWebSocket login passcode =
     \<lparr>so_getWebSocket = getWebSocket, so_login = Some login, so_passcode = Some passcode, so_maxWaitSocketSession = 100000,
      so_webSocketConnectTimeout = 10000, so_reconnectAttempts = 2\<rparr>"

definition transportFactory :: "(nat \<Rightarrow> js_error option) \<Rightarrow> string \<Rightarrow> configuration \<Rightarrow> transport_choice option" where
  "transportFactory getWebSocket address config =
     (if config ''PUBSUB_SERVICE'' = CString ''kafka'' then
        Some (ViaKafka \<lparr>ko_clientId = (if falsy (config ''KAFKA_CLIENT_ID'') then address else stringOf (config ''KAFKA_CLIENT_ID'')),
          ko_brokers = [stringOf (config ''KAFKA_BROKER_ADDRESS_1'')], ko_ssl = (config ''KAFKA_SSL'' = CBool True),
          ko_mechanism = stringOf (config ''KAFKA_SASL_MECHANISM''), ko_username = stringOf (config ''KAFKA_USERNAME''),
          ko_password = stringOf (config ''KAFKA_PASSWORD'')\<rparr>)
      else if config ''PUBSUB_SERVICE'' = CString ''rabbitmq'' then
        Some (ViaRabbit \<lparr>ra_url = stringOf (config ''RABBITMQ_URL''),
          ra_options = STOMP_OPTIONS getWebSocket (stringOf (config ''RABBITMQ_LOGIN'')) (stringOf (config ''RABBITMQ_PASSCODE''))\<rparr>)
      else if config ''PUBSUB_SERVICE'' = CString ''evm-chain'' then Some ViaDataBus
      else None)"

text \<open>
  With the daemon's options a connection creates at most two sockets and settles within 86 of the events
  it waits for.
\<close>

lemma daemon_stomp_bounds:
  "max 1 (so_reconnectAttempts (STOMP_OPTIONS g l p)) = 2"
  "max 1 (so_reconnectAttempts (STOMP_OPTIONS g l p)) * (so_webSocketConnectTimeout (STOMP_OPTIONS g l p) div 250 + 3) = 86"
  by (simp_all add: STOMP_OPTIONS_def)

lemma some_transport:
  "config ''PUBSUB_SERVICE'' \<in> {CString ''kafka'', CString ''rabbitmq'', CString ''evm-chain''} \<Longrightarrow>
   transportFactory g a config \<noteq> None"
  by (auto simp: transportFactory_def)

end
