(* ===== verification/Providers.thy ===== *)
theory Providers
  imports Transport_Module Rpc_Metrics
begin

text \<open>
  How the application is put together where that has logic of its own: the options of the two RPC providers and
  the timer around their requests (\<open>provider/*.module.ts\<close>), the providers whose metrics are kept
  (\<open>app.module.ts\<close>) and the build information (\<open>app.service.ts\<close>).
\<close>

section \<open>Providers\<close>

record provider_options =
  po_urls :: "string list"
  po_network :: config_value
  po_instanceLabel :: string
  po_maxRetries :: nat
  po_requestTimeoutMs :: nat
  po_resetIntervalMs :: nat

definition MAIN_PROVIDER_REQUEST_TIMEOUT :: nat where
  "MAIN_PROVIDER_REQUEST_TIMEOUT = 10 * 60 * 1000"

definition PROVIDER_RESET_INTERVAL :: nat where
  "PROVIDER_RESET_INTERVAL = 60 * 60 * 1000 * 24 * 10"

definition DATA_BUS_REQUEST_TIMEOUT :: nat where
  "DATA_BUS_REQUEST_TIMEOUT = 30000"

text \<open>The list of URLs, or the single one when there is no list.\<close>

definition urlsOf :: "config_value \<Rightarrow> config_value \<Rightarrow> string list" where
  "urlsOf urls url = (case urls of CList us \<Rightarrow> us | _ \<Rightarrow> [stringOf url])"

definition mainProviderOptions :: "configuration \<Rightarrow> provider_options" where
  "mainProviderOptions config =
     \<lparr>po_urls = urlsOf (config ''PROVIDERS_URLS'') (config ''RPC_URL''), po_network = config ''CHAIN_ID'', po_instanceLabel = ''EL1'',
      po_maxRetries = 1, po_requestTimeoutMs = MAIN_PROVIDER_REQUEST_TIMEOUT, po_resetIntervalMs = PROVIDER_RESET_INTERVAL\<rparr>"

definition dataBusProviderOptions :: "configuration \<Rightarrow> provider_options" where
  "dataBusProviderOptions config =
     \<lparr>po_urls = urlsOf (config ''EVM_CHAIN_DATA_BUS_PROVIDERS_URLS'') (config ''EVM_CHAIN_DATA_BUS_PROVIDER_URL''),
      po_network = config ''EVM_CHAIN_DATA_BUS_CHAIN_ID'', po_instanceLabel = ''DataBus'',
      po_maxRetries = 1, po_requestTimeoutMs = DATA_BUS_REQUEST_TIMEOUT, po_resetIntervalMs = PROVIDER_RESET_INTERVAL\<rparr>"

text \<open>
  The timer of a request: each call of \<open>endTimer\<close> observes the duration, with the label \<open>result\<close> or without.
  The request itself has no effect on the state here.
\<close>

datatype duration_observed = Observed "string option"

definition fetchMiddleware :: "js_error + 'a \<Rightarrow> ('s, duration_observed, 'a) comp" where
  "fetchMiddleware next =
     (\<lambda>s. case catchE (andThen (liftR next) (\<lambda>result. andThen (emit [Observed (Some ''success'')]) (\<lambda>_. ret result)))
                     (\<lambda>error. andThen (emit [Observed (Some ''error'')]) (\<lambda>_. raise error)) s of
        (r, t, out) \<Rightarrow> (r, t, out @ [Observed None]))"

text \<open>Every request is in the histogram twice, once without its result.\<close>

lemma observed_twice:
  "fetchMiddleware next s = (next, s, [Observed (Some (if isl next then ''error'' else ''success'')), Observed None])"
  by (cases "next") (simp_all add: fetchMiddleware_def catchE_def)

section \<open>The application\<close>

definition chainText :: "config_value \<Rightarrow> string" where
  "chainText v = (case v of CNumber (Some n) \<Rightarrow> int_string n | CNumber None \<Rightarrow> ''NaN'' | CString s \<Rightarrow> s | _ \<Rightarrow> ''undefined'')"

text \<open>The main provider has the number 0, the one of the data bus the number 1.\<close>

definition rpcProviders :: "configuration \<Rightarrow> (rpc_config \<times> nat) list" where
  "rpcProviders config =
     [(\<lparr>rc_network = ''ethereum'', rc_chainId = chainText (config ''CHAIN_ID''), rc_layer = ''el''\<rparr>, 0),
      (\<lparr>rc_network = ''data-bus'', rc_chainId = chainText (config ''EVM_CHAIN_DATA_BUS_CHAIN_ID''), rc_layer = ''el''\<rparr>, 1)]"

text \<open>The requests of the two providers have different keys, so the ids of their requests may be the same.\<close>

lemma keys_of_providers_differ:
  "rpcProviders config = [(c, i), (c', j)] \<Longrightarrow> generateRequestKey rs c \<noteq> generateRequestKey rs' c'"
  by (auto simp: rpcProviders_def generateRequestKey_def)

record build_info =
  bi_version :: string
  bi_name :: string
  bi_network :: string
  bi_heapLimit :: string

text \<open>The name of the chain in lower case, or the one the provider gives; the limit of the heap in megabytes.\<close>

definition appModuleInit :: "js_error + nat \<times> string \<Rightarrow> (nat \<rightharpoonup> string) \<Rightarrow> nat \<Rightarrow> message_app \<Rightarrow> ('s, build_info, unit) comp" where
  "appModuleInit getNetwork CHAINS heap_size_limit app =
     andThen (liftR getNetwork) (\<lambda>(chainId, networkName).
       let network = (case CHAINS chainId of Some c \<Rightarrow> (if c = [] then networkName else toLowerCase c) | None \<Rightarrow> networkName);
           megabyte = 1024 * 1024;
           heapLimit = dec_string ((heap_size_limit + megabyte div 2) div megabyte)
       in emit [\<lparr>bi_version = ap_version app, bi_name = ap_name app, bi_network = network, bi_heapLimit = heapLimit\<rparr>])"

end
