(* ===== verification/Store_Opening.thy ===== *)
theory Store_Opening
  imports Deposits_Store Signing_Keys_Store JS_Strings
begin

text \<open>
  Where the two stores keep their databases and how they open them (\<open>setupLevel\<close>, \<open>getDBDirPath\<close> and
  \<open>initialize\<close> of both \<open>store.service.ts\<close>, the directories of both \<open>store.module.ts\<close>). The provider and the
  opening of a database are parameters; \<open>join\<close> is the one of Node.js for POSIX paths.
\<close>

section \<open>Paths\<close>

fun normSegments :: "bool \<Rightarrow> string list \<Rightarrow> string list \<Rightarrow> string list" where
  "normSegments allowAboveRoot acc [] = rev acc"
| "normSegments allowAboveRoot acc (p # ps) =
     (if p = [] \<or> p = ''.'' then normSegments allowAboveRoot acc ps
      else if p = ''..'' then
        (case acc of
           q # qs \<Rightarrow> if q \<noteq> ''..'' then normSegments allowAboveRoot qs ps
                     else normSegments allowAboveRoot (if allowAboveRoot then p # acc else acc) ps
         | [] \<Rightarrow> normSegments allowAboveRoot (if allowAboveRoot then [p] else []) ps)
      else normSegments allowAboveRoot (p # acc) ps)"

definition pathNormalize :: "string \<Rightarrow> string" where
  "pathNormalize p =
     (if p = [] then ''.''
      else
        let isAbsolute = (hd p = CHR ''/''); trailing = (last p = CHR ''/'');
            q = joinWith CHR ''/'' (normSegments (\<not> isAbsolute) [] (splitOn CHR ''/'' p))
        in if q = [] then (if isAbsolute then ''/'' else if trailing then ''./'' else ''.'')
           else (if isAbsolute then ''/'' else []) @ q @ (if trailing then ''/'' else []))"

definition pathJoin :: "string list \<Rightarrow> string" where
  "pathJoin args =
     (let nonEmpty = filter (\<lambda>a. a \<noteq> []) args
      in if nonEmpty = [] then ''.'' else pathNormalize (joinWith CHR ''/'' nonEmpty))"

section \<open>Opening\<close>

text \<open>What opening needs: the chain the provider is on, the two directories, the database at a path and how it closes.\<close>

record 'db store_place =
  sp_getNetwork :: "js_error + nat"
  sp_cacheDir :: string
  sp_cacheLayerDir :: string
  sp_open :: "string \<Rightarrow> js_error + 'db"
  sp_close :: "js_error + unit"

definition depositsPlace ::
  "(js_error + nat) \<Rightarrow> (string \<Rightarrow> js_error + 'db) \<Rightarrow> js_error + unit \<Rightarrow> 'db store_place" where
  "depositsPlace network openAt close =
     \<lparr>sp_getNetwork = network, sp_cacheDir = ''cache'', sp_cacheLayerDir = ''deposit-cache'', sp_open = openAt, sp_close = close\<rparr>"

definition signingKeysPlace ::
  "(js_error + nat) \<Rightarrow> (string \<Rightarrow> js_error + 'db) \<Rightarrow> js_error + unit \<Rightarrow> 'db store_place" where
  "signingKeysPlace network openAt close =
     \<lparr>sp_getNetwork = network, sp_cacheDir = ''cache'', sp_cacheLayerDir = ''add-sign-keys-cache'', sp_open = openAt, sp_close = close\<rparr>"

definition getDBDirPath :: "'db store_place \<Rightarrow> js_error + string" where
  "getDBDirPath P =
     bindR (sp_getNetwork P) (\<lambda>chainId.
       let networkDir = ''chain-'' @ dec_string chainId in Inr (pathJoin [sp_cacheDir P, sp_cacheLayerDir P, networkDir]))"

definition setupLevel :: "'db store_place \<Rightarrow> ('db deposit_store, unit, unit) comp" where
  "setupLevel P =
     andThen (liftR (getDBDirPath P)) (\<lambda>dbPath.
     andThen (liftR (sp_open P dbPath)) (\<lambda>db. modifyS (\<lambda>s. s\<lparr>ds_db := db\<rparr>)))"

definition openDepositsStore ::
  "'db store_place \<Rightarrow> 'db deposit_store_env \<Rightarrow> ('db deposit_store, unit, unit) comp" where
  "openDepositsStore P E = andThen (setupLevel P) (\<lambda>_. initializeStore E)"

definition getKeysDBDirPath :: "'db store_place \<Rightarrow> js_error + string" where
  "getKeysDBDirPath P =
     bindR (sp_getNetwork P) (\<lambda>chainId.
       let networkDir = ''chain-'' @ dec_string chainId in Inr (pathJoin [sp_cacheDir P, sp_cacheLayerDir P, networkDir]))"

definition setupKeysLevel :: "'db store_place \<Rightarrow> ('db key_store, unit, unit) comp" where
  "setupKeysLevel P =
     andThen (liftR (getKeysDBDirPath P)) (\<lambda>dbPath.
     andThen (liftR (sp_open P dbPath)) (\<lambda>db. modifyS (\<lambda>s. s\<lparr>ks_db := db\<rparr>)))"

definition initializeKeyStore :: "'db store_place \<Rightarrow> ('db key_store, unit, unit) comp" where
  "initializeKeyStore P = setupKeysLevel P"

definition closeDepositsStore :: "'db store_place \<Rightarrow> ('db deposit_store, unit, unit) comp" where
  "closeDepositsStore P = liftR (sp_close P)"

definition closeKeyStore :: "'db store_place \<Rightarrow> ('db key_store, unit, unit) comp" where
  "closeKeyStore P = liftR (sp_close P)"

section \<open>No two databases in one directory\<close>

definition plainSegment :: "string \<Rightarrow> bool" where
  "plainSegment p \<longleftrightarrow> p \<noteq> [] \<and> p \<noteq> ''.'' \<and> p \<noteq> ''..'' \<and> CHR ''/'' \<notin> set p"

lemma normSegments_snoc: "plainSegment c \<Longrightarrow> normSegments up acc (ps @ [c]) = normSegments up acc ps @ [c]"
  by (induction up acc ps rule: normSegments.induct) (auto simp: plainSegment_def split: list.split)

lemma splitOn_snoc: "splitOn c (a @ c # b) = splitOn c a @ splitOn c b"
  by (induction a) (auto simp: splitOn_nonempty split: list.split)

lemma split_join_snoc:
  assumes "c \<notin> set l"
  shows "\<exists>q. splitOn c (joinWith c (ls @ [l])) = q @ [l]"
  using assms by (cases "ls = []") (auto simp: splitOn_none joinWith_append splitOn_snoc)

lemma pathJoin_ends:
  assumes "plainSegment l" and "plainSegment c"
  shows "\<exists>q. splitOn CHR ''/'' (pathJoin [d, l, c]) = q @ [l, c]"
proof -
  let ?sep = "CHR ''/''"
  from assms have plain: "l \<noteq> []" "c \<noteq> []" "?sep \<notin> set l" "?sep \<notin> set c" by (simp_all add: plainSegment_def)
  define j where "j = joinWith ?sep (filter (\<lambda>a. a \<noteq> []) [d, l, c])"
  define N where "N = normSegments (hd j \<noteq> ?sep) [] (if d = [] then [] else splitOn ?sep d)"
  have parts: "splitOn ?sep j = (if d = [] then [] else splitOn ?sep d) @ [l, c]"
    using plain by (simp add: j_def splitOn_snoc splitOn_none)
  have "last j = last c" using plain by (simp add: j_def)
  with plain have j: "j \<noteq> []" "last j \<noteq> ?sep" by (simp add: j_def, metis last_in_set)
  have norm: "normSegments (hd j \<noteq> ?sep) [] (splitOn ?sep j) = N @ [l, c]"
    using normSegments_snoc [OF assms(2)] normSegments_snoc [OF assms(1)]
    by (metis N_def append.assoc append_Cons append_Nil parts)
  have joined: "joinWith ?sep (N @ [l, c]) = joinWith ?sep (N @ [l]) @ ?sep # c"
    using joinWith_append [of "N @ [l]" ?sep c] by simp
  obtain q where q: "splitOn ?sep (joinWith ?sep (N @ [l])) = q @ [l]" using split_join_snoc [OF plain(3)] by blast
  have "pathJoin [d, l, c] = pathNormalize j" using plain by (simp add: pathJoin_def j_def Let_def)
  also have "\<dots> = (if hd j = ?sep then ''/'' else []) @ joinWith ?sep (N @ [l, c])"
    using j by (simp add: pathNormalize_def Let_def norm joined)
  finally have "splitOn ?sep (pathJoin [d, l, c]) = (if hd j = ?sep then [[]] else []) @ q @ [l, c]"
    by (simp add: joined splitOn_snoc q splitOn_none plain(4))
  then show ?thesis by (metis append.assoc)
qed

lemma chain_segment: "plainSegment (''chain-'' @ dec_string n)"
  using dec_string_digits [of "CHR ''/''" n] by (auto simp: plainSegment_def is_digit_def)

text \<open>
  Two stores with different directories, or on different networks, never open the same path, whatever the
  directory they share.
\<close>

lemma paths_differ:
  assumes "getDBDirPath P = Inr p" and "getDBDirPath Q = Inr p"
    and "plainSegment (sp_cacheLayerDir P)" and "plainSegment (sp_cacheLayerDir Q)"
  shows "sp_cacheLayerDir P = sp_cacheLayerDir Q \<and> sp_getNetwork P = sp_getNetwork Q"
proof -
  from assms(1,2) obtain m n where m: "sp_getNetwork P = Inr m" "p = pathJoin [sp_cacheDir P, sp_cacheLayerDir P, ''chain-'' @ dec_string m]"
    and n: "sp_getNetwork Q = Inr n" "p = pathJoin [sp_cacheDir Q, sp_cacheLayerDir Q, ''chain-'' @ dec_string n]"
    by (cases "sp_getNetwork P"; cases "sp_getNetwork Q") (auto simp: getDBDirPath_def Let_def)
  from pathJoin_ends [OF assms(3) chain_segment [of m]] pathJoin_ends [OF assms(4) chain_segment [of n]]
  obtain a b where "a @ [sp_cacheLayerDir P, ''chain-'' @ dec_string m] = b @ [sp_cacheLayerDir Q, ''chain-'' @ dec_string n]"
    using m(2) n(2) by metis
  then have "rev (a @ [sp_cacheLayerDir P, ''chain-'' @ dec_string m]) = rev (b @ [sp_cacheLayerDir Q, ''chain-'' @ dec_string n])"
    by (rule arg_cong)
  then show ?thesis using m(1) n(1) by (simp add: dec_string_inj)
qed

lemma keys_path_same: "getKeysDBDirPath = getDBDirPath"
  by (simp add: fun_eq_iff getKeysDBDirPath_def getDBDirPath_def)

lemma stores_apart:
  assumes "getDBDirPath (depositsPlace network openAt close) = Inr p"
  shows "getKeysDBDirPath (signingKeysPlace network' openAt' close') \<noteq> Inr p"
proof
  assume "getKeysDBDirPath (signingKeysPlace network' openAt' close') = Inr p"
  from paths_differ [OF assms this [unfolded keys_path_same]]
  show False by (simp add: depositsPlace_def signingKeysPlace_def plainSegment_def)
qed

lemma demo_joins:
  "pathJoin [''cache'', ''deposit-cache'', ''chain-1''] = ''cache/deposit-cache/chain-1''"
  "pathJoin [''/data//x/../cache/'', ''add-sign-keys-cache'', ''chain-560048''] =
    ''/data/cache/add-sign-keys-cache/chain-560048''"
  by (simp_all add: pathJoin_def pathNormalize_def)

text \<open>A store that opens finds the rows of its path; one that cannot open throws before it reads anything.\<close>

lemma openDepositsStore_eq:
  assumes "getDBDirPath P = Inr p" and "sp_open P p = Inr db"
  shows "openDepositsStore P E s = initializeStore E (s\<lparr>ds_db := db\<rparr>)"
  using assms by (simp add: openDepositsStore_def setupLevel_def andThen_apply split: prod.splits sum.splits)

lemma openDepositsStore_fails:
  assumes "getDBDirPath P = Inl e \<or> (\<exists>p. getDBDirPath P = Inr p \<and> sp_open P p = Inl e)"
  shows "openDepositsStore P E s = (Inl e, s, [])"
  using assms by (auto simp: openDepositsStore_def setupLevel_def andThen_apply)



end
