(* ===== verification/Metric_Declarations.thy ===== *)
theory Metric_Declarations
  imports Providers Complex_Main
begin

text \<open>
  The metrics: how each one is declared (\<open>common/prometheus\<close>,
  \<open>contracts/deposits-registry/sanity-checker/sanity-checker.metrics.ts\<close>), and the labels the services give when they
  set it. The metrics library throws when a label was not declared or when the kind of the metric has no such
  operation; a service that sets a metric would then fail in the middle of its work.
\<close>

section \<open>Declarations\<close>

datatype metric_kind = IsCounter | IsGauge | IsHistogram

record metric_declaration =
  md_kind :: metric_kind
  md_name :: string
  md_help :: string
  md_buckets :: "rat list"
  md_labelNames :: "string list"

definition METRICS_PREFIX :: string where
  "METRICS_PREFIX = ''council_daemon_''"

definition BASE_LABELS :: "string list" where
  "BASE_LABELS = [''network'', ''layer'', ''chain_id'', ''provider'']"

definition PrometheusTransportMessageCounterProvider :: metric_declaration where
  "PrometheusTransportMessageCounterProvider =
     \<lparr>md_kind = IsCounter, md_name = METRICS_PREFIX @ ''sent_messages_total'', md_help = ''Number of messages sent to the broker'',
      md_buckets = [], md_labelNames = [''messageType'']\<rparr>"

definition PrometheusPauseDepositsCounterProvider :: metric_declaration where
  "PrometheusPauseDepositsCounterProvider =
     \<lparr>md_kind = IsCounter, md_name = METRICS_PREFIX @ ''pause_deposits_attempts_total'', md_help = ''Attempts to pause deposits'',
      md_buckets = [], md_labelNames = []\<rparr>"

definition PrometheusUnvetKeysCounterProvider :: metric_declaration where
  "PrometheusUnvetKeysCounterProvider =
     \<lparr>md_kind = IsCounter, md_name = METRICS_PREFIX @ ''unvet_attempts_total'', md_help = ''Attempts to unvet keys'',
      md_buckets = [], md_labelNames = []\<rparr>"

definition PrometheusRPCRequestsHistogramProvider :: metric_declaration where
  "PrometheusRPCRequestsHistogramProvider =
     \<lparr>md_kind = IsHistogram, md_name = METRICS_PREFIX @ ''rpc_requests_duration_seconds'', md_help = ''RPC request duration'',
      md_buckets = [1 / 10, 1 / 5, 3 / 10, 3 / 5, 1, 3 / 2, 2, 5], md_labelNames = [''result'']\<rparr>"

definition PrometheusRPCErrorsCounterProvider :: metric_declaration where
  "PrometheusRPCErrorsCounterProvider =
     \<lparr>md_kind = IsCounter, md_name = METRICS_PREFIX @ ''rpc_requests_errors'', md_help = ''Number of RPC requests errors'',
      md_buckets = [], md_labelNames = []\<rparr>"

definition PrometheusDataBusAccountBalanceProvider :: metric_declaration where
  "PrometheusDataBusAccountBalanceProvider =
     \<lparr>md_kind = IsGauge, md_name = METRICS_PREFIX @ ''_data_bus_account_balance'', md_help = ''DataBus publisher account balance'',
      md_buckets = [], md_labelNames = [''chainId'', ''delegateAddress'']\<rparr>"

definition PrometheusDataBusRPCRequestsHistogramProvider :: metric_declaration where
  "PrometheusDataBusRPCRequestsHistogramProvider =
     \<lparr>md_kind = IsHistogram, md_name = METRICS_PREFIX @ ''_data_bus_rpc_requests_duration_seconds'', md_help = ''DataBus RPC request duration'',
      md_buckets = [1 / 10, 1 / 5, 3 / 10, 3 / 5, 1, 3 / 2, 2, 5], md_labelNames = [''result'']\<rparr>"

definition PrometheusDataBusRPCErrorsCounterProvider :: metric_declaration where
  "PrometheusDataBusRPCErrorsCounterProvider =
     \<lparr>md_kind = IsCounter, md_name = METRICS_PREFIX @ ''_data_bus_rpc_requests_errors'', md_help = ''Number of DataBus RPC requests errors'',
      md_buckets = [], md_labelNames = []\<rparr>"

definition PrometheusAccountBalanceProvider :: metric_declaration where
  "PrometheusAccountBalanceProvider =
     \<lparr>md_kind = IsGauge, md_name = METRICS_PREFIX @ ''account_balance'', md_help = ''Delegate account balance'',
      md_buckets = [], md_labelNames = [''delegateAddress'']\<rparr>"

definition PrometheusBlockDataRequestsProvider :: metric_declaration where
  "PrometheusBlockDataRequestsProvider =
     \<lparr>md_kind = IsHistogram, md_name = METRICS_PREFIX @ ''block_data_requests_duration_seconds'', md_help = ''Duration of data collection requests in the current block'',
      md_buckets = [1 / 10, 1 / 5, 3 / 10, 3 / 5, 1, 3 / 2, 2, 5], md_labelNames = []\<rparr>"

definition PrometheusBlockDataErrorsCounterProvider :: metric_declaration where
  "PrometheusBlockDataErrorsCounterProvider =
     \<lparr>md_kind = IsCounter, md_name = METRICS_PREFIX @ ''block_data_requests_errors'', md_help = ''Number of errors of data collection request for the current block'',
      md_buckets = [], md_labelNames = []\<rparr>"

definition PrometheusBuildInfoGaugeProvider :: metric_declaration where
  "PrometheusBuildInfoGaugeProvider =
     \<lparr>md_kind = IsCounter, md_name = METRICS_PREFIX @ ''build_info'', md_help = ''Build information'',
      md_buckets = [], md_labelNames = [''version'', ''name'', ''network'', ''heapLimit'']\<rparr>"

definition PrometheusGuardianInfoGaugeProvider :: metric_declaration where
  "PrometheusGuardianInfoGaugeProvider =
     \<lparr>md_kind = IsGauge, md_name = METRICS_PREFIX @ ''guardian_info'', md_help = ''Current guardian execution context and configured wallets'',
      md_buckets = [], md_labelNames = [''mode'', ''dsmVersion'', ''dsmAddress'', ''guardianAddress'', ''activeWalletAddress'', ''walletAddress'', ''isActive'']\<rparr>"

definition PrometheusValidatedDepositsProvider :: metric_declaration where
  "PrometheusValidatedDepositsProvider =
     \<lparr>md_kind = IsGauge, md_name = METRICS_PREFIX @ ''validated_deposits_total'', md_help = ''Number of deposits by validation'',
      md_buckets = [], md_labelNames = [''type'', ''stakingModuleId'']\<rparr>"

definition PrometheusIntersectionsProvider :: metric_declaration where
  "PrometheusIntersectionsProvider =
     \<lparr>md_kind = IsGauge, md_name = METRICS_PREFIX @ ''intersections_total'', md_help = ''Number of keys intersections'',
      md_buckets = [], md_labelNames = [''type'', ''stakingModuleId'']\<rparr>"

definition PrometheusDepositedKeysProvider :: metric_declaration where
  "PrometheusDepositedKeysProvider =
     \<lparr>md_kind = IsGauge, md_name = METRICS_PREFIX @ ''deposited_keys_total'', md_help = ''Number of keys in the deposit contract'',
      md_buckets = [], md_labelNames = [''type'', ''stakingModuleId'']\<rparr>"

definition PrometheusOperatorsKeysProvider :: metric_declaration where
  "PrometheusOperatorsKeysProvider =
     \<lparr>md_kind = IsGauge, md_name = METRICS_PREFIX @ ''operators_keys_total'', md_help = ''Number of node operators keys'',
      md_buckets = [], md_labelNames = [''type'', ''stakingModuleId'']\<rparr>"

definition PrometheusKeysApiRequestsProvider :: metric_declaration where
  "PrometheusKeysApiRequestsProvider =
     \<lparr>md_kind = IsHistogram, md_name = METRICS_PREFIX @ ''keys_api_requests_duration_seconds'', md_help = ''Duration of data collection requests by keys-api'',
      md_buckets = [1 / 10, 3 / 10, 1, 3, 5, 10, 30, 60, 100, 180, 300], md_labelNames = [''result'', ''status'']\<rparr>"

definition PrometheusDuplicatedKeysProvider :: metric_declaration where
  "PrometheusDuplicatedKeysProvider =
     \<lparr>md_kind = IsGauge, md_name = METRICS_PREFIX @ ''duplicated_keys_total'', md_help = ''Number of duplicated keys'',
      md_buckets = [], md_labelNames = [''type'', ''stakingModuleId'']\<rparr>"

definition PrometheusInvalidKeysProvider :: metric_declaration where
  "PrometheusInvalidKeysProvider =
     \<lparr>md_kind = IsGauge, md_name = METRICS_PREFIX @ ''invalid_keys_total'', md_help = ''Number of invalid keys'',
      md_buckets = [], md_labelNames = [''stakingModuleId'']\<rparr>"

definition PrometheusHistoricalFrontRunProvider :: metric_declaration where
  "PrometheusHistoricalFrontRunProvider =
     \<lparr>md_kind = IsGauge, md_name = METRICS_PREFIX @ ''historical_front_run_total'', md_help = ''Number of historical front-run and wrong WC type keys'',
      md_buckets = [], md_labelNames = [''type'']\<rparr>"

definition PrometheusJobDurationProvider :: metric_declaration where
  "PrometheusJobDurationProvider =
     \<lparr>md_kind = IsHistogram, md_name = METRICS_PREFIX @ ''handle_job_duration'', md_help = ''Job duration'',
      md_buckets = [1 / 10, 3 / 10, 1, 3, 5, 10, 30, 60, 100, 180, 300], md_labelNames = [''jobName'', ''stakingModuleId'']\<rparr>"

definition PrometheusHttpRpcRequestsTotalProvider :: metric_declaration where
  "PrometheusHttpRpcRequestsTotalProvider =
     \<lparr>md_kind = IsCounter, md_name = METRICS_PREFIX @ ''http_rpc_requests_total'', md_help = ''Total HTTP requests to RPC providers'',
      md_buckets = [], md_labelNames = BASE_LABELS @ [''batched'', ''response_code'', ''result'']\<rparr>"

definition PrometheusHttpRpcBatchSizeProvider :: metric_declaration where
  "PrometheusHttpRpcBatchSizeProvider =
     \<lparr>md_kind = IsHistogram, md_name = METRICS_PREFIX @ ''http_rpc_batch_size'', md_help = ''Distribution of JSON-RPC calls bundled in each HTTP request'',
      md_buckets = [1, 2, 5, 10, 20, 50, 100], md_labelNames = BASE_LABELS\<rparr>"

definition PrometheusHttpRpcResponseSecondsProvider :: metric_declaration where
  "PrometheusHttpRpcResponseSecondsProvider =
     \<lparr>md_kind = IsHistogram, md_name = METRICS_PREFIX @ ''http_rpc_response_seconds'', md_help = ''Distribution of RPC response times in seconds'',
      md_buckets = [1 / 100, 1 / 20, 1 / 10, 1 / 4, 1 / 2, 1, 5 / 2, 5, 10], md_labelNames = BASE_LABELS\<rparr>"

definition PrometheusHttpRpcRequestPayloadBytesProvider :: metric_declaration where
  "PrometheusHttpRpcRequestPayloadBytesProvider =
     \<lparr>md_kind = IsHistogram, md_name = METRICS_PREFIX @ ''http_rpc_request_payload_bytes'', md_help = ''Distribution of request payload sizes in bytes'',
      md_buckets = [128, 256, 512, 1024, 2048, 4096, 8192, 16384], md_labelNames = BASE_LABELS\<rparr>"

definition PrometheusHttpRpcResponsePayloadBytesProvider :: metric_declaration where
  "PrometheusHttpRpcResponsePayloadBytesProvider =
     \<lparr>md_kind = IsHistogram, md_name = METRICS_PREFIX @ ''http_rpc_response_payload_bytes'', md_help = ''Distribution of response payload sizes in bytes'',
      md_buckets = [128, 256, 512, 1024, 2048, 4096, 8192, 16384, 32768, 65536], md_labelNames = BASE_LABELS\<rparr>"

definition PrometheusRpcRequestTotalProvider :: metric_declaration where
  "PrometheusRpcRequestTotalProvider =
     \<lparr>md_kind = IsCounter, md_name = METRICS_PREFIX @ ''rpc_request_total'', md_help = ''Total number of individual RPC method calls'',
      md_buckets = [], md_labelNames = BASE_LABELS @ [''method'', ''result'', ''rpc_error_code'']\<rparr>"

definition PrometheusNonceLatestProvider :: metric_declaration where
  "PrometheusNonceLatestProvider =
     \<lparr>md_kind = IsGauge, md_name = METRICS_PREFIX @ ''nonce_latest'', md_help = ''Latest confirmed nonce for delegate address'',
      md_buckets = [], md_labelNames = [''network'', ''delegateAddress'']\<rparr>"

definition PrometheusNoncePendingProvider :: metric_declaration where
  "PrometheusNoncePendingProvider =
     \<lparr>md_kind = IsGauge, md_name = METRICS_PREFIX @ ''nonce_pending'', md_help = ''Pending nonce for delegate address'',
      md_buckets = [], md_labelNames = [''network'', ''delegateAddress'']\<rparr>"

definition PrometheusNonceGapProvider :: metric_declaration where
  "PrometheusNonceGapProvider =
     \<lparr>md_kind = IsGauge, md_name = METRICS_PREFIX @ ''nonce_gap'', md_help = ''Difference between pending and latest nonce'',
      md_buckets = [], md_labelNames = [''network'', ''delegateAddress'']\<rparr>"

definition PrometheusDepositsCacheBytesProvider :: metric_declaration where
  "PrometheusDepositsCacheBytesProvider =
     \<lparr>md_kind = IsGauge, md_name = METRICS_PREFIX @ ''deposits_cache_bytes'', md_help = ''Memory used by deposits events cache in bytes'',
      md_buckets = [], md_labelNames = []\<rparr>"

definition PrometheusDepositsCacheCountProvider :: metric_declaration where
  "PrometheusDepositsCacheCountProvider =
     \<lparr>md_kind = IsGauge, md_name = METRICS_PREFIX @ ''deposits_cache_count'', md_help = ''Number of deposit events in cache'',
      md_buckets = [], md_labelNames = []\<rparr>"

definition PrometheusSigningKeysCacheBytesProvider :: metric_declaration where
  "PrometheusSigningKeysCacheBytesProvider =
     \<lparr>md_kind = IsGauge, md_name = METRICS_PREFIX @ ''signing_keys_cache_bytes'', md_help = ''Memory used by signing keys events cache in bytes'',
      md_buckets = [], md_labelNames = []\<rparr>"

definition PrometheusSigningKeysCacheCountProvider :: metric_declaration where
  "PrometheusSigningKeysCacheCountProvider =
     \<lparr>md_kind = IsGauge, md_name = METRICS_PREFIX @ ''signing_keys_cache_count'', md_help = ''Number of signing key events in cache'',
      md_buckets = [], md_labelNames = []\<rparr>"

definition FreshDepositRootMismatchesProvider :: metric_declaration where
  "FreshDepositRootMismatchesProvider =
     \<lparr>md_kind = IsCounter, md_name = METRICS_PREFIX @ ''fresh_deposit_root_mismatches_total'', md_help = ''Number of fresh deposit event root mismatches'',
      md_buckets = [], md_labelNames = []\<rparr>"

definition ConsecutiveFreshDepositRootMismatchesProvider :: metric_declaration where
  "ConsecutiveFreshDepositRootMismatchesProvider =
     \<lparr>md_kind = IsGauge, md_name = METRICS_PREFIX @ ''consecutive_fresh_deposit_root_mismatches'', md_help = ''Number of consecutive fresh deposit event root mismatches'',
      md_buckets = [], md_labelNames = []\<rparr>"

text \<open>The list of \<open>prometheus.module.ts\<close>, and the one of the sanity checker.\<close>

definition prometheusProviders :: "metric_declaration list" where
  "prometheusProviders =
     [PrometheusTransportMessageCounterProvider, PrometheusPauseDepositsCounterProvider, PrometheusRPCRequestsHistogramProvider,
      PrometheusRPCErrorsCounterProvider, PrometheusAccountBalanceProvider, PrometheusDataBusRPCRequestsHistogramProvider,
      PrometheusDataBusRPCErrorsCounterProvider, PrometheusDataBusAccountBalanceProvider, PrometheusBlockDataRequestsProvider,
      PrometheusBlockDataErrorsCounterProvider, PrometheusBuildInfoGaugeProvider, PrometheusGuardianInfoGaugeProvider,
      PrometheusValidatedDepositsProvider, PrometheusIntersectionsProvider, PrometheusDepositedKeysProvider,
      PrometheusOperatorsKeysProvider, PrometheusKeysApiRequestsProvider, PrometheusDuplicatedKeysProvider,
      PrometheusInvalidKeysProvider, PrometheusUnvetKeysCounterProvider, PrometheusJobDurationProvider,
      PrometheusHistoricalFrontRunProvider, PrometheusHttpRpcRequestsTotalProvider, PrometheusHttpRpcBatchSizeProvider,
      PrometheusHttpRpcResponseSecondsProvider, PrometheusHttpRpcRequestPayloadBytesProvider, PrometheusHttpRpcResponsePayloadBytesProvider,
      PrometheusRpcRequestTotalProvider, PrometheusNonceLatestProvider, PrometheusNoncePendingProvider,
      PrometheusNonceGapProvider, PrometheusDepositsCacheBytesProvider, PrometheusDepositsCacheCountProvider,
      PrometheusSigningKeysCacheBytesProvider, PrometheusSigningKeysCacheCountProvider]"

definition sanityCheckerProviders :: "metric_declaration list" where
  "sanityCheckerProviders = [FreshDepositRootMismatchesProvider, ConsecutiveFreshDepositRootMismatchesProvider]"

definition declaredMetrics :: "metric_declaration list" where
  "declaredMetrics = prometheusProviders @ sanityCheckerProviders"

lemmas declaration_defs =
  PrometheusTransportMessageCounterProvider_def PrometheusPauseDepositsCounterProvider_def PrometheusUnvetKeysCounterProvider_def
  PrometheusRPCRequestsHistogramProvider_def PrometheusRPCErrorsCounterProvider_def PrometheusDataBusAccountBalanceProvider_def
  PrometheusDataBusRPCRequestsHistogramProvider_def PrometheusDataBusRPCErrorsCounterProvider_def PrometheusAccountBalanceProvider_def
  PrometheusBlockDataRequestsProvider_def PrometheusBlockDataErrorsCounterProvider_def PrometheusBuildInfoGaugeProvider_def
  PrometheusGuardianInfoGaugeProvider_def PrometheusValidatedDepositsProvider_def PrometheusIntersectionsProvider_def
  PrometheusDepositedKeysProvider_def PrometheusOperatorsKeysProvider_def PrometheusKeysApiRequestsProvider_def
  PrometheusDuplicatedKeysProvider_def PrometheusInvalidKeysProvider_def PrometheusHistoricalFrontRunProvider_def
  PrometheusJobDurationProvider_def PrometheusHttpRpcRequestsTotalProvider_def PrometheusHttpRpcBatchSizeProvider_def
  PrometheusHttpRpcResponseSecondsProvider_def PrometheusHttpRpcRequestPayloadBytesProvider_def PrometheusHttpRpcResponsePayloadBytesProvider_def
  PrometheusRpcRequestTotalProvider_def PrometheusNonceLatestProvider_def PrometheusNoncePendingProvider_def
  PrometheusNonceGapProvider_def PrometheusDepositsCacheBytesProvider_def PrometheusDepositsCacheCountProvider_def
  PrometheusSigningKeysCacheBytesProvider_def PrometheusSigningKeysCacheCountProvider_def FreshDepositRootMismatchesProvider_def
  ConsecutiveFreshDepositRootMismatchesProvider_def
  METRICS_PREFIX_def BASE_LABELS_def

lemmas declared_defs = declaredMetrics_def prometheusProviders_def sanityCheckerProviders_def

text \<open>
  The library refuses two metrics of one name, a name outside its grammar, and buckets that do not grow.
\<close>

definition nameChar :: "char \<Rightarrow> bool" where
  "nameChar c \<longleftrightarrow> c \<in> set ''abcdefghijklmnopqrstuvwxyzABCDEFGHIJKLMNOPQRSTUVWXYZ0123456789_:''"

lemma declared_names: "distinct (map md_name declaredMetrics)"
  by (simp add: declared_defs declaration_defs)

lemma declared_name_chars: "list_all (\<lambda>d. list_all nameChar (md_name d)) declaredMetrics"
  by (simp add: declared_defs declaration_defs nameChar_def)

lemma declared_buckets: "list_all (\<lambda>d. sorted_wrt (<) (md_buckets d) \<and> (md_buckets d \<noteq> [] \<longrightarrow> md_kind d = IsHistogram)) declaredMetrics"
  by (simp add: declared_defs declaration_defs)

section \<open>Uses\<close>

datatype metric_call = CallSet | CallInc | CallObserve | CallReset

record metric_use =
  mu_declaration :: metric_declaration
  mu_call :: metric_call
  mu_labels :: "(string \<times> string) list"

fun hasCall :: "metric_kind \<Rightarrow> metric_call \<Rightarrow> bool" where
  "hasCall IsCounter c \<longleftrightarrow> c = CallInc \<or> c = CallReset"
| "hasCall IsGauge c \<longleftrightarrow> c \<noteq> CallObserve"
| "hasCall IsHistogram c \<longleftrightarrow> c = CallObserve \<or> c = CallReset"

definition acceptedUse :: "metric_use \<Rightarrow> bool" where
  "acceptedUse u \<longleftrightarrow> mu_declaration u \<in> set declaredMetrics \<and> hasCall (md_kind (mu_declaration u)) (mu_call u) \<and>
     set (map fst (mu_labels u)) \<subseteq> set (md_labelNames (mu_declaration u))"

abbreviation sets :: "metric_declaration \<Rightarrow> (string \<times> string) list \<Rightarrow> metric_use" where
  "sets d ls \<equiv> \<lparr>mu_declaration = d, mu_call = CallSet, mu_labels = ls\<rparr>"

text \<open>The gauges of \<open>guardian-metrics.service.ts\<close>.\<close>

fun guardianMetricUse :: "metric \<Rightarrow> metric_use option" where
  "guardianMetricUse (ValidatedDeposits t i) =
     Some (sets PrometheusValidatedDepositsProvider [(''type'', t), (''stakingModuleId'', dec_string i)])"
| "guardianMetricUse (DepositedKeys t i) =
     Some (sets PrometheusDepositedKeysProvider [(''type'', t), (''stakingModuleId'', dec_string i)])"
| "guardianMetricUse (OperatorsKeys t i) =
     Some (sets PrometheusOperatorsKeysProvider [(''type'', t), (''stakingModuleId'', dec_string i)])"
| "guardianMetricUse (Intersections t i) =
     Some (sets PrometheusIntersectionsProvider [(''type'', t), (''stakingModuleId'', dec_string i)])"
| "guardianMetricUse (DuplicatedKeys t i) =
     Some (sets PrometheusDuplicatedKeysProvider [(''stakingModuleId'', dec_string i), (''type'', t)])"
| "guardianMetricUse (InvalidKeys i) = Some (sets PrometheusInvalidKeysProvider [(''stakingModuleId'', dec_string i)])"
| "guardianMetricUse (HistoricalFrontRun t) = Some (sets PrometheusHistoricalFrontRunProvider [(''type'', t)])"
| "guardianMetricUse _ = None"

text \<open>The gauges of \<open>wallet.service.ts\<close>.\<close>

fun walletMetricUse :: "metric \<Rightarrow> metric_use option" where
  "walletMetricUse (AccountBalance a) = Some (sets PrometheusAccountBalanceProvider [(''delegateAddress'', a)])"
| "walletMetricUse (NonceLatest a) =
     Some (sets PrometheusNonceLatestProvider [(''network'', ''ethereum''), (''delegateAddress'', a)])"
| "walletMetricUse (NoncePending a) =
     Some (sets PrometheusNoncePendingProvider [(''network'', ''ethereum''), (''delegateAddress'', a)])"
| "walletMetricUse (NonceGap a) =
     Some (sets PrometheusNonceGapProvider [(''network'', ''ethereum''), (''delegateAddress'', a)])"
| "walletMetricUse _ = None"

fun guardianModeText :: "guardian_mode \<Rightarrow> string" where
  "guardianModeText LegacyEoa = ''legacy-eoa''"
| "guardianModeText Edf = ''edf''"

fun guardianInfoUse :: "metric \<Rightarrow> metric_use option" where
  "guardianInfoUse (GuardianInfo context wallet isActive) =
     Some (sets PrometheusGuardianInfoGaugeProvider
       [(''mode'', guardianModeText (gc_mode context)), (''dsmVersion'', dec_string (gc_dsmVersion context)),
        (''dsmAddress'', gc_dsmAddress context), (''guardianAddress'', gc_guardianAddress context),
        (''activeWalletAddress'', gc_delegateAddress context), (''walletAddress'', wallet),
        (''isActive'', if isActive then ''true'' else ''false'')])"
| "guardianInfoUse _ = None"

definition gaugeUses :: "metric \<Rightarrow> metric_use list" where
  "gaugeUses m = List.map_filter (\<lambda>f. f m) [guardianMetricUse, walletMetricUse, guardianInfoUse]"

fun messageTypeText :: "message_type \<Rightarrow> string" where
  "messageTypeText PAUSE = ''pause''"
| "messageTypeText DEPOSIT = ''deposit''"
| "messageTypeText PING = ''ping''"
| "messageTypeText UNVET = ''unvet''"

fun counterUse :: "counter \<Rightarrow> metric_use" where
  "counterUse PauseAttempts = \<lparr>mu_declaration = PrometheusPauseDepositsCounterProvider, mu_call = CallInc, mu_labels = []\<rparr>"
| "counterUse UnvetAttempts = \<lparr>mu_declaration = PrometheusUnvetKeysCounterProvider, mu_call = CallInc, mu_labels = []\<rparr>"
| "counterUse (SentMessages t) =
     \<lparr>mu_declaration = PrometheusTransportMessageCounterProvider, mu_call = CallInc, mu_labels = [(''messageType'', messageTypeText t)]\<rparr>"
| "counterUse BlockDataErrors = \<lparr>mu_declaration = PrometheusBlockDataErrorsCounterProvider, mu_call = CallInc, mu_labels = []\<rparr>"

text \<open>What an effect of the daemon asks of the library.\<close>

fun effectUses :: "effect \<Rightarrow> metric_use list" where
  "effectUses (GaugeSet m n) = gaugeUses m"
| "effectUses GuardianInfoReset = [\<lparr>mu_declaration = PrometheusGuardianInfoGaugeProvider, mu_call = CallReset, mu_labels = []\<rparr>]"
| "effectUses (CounterInc c) = [counterUse c]"
| "effectUses _ = []"

fun busGaugeUse :: "bus_gauge \<Rightarrow> metric_use" where
  "busGaugeUse (BusAccountBalance chainId a) =
     sets PrometheusDataBusAccountBalanceProvider [(''chainId'', dec_string chainId), (''delegateAddress'', a)]"
| "busGaugeUse (BusNonceLatest a) = sets PrometheusNonceLatestProvider [(''network'', ''data-bus''), (''delegateAddress'', a)]"
| "busGaugeUse (BusNoncePending a) = sets PrometheusNoncePendingProvider [(''network'', ''data-bus''), (''delegateAddress'', a)]"
| "busGaugeUse (BusNonceGap a) = sets PrometheusNonceGapProvider [(''network'', ''data-bus''), (''delegateAddress'', a)]"

definition buildInfoUse :: "build_info \<Rightarrow> metric_use" where
  "buildInfoUse b = \<lparr>mu_declaration = PrometheusBuildInfoGaugeProvider, mu_call = CallInc,
     mu_labels = [(''version'', bi_version b), (''name'', bi_name b), (''network'', bi_network b), (''heapLimit'', bi_heapLimit b)]\<rparr>"

text \<open>The six metrics that \<open>rpc-metrics-prometheus.service.ts\<close> hands to the service of RPC metrics.\<close>

fun rpcRegistryMetric :: "rpc_metric \<Rightarrow> metric_declaration" where
  "rpcRegistryMetric (HttpRpcRequestsTotal b batched code result) = PrometheusHttpRpcRequestsTotalProvider"
| "rpcRegistryMetric (HttpRpcBatchSize b n) = PrometheusHttpRpcBatchSizeProvider"
| "rpcRegistryMetric (HttpRpcResponseTime b d) = PrometheusHttpRpcResponseSecondsProvider"
| "rpcRegistryMetric (HttpRpcRequestPayloadBytes b n) = PrometheusHttpRpcRequestPayloadBytesProvider"
| "rpcRegistryMetric (HttpRpcResponsePayloadBytes b n) = PrometheusHttpRpcResponsePayloadBytesProvider"
| "rpcRegistryMetric (RpcRequestTotal b method result code) = PrometheusRpcRequestTotalProvider"

definition baseLabelsList :: "base_labels \<Rightarrow> (string \<times> string) list" where
  "baseLabelsList b =
     [(''network'', bl_network b), (''layer'', bl_layer b), (''chain_id'', bl_chain_id b), (''provider'', bl_provider b)]"

fun rpcLabels :: "rpc_metric \<Rightarrow> metric_call \<times> (string \<times> string) list" where
  "rpcLabels (HttpRpcRequestsTotal b batched code result) =
     (CallInc, baseLabelsList b @ [(''batched'', if batched then ''true'' else ''false''), (''response_code'', code), (''result'', result)])"
| "rpcLabels (HttpRpcBatchSize b n) = (CallObserve, baseLabelsList b)"
| "rpcLabels (HttpRpcResponseTime b d) = (CallObserve, baseLabelsList b)"
| "rpcLabels (HttpRpcRequestPayloadBytes b n) = (CallObserve, baseLabelsList b)"
| "rpcLabels (HttpRpcResponsePayloadBytes b n) = (CallObserve, baseLabelsList b)"
| "rpcLabels (RpcRequestTotal b method result code) =
     (CallInc, baseLabelsList b @ [(''method'', method), (''result'', result), (''rpc_error_code'', code)])"

definition rpcMetricUse :: "rpc_metric \<Rightarrow> metric_use" where
  "rpcMetricUse m = \<lparr>mu_declaration = rpcRegistryMetric m, mu_call = fst (rpcLabels m), mu_labels = snd (rpcLabels m)\<rparr>"

section \<open>Every use is declared\<close>

lemma declaredI: "d \<in> set prometheusProviders \<Longrightarrow> d \<in> set declaredMetrics"
  by (simp add: declaredMetrics_def)

lemma effects_declared: "list_all acceptedUse (effectUses e)"
proof -
  have gauge: "list_all acceptedUse (gaugeUses m)" for m
    by (cases m) (simp_all add: gaugeUses_def List.map_filter_def acceptedUse_def declaredI prometheusProviders_def, simp_all add: declaration_defs)
  have count: "acceptedUse (counterUse c)" for c
    by (cases c) (simp_all add: acceptedUse_def declaredI prometheusProviders_def, simp_all add: declaration_defs)
  have reset: "list_all acceptedUse (effectUses GuardianInfoReset)"
    by (simp add: acceptedUse_def declaredI prometheusProviders_def, simp add: declaration_defs)
  show ?thesis by (cases e) (simp_all add: gauge count reset del: effectUses.simps(2))
qed

text \<open>And no gauge of an effect is lost: each one has exactly one use.\<close>

lemma gauge_has_use: "length (gaugeUses m) = 1"
  by (cases m) (simp_all add: gaugeUses_def List.map_filter_def)

lemma bus_gauges_declared: "acceptedUse (busGaugeUse g)"
  by (cases g) (simp_all add: acceptedUse_def declaredI prometheusProviders_def, simp_all add: declaration_defs)

lemma build_info_declared: "acceptedUse (buildInfoUse b)"
  by (simp add: buildInfoUse_def acceptedUse_def declaredI prometheusProviders_def, simp add: declaration_defs)

text \<open>
  The labels of an RPC metric are those declared, none missing, so the registry that
  \<open>Rpc_Metrics\<close> takes as a parameter never throws when it is this one.
\<close>

lemma rpc_labels_complete: "map fst (mu_labels (rpcMetricUse m)) = md_labelNames (mu_declaration (rpcMetricUse m))"
  by (cases m) (simp_all add: rpcMetricUse_def baseLabelsList_def declaration_defs)

definition prometheusRegistry :: "rpc_metric \<Rightarrow> js_error option" where
  "prometheusRegistry m = (if acceptedUse (rpcMetricUse m) then None else Some (External ''label''))"

lemma rpc_registry_accepts: "prometheusRegistry m = None"
proof -
  have "rpcRegistryMetric m \<in> set prometheusProviders" by (cases m) (simp_all add: prometheusProviders_def)
  moreover have "hasCall (md_kind (rpcRegistryMetric m)) (fst (rpcLabels m))" by (cases m) (simp_all add: declaration_defs)
  ultimately show ?thesis
    using rpc_labels_complete [of m] by (simp add: prometheusRegistry_def acceptedUse_def declaredI rpcMetricUse_def flip: set_map)
qed

section \<open>Timers of requests\<close>

text \<open>The timer of the data bus provider is written like the one of the main provider.\<close>

definition dataBusFetchMiddleware :: "js_error + 'a \<Rightarrow> ('s, duration_observed, 'a) comp" where
  "dataBusFetchMiddleware next =
     (\<lambda>s. case catchE (andThen (liftR next) (\<lambda>result. andThen (emit [Observed (Some ''success'')]) (\<lambda>_. ret result)))
                     (\<lambda>error. andThen (emit [Observed (Some ''error'')]) (\<lambda>_. raise error)) s of
        (r, t, out) \<Rightarrow> (r, t, out @ [Observed None]))"

abbreviation observes :: "metric_declaration \<Rightarrow> (string \<times> string) list \<Rightarrow> metric_use" where
  "observes d ls \<equiv> \<lparr>mu_declaration = d, mu_call = CallObserve, mu_labels = ls\<rparr>"

definition durationUse :: "metric_declaration \<Rightarrow> duration_observed \<Rightarrow> metric_use" where
  "durationUse d ob = (case ob of Observed result \<Rightarrow> observes d (case result of None \<Rightarrow> [] | Some r \<Rightarrow> [(''result'', r)]))"

text \<open>The status of an \<open>HttpException\<close>, for an error that is one.\<close>

definition keysApiMiddleware :: "(js_error \<Rightarrow> nat option) \<Rightarrow> js_error + 'a \<Rightarrow> ('s, metric_use, 'a) comp" where
  "keysApiMiddleware getStatus next =
     catchE (andThen (liftR next) (\<lambda>result.
       andThen (emit [observes PrometheusKeysApiRequestsProvider [(''result'', ''success''), (''status'', dec_string 200)]]) (\<lambda>_. ret result)))
       (\<lambda>error.
         let status = (case getStatus error of Some n \<Rightarrow> dec_string n | None \<Rightarrow> ''unknown'')
         in andThen (emit [observes PrometheusKeysApiRequestsProvider [(''result'', ''error''), (''status'', status)]]) (\<lambda>_. raise error))"

text \<open>
  A request to the Keys API is observed once, unlike one to a provider; the result of a request is not changed,
  and every label is declared.
\<close>

lemma keys_api_observed_once:
  "\<exists>u. keysApiMiddleware getStatus next s = (next, s, [u]) \<and> acceptedUse u"
  by (cases "next")
    (simp_all add: keysApiMiddleware_def catchE_def Let_def acceptedUse_def declaredI prometheusProviders_def,
     simp_all add: declaration_defs)

lemma provider_timers_declared:
  "acceptedUse (durationUse PrometheusRPCRequestsHistogramProvider ob)"
  "acceptedUse (durationUse PrometheusDataBusRPCRequestsHistogramProvider ob)"
proof -
  obtain r where ob: "ob = Observed r" by (cases ob)
  show "acceptedUse (durationUse PrometheusRPCRequestsHistogramProvider ob)"
    "acceptedUse (durationUse PrometheusDataBusRPCRequestsHistogramProvider ob)"
    by (cases r; simp add: ob durationUse_def acceptedUse_def declaredI prometheusProviders_def; simp add: declaration_defs)+
qed

lemma data_bus_timer_same: "dataBusFetchMiddleware = fetchMiddleware"
  by (simp add: fun_eq_iff dataBusFetchMiddleware_def fetchMiddleware_def)

section \<open>The module of RPC metrics\<close>

text \<open>How the registry is provided: an object with at least one of four properties, asked for in this order.\<close>

record 'v registry_options =
  ro_useExisting :: "'v option"
  ro_useClass :: "'v option"
  ro_useFactory :: "'v option"
  ro_inject :: "'v list option"
  ro_useValue :: "'v option"

datatype 'v nest_provider =
    UseExisting string 'v
  | UseClass string 'v
  | UseFactory string 'v "'v list"
  | UseValue string 'v

definition listOr :: "'v list option \<Rightarrow> 'v list" where
  "listOr xs = (case xs of Some ys \<Rightarrow> ys | None \<Rightarrow> [])"

definition createMetricsRegistryProvider :: "'v registry_options \<Rightarrow> js_error + 'v nest_provider" where
  "createMetricsRegistryProvider p =
     (case ro_useExisting p of Some v \<Rightarrow> Inr (UseExisting ''RPC_METRICS_REGISTRY'' v) | None \<Rightarrow>
      case ro_useClass p of Some v \<Rightarrow> Inr (UseClass ''RPC_METRICS_REGISTRY'' v) | None \<Rightarrow>
      case ro_useFactory p of Some v \<Rightarrow> Inr (UseFactory ''RPC_METRICS_REGISTRY'' v (listOr (ro_inject p))) | None \<Rightarrow>
      case ro_useValue p of Some v \<Rightarrow> Inr (UseValue ''RPC_METRICS_REGISTRY'' v) | None \<Rightarrow>
        Inl (Error ''Invalid metrics registry provider configuration''))"

definition rpcModuleForRootAsync ::
  "'v \<Rightarrow> 'v list option \<Rightarrow> 'v registry_options \<Rightarrow> js_error + 'v nest_provider list" where
  "rpcModuleForRootAsync optionsFactory inject metricsRegistryProvider =
     bindR (createMetricsRegistryProvider metricsRegistryProvider) (\<lambda>registryProvider.
       Inr [UseFactory ''RPC_METRICS_CONFIG'' optionsFactory (listOr inject), registryProvider])"

lemma registry_provider_fails_iff:
  "isl (createMetricsRegistryProvider p) \<longleftrightarrow>
    ro_useExisting p = None \<and> ro_useClass p = None \<and> ro_useFactory p = None \<and> ro_useValue p = None"
  by (auto simp: createMetricsRegistryProvider_def split: option.splits)

end
