(* ===== verification/Interface_Tags.thy ===== *)
theory Interface_Tags
  imports JS_Prelude "HOL-Library.AList"
begin

text \<open>
  The interfaces that exist at run time (\<open>common/di\<close>): the tag of an interface, the classes that declare that they
  implement it, and the test of an object; and the decorator that caches the result of a method
  (\<open>common/decorators/cache.ts\<close>). The metadata of classes and the cache manager are the state.
\<close>

section \<open>Tags\<close>

text \<open>
  A tag is a class, told from others by a number; its \<open>id\<close> is the symbol that \<open>Symbol.for\<close> gives for the name, which
  is one per name. The map is on the global object once the first tag is created.
\<close>

record interface_tag =
  it_class :: nat
  it_id :: string
  it_name :: string

record 'c tag_state =
  ts_interfaceMap :: "(string \<times> interface_tag) list option"
  ts_created :: nat
  ts_implements :: "'c \<rightharpoonup> string list"

type_synonym ('c, 'a) tagging = "('c tag_state, unit, 'a) comp"

definition createInterface :: "string \<Rightarrow> ('c, interface_tag) tagging" where
  "createInterface name =
     (let id = name in
      andThen (modifyS (\<lambda>s. if ts_interfaceMap s = None then s\<lparr>ts_interfaceMap := Some []\<rparr> else s)) (\<lambda>_.
      andThen getS (\<lambda>s.
        let interfaceMap = the (ts_interfaceMap s) in
        case map_of interfaceMap id of
          Some foundInterfaceTag \<Rightarrow> ret foundInterfaceTag
        | None \<Rightarrow>
            let newInterfaceTag = \<lparr>it_class = ts_created s, it_id = id, it_name = name\<rparr> in
            andThen (modifyS (\<lambda>s. s\<lparr>ts_interfaceMap := Some (AList.update id newInterfaceTag interfaceMap),
                                    ts_created := Suc (ts_created s)\<rparr>)) (\<lambda>_. ret newInterfaceTag))))"

text \<open>The metadata of a class: its own, or that of the nearest class it extends. A class comes with those.\<close>

fun getMetadata :: "('c \<rightharpoonup> string list) \<Rightarrow> 'c list \<Rightarrow> string list option" where
  "getMetadata m [] = None"
| "getMetadata m (c # cs) = (case m c of Some tags \<Rightarrow> Some tags | None \<Rightarrow> getMetadata m cs)"

definition notConstructor :: js_error where
  "notConstructor = Error ([CHR 0x27] @ ''interfaceTag'' @ [CHR 0x27] @ '' must be a constructor (Function)'')"

text \<open>A tag that is no function is \<open>None\<close>; a class is the list of itself and what it extends.\<close>

definition implementationOf :: "interface_tag option \<Rightarrow> 'c \<Rightarrow> 'c list \<Rightarrow> ('c, unit) tagging" where
  "implementationOf interfaceTag target extended =
     (case interfaceTag of
        None \<Rightarrow> raise notConstructor
      | Some t \<Rightarrow>
          modifyS (\<lambda>s. s\<lparr>ts_implements := (ts_implements s)(target \<mapsto>
            it_id t # (case getMetadata (ts_implements s) (target # extended) of Some existingTags \<Rightarrow> existingTags | None \<Rightarrow> []))\<rparr>))"

text \<open>An object is given by the class of its constructor; \<open>undefined\<close> implements nothing.\<close>

definition doesImplement :: "'c list option \<Rightarrow> interface_tag option \<Rightarrow> ('c, bool) tagging" where
  "doesImplement target interfaceTag =
     (case target of
        None \<Rightarrow> ret False
      | Some classes \<Rightarrow> andThen getS (\<lambda>s.
          case getMetadata (ts_implements s) classes of
            None \<Rightarrow> ret False
          | Some tags \<Rightarrow> (case interfaceTag of None \<Rightarrow> raise notConstructor | Some t \<Rightarrow> ret (it_id t \<in> set tags))))"

section \<open>What a tag promises\<close>

text \<open>Tags are kept under their own names, and each has its number.\<close>

definition tags_ok :: "'c tag_state \<Rightarrow> bool" where
  "tags_ok s \<longleftrightarrow> (\<forall>m id t. ts_interfaceMap s = Some m \<longrightarrow> map_of m id = Some t \<longrightarrow>
     it_id t = id \<and> it_name t = id \<and> it_class t < ts_created s)"

lemma createInterface_ok:
  assumes "tags_ok s" and "createInterface name s = (r, s', out)"
  shows "tags_ok s' \<and> out = [] \<and> (\<exists>t. r = Inr t \<and> it_id t = name \<and> it_name t = name \<and>
    map_of (the (ts_interfaceMap s')) name = Some t \<and> ts_interfaceMap s' \<noteq> None) \<and> ts_implements s' = ts_implements s"
  using assms
  by (auto simp: createInterface_def andThen_apply Let_def tags_ok_def update_conv split: option.splits if_splits) force+

text \<open>The same name gives the same tag, however often it is created and whatever was created between.\<close>

lemma createInterface_again:
  assumes "ts_interfaceMap s = Some m" and "map_of m name = Some t"
  shows "createInterface name s = (Inr t, s, [])"
  using assms by (simp add: createInterface_def andThen_apply)

lemma createInterface_keeps:
  assumes "ts_interfaceMap s = Some m" and "map_of m name = Some t" and "createInterface other s = (r, s', out)"
  shows "\<exists>m'. ts_interfaceMap s' = Some m' \<and> map_of m' name = Some t"
  using assms by (auto simp: createInterface_def andThen_apply Let_def update_conv split: option.splits)

text \<open>An implementation is recognised, and so are the classes that extend it as long as they have no tags of their own.\<close>

lemma implementation_recognised:
  assumes "implementationOf (Some t) c extended s = (r, s', out)"
    and "\<forall>d\<in>set sub. ts_implements s d = None" and "c \<notin> set sub"
  shows "doesImplement (Some (sub @ c # rest)) (Some t) s' = (Inr True, s', [])"
proof -
  from assms(1) have s': "s' = s\<lparr>ts_implements := (ts_implements s)(c \<mapsto> it_id t #
      (case getMetadata (ts_implements s) (c # extended) of Some ts \<Rightarrow> ts | None \<Rightarrow> []))\<rparr>"
    by (auto simp: implementationOf_def)
  have "getMetadata (ts_implements s') (sub @ c # rest) = ts_implements s' c"
    using assms(2,3) by (induction sub) (auto simp: s')
  then show ?thesis by (simp add: doesImplement_def andThen_apply s')
qed

text \<open>A further tag adds to the tags that a class has or inherits.\<close>

lemma implementations_add:
  assumes "getMetadata (ts_implements s) (c # extended) = Some tags" and "it_id u \<in> set tags"
    and "implementationOf (Some t) c extended s = (r, s', out)"
  shows "doesImplement (Some (c # rest)) (Some u) s' = (Inr True, s', [])"
  using assms by (auto simp: implementationOf_def doesImplement_def andThen_apply)

section \<open>The cached result of a method\<close>

text \<open>
  \<open>get\<close> and \<open>put\<close> stand for the two operations of the cache manager; a result that JavaScript takes as false is not taken from the cache.
  The key does not depend on the arguments.
\<close>

definition cacheKeyOf :: "string option \<Rightarrow> string \<Rightarrow> string \<Rightarrow> string" where
  "cacheKeyOf key className propertyKey =
     (case key of Some k \<Rightarrow> (if k = [] then className @ ''/'' @ propertyKey else k) | None \<Rightarrow> className @ ''/'' @ propertyKey)"

definition cachedMethod ::
  "(string \<Rightarrow> 's \<Rightarrow> 'v option) \<Rightarrow> (string \<Rightarrow> 'v \<Rightarrow> 's \<Rightarrow> 's) \<Rightarrow> ('v \<Rightarrow> bool) \<Rightarrow> string \<Rightarrow> ('a \<Rightarrow> ('s, 'e, 'v) comp) \<Rightarrow>
   'a \<Rightarrow> ('s, 'e, 'v) comp" where
  "cachedMethod get put truthy cacheKey method args =
     andThen getS (\<lambda>s.
       case get cacheKey s of
         Some cachedItem \<Rightarrow> (if truthy cachedItem then ret cachedItem
           else andThen (method args) (\<lambda>result. andThen (modifyS (put cacheKey result)) (\<lambda>_. ret result)))
       | None \<Rightarrow> andThen (method args) (\<lambda>result. andThen (modifyS (put cacheKey result)) (\<lambda>_. ret result)))"

text \<open>After a result the method does not run again, with other arguments neither.\<close>

lemma cached_once:
  assumes "cachedMethod get put truthy k method args s = (Inr v, t, out)" and "truthy v"
    and "\<And>w u. get k (put k w u) = Some w"
  shows "cachedMethod get put truthy k method args' t = (Inr v, t, [])"
  using assms by (auto simp: cachedMethod_def andThen_apply split: option.splits if_splits sum.splits prod.splits)

lemma cached_error:
  assumes "get k s = None" and "method args s = (Inl e, t, out)"
  shows "cachedMethod get put truthy k method args s = (Inl e, t, out)"
  using assms by (simp add: cachedMethod_def andThen_apply)

end
