(* ===== verification/Spec2Isabelle.thy ===== *)
theory Spec2Isabelle
  imports Range_Utils Deposits_Registry Signing_Keys_Registry Keys_Duplication Front_Run_Checks Security Guardian Daemon_Runs
    Data_Bus Transports Stomp Transport_Contract Rpc_Metrics Configuration_Loading Transport_Module Providers
    Store_Opening Metric_Declarations Interface_Tags
begin

text \<open>
  The Lido council daemon (\<open>src/src\<close>, TypeScript) is run by every guardian of the deposit security module (DSM)
  of Lido. For each new block it reads the contracts and the Keys API, decides whether a deposit of the protocol's ether
  would be safe, and publishes a signed message: deposit, pause or unvet. It also sends the pause and the
  unvetting transactions itself. This development models the daemon from the database rows up to the runs of whole
  cycles, and proves what makes its messages trustworthy.

  \<^bold>\<open>Parts and their interaction.\<close>
  A cycle (\<open>guardian.service.ts\<close>) updates two registries of events that are kept in a key-value
  database: the deposits of the deposit contract, checked against its Merkle root, and the additions of
  keys to the modules of the staking router. It then collects the module data from the Keys API and the contracts,
  looks for duplicated, front-run and invalidly signed keys, and acts: a
  stolen deposit pauses, bad keys are unvetted, and when nothing is wrong the guardian signs the deposit. Messages leave through a
  transport: a data bus contract (with a mutex over its nonces), Kafka or STOMP.

  \<^bold>\<open>Theories, from the bottom.\<close>

  \<^item> \<open>JS_Prelude\<close>, \<open>JS_Strings\<close>, \<open>Hex_Bytes\<close>: exceptions as values (\<open>js_error\<close>), computations that
    may throw, keep the changes made before the throw and emit outputs (\<open>comp\<close>, with \<open>andThen\<close>, \<open>catchE\<close>, \<open>finallyE\<close>,
    \<open>zoom\<close>), rules for what a computation keeps (\<open>keep_rules\<close>), \<open>Map\<close> and \<open>Set\<close> in insertion order, strings, bytes.
  \<^item> \<open>Range_Utils\<close>, \<open>Fetch_Events\<close> (\<open>utils/*.ts\<close>): ranges of blocks, batches, and the fetch that splits its range when the
    node refuses it. Locales \<open>range_source\<close> and \<open>splittable_source\<close> are the contract of a node.
  \<^item> \<open>Level_DB\<close>: the contract of the key-value store (\<open>level_laws\<close>), its rows and batches.
  \<^item> \<open>Deposit_Tree\<close>, \<open>Deposits_Store\<close>, \<open>Bls\<close>, \<open>Deposits_Checker\<close>, \<open>Deposits_Fetcher\<close>, \<open>Deposits_Registry\<close>
    (\<open>contracts/deposits-registry\<close>, \<open>bls\<close>): the incremental Merkle tree against the full one, the store with its cache in
    memory, the three checkers, the signature check, and the service over them.
  \<^item> \<open>Signing_Keys_Store\<close>, \<open>Signing_Keys_Registry\<close> (\<open>contracts/signing-keys-registry\<close>): the same for key events.
  \<^item> \<open>Guardian_Types\<close>, \<open>Withdrawal_Credentials\<close>, \<open>Guardian_Metrics\<close>, \<open>Keys_Duplication\<close>, \<open>Front_Run_Checks\<close>,
    \<open>Keys_Validation\<close>, \<open>Unvetting\<close>, \<open>Staking_Module_Guard\<close> (\<open>guardian/*\<close>): the data and the services of a cycle.
  \<^item> \<open>Dsm_Strategy\<close>, \<open>One_At_Time\<close>, \<open>Wallet\<close>, \<open>Security\<close> (\<open>contracts/security\<close>, \<open>common/decorators/one-at-time.ts\<close>,
    \<open>wallet\<close>): the versions of the DSM as records of functions, the decorator as a state machine, the choice of the wallet, and
    the service that signs and sends. Locale \<open>digest_scheme\<close> gives the binding of a digest to its content.
  \<^item> \<open>Contracts\<close>, \<open>Keys_Api\<close>, \<open>Messages\<close> (\<open>contracts/repository\<close>, \<open>contracts/staking-router\<close>, \<open>keys-api\<close>,
    \<open>guardian/guardian-message\<close>, \<open>messages\<close>): addresses and versions of contracts, the router, the HTTP client, the message queue.
  \<^item> \<open>Daemon\<close>, \<open>Guardian\<close>, \<open>Guardian_Cycle\<close>, \<open>Daemon_Demo\<close>, \<open>Daemon_Runs\<close>: all services in one state record,
    the cycle, its invariant, a concrete daemon for the witnesses, and the runs of cycles with the calls that settle between them.
  \<^item> \<open>Mutex\<close>, \<open>Bus_Serializer\<close>, \<open>Data_Bus\<close>, \<open>Transports\<close>, \<open>Stomp\<close>, \<open>Transport_Module\<close> (\<open>contracts/data-bus\<close>,
    \<open>transport\<close>): the mutex as a step relation that refines a queue, the message schemas, client and sender with their
    interleavings, Kafka, and the STOMP client as a machine over the events of its socket, timers and callers. Locale
    \<open>transport\<close> (\<open>Transport_Contract\<close>) is what the messages rely on; the three transports are its interpretations.
  \<^item> \<open>Rpc_Metrics\<close>, \<open>Configuration_Loading\<close>, \<open>Providers\<close> (\<open>common/rpc-metrics\<close>, \<open>common/config\<close>, \<open>provider\<close>): the
    bookkeeping of requests, the validation of the configuration and the construction of the providers.
  \<^item> \<open>Store_Opening\<close>, \<open>Metric_Declarations\<close>, \<open>Interface_Tags\<close> (\<open>store/store.*.ts\<close>, \<open>common/prometheus\<close>, \<open>common/di\<close>,
    \<open>common/decorators/cache.ts\<close>): the directories of the databases, which never coincide, the declared metrics with every
    use of them, and the interfaces that exist at run time.

  \<^bold>\<open>How the code is modelled.\<close>
  A class is a record of its fields, an interface a record, an enumeration or union a datatype; an optional or null
  value is an option. A service is a part of \<open>daemon\<close>, and \<open>zoom\<close> runs its methods in the whole state. A
  library, a contract, the node, the database, the clock and the environment are parameters, gathered per
  service in an environment record; the laws that a theorem needs of them are named definitions among its hypotheses, and each has
  a witness with concrete functions. JavaScript numbers that count blocks, keys and wei are \<open>nat\<close> or \<open>int\<close>, with the bounds
  the code itself checks; the digests and the deposit count keep their width. An \<open>await\<close> matters only where another
  call can observe the state in between: there (\<open>Mutex\<close>, \<open>Data_Bus\<close>, \<open>One_At_Time\<close>, \<open>Stomp\<close>, transactions that are not
  waited for) the model is a step relation or a sequence of events, elsewhere the operation is one computation. Logs are left out,
  metrics are kept where a service computes them.

  \<^bold>\<open>What is shown.\<close>

  \<^item> Safety of messages (C1, C2, C9, C16, C23, C39): what a deposit message guarantees about every module and its keys,
    the only reasons for a pause, no second message for the same state, what is sent.
  \<^item> The daemon over time (C3, C21): the invariant of every run, and that a cycle returns and frees its flag.
  \<^item> Registries (C4, C5, C7, C18, C19, C20, C26, C27, C36, C37): the cache is complete up to the finalized block and consistent with the
    contract, a wrong root is noticed, an honest node lets the update succeed, the cache in memory equals what is
    reloaded, and a restart keeps a gapless prefix of the rows of its own chain.
  \<^item> Algorithms against their specification (C6, C8, C11, C12, C22, C24, C25): the Merkle root, the duplicates, the earliest
    deposits, the limits of unvetting, the validity of keys with its cache.
  \<^item> Signatures (C10, C17, C35): context, digest and wallet.
  \<^item> Concurrency (C13, C14, C29, C30, C34): nonces, mutex, the single connection loop, the decorator.
  \<^item> Bounds and round trips (C15, C28, C32, C40), start and configuration (C31, C33, C38).

  Where the code is not what it seems, a lemma says so: the \<open>catch\<close> handlers behind \<open>OneAtTime\<close>
  that never run, the STOMP frame whose body loses its last character, the Kafka consumer that stays in the table after a failure, the
  request observed twice. They hold at the stated inputs and limit the theorems around them.

  \<^bold>\<open>Bounds and fuel.\<close>
  No definition needs fuel to be total: \<open>fetch_loop\<close>, the generators of \<open>range\<close>, the batches and the readings of the
  database terminate by measures on the range or the remaining rows. The start of the contracts (\<open>Contracts\<close>) retries
  without end, so it is a \<open>partial_function\<close> over the answers, and C38 shows that it returns once the node answers. A STOMP
  connection opens at most \<open>max 1 N\<close> sockets for \<open>N\<close> attempts, and each attempt has fewer than \<open>timeout div 250 + 3\<close> events of
  its own, which is the number of sleeps of 250 ms before the timeout, with the two transitions around them. RPC
  metrics keep at most 1000 pending requests, and none older than five minutes after a cleanup.

  \<^bold>\<open>Not modelled.\<close>
  The other modules of Nest and \<open>main.ts\<close> (declarations for the injector), the logger (options of a library), the
  health check (one call of a library); tests, fixtures and mocks. The durations that timers measure, and the text of
  log messages. The generated contract classes, ethers, BLS, SSZ, zod, Kafka, the web socket and
  the HTTP client are parameters.
\<close>

end
